(* ===== verification/Ax25_Prelude.thy ===== *)
theory Ax25_Prelude
  imports Main "HOL-Library.Word"
begin

text \<open>
  The prelude of the development: the types every component shares (bytes, Go strings, errors as
  values), the functions of Go's standard library the sources call (\<open>strings\<close>, \<open>strconv\<close>,
  \<open>encoding/binary\<close>, \<open>fmt\<close>), and the generic lemmas on bytes, words and lists.

  A Go string is a sequence of bytes, so strings and byte slices are both \<open>byte list\<close>. The two
  functions of package \<open>strings\<close> that look beyond bytes, \<open>ToUpper\<close> and \<open>EqualFold\<close>, have an
  ASCII path, which is written out here, and a path that reads the Unicode tables as soon as a
  byte of 0x80 or above occurs. The tables are the parameter \<open>unicode\<close> of the functions that call
  them; every theorem holds for every value of it.
\<close>

unbundle bit_operations_syntax

named_theorems byte_simps \<open>constants of the protocol, unfolded to numerals\<close>
named_theorems wire_defs \<open>definitions of wire encoders and decoders\<close>

section \<open>Bytes, strings, errors\<close>

type_synonym byte = "8 word"
type_synonym gostring = "byte list"

definition str :: "string \<Rightarrow> gostring" where
  "str s = map of_char s"

text \<open>The sentinel errors of packages ax25, agwpe, pcap and phy, and \<open>fmt.Errorf\<close> values: with
  \<open>%w\<close> they wrap an error, else they are a message.\<close>

datatype goerr =
    ErrCallsignTooLong | ErrCallsignEmpty | ErrSSIDOutOfRange | ErrInvalidCallsign
  | ErrShortAddressData
  | ErrFrameTooShort | ErrTooManyDigis | ErrPayloadTooLong | ErrInvalidAddress
  | ErrTXQueueFull | ErrNotConnected
  | ErrPortAlreadyRegistered | ErrPortNotFound | ErrRouterClosed | ErrTxQueueFull | ErrNilFrame
  | ErrNilPort | ErrUnknownRouterMode
  | ErrDigiInvalidCallsign
  | ErrConnNotConnected | ErrConnAlreadyActive | ErrConnSendBufFull | ErrConnInvalidArg
  | ErrPHYClosed | ErrPHYTxFull
  | ErrInvalidPcap | ErrUnsupportedLinkType | ErrRecordTooLarge
  | EOF | ErrUnexpectedEOF
  | ErrMsg string
  | ErrWrap string goerr

text \<open>What Go's \<open>unicode\<close> tables decide: \<open>strings.ToUpper\<close> and \<open>strings.EqualFold\<close> on strings that
  are not all ASCII.\<close>

record unicode =
  upper_unicode :: "gostring \<Rightarrow> gostring"
  fold_unicode :: "gostring \<Rightarrow> gostring \<Rightarrow> bool"

text \<open>A Go call returns or panics.\<close>

datatype 'a outcome = Ret 'a | Panic

section \<open>Slices and readers\<close>

text \<open>A slice \<open>b[i:j]\<close>.\<close>

definition go_slice :: "nat \<Rightarrow> nat \<Rightarrow> 'a list \<Rightarrow> 'a list" where
  "go_slice i j b = take (j - i) (drop i b)"

text \<open>\<open>io.ReadFull\<close> on a reader that has the bytes \<open>r\<close> before end of file.\<close>

definition io_ReadFull :: "byte list \<Rightarrow> nat \<Rightarrow> goerr + byte list \<times> byte list" where
  "io_ReadFull r n =
     (if n \<le> length r then Inr (take n r, drop n r)
      else if r = [] then Inl EOF else Inl ErrUnexpectedEOF)"

section \<open>Package strings and strconv\<close>

definition is_ascii :: "gostring \<Rightarrow> bool" where
  "is_ascii s = list_all (\<lambda>b. b < 0x80) s"

definition upper_byte :: "byte \<Rightarrow> byte" where
  "upper_byte b = (if 0x61 \<le> b \<and> b \<le> 0x7A then b - 0x20 else b)"

definition strings_ToUpper :: "unicode \<Rightarrow> gostring \<Rightarrow> gostring" where
  "strings_ToUpper U s = (if is_ascii s then map upper_byte s else upper_unicode U s)"

definition strings_EqualFold :: "unicode \<Rightarrow> gostring \<Rightarrow> gostring \<Rightarrow> bool" where
  "strings_EqualFold U s t =
     (if is_ascii s \<and> is_ascii t then map upper_byte s = map upper_byte t
      else fold_unicode U s t)"

text \<open>\<open>strings.TrimRight\<close> with a cutset of one ASCII byte.\<close>

definition strings_TrimRight :: "gostring \<Rightarrow> byte \<Rightarrow> gostring" where
  "strings_TrimRight s c = rev (dropWhile (\<lambda>b. b = c) (rev s))"

fun strings_IndexByte :: "gostring \<Rightarrow> byte \<Rightarrow> nat option" where
  "strings_IndexByte [] c = None"
| "strings_IndexByte (b # bs) c =
     (if b = c then Some 0 else map_option Suc (strings_IndexByte bs c))"

definition is_digit :: "byte \<Rightarrow> bool" where
  "is_digit b = (0x30 \<le> b \<and> b \<le> 0x39)"

fun digits_value :: "nat \<Rightarrow> gostring \<Rightarrow> nat" where
  "digits_value n [] = n"
| "digits_value n (b # bs) = digits_value (n * 10 + (unat b - 48)) bs"

text \<open>\<open>strconv.ParseUint(s, 10, bits)\<close>: \<open>None\<close> stands for the error (syntax or range).\<close>

definition strconv_ParseUint10 :: "gostring \<Rightarrow> nat \<Rightarrow> nat option" where
  "strconv_ParseUint10 s bits =
     (if s = [] \<or> \<not> list_all is_digit s then None
      else let n = digits_value 0 s in if n \<ge> 2 ^ bits then None else Some n)"

text \<open>The verb \<open>%d\<close> of package fmt on a natural number.\<close>

fun fmt_d :: "nat \<Rightarrow> gostring" where
  "fmt_d n = (if n < 10 then [of_nat (48 + n)] else fmt_d (n div 10) @ [of_nat (48 + n mod 10)])"

declare fmt_d.simps [simp del]

text \<open>The verbs \<open>%d\<close> on an int and \<open>%02d\<close> on a number below 100.\<close>

definition fmt_int :: "int \<Rightarrow> gostring" where
  "fmt_int i = (if i < 0 then 0x2D # fmt_d (nat (- i)) else fmt_d (nat i))"

definition fmt_02d :: "nat \<Rightarrow> gostring" where
  "fmt_02d n = (if n < 10 then 0x30 # fmt_d n else fmt_d n)"

text \<open>\<open>strconv.Atoi\<close> and \<open>strconv.ParseBool\<close>; \<open>None\<close> stands for the error.\<close>

definition strconv_Atoi :: "gostring \<Rightarrow> int option" where
  "strconv_Atoi s =
     (let neg = (s \<noteq> [] \<and> hd s = 0x2D);
          t = (if s \<noteq> [] \<and> (hd s = 0x2D \<or> hd s = 0x2B) then tl s else s);
          n = int (digits_value 0 t)
      in if t = [] \<or> \<not> list_all is_digit t then None
         else if neg then (if n \<le> 2 ^ 63 then Some (- n) else None)
         else if n < 2 ^ 63 then Some n else None)"

definition strconv_ParseBool :: "gostring \<Rightarrow> bool option" where
  "strconv_ParseBool s =
     (if s \<in> {str ''1'', str ''t'', str ''T'', str ''true'', str ''TRUE'', str ''True''} then Some True
      else if s \<in> {str ''0'', str ''f'', str ''F'', str ''false'', str ''FALSE'', str ''False''} then Some False
      else None)"

text \<open>\<open>strings.Join\<close>, \<open>strings.Split\<close> with a separator of one byte, and \<open>strings.TrimSpace\<close>, which
  leaves a string that shows a byte of 0x80 or above at an end to the Unicode tables.\<close>

fun strings_Join :: "gostring list \<Rightarrow> gostring \<Rightarrow> gostring" where
  "strings_Join [] sep = []"
| "strings_Join [s] sep = s"
| "strings_Join (s # ss) sep = s @ sep @ strings_Join ss sep"

fun strings_Split :: "gostring \<Rightarrow> byte \<Rightarrow> gostring list" where
  "strings_Split [] c = [[]]"
| "strings_Split (b # s) c =
     (if b = c then [] # strings_Split s c
      else (b # hd (strings_Split s c)) # tl (strings_Split s c))"

record unicode_trim =
  trim_func :: "gostring \<Rightarrow> gostring"
  trim_right_func :: "gostring \<Rightarrow> gostring"

definition ascii_space :: "byte \<Rightarrow> bool" where
  "ascii_space b = (b = 0x20 \<or> 0x09 \<le> b \<and> b \<le> 0x0D)"

definition strings_TrimSpace :: "unicode_trim \<Rightarrow> gostring \<Rightarrow> gostring" where
  "strings_TrimSpace T s =
     (let t = dropWhile ascii_space s
      in if t \<noteq> [] \<and> hd t \<ge> 0x80 then trim_func T t
         else let u = rev (dropWhile ascii_space (rev t))
              in if u \<noteq> [] \<and> last u \<ge> 0x80 then trim_right_func T u else u)"

section \<open>Package encoding/binary\<close>

definition le32 :: "32 word \<Rightarrow> byte list" where
  "le32 w = [ucast w, ucast (drop_bit 8 w), ucast (drop_bit 16 w), ucast (drop_bit 24 w)]"

definition le_uint32 :: "byte list \<Rightarrow> 32 word" where
  "le_uint32 b = ucast (b ! 0) OR push_bit 8 (ucast (b ! 1)) OR push_bit 16 (ucast (b ! 2))
     OR push_bit 24 (ucast (b ! 3))"

definition be_uint32 :: "byte list \<Rightarrow> 32 word" where
  "be_uint32 b = ucast (b ! 3) OR push_bit 8 (ucast (b ! 2)) OR push_bit 16 (ucast (b ! 1))
     OR push_bit 24 (ucast (b ! 0))"

definition le16 :: "16 word \<Rightarrow> byte list" where
  "le16 w = [ucast w, ucast (drop_bit 8 w)]"

section \<open>Words\<close>

declare push_bit_Suc [simp del] drop_bit_Suc [simp del]


lemma byte_eq_bits: "(a :: byte) = b \<longleftrightarrow> (\<forall>n < 8. bit a n = bit b n)"
  by (auto intro!: bit_word_eqI)

lemma all_less_8: "(\<forall>n < (8 :: nat). P n) \<longleftrightarrow> P 0 \<and> P 1 \<and> P 2 \<and> P 3 \<and> P 4 \<and> P 5 \<and> P 6 \<and> P 7"
  by (simp only: All_less_Suc numeral_eq_Suc pred_numeral_simps BitM.simps not_less_zero
      One_nat_def simp_thms) blast

lemmas byte_bitwise = byte_eq_bits all_less_8 bit_simps

lemma and_7_less_8 [simp]: "(b :: byte) AND 7 < 8"
proof -
  have "b AND 7 \<le> 7" by (rule word_and_le1)
  then show ?thesis by (rule le_less_trans) simp
qed

lemma unat_and_7: "unat ((b :: byte) AND 7) = unat b mod 8"
proof -
  have "b AND 7 = b AND mask 3" by (simp add: mask_eq_exp_minus_1)
  then show ?thesis by (simp add: take_bit_eq_mask [symmetric] take_bit_eq_mod unat_mod)
qed

lemma less_8_and_7: "(b :: byte) < 8 \<Longrightarrow> b AND 7 = b"
  by (simp add: word_unat_eq_iff unat_and_7 word_less_nat_alt)

lemma le32_length [simp]: "length (le32 w) = 4"
  by (simp add: le32_def)

lemma le_uint32_le32: "le_uint32 (le32 w @ bs) = w"
proof (rule bit_word_eqI)
  fix n :: nat
  assume "n < LENGTH(32)"
  then consider "n < 8" | "8 \<le> n" "n < 16" | "16 \<le> n" "n < 24" | "24 \<le> n" "n < 32"
    by fastforce
  then show "bit (le_uint32 (le32 w @ bs)) n = bit w n"
    by cases (auto simp: le32_def le_uint32_def bit_simps)
qed

lemma be_uint32_rev: "length b = 4 \<Longrightarrow> be_uint32 b = le_uint32 (rev b)"
  by (simp add: be_uint32_def le_uint32_def rev_nth)

section \<open>Lists and strings\<close>

lemma str_simps [simp]: "str [] = []" "str (c # s) = of_char c # str s"
  by (simp_all add: str_def)

lemma is_ascii_simps [simp]:
  "is_ascii []"
  "is_ascii (b # s) \<longleftrightarrow> b < 0x80 \<and> is_ascii s"
  "is_ascii (s @ t) \<longleftrightarrow> is_ascii s \<and> is_ascii t"
  by (simp_all add: is_ascii_def)

lemma TrimRight_id: "s = [] \<or> last s \<noteq> c \<Longrightarrow> strings_TrimRight s c = s"
  by (cases s rule: rev_cases) (auto simp: strings_TrimRight_def)

lemma dropWhile_replicate_append:
  "dropWhile (\<lambda>b. b = c) (replicate n c @ xs) = dropWhile (\<lambda>b. b = c) xs"
  by (induction n) simp_all

lemma TrimRight_append_replicate [simp]:
  "strings_TrimRight (s @ replicate n c) c = strings_TrimRight s c"
  by (simp add: strings_TrimRight_def dropWhile_replicate_append)

lemma TrimRight_last: "strings_TrimRight s c = [] \<or> last (strings_TrimRight s c) \<noteq> c"
proof -
  have "dropWhile (\<lambda>b. b = c) (rev s) \<noteq> [] \<Longrightarrow> hd (dropWhile (\<lambda>b. b = c) (rev s)) \<noteq> c"
    by (rule hd_dropWhile)
  then show ?thesis by (auto simp: strings_TrimRight_def last_rev)
qed

lemma TrimRight_length: "length (strings_TrimRight s c) \<le> length s"
  using length_dropWhile_le [of "\<lambda>b. b = c" "rev s"] by (simp add: strings_TrimRight_def)

lemma TrimRight_subset: "set (strings_TrimRight s c) \<subseteq> set s"
  by (auto simp: strings_TrimRight_def dest: set_dropWhileD)

lemma TrimRight_split: "\<exists>n. s = strings_TrimRight s c @ replicate n c"
proof -
  let ?t = "takeWhile (\<lambda>b. b = c) (rev s)"
  have "rev s = ?t @ dropWhile (\<lambda>b. b = c) (rev s)" by simp
  then have "rev (rev s) = rev (dropWhile (\<lambda>b. b = c) (rev s)) @ rev ?t"
    by (simp only: rev_append [symmetric])
  moreover have "replicate (length (rev ?t)) c = rev ?t"
    by (rule replicate_length_same) (auto dest: set_takeWhileD)
  ultimately have "s = strings_TrimRight s c @ replicate (length (rev ?t)) c"
    by (simp add: strings_TrimRight_def)
  then show ?thesis by blast
qed

lemma Split_plain: "c \<notin> set s \<Longrightarrow> strings_Split s c = [s]"
  by (induction s) auto

lemma Split_append: "c \<notin> set s \<Longrightarrow> strings_Split (s @ c # t) c = s # strings_Split t c"
  by (induction s) auto

lemma Split_Join:
  "ss \<noteq> [] \<Longrightarrow> \<forall>s \<in> set ss. c \<notin> set s \<Longrightarrow> strings_Split (strings_Join ss [c]) c = ss"
proof (induction ss rule: induct_list012)
  case (3 s s' ss)
  then show ?case using Split_append [of c s "strings_Join (s' # ss) [c]"] by simp
qed (auto simp: Split_plain)

lemma TrimSpace_plain:
  assumes "\<forall>b \<in> set s. \<not> ascii_space b \<and> b < 0x80"
  shows "strings_TrimSpace T s = s"
proof -
  have d: "dropWhile ascii_space t = t" if "set t \<subseteq> set s" for t
    using that assms by (cases t) auto
  show ?thesis
  proof (cases "s = []")
    case False
    then have "hd s < 0x80" "last s < 0x80" using assms by auto
    then show ?thesis by (auto simp: strings_TrimSpace_def Let_def d dest: leD)
  qed (simp add: strings_TrimSpace_def)
qed

lemma IndexByte_append:
  "c \<notin> set s \<Longrightarrow> strings_IndexByte (s @ c # t) c = Some (length s)"
  by (induction s) auto

lemma IndexByte_None: "strings_IndexByte s c = None \<longleftrightarrow> c \<notin> set s"
  by (induction s) auto

lemma IndexByte_Some:
  "strings_IndexByte s c = Some i \<Longrightarrow> i < length s \<and> s ! i = c \<and> c \<notin> set (take i s)"
  by (induction s arbitrary: i) (auto split: if_splits)

lemma digits_value_append: "digits_value n (s @ t) = digits_value (digits_value n s) t"
  by (induction s arbitrary: n) auto

lemma is_digit_of_nat: "n < 10 \<Longrightarrow> is_digit (of_nat (48 + n))"
  by (simp add: is_digit_def word_le_nat_alt unat_of_nat del: of_nat_add)

lemma unat_digit: "n < 10 \<Longrightarrow> unat (of_nat (48 + n) :: byte) = 48 + n"
  by (simp add: unat_of_nat del: of_nat_add)

lemma fmt_d_digits: "list_all is_digit (fmt_d n) \<and> fmt_d n \<noteq> []"
proof (induction n rule: fmt_d.induct)
  case (1 n)
  then show ?case
    by (cases "n < 10")
      (simp_all add: fmt_d.simps [of n] is_digit_of_nat del: of_nat_add)
qed

lemma digits_value_fmt_d: "digits_value 0 (fmt_d n) = n"
proof (induction n rule: fmt_d.induct)
  case (1 n)
  then show ?case
    by (cases "n < 10")
      (simp_all add: fmt_d.simps [of n] digits_value_append unat_digit del: of_nat_add)
qed

lemma ParseUint10_fmt_d: "n < 2 ^ bits \<Longrightarrow> strconv_ParseUint10 (fmt_d n) bits = Some n"
  by (simp add: strconv_ParseUint10_def fmt_d_digits digits_value_fmt_d)

end
