(* ===== verification/Ax25_Interfaces.thy ===== *)
theory Ax25_Interfaces
  imports Ax25_Prelude
begin

text \<open>
  The interfaces between the components, as locales. A component that provides an interface
  interprets its locale on its own definitions; a client proves what it needs once, inside the
  locale.
    \<^item> \<open>codec\<close>: a wire format, as an encoder and a decoder that undoes it on valid values;
    \<^item> \<open>stream_codec\<close>: a streaming decoder, fed one byte at a time, together with the encoder
      whose output it cuts into messages again;
    \<^item> \<open>transition_system\<close>: a component as a state with events, and its reachable states.
\<close>

section \<open>Wire formats\<close>

locale codec =
  fixes enc :: "'a \<Rightarrow> 'e + 'w"
    and dec :: "'w \<Rightarrow> 'e + 'a"
    and norm :: "'a \<Rightarrow> 'a"
    and valid :: "'a \<Rightarrow> bool"
  assumes dec_enc: "valid x \<Longrightarrow> enc x = Inr w \<Longrightarrow> dec w = Inr (norm x)"
    and enc_total: "valid x \<Longrightarrow> \<exists>w. enc x = Inr w"
begin

lemma roundtrip: "valid x \<Longrightarrow> \<exists>w. enc x = Inr w \<and> dec w = Inr (norm x)"
  using enc_total dec_enc by blast

lemma enc_injective: "valid x \<Longrightarrow> valid y \<Longrightarrow> enc x = enc y \<Longrightarrow> norm x = norm y"
  using enc_total [of x] dec_enc by (metis sum.inject(2))

end

section \<open>Streaming decoders\<close>

text \<open>\<open>step\<close> takes the decoder's state and one byte and gives the new state and the values the
  callback received for that byte.\<close>

fun feed :: "('s \<Rightarrow> 'b \<Rightarrow> 's \<times> 'm list) \<Rightarrow> 's \<Rightarrow> 'b list \<Rightarrow> 's \<times> 'm list" where
  "feed step s [] = (s, [])"
| "feed step s (b # bs) =
     (let (s', out) = step s b; (s'', out') = feed step s' bs in (s'', out @ out'))"

lemma feed_append:
  "feed step s (xs @ ys) =
     (let (s', out) = feed step s xs; (s'', out') = feed step s' ys in (s'', out @ out'))"
  by (induction xs arbitrary: s) (auto split: prod.splits)

text \<open>A decoder that reads a stream in chunks, as the receive loops do.\<close>

fun feed_chunks :: "('s \<Rightarrow> 'b \<Rightarrow> 's \<times> 'm list) \<Rightarrow> 's \<Rightarrow> 'b list list \<Rightarrow> 's \<times> 'm list" where
  "feed_chunks step s [] = (s, [])"
| "feed_chunks step s (c # cs) =
     (let (s', out) = feed step s c; (s'', out') = feed_chunks step s' cs in (s'', out @ out'))"

lemma feed_chunks_concat: "feed_chunks step s cs = feed step s (concat cs)"
  by (induction cs arbitrary: s) (auto simp: feed_append split: prod.splits)

locale stream_codec =
  fixes step :: "'s \<Rightarrow> 'b \<Rightarrow> 's \<times> 'm list"
    and frame :: "'m \<Rightarrow> 'b list"
    and valid :: "'m \<Rightarrow> bool"
    and ready :: "'s \<Rightarrow> bool"
  assumes frame_ready:
    "ready s \<Longrightarrow> valid m \<Longrightarrow> \<exists>s'. feed step s (frame m) = (s', [m]) \<and> ready s'"
begin

lemma frames_ready:
  "ready s \<Longrightarrow> list_all valid ms \<Longrightarrow>
     \<exists>s'. feed step s (concat (map frame ms)) = (s', ms) \<and> ready s'"
proof (induction ms arbitrary: s)
  case Nil
  then show ?case by simp
next
  case (Cons m ms)
  from Cons.prems obtain s1 where s1: "feed step s (frame m) = (s1, [m])" "ready s1"
    using frame_ready by auto
  with Cons obtain s2 where "feed step s1 (concat (map frame ms)) = (s2, ms)" "ready s2"
    by auto
  with s1 show ?case by (simp add: feed_append)
qed

lemma chunks_decoded:
  assumes "ready s" and "list_all valid ms" and "concat cs = concat (map frame ms)"
  shows "\<exists>s'. feed_chunks step s cs = (s', ms) \<and> ready s'"
  using frames_ready [OF assms(1,2)] assms(3) by (simp add: feed_chunks_concat)

end

section \<open>Transition systems\<close>

locale transition_system =
  fixes init :: "'s \<Rightarrow> bool"
    and step :: "'s \<Rightarrow> 's \<Rightarrow> bool"
    and inv :: "'s \<Rightarrow> bool"
  assumes init_inv: "init s \<Longrightarrow> inv s"
    and step_inv: "inv s \<Longrightarrow> step s t \<Longrightarrow> inv t"
begin

lemma steps_inv: "step\<^sup>*\<^sup>* s t \<Longrightarrow> inv s \<Longrightarrow> inv t"
  by (induction rule: rtranclp_induct) (auto intro: step_inv)

lemma reachable_inv: "init s \<Longrightarrow> step\<^sup>*\<^sup>* s t \<Longrightarrow> inv t"
  using init_inv steps_inv by blast

end

end
