(* ===== verification/Ax25_Address.thy ===== *)
theory Ax25_Address
  imports Ax25_Interfaces
begin

text \<open>
  \<open>src/ax25/address.go\<close> and the address type of \<open>src/ax25/types.go\<close>: the station address, its
  seven-byte wire form and its text form. The lemmas give the exact meaning of decoding what was
  encoded, the round trip of the text form, and when two addresses are \<open>Equal\<close>.
\<close>

section \<open>Constants and the address type\<close>

definition AddressLen :: nat where [simp, byte_simps]: "AddressLen = 7"
definition MaxCallsign :: nat where [simp, byte_simps]: "MaxCallsign = 6"

record Address =
  Callsign :: gostring
  SSID :: byte
  HasBeenRepeated :: bool
  IsLast :: bool

section \<open>Operations\<close>

definition Address_Encode :: "unicode \<Rightarrow> Address \<Rightarrow> byte list" where
  [wire_defs]: "Address_Encode U a =
     (let call = strings_ToUpper U (Callsign a);
          b6 = push_bit 1 (SSID a AND 0x0F);
          b6 = (if HasBeenRepeated a then b6 OR 0x80 else b6);
          b6 = (if IsLast a then b6 OR 0x01 else b6)
      in map (\<lambda>i. if i < length call then push_bit 1 (call ! i) else push_bit 1 0x20) [0..<6]
         @ [b6])"

definition DecodeAddress :: "byte list \<Rightarrow> goerr + Address" where
  [wire_defs]: "DecodeAddress b =
     (if length b < AddressLen then Inl ErrShortAddressData
      else
        let call = map (\<lambda>i. drop_bit 1 (b ! i)) [0..<6];
            callStr = strings_TrimRight call 0x20;
            ssid = drop_bit 1 (b ! 6) AND 0x0F;
            hbr = (b ! 6 AND 0x80 \<noteq> 0);
            isLast = (b ! 6 AND 0x01 \<noteq> 0)
        in Inr \<lparr>Callsign = callStr, SSID = ssid, HasBeenRepeated = hbr, IsLast = isLast\<rparr>)"

definition callsign_char :: "byte \<Rightarrow> bool" where
  "callsign_char c = ((0x41 \<le> c \<and> c \<le> 0x5A) \<or> (0x30 \<le> c \<and> c \<le> 0x39))"

text \<open>The checks of \<open>ParseAddress\<close> after the split at the dash. The loop over the runes of the
  callsign rejects exactly the strings with a byte outside A-Z and 0-9: a byte of 0x80 or above
  is part of a rune that is not ASCII.\<close>

definition check_callsign :: "gostring \<Rightarrow> byte \<Rightarrow> goerr + Address" where
  "check_callsign callsign ssid =
     (if length callsign = 0 then Inl ErrCallsignEmpty
      else if length callsign > MaxCallsign then Inl ErrCallsignTooLong
      else if \<not> list_all callsign_char callsign then Inl ErrInvalidCallsign
      else Inr \<lparr>Callsign = callsign, SSID = ssid, HasBeenRepeated = False, IsLast = False\<rparr>)"

definition ParseAddress :: "unicode \<Rightarrow> gostring \<Rightarrow> goerr + Address" where
  "ParseAddress U s0 =
     (if s0 = [] then Inl ErrCallsignEmpty
      else
        let s = strings_ToUpper U s0 in
        case strings_IndexByte s 0x2D of
          Some idx \<Rightarrow>
            (case strconv_ParseUint10 (drop (idx + 1) s) 8 of
               None \<Rightarrow> Inl ErrSSIDOutOfRange
             | Some n \<Rightarrow>
                 if n > 15 then Inl ErrSSIDOutOfRange
                 else check_callsign (take idx s) (of_nat n))
        | None \<Rightarrow> check_callsign s 0)"

definition Address_String :: "Address \<Rightarrow> gostring" where
  "Address_String a =
     (if SSID a = 0 then Callsign a else Callsign a @ [0x2D] @ fmt_d (unat (SSID a)))"

definition Address_Equal :: "unicode \<Rightarrow> Address \<Rightarrow> Address \<Rightarrow> bool" where
  "Address_Equal U a b = (strings_EqualFold U (Callsign a) (Callsign b) \<and> SSID a = SSID b)"

section \<open>Well-formed addresses\<close>

text \<open>What \<open>ParseAddress\<close> accepts: one to six upper-case letters or digits, an SSID below 16.\<close>

definition valid_address :: "Address \<Rightarrow> bool" where
  "valid_address a \<longleftrightarrow> Callsign a \<noteq> [] \<and> length (Callsign a) \<le> 6
     \<and> list_all callsign_char (Callsign a) \<and> SSID a < 16"

text \<open>The address a receiver sees after the seven bytes crossed the wire: the callsign upper-cased,
  cut at six bytes, each byte cut at seven bits, trailing blanks removed; the SSID cut at four
  bits.\<close>

definition wire_address :: "unicode \<Rightarrow> Address \<Rightarrow> Address" where
  "wire_address U a =
     a\<lparr>Callsign := strings_TrimRight (map (\<lambda>b. b AND 0x7F) (take 6 (strings_ToUpper U (Callsign a)))) 0x20,
       SSID := SSID a AND 0x0F\<rparr>"

lemma callsign_charD:
  assumes "callsign_char c"
  shows "c < 0x80" and "upper_byte c = c" and "c AND 0x7F = c" and "c \<noteq> 0x20" and "c \<noteq> 0x2D"
proof -
  from assms show lt: "c < 0x80"
    by (auto simp: callsign_char_def word_less_nat_alt word_le_nat_alt)
  from assms show "upper_byte c = c" "c \<noteq> 0x20" "c \<noteq> 0x2D"
    by (auto simp: callsign_char_def upper_byte_def word_less_nat_alt word_le_nat_alt)
  have "c AND mask 7 = c"
    using lt by (intro less_mask_eq) simp
  then show "c AND 0x7F = c" by (simp add: mask_eq_exp_minus_1)
qed

lemma callsign_ascii: "list_all callsign_char s \<Longrightarrow> is_ascii s"
  by (auto simp: is_ascii_def list_all_iff callsign_charD)

lemma callsign_upper: "list_all callsign_char s \<Longrightarrow> strings_ToUpper U s = s"
  by (simp add: strings_ToUpper_def callsign_ascii) (simp add: list_all_iff callsign_charD map_idI)

lemma callsign_no_dash: "list_all callsign_char s \<Longrightarrow> 0x2D \<notin> set s"
  by (auto simp: list_all_iff dest: callsign_charD(5))

lemma wire_address_valid:
  assumes "valid_address a"
  shows "wire_address U a = a"
proof -
  let ?s = "Callsign a"
  from assms have s: "length ?s \<le> 6" "list_all callsign_char ?s" "SSID a < 16"
    by (auto simp: valid_address_def)
  then have "map (\<lambda>b. b AND 0x7F) (take 6 (strings_ToUpper U ?s)) = ?s"
    by (simp add: callsign_upper) (simp add: list_all_iff callsign_charD map_idI)
  moreover have "strings_TrimRight ?s 0x20 = ?s"
    using s(2) by (intro TrimRight_id) (metis callsign_charD(4) last_in_set list_all_iff)
  moreover have "SSID a AND mask 4 = SSID a"
    using s(3) by (intro less_mask_eq) simp
  ultimately show ?thesis by (simp add: wire_address_def mask_eq_exp_minus_1)
qed

section \<open>The wire form\<close>

lemma Address_Encode_length [simp]: "length (Address_Encode U a) = 7"
  by (simp add: Address_Encode_def Let_def)

lemma drop_bit_push_bit_byte: "drop_bit (Suc 0) (push_bit (Suc 0) (b :: byte)) = b AND 0x7F"
  by (simp add: byte_bitwise)

lemma padded_call:
  "map (\<lambda>i. if i < length call then f (call ! i) else f d) [0..<n]
     = map f (take n call @ replicate (n - length call) d)"
  by (rule nth_equalityI) (auto simp: nth_append min_def)

lemma map_and_7F_replicate: "map (\<lambda>b :: byte. b AND 0x7F) (replicate n 0x20) = replicate n 0x20"
  by simp

lemma DecodeAddress_Encode:
  "DecodeAddress (Address_Encode U a @ rest) = Inr (wire_address U a)"
proof -
  let ?call = "strings_ToUpper U (Callsign a)"
  let ?enc = "map (push_bit 1) (take 6 ?call @ replicate (6 - length ?call) 0x20) :: byte list"
  obtain b6 where enc: "Address_Encode U a = ?enc @ [b6]"
    and b6: "b6 = (let b6 = push_bit 1 (SSID a AND 0x0F);
          b6 = (if HasBeenRepeated a then b6 OR 0x80 else b6)
          in if IsLast a then b6 OR 0x01 else b6)"
    by (simp add: Address_Encode_def Let_def padded_call)
  have len: "length ?enc = 6" by simp
  have "map (\<lambda>i. drop_bit 1 ((Address_Encode U a @ rest) ! i)) [0..<6] = map (drop_bit 1) ?enc"
    unfolding enc using len by (intro nth_equalityI) (auto simp: nth_append)
  also have "\<dots> = map (\<lambda>b. b AND 0x7F) (take 6 ?call) @ replicate (6 - length ?call) 0x20"
    by (simp add: drop_bit_push_bit_byte)
  finally have call: "strings_TrimRight (map (\<lambda>i. drop_bit 1 ((Address_Encode U a @ rest) ! i)) [0..<6]) 0x20
      = strings_TrimRight (map (\<lambda>b. b AND 0x7F) (take 6 ?call)) 0x20"
    by simp
  have nth6: "(Address_Encode U a @ rest) ! 6 = b6"
    using nth_append_length [of ?enc b6 rest, unfolded len] unfolding enc by simp
  have "drop_bit 1 b6 AND 0x0F = SSID a AND 0x0F" "(b6 AND 0x80 \<noteq> 0) = HasBeenRepeated a"
    "(b6 AND 0x01 \<noteq> 0) = IsLast a"
    unfolding b6 Let_def by (auto simp: byte_bitwise)
  with call nth6 show ?thesis
    by (simp add: DecodeAddress_def Let_def wire_address_def)
qed

section \<open>The text form\<close>

lemma check_callsign_Inr:
  "check_callsign c n = Inr a \<longleftrightarrow> c \<noteq> [] \<and> length c \<le> 6 \<and> list_all callsign_char c
     \<and> a = \<lparr>Callsign = c, SSID = n, HasBeenRepeated = False, IsLast = False\<rparr>"
  by (auto simp: check_callsign_def)

lemma ParseAddress_valid:
  "ParseAddress U s = Inr a \<Longrightarrow> valid_address a \<and> \<not> HasBeenRepeated a \<and> \<not> IsLast a"
  by (auto simp: ParseAddress_def Let_def check_callsign_Inr valid_address_def word_less_nat_alt
      unat_of_nat split: if_splits option.splits)

lemma digit_upper: "is_digit b \<Longrightarrow> callsign_char b"
  by (simp add: is_digit_def callsign_char_def)

lemma ParseAddress_String:
  assumes "valid_address a"
  shows "ParseAddress U (Address_String a) = Inr (a\<lparr>HasBeenRepeated := False, IsLast := False\<rparr>)"
proof (cases "SSID a = 0")
  case True
  with assms show ?thesis
    by (auto simp: ParseAddress_def Address_String_def valid_address_def callsign_upper Let_def
        check_callsign_def callsign_no_dash IndexByte_None [THEN iffD2])
next
  case False
  let ?n = "unat (SSID a)"
  from assms have v: "Callsign a \<noteq> []" "length (Callsign a) \<le> 6" "list_all callsign_char (Callsign a)"
    "?n < 16" by (auto simp: valid_address_def word_less_nat_alt)
  have digits: "list_all callsign_char (fmt_d ?n)"
    using fmt_d_digits [of ?n] by (auto simp: list_all_iff digit_upper)
  have "is_ascii (Address_String a)"
    using v(3) digits False by (simp add: Address_String_def callsign_ascii)
  moreover have "map upper_byte (Address_String a) = Address_String a"
    using v(3) digits False
    by (simp add: Address_String_def list_all_iff callsign_charD map_idI) (simp add: upper_byte_def)
  ultimately have up: "strings_ToUpper U (Address_String a) = Address_String a"
    by (simp add: strings_ToUpper_def)
  have idx: "strings_IndexByte (Address_String a) 0x2D = Some (length (Callsign a))"
    using False v(3) by (simp add: Address_String_def IndexByte_append callsign_no_dash)
  have "strconv_ParseUint10 (fmt_d ?n) 8 = Some ?n"
    using v(4) by (intro ParseUint10_fmt_d) simp
  with up idx False v show ?thesis
    by (simp add: ParseAddress_def Let_def check_callsign_def Address_String_def)
qed

section \<open>Equality\<close>

definition ascii_address :: "Address \<Rightarrow> bool" where
  "ascii_address a = is_ascii (Callsign a)"

lemma valid_ascii: "valid_address a \<Longrightarrow> ascii_address a"
  by (simp add: valid_address_def ascii_address_def callsign_ascii)

lemma Address_Equal_refl: "ascii_address a \<Longrightarrow> Address_Equal U a a"
  by (simp add: Address_Equal_def strings_EqualFold_def ascii_address_def)

lemma Address_Equal_sym:
  "ascii_address a \<Longrightarrow> ascii_address b \<Longrightarrow> Address_Equal U a b = Address_Equal U b a"
  by (auto simp: Address_Equal_def strings_EqualFold_def ascii_address_def)

lemma Address_Equal_trans:
  "ascii_address a \<Longrightarrow> ascii_address b \<Longrightarrow> ascii_address c \<Longrightarrow>
     Address_Equal U a b \<Longrightarrow> Address_Equal U b c \<Longrightarrow> Address_Equal U a c"
  by (simp add: Address_Equal_def strings_EqualFold_def ascii_address_def)

lemma Address_Equal_valid:
  assumes "valid_address a" and "valid_address b"
  shows "Address_Equal U a b \<longleftrightarrow> Callsign a = Callsign b \<and> SSID a = SSID b"
proof -
  have "map upper_byte (Callsign x) = Callsign x" if "valid_address x" for x
    using that by (simp add: valid_address_def list_all_iff callsign_charD map_idI)
  with assms show ?thesis
    by (simp add: Address_Equal_def strings_EqualFold_def callsign_ascii valid_address_def)
qed

interpretation addr_text: codec
  "\<lambda>a. Inr (Address_String a)" "ParseAddress U" "\<lambda>a. a\<lparr>HasBeenRepeated := False, IsLast := False\<rparr>"
  valid_address for U
  by unfold_locales (auto simp: ParseAddress_String)

interpretation addr_wire: codec
  "\<lambda>a. Inr (Address_Encode U a)" DecodeAddress "wire_address U" "\<lambda>_. True" for U
  using DecodeAddress_Encode [where rest = "[]"] by unfold_locales auto

section \<open>Properties\<close>

definition N7GET_5 :: Address where
  "N7GET_5 = \<lparr>Callsign = str ''N7GET'', SSID = 5, HasBeenRepeated = False, IsLast = False\<rparr>"

lemma N7GET_5_valid: "valid_address N7GET_5"
  by (simp add: N7GET_5_def valid_address_def callsign_char_def)

text \<open>Wire round trip of an address. Decoding the seven bytes \<open>Encode\<close> writes, whatever
  follows them, never fails and gives the address with its callsign upper-cased, cut at six
  seven-bit characters and stripped of trailing blanks, and its SSID cut at four bits; an address
  \<open>ParseAddress\<close> accepts comes back unchanged, with its flag bits.\<close>

theorem address_wire_roundtrip:
  "DecodeAddress (Address_Encode U a @ rest) = Inr (wire_address U a)
     \<and> (valid_address a \<longrightarrow> wire_address U a = a)"
  by (simp add: DecodeAddress_Encode wire_address_valid)

theorem address_wire_roundtrip_witness:
  "valid_address N7GET_5 \<and> DecodeAddress
     (Address_Encode \<lparr>upper_unicode = id, fold_unicode = (=)\<rparr> N7GET_5 @ [3]) = Inr N7GET_5"
  using address_wire_roundtrip [of "\<lparr>upper_unicode = id, fold_unicode = (=)\<rparr>" N7GET_5 "[3]"]
  by (simp add: N7GET_5_valid)

text \<open>Text round trip of an address. What \<open>ParseAddress\<close> accepts is well formed, and printing
  it with \<open>String\<close> and parsing again gives the same address; every well-formed address with
  clear flags is accepted in its printed form.\<close>

theorem address_text_roundtrip:
  "(ParseAddress U s = Inr a \<longrightarrow> valid_address a \<and> ParseAddress U (Address_String a) = Inr a)
   \<and> (valid_address b \<longrightarrow> ParseAddress U (Address_String b)
        = Inr (b\<lparr>HasBeenRepeated := False, IsLast := False\<rparr>))"
proof (intro conjI impI)
  assume p: "ParseAddress U s = Inr a"
  then have v: "valid_address a \<and> \<not> HasBeenRepeated a \<and> \<not> IsLast a" by (rule ParseAddress_valid)
  then show "valid_address a" by simp
  have "a\<lparr>HasBeenRepeated := False, IsLast := False\<rparr> = a" using v by (cases a) simp
  with v show "ParseAddress U (Address_String a) = Inr a" by (simp add: ParseAddress_String)
qed (rule ParseAddress_String)

theorem address_text_roundtrip_witness:
  "ParseAddress \<lparr>upper_unicode = id, fold_unicode = (=)\<rparr> (str ''n7get-5'') = Inr N7GET_5
   \<and> ParseAddress \<lparr>upper_unicode = id, fold_unicode = (=)\<rparr> (Address_String N7GET_5) = Inr N7GET_5"
proof -
  let ?U = "\<lparr>upper_unicode = id, fold_unicode = (=)\<rparr>"
  have "ParseAddress ?U (str ''n7get-5'') = Inr N7GET_5"
    by (simp add: ParseAddress_def strings_ToUpper_def upper_byte_def strconv_ParseUint10_def
        is_digit_def check_callsign_def callsign_char_def N7GET_5_def)
  then show ?thesis
    using address_text_roundtrip [of ?U "str ''n7get-5''" N7GET_5 N7GET_5] by simp
qed

end
