(* ===== verification/Ax25_Frame.thy ===== *)
theory Ax25_Frame
  imports Ax25_Address
begin

text \<open>
  \<open>src/ax25/frame.go\<close> and the frame type and constants of \<open>src/ax25/types.go\<close>: the AX.25 frame,
  its control byte, the parser \<open>ParseFrame\<close> and the encoder \<open>Frame.Encode\<close>. The lemmas say what
  a receiver gets from an encoded frame (\<open>wire_frame\<close>) and what the parser guarantees of
  every frame it returns.
\<close>

section \<open>Constants and types\<close>

definition PIDNone :: byte where [simp, byte_simps]: "PIDNone = 0xF0"
definition PIDText :: byte where [simp, byte_simps]: "PIDText = 0xF0"
definition MaxDigipeaters :: nat where [simp, byte_simps]: "MaxDigipeaters = 8"
definition MaxInfoLen :: nat where [simp, byte_simps]: "MaxInfoLen = 256"
definition BufferSize :: nat where [simp, byte_simps]:
  "BufferSize = AddressLen * (2 + MaxDigipeaters) + 2 + MaxInfoLen + 10"

definition CtrlUI :: byte where [simp, byte_simps]: "CtrlUI = 0x03"
definition CtrlSABM :: byte where [simp, byte_simps]: "CtrlSABM = 0x2F"
definition CtrlDISC :: byte where [simp, byte_simps]: "CtrlDISC = 0x43"
definition CtrlDM :: byte where [simp, byte_simps]: "CtrlDM = 0x0F"
definition CtrlUA :: byte where [simp, byte_simps]: "CtrlUA = 0x63"
definition CtrlFRMR :: byte where [simp, byte_simps]: "CtrlFRMR = 0x87"
definition CtrlRRMask :: byte where [simp, byte_simps]: "CtrlRRMask = 0x01"
definition CtrlRNRMask :: byte where [simp, byte_simps]: "CtrlRNRMask = 0x05"
definition CtrlREJMask :: byte where [simp, byte_simps]: "CtrlREJMask = 0x09"
definition CtrlPFBit :: byte where [simp, byte_simps]: "CtrlPFBit = 0x10"

datatype FrameType = FrameUI | FrameI | FrameS | FrameU | FrameUnknown

fun FrameType_String :: "FrameType \<Rightarrow> gostring" where
  "FrameType_String FrameUI = str ''UI''"
| "FrameType_String FrameI = str ''I''"
| "FrameType_String FrameS = str ''S''"
| "FrameType_String FrameU = str ''U''"
| "FrameType_String FrameUnknown = str ''UNKNOWN''"

record Frame =
  Destination :: Address
  Source :: Address
  Digipeaters :: "Address list"
  IsCommand :: bool
  Type :: FrameType
  Control :: byte
  PID :: byte
  Payload :: "byte list"

section \<open>The control byte\<close>

definition ControlName :: "byte \<Rightarrow> gostring" where
  "ControlName ctrl =
     (if ctrl = CtrlUI then str ''UI''
      else if ctrl AND 0xEF = CtrlSABM AND 0xEF then str ''SABM''
      else if ctrl AND 0xEF = CtrlDISC AND 0xEF then str ''DISC''
      else if ctrl AND 0xEF = CtrlDM AND 0xEF then str ''DM''
      else if ctrl AND 0xEF = CtrlUA AND 0xEF then str ''UA''
      else if ctrl AND 0xEF = CtrlFRMR AND 0xEF then str ''FRMR''
      else if ctrl AND 0x01 = 0 then str ''I''
      else if ctrl AND 0x0F = CtrlRRMask then str ''RR''
      else if ctrl AND 0x0F = CtrlRNRMask then str ''RNR''
      else if ctrl AND 0x0F = CtrlREJMask then str ''REJ''
      else str ''?'')"

definition Frame_Name :: "Frame \<Rightarrow> gostring" where
  "Frame_Name f = ControlName (Control f)"

definition IdentifyFrameType :: "byte \<Rightarrow> FrameType" where
  "IdentifyFrameType ctrl =
     (if ctrl = CtrlUI then FrameUI
      else if ctrl AND 0x01 = 0 then FrameI
      else if ctrl AND 0x03 = 0x01 then FrameS
      else if ctrl AND 0xEF \<in> {CtrlSABM, CtrlDISC, CtrlDM, CtrlUA, CtrlFRMR} then FrameU
      else FrameUnknown)"

definition ExtractNS :: "byte \<Rightarrow> byte" where
  "ExtractNS ctrl = drop_bit 1 ctrl AND 0x07"

definition ExtractNR :: "byte \<Rightarrow> byte" where
  "ExtractNR ctrl = drop_bit 5 ctrl AND 0x07"

definition HasPF :: "byte \<Rightarrow> bool" where
  "HasPF ctrl \<longleftrightarrow> ctrl AND CtrlPFBit \<noteq> 0"

definition BuildIControl :: "byte \<Rightarrow> byte \<Rightarrow> bool \<Rightarrow> byte" where
  "BuildIControl ns nr pf =
     (let b = push_bit 5 (nr AND 0x07) OR push_bit 1 (ns AND 0x07)
      in if pf then b OR CtrlPFBit else b)"

definition BuildRRControl :: "byte \<Rightarrow> bool \<Rightarrow> byte" where
  "BuildRRControl nr pf =
     (let b = push_bit 5 (nr AND 0x07) OR CtrlRRMask in if pf then b OR CtrlPFBit else b)"

definition BuildRNRControl :: "byte \<Rightarrow> bool \<Rightarrow> byte" where
  "BuildRNRControl nr pf =
     (let b = push_bit 5 (nr AND 0x07) OR CtrlRNRMask in if pf then b OR CtrlPFBit else b)"

definition BuildREJControl :: "byte \<Rightarrow> bool \<Rightarrow> byte" where
  "BuildREJControl nr pf =
     (let b = push_bit 5 (nr AND 0x07) OR CtrlREJMask in if pf then b OR CtrlPFBit else b)"

section \<open>Parsing\<close>

text \<open>The loop over the digipeater addresses. It is entered when neither the source nor the
  destination is the last address, which the loop does not change, so it ends by its break
  or by an error.\<close>

function parse_digis :: "byte list \<Rightarrow> nat \<Rightarrow> Address list \<Rightarrow> goerr + Address list \<times> nat" where
  "parse_digis data pos digis =
     (if pos + AddressLen > length data then Inl ErrFrameTooShort
      else if length digis \<ge> MaxDigipeaters then Inl ErrTooManyDigis
      else
        case DecodeAddress (drop pos data) of
          Inl e \<Rightarrow> Inl (ErrWrap ''digipeater'' ErrInvalidAddress)
        | Inr d \<Rightarrow>
            if IsLast d then Inr (digis @ [d], pos + AddressLen)
            else parse_digis data (pos + AddressLen) (digis @ [d]))"
  by pat_completeness auto
termination
  by (relation "measure (\<lambda>(data, pos, digis). length data - pos)") auto

declare parse_digis.simps [simp del]

definition parse_path :: "byte list \<Rightarrow> Address \<Rightarrow> Address \<Rightarrow> goerr + Address list \<times> nat" where
  "parse_path data dst src =
     (if \<not> IsLast src \<and> \<not> IsLast dst then parse_digis data (2 * AddressLen) []
      else Inr ([], 2 * AddressLen))"

definition ParseFrame :: "byte list \<Rightarrow> goerr + Frame" where
  [wire_defs]: "ParseFrame data =
     (if length data < AddressLen * 2 + 1 then Inl ErrFrameTooShort
      else
        case DecodeAddress data of
          Inl e \<Rightarrow> Inl (ErrWrap ''destination'' ErrInvalidAddress)
        | Inr dst \<Rightarrow>
        (case DecodeAddress (drop AddressLen data) of
          Inl e \<Rightarrow> Inl (ErrWrap ''source'' ErrInvalidAddress)
        | Inr src \<Rightarrow>
        (case parse_path data dst src of
          Inl e \<Rightarrow> Inl e
        | Inr (digis, pos) \<Rightarrow>
            let isCommand = (data ! 6 AND 0x80 \<noteq> 0) in
            if pos \<ge> length data then Inl ErrFrameTooShort
            else
              let ctrl = data ! pos;
                  pos = pos + 1;
                  ft = IdentifyFrameType ctrl;
                  (pid, payload) =
                    (if ft = FrameUI \<or> ft = FrameI then
                       (if pos < length data then (data ! pos, drop (pos + 1) data) else (0, []))
                     else (0, []))
              in Inr \<lparr>Destination = dst, Source = src, Digipeaters = digis, IsCommand = isCommand,
                      Type = ft, Control = ctrl, PID = pid, Payload = payload\<rparr>)))"

section \<open>Encoding\<close>

text \<open>Go's \<open>b |= m\<close> and \<open>b &^= m\<close> on the last byte of an encoded address.\<close>

definition or_b6 :: "byte list \<Rightarrow> byte \<Rightarrow> byte list" where
  "or_b6 enc m = enc[6 := enc ! 6 OR m]"

definition clear_b6 :: "byte list \<Rightarrow> byte \<Rightarrow> byte list" where
  "clear_b6 enc m = enc[6 := enc ! 6 AND NOT m]"

definition encode_digi :: "unicode \<Rightarrow> Address list \<Rightarrow> nat \<Rightarrow> byte list" where
  "encode_digi U digis i =
     (let enc = Address_Encode U (digis ! i)
      in if i = length digis - 1 then or_b6 enc 0x01 else clear_b6 enc 0x01)"

definition Frame_Encode :: "unicode \<Rightarrow> Frame \<Rightarrow> goerr + byte list" where
  [wire_defs]: "Frame_Encode U f =
     (if length (Digipeaters f) > MaxDigipeaters then Inl ErrTooManyDigis
      else if length (Payload f) > MaxInfoLen then Inl ErrPayloadTooLong
      else
        let dstEnc = Address_Encode U (Destination f);
            dstEnc = (if IsCommand f then or_b6 dstEnc 0x80 else clear_b6 dstEnc 0x80);
            srcEnc = Address_Encode U (Source f);
            srcEnc = (if \<not> IsCommand f then or_b6 srcEnc 0x80 else clear_b6 srcEnc 0x80);
            srcEnc = (if length (Digipeaters f) = 0 then or_b6 srcEnc 0x01 else clear_b6 srcEnc 0x01);
            digiEnc = concat (map (encode_digi U (Digipeaters f)) [0..<length (Digipeaters f)]);
            info = (if Type f = FrameUI \<or> Type f = FrameI then PID f # Payload f else [])
        in Inr (dstEnc @ srcEnc @ digiEnc @ [Control f] @ info))"

text \<open>What a receiver makes of an encoded frame.\<close>

definition mark_last :: "Address list \<Rightarrow> Address list" where
  "mark_last ds = map (\<lambda>i. (ds ! i)\<lparr>IsLast := (i = length ds - 1)\<rparr>) [0..<length ds]"

definition has_info :: "FrameType \<Rightarrow> bool" where
  "has_info t \<longleftrightarrow> t = FrameUI \<or> t = FrameI"

definition wire_frame :: "unicode \<Rightarrow> Frame \<Rightarrow> Frame" where
  "wire_frame U f =
     (let info = has_info (Type f) in
      \<lparr>Destination = (wire_address U (Destination f))\<lparr>HasBeenRepeated := IsCommand f\<rparr>,
       Source = (wire_address U (Source f))\<lparr>HasBeenRepeated := \<not> IsCommand f, IsLast := Digipeaters f = []\<rparr>,
       Digipeaters = map (wire_address U) (mark_last (Digipeaters f)),
       IsCommand = IsCommand f, Type = IdentifyFrameType (Control f), Control = Control f,
       PID = (if info then PID f else 0), Payload = (if info then Payload f else [])\<rparr>)"

text \<open>A frame the encoder and the parser agree on: the sizes the encoder checks, the type that
  goes with the control byte, and a destination without the last-address bit unless no
  digipeater follows.\<close>

definition encodable :: "Frame \<Rightarrow> bool" where
  "encodable f \<longleftrightarrow> length (Digipeaters f) \<le> 8 \<and> length (Payload f) \<le> 256"

definition wf_frame :: "Frame \<Rightarrow> bool" where
  "wf_frame f \<longleftrightarrow> encodable f \<and> has_info (Type f) = has_info (IdentifyFrameType (Control f))
     \<and> (IsLast (Destination f) \<longrightarrow> Digipeaters f = [])"

section \<open>Flag bits of an encoded address\<close>

lemma Address_Encode_flags:
  "or_b6 (Address_Encode U a) 0x80 = Address_Encode U (a\<lparr>HasBeenRepeated := True\<rparr>)"
  "clear_b6 (Address_Encode U a) 0x80 = Address_Encode U (a\<lparr>HasBeenRepeated := False\<rparr>)"
  "or_b6 (Address_Encode U a) 0x01 = Address_Encode U (a\<lparr>IsLast := True\<rparr>)"
  "clear_b6 (Address_Encode U a) 0x01 = Address_Encode U (a\<lparr>IsLast := False\<rparr>)"
  unfolding or_b6_def clear_b6_def Address_Encode_def Let_def
  by (simp_all add: list_update_append nth_append) (auto simp: byte_bitwise)

lemma encode_digi_eq:
  "i < length ds \<Longrightarrow> encode_digi U ds i = Address_Encode U (mark_last ds ! i)"
  by (simp add: encode_digi_def mark_last_def Let_def Address_Encode_flags [unfolded One_nat_def])

lemma mark_last_length [simp]: "length (mark_last ds) = length ds"
  by (simp add: mark_last_def)

lemma Frame_Encode_eq:
  assumes "encodable f"
  shows "Frame_Encode U f = Inr
    (Address_Encode U ((Destination f)\<lparr>HasBeenRepeated := IsCommand f\<rparr>)
     @ Address_Encode U ((Source f)\<lparr>HasBeenRepeated := \<not> IsCommand f, IsLast := Digipeaters f = []\<rparr>)
     @ concat (map (Address_Encode U) (mark_last (Digipeaters f)))
     @ [Control f] @ (if has_info (Type f) then PID f # Payload f else []))"
proof -
  have "map (encode_digi U (Digipeaters f)) [0..<length (Digipeaters f)]
      = map (Address_Encode U) (mark_last (Digipeaters f))"
    by (rule nth_equalityI) (simp_all add: encode_digi_eq)
  with assms show ?thesis
    by (auto simp: Frame_Encode_def encodable_def Let_def Address_Encode_flags has_info_def)
qed

lemma Frame_Encode_Inr: "(\<exists>w. Frame_Encode U f = Inr w) \<longleftrightarrow> encodable f"
  using Frame_Encode_eq [of f U] by (auto simp: Frame_Encode_def encodable_def Let_def)

section \<open>The parser on encoded frames\<close>

lemma wire_address_IsLast [simp]: "IsLast (wire_address U a) = IsLast a"
  by (simp add: wire_address_def)

lemma wire_address_flags [simp]:
  "wire_address U (a\<lparr>HasBeenRepeated := h\<rparr>) = (wire_address U a)\<lparr>HasBeenRepeated := h\<rparr>"
  "wire_address U (a\<lparr>IsLast := l\<rparr>) = (wire_address U a)\<lparr>IsLast := l\<rparr>"
  by (simp_all add: wire_address_def)

fun last_marked :: "Address list \<Rightarrow> bool" where
  "last_marked [] = False"
| "last_marked [d] = IsLast d"
| "last_marked (d # ds) = (\<not> IsLast d \<and> last_marked ds)"

lemma last_marked_conv:
  "last_marked ds \<longleftrightarrow> ds \<noteq> [] \<and> (\<forall>i < length ds. IsLast (ds ! i) = (i = length ds - 1))"
  by (induction ds rule: last_marked.induct) (auto simp: nth_Cons less_Suc_eq_0_disj split: nat.splits)

lemma last_marked_mark_last: "ds \<noteq> [] \<Longrightarrow> last_marked (mark_last ds)"
  by (auto simp: last_marked_conv mark_last_def)

lemma parse_digis_encoded:
  assumes "last_marked ds" and "length acc + length ds \<le> 8"
  shows "parse_digis (pre @ concat (map (Address_Encode U) ds) @ rest) (length pre) acc
     = Inr (acc @ map (wire_address U) ds, length pre + 7 * length ds)"
  using assms
proof (induction ds arbitrary: pre acc rule: last_marked.induct)
  case 1
  then show ?case by simp
next
  case (2 d)
  then show ?case by (simp add: parse_digis.simps DecodeAddress_Encode)
next
  case (3 d e ds)
  let ?rest = "concat (map (Address_Encode U) (e # ds)) @ rest"
  have "parse_digis ((pre @ Address_Encode U d) @ ?rest) (length (pre @ Address_Encode U d))
      (acc @ [wire_address U d])
      = Inr ((acc @ [wire_address U d]) @ map (wire_address U) (e # ds),
          length (pre @ Address_Encode U d) + 7 * length (e # ds))"
    using "3.prems" by (intro "3.IH") auto
  then show ?case
    using "3.prems" by (subst parse_digis.simps) (simp add: DecodeAddress_Encode add.assoc)
qed

lemma nth_6_flag: "((Address_Encode U a @ rest) ! 6 AND 0x80 \<noteq> 0) = HasBeenRepeated a"
  using DecodeAddress_Encode [of U a rest]
  by (auto simp: DecodeAddress_def Let_def wire_address_def dest!: arg_cong [where f = HasBeenRepeated])

lemma ParseFrame_Encode:
  assumes "wf_frame f" and "Frame_Encode U f = Inr w"
  shows "ParseFrame w = Inr (wire_frame U f)"
proof -
  let ?d = "(Destination f)\<lparr>HasBeenRepeated := IsCommand f\<rparr>"
  let ?s = "(Source f)\<lparr>HasBeenRepeated := \<not> IsCommand f, IsLast := Digipeaters f = []\<rparr>"
  let ?ds = "mark_last (Digipeaters f)"
  let ?tail = "[Control f] @ (if has_info (Type f) then PID f # Payload f else [])"
  from assms(1) have wf: "encodable f" "has_info (Type f) = has_info (IdentifyFrameType (Control f))"
    "IsLast (Destination f) \<longrightarrow> Digipeaters f = []" by (simp_all add: wf_frame_def)
  from assms(2) Frame_Encode_eq [OF wf(1), of U]
  have w: "w = (Address_Encode U ?d @ Address_Encode U ?s) @ concat (map (Address_Encode U) ?ds) @ ?tail"
    by simp
  have dst: "DecodeAddress w = Inr (wire_address U ?d)"
    unfolding w by (simp add: DecodeAddress_Encode del: wire_address_flags)
  have src: "DecodeAddress (drop AddressLen w) = Inr (wire_address U ?s)"
    unfolding w by (simp add: DecodeAddress_Encode del: wire_address_flags)
  have cmd: "(w ! 6 AND 0x80 \<noteq> 0) = IsCommand f"
    unfolding w by (simp add: nth_6_flag)
  have digis: "parse_path w (wire_address U ?d) (wire_address U ?s)
      = Inr (map (wire_address U) ?ds, 14 + 7 * length ?ds)"
  proof (cases "Digipeaters f = []")
    case True
    then show ?thesis by (simp add: mark_last_def parse_path_def)
  next
    case False
    have "parse_digis w (length (Address_Encode U ?d @ Address_Encode U ?s)) []
        = Inr ([] @ map (wire_address U) ?ds,
            length (Address_Encode U ?d @ Address_Encode U ?s) + 7 * length ?ds)"
      unfolding w using False wf(1)
      by (intro parse_digis_encoded last_marked_mark_last) (auto simp: encodable_def)
    with False wf(3) show ?thesis by (simp add: parse_path_def)
  qed
  have len: "length (concat (map (Address_Encode U) ?ds)) = 7 * length ?ds"
    by (simp add: length_concat comp_def sum_list_triv)
  then have ctrl: "14 + 7 * length ?ds < length w" "w ! (14 + 7 * length ?ds) = Control f"
    "drop (14 + 7 * length ?ds + 1) w = tl ?tail"
    unfolding w by (simp_all add: nth_append)
  have info: "IdentifyFrameType (Control f) = FrameUI \<or> IdentifyFrameType (Control f) = FrameI
      \<longleftrightarrow> has_info (Type f)"
    using wf(2) by (simp add: has_info_def)
  have pidpl: "has_info (Type f) \<Longrightarrow> 14 + 7 * length ?ds + 1 < length w
      \<and> w ! (14 + 7 * length ?ds + 1) = PID f \<and> drop (14 + 7 * length ?ds + 1 + 1) w = Payload f"
    using len unfolding w by (simp add: nth_append)
  have lw: "\<not> length w < AddressLen * 2 + 1" using ctrl(1) by simp
  show ?thesis
    unfolding ParseFrame_def
    using lw dst src digis cmd ctrl info pidpl
    by (simp add: Let_def wire_frame_def)
qed

section \<open>What the parser guarantees\<close>

definition parsed_address :: "Address \<Rightarrow> bool" where
  "parsed_address a \<longleftrightarrow> length (Callsign a) \<le> 6 \<and> is_ascii (Callsign a) \<and> SSID a < 16
     \<and> (Callsign a = [] \<or> last (Callsign a) \<noteq> 0x20)"

lemma drop_bit_1_ascii: "drop_bit 1 (b :: byte) < 0x80"
proof -
  have "unat b < 2 ^ LENGTH(8)" by (rule unsigned_less)
  then show ?thesis by (simp add: word_less_nat_alt drop_bit_Suc unat_div)
qed

lemma and_15_less: "(b :: byte) AND 0x0F < 16"
proof -
  have "b AND 0x0F \<le> 0x0F" by (rule word_and_le1)
  then show ?thesis by (rule le_less_trans) simp
qed

lemma DecodeAddress_parsed: "DecodeAddress b = Inr a \<Longrightarrow> parsed_address a"
proof -
  assume "DecodeAddress b = Inr a"
  then have a: "Callsign a = strings_TrimRight (map (\<lambda>i. drop_bit 1 (b ! i)) [0..<6]) 0x20"
    "SSID a = drop_bit 1 (b ! 6) AND 0x0F"
    by (auto simp: DecodeAddress_def Let_def split: if_splits)
  have "is_ascii (map (\<lambda>i. drop_bit 1 (b ! i)) [0..<6])"
    unfolding is_ascii_def using drop_bit_1_ascii by (simp add: list_all_iff)
  then have "is_ascii (Callsign a)"
    unfolding a(1) is_ascii_def using TrimRight_subset by (fastforce simp: list_all_iff)
  with a show ?thesis
    using TrimRight_length [of "map (\<lambda>i. drop_bit 1 (b ! i)) [0..<6]" "0x20"]
      TrimRight_last [of "map (\<lambda>i. drop_bit 1 (b ! i)) [0..<6]" "0x20"]
    by (simp add: parsed_address_def and_15_less)
qed

lemma parse_digis_sound:
  assumes "parse_digis data pos acc = Inr (ds, pos')" and "list_all parsed_address acc"
    and "length acc \<le> 8"
  shows "list_all parsed_address ds \<and> length ds \<le> 8 \<and> pos' \<le> length data \<and> pos < pos'
    \<and> pos' + 7 * length acc = pos + 7 * length ds"
  using assms
proof (induction data pos acc rule: parse_digis.induct)
  case (1 data pos acc)
  from "1.prems"(1) obtain d where d: "DecodeAddress (drop pos data) = Inr d"
    and le: "pos + 7 \<le> length data" "length acc < 8"
    by (subst (asm) parse_digis.simps) (auto split: if_splits sum.splits)
  from d have pd: "parsed_address d" by (rule DecodeAddress_parsed)
  show ?case
  proof (cases "IsLast d")
    case True
    with "1.prems" d le pd show ?thesis
      by (subst (asm) parse_digis.simps) auto
  next
    case False
    with "1.prems"(1) d le have rec: "parse_digis data (pos + AddressLen) (acc @ [d]) = Inr (ds, pos')"
      by (subst (asm) parse_digis.simps) auto
    have "list_all parsed_address ds \<and> length ds \<le> 8 \<and> pos' \<le> length data
        \<and> pos + AddressLen < pos' \<and> pos' + 7 * length (acc @ [d]) = pos + AddressLen + 7 * length ds"
      using False d le pd "1.prems"(2) by (intro "1.IH" [OF _ _ d False rec]) auto
    then show ?thesis by simp
  qed
qed

definition parsed_frame :: "Frame \<Rightarrow> bool" where
  "parsed_frame f \<longleftrightarrow> parsed_address (Destination f) \<and> parsed_address (Source f)
     \<and> list_all parsed_address (Digipeaters f) \<and> length (Digipeaters f) \<le> 8
     \<and> Type f = IdentifyFrameType (Control f) \<and> IsCommand f = HasBeenRepeated (Destination f)
     \<and> (IsLast (Destination f) \<or> IsLast (Source f) \<longrightarrow> Digipeaters f = [])
     \<and> (\<not> has_info (Type f) \<longrightarrow> PID f = 0 \<and> Payload f = [])"

lemma ParseFrame_parsed:
  assumes "ParseFrame data = Inr f"
  shows "parsed_frame f"
proof -
  from assms obtain dst where dst: "DecodeAddress data = Inr dst"
    by (cases "DecodeAddress data") (simp_all add: ParseFrame_def split: if_splits)
  with assms obtain src where src: "DecodeAddress (drop AddressLen data) = Inr src"
    by (cases "DecodeAddress (drop AddressLen data)") (simp_all add: ParseFrame_def split: if_splits)
  from assms dst src obtain r where "parse_path data dst src = Inr r"
    by (cases "parse_path data dst src") (simp_all add: ParseFrame_def split: if_split_asm)
  then obtain digis pos where ds: "parse_path data dst src = Inr (digis, pos)"
    by (cases r) auto
  from assms dst src ds have f: "Destination f = dst" "Source f = src" "Digipeaters f = digis"
      "IsCommand f = (data ! 6 AND 0x80 \<noteq> 0)" "Type f = IdentifyFrameType (Control f)"
      "\<not> has_info (Type f) \<longrightarrow> PID f = 0 \<and> Payload f = []"
    by (auto simp: ParseFrame_def Let_def has_info_def split: if_split_asm)
  have "list_all parsed_address digis \<and> length digis \<le> 8"
    using ds parse_digis_sound [of data "2 * AddressLen" "[]" digis pos]
    by (auto simp: parse_path_def split: if_splits)
  moreover have "(data ! 6 AND 0x80 \<noteq> 0) = HasBeenRepeated dst"
    using dst by (auto simp: DecodeAddress_def Let_def split: if_splits)
  moreover have "IsLast dst \<or> IsLast src \<longrightarrow> digis = []"
    using ds by (auto simp: parse_path_def split: if_splits)
  ultimately show ?thesis
    using dst src f by (simp add: parsed_frame_def DecodeAddress_parsed)
qed

lemma parsed_frame_wf: "parsed_frame f \<Longrightarrow> length (Payload f) \<le> 256 \<Longrightarrow> wf_frame f"
  by (auto simp: parsed_frame_def wf_frame_def encodable_def)

interpretation frame_wire: codec "Frame_Encode U" ParseFrame "wire_frame U" wf_frame for U
proof unfold_locales
  show "wf_frame f \<Longrightarrow> Frame_Encode U f = Inr w \<Longrightarrow> ParseFrame w = Inr (wire_frame U f)" for f w
    by (rule ParseFrame_Encode)
  show "wf_frame f \<Longrightarrow> \<exists>w. Frame_Encode U f = Inr w" for f
    by (simp add: Frame_Encode_Inr wf_frame_def)
qed

section \<open>The control byte, built and read\<close>

lemma Extract_less_8 [simp]: "ExtractNS c < 8" "ExtractNR c < 8"
  by (simp_all add: ExtractNS_def ExtractNR_def)

lemma HasPF_bit: "HasPF c \<longleftrightarrow> bit c 4"
  by (simp add: HasPF_def byte_bitwise)

lemma BuildI_fields:
  "ExtractNS (BuildIControl ns nr pf) = ns AND 7" "ExtractNR (BuildIControl ns nr pf) = nr AND 7"
  "HasPF (BuildIControl ns nr pf) = pf" "BuildIControl ns nr pf AND 1 = 0"
  by (simp_all add: ExtractNS_def ExtractNR_def HasPF_bit BuildIControl_def Let_def)
    (simp_all add: byte_bitwise)

lemma BuildS_fields:
  "ExtractNR (BuildRRControl nr pf) = nr AND 7" "ExtractNR (BuildRNRControl nr pf) = nr AND 7"
  "ExtractNR (BuildREJControl nr pf) = nr AND 7"
  "HasPF (BuildRRControl nr pf) = pf" "HasPF (BuildRNRControl nr pf) = pf"
  "HasPF (BuildREJControl nr pf) = pf"
  "BuildRRControl nr pf AND 0x0F = CtrlRRMask" "BuildRNRControl nr pf AND 0x0F = CtrlRNRMask"
  "BuildREJControl nr pf AND 0x0F = CtrlREJMask"
  "BuildRRControl nr pf AND 0x03 = 1" "BuildRNRControl nr pf AND 0x03 = 1"
  "BuildREJControl nr pf AND 0x03 = 1"
  by (simp_all add: ExtractNR_def HasPF_bit BuildRRControl_def BuildRNRControl_def
      BuildREJControl_def Let_def) (simp_all add: byte_bitwise)

lemma BuildI_type: "IdentifyFrameType (BuildIControl ns nr pf) = FrameI"
proof -
  have "BuildIControl ns nr pf \<noteq> 3" using BuildI_fields(4) [of ns nr pf] by auto
  then show ?thesis using BuildI_fields(4) [of ns nr pf] by (simp add: IdentifyFrameType_def)
qed

lemma odd_S_type: "c AND 0x03 = 1 \<Longrightarrow> IdentifyFrameType c = FrameS"
proof -
  assume *: "c AND 0x03 = 1"
  then have "c \<noteq> 3" by auto
  moreover have "c AND 1 \<noteq> 0" using * by (simp add: byte_bitwise)
  ultimately show ?thesis using * by (simp add: IdentifyFrameType_def)
qed

lemma BuildS_type:
  "IdentifyFrameType (BuildRRControl nr pf) = FrameS"
  "IdentifyFrameType (BuildRNRControl nr pf) = FrameS"
  "IdentifyFrameType (BuildREJControl nr pf) = FrameS"
  by (simp_all add: odd_S_type BuildS_fields)

section \<open>Properties\<close>

definition sample_frame :: Frame where
  "sample_frame =
     \<lparr>Destination = \<lparr>Callsign = str ''BEACON'', SSID = 0, HasBeenRepeated = False, IsLast = False\<rparr>,
      Source = N7GET_5,
      Digipeaters = [\<lparr>Callsign = str ''WIDE1'', SSID = 1, HasBeenRepeated = True, IsLast = False\<rparr>],
      IsCommand = True, Type = FrameUI, Control = CtrlUI, PID = PIDNone, Payload = str ''hi''\<rparr>"

lemma sample_frame_wf: "wf_frame sample_frame"
  by (simp add: sample_frame_def wf_frame_def encodable_def has_info_def IdentifyFrameType_def)

text \<open>C9: Wire round trip of a frame. Every frame within the size limits whose type goes with its
  control byte (and whose destination does not carry the last-address bit in front of
  digipeaters) is encoded without error, and parsing the bytes gives \<open>wire_frame\<close>: the same
  addresses in wire form, the command bit in the two C bits, the last-address bits set along
  the path, the same control byte, and PID and payload exactly for UI and I frames.\<close>

theorem frame_wire_roundtrip:
  assumes "wf_frame f"
  shows "\<exists>w. Frame_Encode U f = Inr w \<and> ParseFrame w = Inr (wire_frame U f)"
  by (rule frame_wire.roundtrip [OF assms])

theorem frame_wire_roundtrip_witness:
  "wf_frame sample_frame \<and> (\<exists>w. Frame_Encode \<lparr>upper_unicode = id, fold_unicode = (=)\<rparr> sample_frame = Inr w
     \<and> ParseFrame w = Inr (wire_frame \<lparr>upper_unicode = id, fold_unicode = (=)\<rparr> sample_frame))"
  using frame_wire_roundtrip [OF sample_frame_wf] sample_frame_wf by blast

text \<open>C35: What the parser guarantees. A frame \<open>ParseFrame\<close> returns has at most eight digipeaters,
  addresses of at most six ASCII characters without trailing blanks and SSIDs below 16, the type
  of its control byte, digipeaters only when neither the destination nor the source was marked
  last, and no PID or payload unless it is a UI or I frame; if its payload also fits the encoder's limit it can
  be encoded and parsed again.\<close>

theorem parse_frame_sound:
  assumes "ParseFrame data = Inr f"
  shows "parsed_frame f \<and> (length (Payload f) \<le> MaxInfoLen \<longrightarrow>
     (\<exists>w. Frame_Encode U f = Inr w \<and> ParseFrame w = Inr (wire_frame U f)))"
  using ParseFrame_parsed [OF assms] frame_wire.roundtrip parsed_frame_wf by auto

theorem parse_frame_sound_witness:
  "\<exists>data f. ParseFrame data = Inr f \<and> parsed_frame f"
proof -
  let ?U = "\<lparr>upper_unicode = id, fold_unicode = (=)\<rparr>"
  obtain w where w: "ParseFrame w = Inr (wire_frame ?U sample_frame)"
    using frame_wire.roundtrip [OF sample_frame_wf] by blast
  then show ?thesis using parse_frame_sound [OF w, of ?U] by blast
qed

text \<open>The control byte, built and read. The sequence numbers and the poll/final bit read from a
  control byte the builders made are the ones put in, modulo eight, and the builders of I, RR, RNR
  and REJ frames make bytes of the frame types and supervisory codes the receiver tests for.\<close>

theorem control_byte_roundtrip:
  "ExtractNS (BuildIControl ns nr pf) = ns AND 7 \<and> ExtractNR (BuildIControl ns nr pf) = nr AND 7
   \<and> HasPF (BuildIControl ns nr pf) = pf \<and> IdentifyFrameType (BuildIControl ns nr pf) = FrameI
   \<and> (\<forall>(build, code) \<in> {(BuildRRControl, CtrlRRMask), (BuildRNRControl, CtrlRNRMask),
        (BuildREJControl, CtrlREJMask)}.
       ExtractNR (build nr pf) = nr AND 7 \<and> HasPF (build nr pf) = pf
       \<and> IdentifyFrameType (build nr pf) = FrameS \<and> build nr pf AND 0x0F = code)"
  by (simp add: BuildI_fields BuildS_fields BuildI_type BuildS_type del: CtrlRRMask_def
      CtrlRNRMask_def CtrlREJMask_def)

theorem control_byte_roundtrip_witness:
  "ExtractNR (BuildREJControl 5 True) = 5 \<and> BuildREJControl 5 True AND 0x0F = CtrlREJMask"
  using control_byte_roundtrip [of 0 5 True] by simp

text \<open>A UI frame with the poll bit set is not recognised. The control byte 0x13 is UI with the
  P/F bit; the code compares a UI control byte without masking that bit, so the frame is of
  unknown type, has no name, and the parser drops its PID and payload.\<close>

theorem ui_poll_bit_unrecognised:
  "IdentifyFrameType (CtrlUI OR CtrlPFBit) = FrameUnknown \<and> ControlName (CtrlUI OR CtrlPFBit) = str ''?''
   \<and> (ParseFrame data = Inr f \<and> Control f = CtrlUI OR CtrlPFBit \<longrightarrow> Payload f = [] \<and> PID f = 0)"
proof -
  have t: "IdentifyFrameType (CtrlUI OR CtrlPFBit) = FrameUnknown"
    by (simp add: IdentifyFrameType_def)
  moreover have "ControlName (CtrlUI OR CtrlPFBit) = str ''?''" by (simp add: ControlName_def)
  moreover have "Payload f = [] \<and> PID f = 0"
    if "ParseFrame data = Inr f" "Control f = CtrlUI OR CtrlPFBit"
    using ParseFrame_parsed [OF that(1)] t that(2) by (simp add: parsed_frame_def has_info_def)
  ultimately show ?thesis by blast
qed

theorem ui_poll_bit_unrecognised_witness:
  "ParseFrame (Address_Encode \<lparr>upper_unicode = id, fold_unicode = (=)\<rparr> N7GET_5
      @ Address_Encode \<lparr>upper_unicode = id, fold_unicode = (=)\<rparr> (N7GET_5\<lparr>IsLast := True\<rparr>) @ [0x13, 0xF0, 0x41])
   = Inr \<lparr>Destination = N7GET_5, Source = N7GET_5\<lparr>IsLast := True\<rparr>, Digipeaters = [], IsCommand = False,
       Type = FrameUnknown, Control = 0x13, PID = 0, Payload = []\<rparr>"
  (is "ParseFrame ?data = Inr ?f")
proof -
  have p: "ParseFrame ?data = Inr ?f"
    by (simp add: ParseFrame_def parse_path_def DecodeAddress_Encode nth_6_flag nth_append
        wire_address_valid N7GET_5_valid IdentifyFrameType_def Let_def)
      (use nth_6_flag [of _ N7GET_5 "[]"] in \<open>simp add: N7GET_5_def\<close>)
  show ?thesis using ui_poll_bit_unrecognised [of ?data ?f] p by simp
qed

end
