(* ===== verification/Ax25_Digi_Hops.thy ===== *)
theory Ax25_Digi_Hops
  imports Ax25_Frame
begin

text \<open>
  The digipeater-path helpers of \<open>src/ax25/digipeater.go\<close> that both the router and the
  digipeater use. A path is walked from the front: the hops already taken carry the H bit, the
  next hop is the first one without it. The lemmas show that marking a hop of a frame whose next
  hop is ours marks exactly that one.
\<close>

fun hasUnrepeated :: "Address list \<Rightarrow> bool" where
  "hasUnrepeated [] = False"
| "hasUnrepeated (d # ds) = (if \<not> HasBeenRepeated d then True else hasUnrepeated ds)"

definition hasUnrepeatedDigi :: "Frame \<Rightarrow> bool" where
  "hasUnrepeatedDigi f = hasUnrepeated (Digipeaters f)"

fun nextHopIs :: "unicode \<Rightarrow> Address list \<Rightarrow> Address \<Rightarrow> bool" where
  "nextHopIs U [] addr = False"
| "nextHopIs U (d # ds) addr =
     (if \<not> HasBeenRepeated d then Address_Equal U d addr else nextHopIs U ds addr)"

definition isNextDigiHop :: "unicode \<Rightarrow> Frame \<Rightarrow> Address \<Rightarrow> bool" where
  "isNextDigiHop U f addr = nextHopIs U (Digipeaters f) addr"

fun markHop :: "unicode \<Rightarrow> Address list \<Rightarrow> Address \<Rightarrow> Address list" where
  "markHop U [] addr = []"
| "markHop U (d # ds) addr =
     (if \<not> HasBeenRepeated d \<and> Address_Equal U d addr then d\<lparr>HasBeenRepeated := True\<rparr> # ds
      else d # markHop U ds addr)"

definition markDigiHop :: "unicode \<Rightarrow> Frame \<Rightarrow> Address \<Rightarrow> Frame" where
  "markDigiHop U f addr = f\<lparr>Digipeaters := markHop U (Digipeaters f) addr\<rparr>"

section \<open>Walking the path\<close>

text \<open>The number of hops still to take.\<close>

definition pending_hops :: "Address list \<Rightarrow> nat" where
  "pending_hops ds = length (filter (\<lambda>d. \<not> HasBeenRepeated d) ds)"

lemma hasUnrepeated_iff: "hasUnrepeated ds \<longleftrightarrow> (\<exists>d \<in> set ds. \<not> HasBeenRepeated d)"
  by (induction ds) auto

lemma hasUnrepeated_pending: "hasUnrepeated ds \<longleftrightarrow> 0 < pending_hops ds"
  by (auto simp: hasUnrepeated_iff pending_hops_def filter_empty_conv)

lemma nextHopIs_prefix:
  "nextHopIs U ds addr \<Longrightarrow> \<exists>pre d post. ds = pre @ d # post \<and> list_all HasBeenRepeated pre
     \<and> \<not> HasBeenRepeated d \<and> Address_Equal U d addr"
proof (induction ds)
  case Nil
  then show ?case by simp
next
  case (Cons e ds)
  show ?case
  proof (cases "HasBeenRepeated e")
    case True
    with Cons obtain pre d post where "ds = pre @ d # post" "list_all HasBeenRepeated pre"
      "\<not> HasBeenRepeated d" "Address_Equal U d addr" by auto
    with True have "e # ds = (e # pre) @ d # post \<and> list_all HasBeenRepeated (e # pre)
      \<and> \<not> HasBeenRepeated d \<and> Address_Equal U d addr" by simp
    then show ?thesis by blast
  next
    case False
    with Cons.prems have "e # ds = [] @ e # ds \<and> list_all HasBeenRepeated []
      \<and> \<not> HasBeenRepeated e \<and> Address_Equal U e addr" by simp
    then show ?thesis by blast
  qed
qed

lemma nextHopIs_append:
  "list_all HasBeenRepeated pre \<Longrightarrow> \<not> HasBeenRepeated d \<Longrightarrow>
     nextHopIs U (pre @ d # post) addr = Address_Equal U d addr"
  by (induction pre) auto

lemma nextHopIs_split:
  "nextHopIs U ds addr \<longleftrightarrow> (\<exists>pre d post. ds = pre @ d # post \<and> list_all HasBeenRepeated pre
     \<and> \<not> HasBeenRepeated d \<and> Address_Equal U d addr)"
  using nextHopIs_prefix nextHopIs_append by metis

lemma nextHopIs_unrepeated: "nextHopIs U ds addr \<Longrightarrow> hasUnrepeated ds"
  by (auto simp: nextHopIs_split hasUnrepeated_iff)

lemma markHop_next:
  assumes "list_all HasBeenRepeated pre" and "\<not> HasBeenRepeated d" and "Address_Equal U d addr"
  shows "markHop U (pre @ d # post) addr = pre @ d\<lparr>HasBeenRepeated := True\<rparr> # post"
  using assms by (induction pre) auto

lemma markHop_length [simp]: "length (markHop U ds addr) = length ds"
  by (induction ds) auto

lemma markHop_pending:
  "nextHopIs U ds addr \<Longrightarrow> pending_hops ds = Suc (pending_hops (markHop U ds addr))"
  by (auto simp: nextHopIs_split markHop_next pending_hops_def)

lemma markHop_addresses:
  "map (\<lambda>d. (Callsign d, SSID d, IsLast d)) (markHop U ds addr) = map (\<lambda>d. (Callsign d, SSID d, IsLast d)) ds"
  by (induction ds) auto

end
