(* ===== verification/Ax25_Router.thy ===== *)
theory Ax25_Router
  imports Ax25_Digi_Hops
begin

text \<open>
  \<open>src/ax25/router.go\<close>: ports with their bounded queues and workers, and the router that
  delivers a frame to the ports its mode selects. Ports are compared by identity in the code, so
  they live in a store from port identifiers (the pointers) to port records; the router keeps a
  list of identifiers. A Go panic is the outcome \<open>Panic\<close>. The lemmas describe each dispatch loop
  by the list of ports it delivers to, and keep the invariant of ports and router. The definitions here are whole methods, as one
  goroutine runs them by itself and as the other theories call them; \<open>Router_Conc\<close> splits them into the steps between which other
  goroutines can come, shows that run alone these steps give the definitions here, and has the invariant of all interleavings.
\<close>

section \<open>Ports\<close>

datatype PortMode =
    PortModeStatic | PortModeDefault | PortModePromiscuous | PortModeDigipeater | PortModeDynamic
  | PortModeOther int

record PortStats =
  RxFrames :: "64 word"
  TxFrames :: "64 word"
  Dropped :: "64 word"

record Port =
  pMode :: PortMode
  pDestination :: Address
  hasOnRx :: bool \<comment> \<open>OnRxFrame is not nil\<close>
  QueueDepth :: int
  stats :: PortStats
  txCh :: "Frame list option" \<comment> \<open>None is the nil channel\<close>
  txCap :: nat
  quitClosed :: bool \<comment> \<open>quitCh is closed\<close>
  running :: bool \<comment> \<open>the worker goroutine is alive\<close>
  started :: bool

definition Port_Stats :: "Port \<Rightarrow> PortStats" where
  "Port_Stats p = stats p"

definition Port_start :: "int \<Rightarrow> Port \<Rightarrow> Port" where
  "Port_start queueDepth p =
     (if started p then p
      else
        let queueDepth = (if QueueDepth p > 0 then QueueDepth p else queueDepth)
        in p\<lparr>txCh := Some [], txCap := nat queueDepth, quitClosed := False, started := True,
             running := True\<rparr>)"

text \<open>\<open>stop\<close> closes the quit channel and waits for the worker to leave; frames the worker still
  handles meanwhile are worker steps before it. Closing a closed channel panics.\<close>

definition Port_stop :: "Port \<Rightarrow> Port outcome" where
  "Port_stop p =
     (if \<not> started p then Ret p
      else if quitClosed p then Panic
      else Ret (p\<lparr>quitClosed := True, running := False\<rparr>))"

text \<open>One round of the worker's loop: it takes the oldest frame and hands it to the callback; the
  result lists the frames the callback got.\<close>

definition Port_worker :: "Port \<Rightarrow> (Port \<times> Frame list) option" where
  "Port_worker p =
     (case txCh p of
        Some (f # q) \<Rightarrow>
          if running p then
            Some (p\<lparr>txCh := Some q, stats := (stats p)\<lparr>RxFrames := RxFrames (stats p) + 1\<rparr>\<rparr>,
                  if hasOnRx p then [f] else [])
          else None
      | _ \<Rightarrow> None)"

definition Port_deliver :: "Frame \<Rightarrow> Port \<Rightarrow> Port \<times> bool" where
  "Port_deliver f p =
     (case txCh p of
        Some q \<Rightarrow>
          if length q < txCap p
          then (p\<lparr>txCh := Some (q @ [f]), stats := (stats p)\<lparr>TxFrames := TxFrames (stats p) + 1\<rparr>\<rparr>, True)
          else (p\<lparr>stats := (stats p)\<lparr>Dropped := Dropped (stats p) + 1\<rparr>\<rparr>, False)
      | None \<Rightarrow> (p\<lparr>stats := (stats p)\<lparr>Dropped := Dropped (stats p) + 1\<rparr>\<rparr>, False))"

section \<open>Router\<close>

definition defaultPortQueueDepth :: int where "defaultPortQueueDepth = 32"

datatype RouterMode = RouterModeSwitch | RouterModeBridge | RouterModeHub | RouterModeOther int

type_synonym port_id = nat
type_synonym port_store = "port_id \<Rightarrow> Port"

record Router =
  rMode :: RouterMode
  ports :: "port_id list"
  closed :: bool

definition NewRouter :: "RouterMode option \<Rightarrow> Router" where
  "NewRouter mode =
     \<lparr>rMode = (case mode of Some m \<Rightarrow> m | None \<Rightarrow> RouterModeSwitch), ports = [], closed = False\<rparr>"

definition RouterModeFromConfig :: "gostring \<Rightarrow> RouterMode option" where
  "RouterModeFromConfig v =
     (if v = str ''switch'' then Some RouterModeSwitch
      else if v = str ''bridge'' then Some RouterModeBridge
      else if v = str ''hub'' then Some RouterModeHub
      else Some RouterModeSwitch)"

definition RegisterPort :: "port_id \<Rightarrow> Router \<Rightarrow> port_store \<Rightarrow> goerr option \<times> Router \<times> port_store" where
  "RegisterPort p r h =
     (if closed r then (Some ErrRouterClosed, r, h)
      else if p \<in> set (ports r) then (Some ErrPortAlreadyRegistered, r, h)
      else (None, r\<lparr>ports := ports r @ [p]\<rparr>, h(p := Port_start defaultPortQueueDepth (h p))))"

definition UnregisterPort ::
  "port_id \<Rightarrow> Router \<Rightarrow> port_store \<Rightarrow> (goerr option \<times> Router \<times> port_store) outcome" where
  "UnregisterPort p r h =
     (if p \<in> set (ports r) then
        (case Port_stop (h p) of
           Panic \<Rightarrow> Panic
         | Ret q \<Rightarrow> Ret (None, r\<lparr>ports := remove1 p (ports r)\<rparr>, h(p := q)))
      else Ret (Some ErrPortNotFound, r, h))"

fun stop_all :: "port_id list \<Rightarrow> port_store \<Rightarrow> port_store outcome" where
  "stop_all [] h = Ret h"
| "stop_all (p # ps) h =
     (case Port_stop (h p) of Panic \<Rightarrow> Panic | Ret q \<Rightarrow> stop_all ps (h(p := q)))"

definition Router_Close :: "Router \<Rightarrow> port_store \<Rightarrow> (Router \<times> port_store) outcome" where
  "Router_Close r h =
     (case stop_all (ports r) h of
        Panic \<Rightarrow> Panic
      | Ret h' \<Rightarrow> Ret (r\<lparr>closed := True, ports := []\<rparr>, h'))"

definition cloneFrame :: "Frame \<Rightarrow> Frame" where
  "cloneFrame f = f\<lparr>Digipeaters := map (\<lambda>d. d) (Digipeaters f), Payload := map (\<lambda>b. b) (Payload f)\<rparr>"

text \<open>Delivering clones of a frame to a list of ports, in order; the boolean \<open>deliver\<close> returns is
  ignored by the callers.\<close>

fun deliver_to :: "Frame \<Rightarrow> port_id list \<Rightarrow> port_store \<Rightarrow> port_store" where
  "deliver_to f [] h = h"
| "deliver_to f (p # ps) h = deliver_to f ps (h(p := fst (Port_deliver (cloneFrame f) (h p))))"

definition bindDynamic :: "Frame \<Rightarrow> port_id \<Rightarrow> port_store \<Rightarrow> port_store" where
  "bindDynamic f srcPort h =
     (if pMode (h srcPort) = PortModeDynamic \<and> Callsign (pDestination (h srcPort)) = []
      then h(srcPort := (h srcPort)\<lparr>pDestination := Source f\<rparr>)
      else h)"

record PortClasses =
  staticMatch :: "port_id option"
  defaultPorts :: "port_id list"
  promoPorts :: "port_id list"
  digiPorts :: "port_id list"

definition classify ::
  "unicode \<Rightarrow> Frame \<Rightarrow> port_id \<Rightarrow> port_store \<Rightarrow> bool \<Rightarrow> port_id \<Rightarrow> PortClasses \<Rightarrow> PortClasses" where
  "classify U f srcPort h hasNextDigi p c =
     (if p = srcPort then c
      else
        case pMode (h p) of
          PortModeStatic \<Rightarrow>
            if \<not> hasNextDigi \<and> Address_Equal U (pDestination (h p)) (Destination f)
            then c\<lparr>staticMatch := Some p\<rparr> else c
        | PortModeDynamic \<Rightarrow>
            if \<not> hasNextDigi \<and> Address_Equal U (pDestination (h p)) (Destination f)
            then c\<lparr>staticMatch := Some p\<rparr> else c
        | PortModeDefault \<Rightarrow> c\<lparr>defaultPorts := defaultPorts c @ [p]\<rparr>
        | PortModePromiscuous \<Rightarrow> c\<lparr>promoPorts := promoPorts c @ [p]\<rparr>
        | PortModeDigipeater \<Rightarrow> if hasNextDigi then c\<lparr>digiPorts := digiPorts c @ [p]\<rparr> else c
        | PortModeOther _ \<Rightarrow> c)"

definition sendSwitch :: "unicode \<Rightarrow> Frame \<Rightarrow> port_id \<Rightarrow> port_id list \<Rightarrow> port_store \<Rightarrow> port_store" where
  "sendSwitch U f srcPort ps h0 =
     (let h = bindDynamic f srcPort h0;
          hasNextDigi = hasUnrepeatedDigi f;
          c = fold (classify U f srcPort h hasNextDigi) ps
                \<lparr>staticMatch = None, defaultPorts = [], promoPorts = [], digiPorts = []\<rparr>;
          h = deliver_to f (promoPorts c) h
      in if hasNextDigi then deliver_to f (digiPorts c) h
         else
           case staticMatch c of
             Some p \<Rightarrow> deliver_to f [p] h
           | None \<Rightarrow> deliver_to f (defaultPorts c) h)"

definition sendBridge :: "Frame \<Rightarrow> port_id \<Rightarrow> port_id list \<Rightarrow> port_store \<Rightarrow> port_store" where
  "sendBridge f srcPort ps h =
     (let others = filter (\<lambda>p. p \<noteq> srcPort) ps;
          defaults = filter (\<lambda>p. pMode (h p) = PortModeDefault) others;
          clients = filter (\<lambda>p. pMode (h p) \<noteq> PortModeDefault) others
      in if pMode (h srcPort) = PortModeDefault then deliver_to f clients h
         else deliver_to f defaults h)"

definition sendHub :: "Frame \<Rightarrow> port_id \<Rightarrow> port_id list \<Rightarrow> port_store \<Rightarrow> port_store" where
  "sendHub f srcPort ps h = deliver_to f (filter (\<lambda>p. p \<noteq> srcPort) ps) h"

definition Router_Send ::
  "unicode \<Rightarrow> Frame option \<Rightarrow> port_id option \<Rightarrow> Router \<Rightarrow> port_store \<Rightarrow> goerr option \<times> port_store" where
  "Router_Send U f srcPort r h =
     (case f of None \<Rightarrow> (Some ErrNilFrame, h) | Some f \<Rightarrow>
      (case srcPort of None \<Rightarrow> (Some ErrNilPort, h) | Some src \<Rightarrow>
        if closed r then (Some ErrRouterClosed, h)
        else
          case rMode r of
            RouterModeBridge \<Rightarrow> (None, sendBridge f src (ports r) h)
          | RouterModeHub \<Rightarrow> (None, sendHub f src (ports r) h)
          | RouterModeSwitch \<Rightarrow> (None, sendSwitch U f src (ports r) h)
          | RouterModeOther _ \<Rightarrow> (Some ErrUnknownRouterMode, h)))"

section \<open>Which ports a frame goes to\<close>

text \<open>The forwarding decision as a specification: for each mode, the ports that get a copy.\<close>

definition addressed_to :: "unicode \<Rightarrow> Frame \<Rightarrow> Port \<Rightarrow> bool" where
  "addressed_to U f p \<longleftrightarrow> pMode p \<in> {PortModeStatic, PortModeDynamic}
     \<and> Address_Equal U (pDestination p) (Destination f)"

definition switch_targets :: "unicode \<Rightarrow> Frame \<Rightarrow> port_id \<Rightarrow> port_id list \<Rightarrow> port_store \<Rightarrow> port_id list" where
  "switch_targets U f src ps h =
     (let others = filter (\<lambda>p. p \<noteq> src) ps;
          with_mode = (\<lambda>m. filter (\<lambda>p. pMode (h p) = m) others);
          matches = filter (\<lambda>p. addressed_to U f (h p)) others
      in with_mode PortModePromiscuous @
         (if hasUnrepeatedDigi f then with_mode PortModeDigipeater
          else if matches \<noteq> [] then [last matches]
          else with_mode PortModeDefault))"

definition targets :: "unicode \<Rightarrow> RouterMode \<Rightarrow> Frame \<Rightarrow> port_id \<Rightarrow> port_id list \<Rightarrow> port_store \<Rightarrow> port_id list" where
  "targets U mode f src ps h =
     (case mode of
        RouterModeSwitch \<Rightarrow> switch_targets U f src ps h
      | RouterModeBridge \<Rightarrow>
          filter (\<lambda>p. (pMode (h p) = PortModeDefault) \<noteq> (pMode (h src) = PortModeDefault))
            (filter (\<lambda>p. p \<noteq> src) ps)
      | RouterModeHub \<Rightarrow> filter (\<lambda>p. p \<noteq> src) ps
      | RouterModeOther _ \<Rightarrow> [])"

lemma cloneFrame_id [simp]: "cloneFrame f = f"
  by (simp add: cloneFrame_def)

lemma deliver_to_append: "deliver_to f (ps @ qs) h = deliver_to f qs (deliver_to f ps h)"
  by (induction ps arbitrary: h) auto

lemma deliver_to_other: "p \<notin> set ps \<Longrightarrow> deliver_to f ps h p = h p"
  by (induction ps arbitrary: h) auto

lemma deliver_to_distinct:
  "distinct ps \<Longrightarrow> deliver_to f ps h p = (if p \<in> set ps then fst (Port_deliver f (h p)) else h p)"
proof (induction ps arbitrary: h)
  case Nil
  then show ?case by simp
next
  case (Cons q ps)
  then show ?case by (cases "p = q") (auto simp: deliver_to_other)
qed

definition class_of ::
  "unicode \<Rightarrow> Frame \<Rightarrow> port_id \<Rightarrow> port_store \<Rightarrow> port_id list \<Rightarrow> PortClasses \<Rightarrow> PortClasses" where
  "class_of U f src h ps c =
     (let others = filter (\<lambda>p. p \<noteq> src) ps;
          matches = filter (\<lambda>p. addressed_to U f (h p)) others;
          digi = hasUnrepeatedDigi f
      in \<lparr>staticMatch = (if \<not> digi \<and> matches \<noteq> [] then Some (last matches) else staticMatch c),
          defaultPorts = defaultPorts c @ filter (\<lambda>p. pMode (h p) = PortModeDefault) others,
          promoPorts = promoPorts c @ filter (\<lambda>p. pMode (h p) = PortModePromiscuous) others,
          digiPorts = digiPorts c @
            (if digi then filter (\<lambda>p. pMode (h p) = PortModeDigipeater) others else [])\<rparr>)"

lemma fold_classify:
  "fold (classify U f src h (hasUnrepeatedDigi f)) ps c = class_of U f src h ps c"
proof (induction ps arbitrary: c)
  case Nil
  then show ?case by (simp add: class_of_def)
next
  case (Cons p ps)
  then show ?case
    by (cases "pMode (h p)")
      (auto simp: class_of_def classify_def addressed_to_def Let_def filter_empty_conv)
qed

lemma bindDynamic_other: "p \<noteq> src \<Longrightarrow> bindDynamic f src h p = h p"
  by (simp add: bindDynamic_def)

lemma bindDynamic_same: "bindDynamic f src h src = (h src)\<lparr>pDestination := pDestination (bindDynamic f src h src)\<rparr>"
  by (simp add: bindDynamic_def)

lemma sendSwitch_targets:
  "sendSwitch U f src ps h = deliver_to f (switch_targets U f src ps h) (bindDynamic f src h)"
proof -
  let ?o = "filter (\<lambda>p. p \<noteq> src) ps"
  have adr: "filter (\<lambda>p. addressed_to U f (bindDynamic f src h p)) ?o = filter (\<lambda>p. addressed_to U f (h p)) ?o"
    by (rule filter_cong) (auto simp: bindDynamic_other)
  have mode: "filter (\<lambda>p. pMode (bindDynamic f src h p) = m) ?o = filter (\<lambda>p. pMode (h p) = m) ?o" for m
    by (rule filter_cong) (auto simp: bindDynamic_other)
  show ?thesis
    unfolding sendSwitch_def Let_def fold_classify class_of_def switch_targets_def adr mode
    by (simp del: filter_filter add: deliver_to_append)
qed

text \<open>The dispatch of \<open>Send\<close> is the forwarding decision followed by the deliveries.\<close>

definition bound_store :: "Router \<Rightarrow> Frame \<Rightarrow> port_id \<Rightarrow> port_store \<Rightarrow> port_store" where
  "bound_store r f src h = (if rMode r = RouterModeSwitch then bindDynamic f src h else h)"

lemma sendBridge_targets:
  "sendBridge f src ps h = deliver_to f (targets U RouterModeBridge f src ps h) h"
  by (cases "pMode (h src) = PortModeDefault") (simp_all add: sendBridge_def targets_def Let_def)

lemma Router_Send_targets:
  assumes "\<not> closed r" and "\<forall>n. rMode r \<noteq> RouterModeOther n"
  shows "Router_Send U (Some f) (Some src) r h =
    (None, deliver_to f (targets U (rMode r) f src (ports r) h) (bound_store r f src h))"
proof (cases "rMode r")
  case RouterModeSwitch
  with assms show ?thesis
    by (simp add: Router_Send_def sendSwitch_targets targets_def bound_store_def)
next
  case RouterModeBridge
  with assms show ?thesis
    by (simp add: Router_Send_def bound_store_def sendBridge_targets [where U = U])
next
  case RouterModeHub
  with assms show ?thesis
    by (simp add: Router_Send_def sendHub_def targets_def bound_store_def)
qed (use assms in simp)

lemma switch_targets_subset: "set (switch_targets U f src ps h) \<subseteq> set ps - {src}"
proof -
  let ?m = "filter (\<lambda>p. addressed_to U f (h p)) (filter (\<lambda>p. p \<noteq> src) ps)"
  have "?m \<noteq> [] \<Longrightarrow> last ?m \<in> set ?m" by (rule last_in_set)
  then show ?thesis by (auto simp: switch_targets_def Let_def split: if_splits)
qed

lemma targets_subset: "set (targets U mode f src ps h) \<subseteq> set ps - {src}"
  using switch_targets_subset [of U f src ps h] by (cases mode) (auto simp: targets_def)

lemma switch_targets_distinct:
  assumes "distinct ps"
  shows "distinct (switch_targets U f src ps h)"
proof -
  let ?m = "filter (\<lambda>p. addressed_to U f (h p)) (filter (\<lambda>p. p \<noteq> src) ps)"
  have "?m \<noteq> [] \<Longrightarrow> last ?m \<in> set ?m" by (rule last_in_set)
  with assms show ?thesis
    by (auto simp: switch_targets_def Let_def addressed_to_def)
qed

lemma targets_distinct: "distinct ps \<Longrightarrow> distinct (targets U mode f src ps h)"
  by (cases mode) (auto simp: targets_def switch_targets_distinct)

section \<open>Invariant of ports and router\<close>

text \<open>A started port's queue is within its capacity, and what was accepted is what the worker
  handled and what still waits.\<close>

definition port_ok :: "Port \<Rightarrow> bool" where
  "port_ok p \<longleftrightarrow> (case txCh p of
       None \<Rightarrow> \<not> started p \<and> TxFrames (stats p) = RxFrames (stats p)
     | Some q \<Rightarrow> started p \<and> length q \<le> txCap p
         \<and> TxFrames (stats p) = RxFrames (stats p) + of_nat (length q))
     \<and> (running p \<longleftrightarrow> started p \<and> \<not> quitClosed p)"

definition router_ok :: "Router \<Rightarrow> port_store \<Rightarrow> bool" where
  "router_ok r h \<longleftrightarrow> distinct (ports r) \<and> (\<forall>p. port_ok (h p)) \<and> (\<forall>p \<in> set (ports r). started (h p))
     \<and> (closed r \<longrightarrow> ports r = [])"

lemma port_ok_start: "port_ok p \<Longrightarrow> port_ok (Port_start d p)"
  by (auto simp: port_ok_def Port_start_def Let_def split: option.splits)

lemma port_ok_stop: "port_ok p \<Longrightarrow> Port_stop p = Ret q \<Longrightarrow> port_ok q"
  by (auto simp: port_ok_def Port_stop_def split: if_splits option.splits)

lemma port_ok_worker: "port_ok p \<Longrightarrow> Port_worker p = Some (q, out) \<Longrightarrow> port_ok q"
  by (auto simp: port_ok_def Port_worker_def split: if_splits option.splits list.splits)

lemma Port_worker_started: "Port_worker p = Some (q, out) \<Longrightarrow> started q = started p"
  by (auto simp: Port_worker_def split: if_splits option.splits list.splits)

lemma port_ok_deliver: "port_ok p \<Longrightarrow> port_ok (fst (Port_deliver f p))"
  by (auto simp: port_ok_def Port_deliver_def split: option.splits)

lemma port_ok_destination: "port_ok (p\<lparr>pDestination := a\<rparr>) = port_ok p"
  by (cases "txCh p") (simp_all add: port_ok_def)

lemma Port_deliver_keeps:
  "started (fst (Port_deliver f p)) = started p" "pMode (fst (Port_deliver f p)) = pMode p"
  "pDestination (fst (Port_deliver f p)) = pDestination p" "running (fst (Port_deliver f p)) = running p"
  by (auto simp: Port_deliver_def split: option.splits)

lemma deliver_to_invariant:
  assumes "\<And>p. Q (h p)" and "\<And>p. Q p \<Longrightarrow> Q (fst (Port_deliver f p))"
  shows "Q (deliver_to f ps h p)"
  using assms(1) by (induction ps arbitrary: h) (auto simp: assms(2))

lemma deliver_to_keeps:
  "started (deliver_to f ps h p) = started (h p)" "pMode (deliver_to f ps h p) = pMode (h p)"
  "pDestination (deliver_to f ps h p) = pDestination (h p)"
  by (induction ps arbitrary: h) (auto simp: Port_deliver_keeps)

lemma bindDynamic_keeps:
  "started (bindDynamic f src h p) = started (h p)" "pMode (bindDynamic f src h p) = pMode (h p)"
  "port_ok (bindDynamic f src h p) = port_ok (h p)"
  by (auto simp: bindDynamic_def port_ok_destination)

lemma router_ok_send: "router_ok r h \<Longrightarrow> router_ok r (snd (Router_Send U f src r h))"
proof (cases "(\<exists>g s. f = Some g \<and> src = Some s) \<and> \<not> closed r \<and> (\<forall>n. rMode r \<noteq> RouterModeOther n)")
  case True
  assume ok: "router_ok r h"
  from True obtain g s where "f = Some g" "src = Some s" by blast
  with True have eq: "snd (Router_Send U f src r h) =
      deliver_to g (targets U (rMode r) g s (ports r) h) (bound_store r g s h)"
    by (simp add: Router_Send_targets)
  have b: "port_ok (bound_store r g s h p)" "started (bound_store r g s h p) = started (h p)" for p
    using ok by (auto simp: bound_store_def bindDynamic_keeps router_ok_def)
  show ?thesis
    using ok deliver_to_invariant [where Q = port_ok, OF b(1) port_ok_deliver]
    by (simp add: router_ok_def eq deliver_to_keeps b)
next
  case False
  then have "snd (Router_Send U f src r h) = h"
    by (auto simp: Router_Send_def split: option.splits RouterMode.splits)
  then show "router_ok r h \<Longrightarrow> ?thesis" by simp
qed

lemma Port_start_started [simp]: "started (Port_start d p)"
  by (simp add: Port_start_def Let_def)

lemma router_ok_register:
  "router_ok r h \<Longrightarrow> RegisterPort p r h = (e, r', h') \<Longrightarrow> router_ok r' h'"
  by (auto simp: RegisterPort_def router_ok_def port_ok_start split: if_splits)

lemma Port_stop_started: "Port_stop p = Ret q \<Longrightarrow> started q = started p"
  by (auto simp: Port_stop_def split: if_splits)

lemma router_ok_unregister:
  assumes ok: "router_ok r h" and u: "UnregisterPort p r h = Ret (e, r', h')"
  shows "router_ok r' h'"
proof (cases "Port_stop (h p)")
  case (Ret q)
  have "port_ok q" "started q = started (h p)"
    using ok port_ok_stop [OF _ Ret] Port_stop_started [OF Ret] by (auto simp: router_ok_def)
  then show ?thesis
    using ok u Ret by (auto simp: UnregisterPort_def router_ok_def split: if_splits dest: in_set_remove1 [THEN iffD1, rotated] notin_set_remove1)
next
  case Panic
  then show ?thesis using ok u by (auto simp: UnregisterPort_def split: if_splits)
qed

lemma stop_all_ok:
  "stop_all ps h = Ret h' \<Longrightarrow> \<forall>p. port_ok (h p) \<Longrightarrow> \<forall>p. port_ok (h' p)"
proof (induction ps arbitrary: h)
  case (Cons p ps)
  then obtain q where q: "Port_stop (h p) = Ret q" "stop_all ps (h(p := q)) = Ret h'"
    by (auto split: outcome.splits)
  then have "\<forall>x. port_ok ((h(p := q)) x)" using Cons.prems(2) port_ok_stop by auto
  with Cons.IH q(2) show ?case by blast
qed simp

lemma router_ok_close: "router_ok r h \<Longrightarrow> Router_Close r h = Ret (r', h') \<Longrightarrow> router_ok r' h'"
  by (auto simp: Router_Close_def router_ok_def dest: stop_all_ok split: outcome.splits)

section \<open>The router as a transition system\<close>

type_synonym net = "Router \<times> port_store"

inductive router_step :: "unicode \<Rightarrow> net \<Rightarrow> net \<Rightarrow> bool" for U where
  register: "RegisterPort p r h = (e, r', h') \<Longrightarrow> router_step U (r, h) (r', h')"
| unregister: "UnregisterPort p r h = Ret (e, r', h') \<Longrightarrow> router_step U (r, h) (r', h')"
| close: "Router_Close r h = Ret (r', h') \<Longrightarrow> router_step U (r, h) (r', h')"
| send: "Router_Send U f src r h = (e, h') \<Longrightarrow> router_step U (r, h) (r, h')"
| worker: "Port_worker (h p) = Some (q, out) \<Longrightarrow> router_step U (r, h) (r, h(p := q))"

inductive_cases router_stepE: "router_step U s t"

definition fresh_port :: "Port \<Rightarrow> bool" where
  "fresh_port p \<longleftrightarrow> \<not> started p \<and> txCh p = None \<and> \<not> running p
     \<and> stats p = \<lparr>RxFrames = 0, TxFrames = 0, Dropped = 0\<rparr>"

definition router_init :: "net \<Rightarrow> bool" where
  "router_init s \<longleftrightarrow> (\<exists>m. fst s = NewRouter m) \<and> (\<forall>p. fresh_port (snd s p))"

lemma router_step_ok: "router_step U s t \<Longrightarrow> router_ok (fst s) (snd s) \<Longrightarrow> router_ok (fst t) (snd t)"
proof (induction rule: router_step.induct)
  case (send f src r h e h')
  then show ?case using router_ok_send [of r h U f src] by simp
next
  case (worker h p q out r)
  have "port_ok q" "started q = started (h p)"
    using worker.prems port_ok_worker [OF _ worker.hyps] Port_worker_started [OF worker.hyps]
    by (auto simp: router_ok_def)
  with worker show ?case by (auto simp: router_ok_def)
qed (auto intro: router_ok_register router_ok_unregister router_ok_close)

interpretation router_sys: transition_system
  router_init "router_step U" "\<lambda>s. router_ok (fst s) (snd s)" for U
proof unfold_locales
  show "router_init s \<Longrightarrow> router_ok (fst s) (snd s)" for s
    by (auto simp: router_init_def router_ok_def port_ok_def fresh_port_def NewRouter_def)
  show "router_ok (fst s) (snd s) \<Longrightarrow> router_step U s t \<Longrightarrow> router_ok (fst t) (snd t)" for s t
    by (rule router_step_ok)
qed

section \<open>Forwarding properties\<close>

definition idle_port :: "PortMode \<Rightarrow> gostring \<Rightarrow> Port" where
  "idle_port m call = \<lparr>pMode = m, pDestination = \<lparr>Callsign = call, SSID = 0, HasBeenRepeated = False, IsLast = False\<rparr>,
     hasOnRx = True, QueueDepth = 0, stats = \<lparr>RxFrames = 0, TxFrames = 0, Dropped = 0\<rparr>,
     txCh = None, txCap = 0, quitClosed = False, running = False, started = False\<rparr>"

lemma last_filter_split:
  "filter P xs \<noteq> [] \<and> p = last (filter P xs) \<longleftrightarrow>
     P p \<and> (\<exists>pre post. xs = pre @ p # post \<and> (\<forall>q \<in> set post. \<not> P q))"
proof
  assume l: "filter P xs \<noteq> [] \<and> p = last (filter P xs)"
  then have "\<exists>x \<in> set xs. P x" by (auto simp: filter_empty_conv)
  then obtain ys x zs where x: "xs = ys @ x # zs" "P x" "\<forall>z \<in> set zs. \<not> P z"
    using split_list_last_prop by metis
  then have "filter P zs = []" by (simp add: filter_empty_conv)
  with l x show "P p \<and> (\<exists>pre post. xs = pre @ p # post \<and> (\<forall>q \<in> set post. \<not> P q))" by auto
next
  assume "P p \<and> (\<exists>pre post. xs = pre @ p # post \<and> (\<forall>q \<in> set post. \<not> P q))"
  then obtain pre post where x: "P p" "xs = pre @ p # post" "\<forall>q \<in> set post. \<not> P q" by blast
  then have "filter P post = []" by (simp add: filter_empty_conv)
  with x show "filter P xs \<noteq> [] \<and> p = last (filter P xs)" by simp
qed

lemma switch_targets_iff:
  "p \<in> set (switch_targets U f src ps h) \<longleftrightarrow> p \<in> set ps \<and> p \<noteq> src \<and>
     (case pMode (h p) of
        PortModePromiscuous \<Rightarrow> True
      | PortModeDigipeater \<Rightarrow> hasUnrepeatedDigi f
      | PortModeDefault \<Rightarrow> \<not> hasUnrepeatedDigi f \<and> (\<forall>q \<in> set ps - {src}. \<not> addressed_to U f (h q))
      | PortModeOther _ \<Rightarrow> False
      | _ \<Rightarrow> \<not> hasUnrepeatedDigi f \<and> addressed_to U f (h p)
          \<and> (\<exists>pre post. ps = pre @ p # post \<and> (\<forall>q \<in> set post - {src}. \<not> addressed_to U f (h q))))"
proof -
  let ?P = "\<lambda>q. q \<noteq> src \<and> addressed_to U f (h q)"
  define later where "later \<longleftrightarrow>
    (\<exists>pre post. ps = pre @ p # post \<and> (\<forall>q \<in> set post - {src}. \<not> addressed_to U f (h q)))"
  define none where "none \<longleftrightarrow> (\<forall>q \<in> set ps - {src}. \<not> addressed_to U f (h q))"
  have inps: "later \<Longrightarrow> p \<in> set ps" by (auto simp: later_def)
  have m: "filter ?P ps \<noteq> [] \<and> p = last (filter ?P ps) \<longleftrightarrow> p \<noteq> src \<and> addressed_to U f (h p) \<and> later"
    unfolding last_filter_split later_def by auto
  have n: "filter ?P ps = [] \<longleftrightarrow> none" by (auto simp: filter_empty_conv none_def)
  have "p \<in> set (switch_targets U f src ps h) \<longleftrightarrow> p \<in> set ps \<and> p \<noteq> src \<and> pMode (h p) = PortModePromiscuous
      \<or> (if hasUnrepeatedDigi f then p \<in> set ps \<and> p \<noteq> src \<and> pMode (h p) = PortModeDigipeater
         else filter ?P ps \<noteq> [] \<and> p = last (filter ?P ps)
           \<or> filter ?P ps = [] \<and> p \<in> set ps \<and> p \<noteq> src \<and> pMode (h p) = PortModeDefault)"
    by (simp add: switch_targets_def Let_def)
  then have "p \<in> set (switch_targets U f src ps h) \<longleftrightarrow> p \<in> set ps \<and> p \<noteq> src \<and>
     (case pMode (h p) of
        PortModePromiscuous \<Rightarrow> True
      | PortModeDigipeater \<Rightarrow> hasUnrepeatedDigi f
      | PortModeDefault \<Rightarrow> \<not> hasUnrepeatedDigi f \<and> none
      | PortModeOther _ \<Rightarrow> False
      | _ \<Rightarrow> \<not> hasUnrepeatedDigi f \<and> addressed_to U f (h p) \<and> later)"
    unfolding m unfolding n using inps by (cases "pMode (h p)") (auto simp: addressed_to_def)
  then show ?thesis unfolding later_def none_def .
qed

text \<open>What the README says of switch mode (\<open>README.md\<close>, lines 13, 31 and 39 to 43): which frames are dropped because they come from another
  address than the one a dynamic port is bound to, and which ports get the others.\<close>

definition readme_drops :: "unicode \<Rightarrow> Frame \<Rightarrow> port_id \<Rightarrow> port_store \<Rightarrow> bool" where
  "readme_drops U f src h \<longleftrightarrow> pMode (h src) = PortModeDynamic \<and> Callsign (pDestination (h src)) \<noteq> []
     \<and> \<not> Address_Equal U (pDestination (h src)) (Source f)"

definition readme_receives :: "unicode \<Rightarrow> Frame \<Rightarrow> port_id \<Rightarrow> port_id list \<Rightarrow> port_store \<Rightarrow> port_id \<Rightarrow> bool" where
  "readme_receives U f src ps h p \<longleftrightarrow> \<not> readme_drops U f src h \<and> p \<in> set ps - {src} \<and>
     (case pMode (h p) of
        PortModePromiscuous \<Rightarrow> True
      | PortModeDigipeater \<Rightarrow> hasUnrepeatedDigi f
      | PortModeDefault \<Rightarrow> \<forall>q \<in> set ps - {src}. \<not> addressed_to U f (h q)
      | PortModeOther _ \<Rightarrow> False
      | _ \<Rightarrow> addressed_to U f (h p))"

lemma switch_targets_readme:
  assumes "\<not> readme_drops U f src h" and "\<not> hasUnrepeatedDigi f"
    and "\<forall>p \<in> set ps - {src}. \<forall>q \<in> set ps - {src}. addressed_to U f (h p) \<and> addressed_to U f (h q) \<longrightarrow> p = q" and "distinct ps"
  shows "set (switch_targets U f src ps h) = {p. readme_receives U f src ps h p}"
proof -
  define later where "later p \<longleftrightarrow>
    (\<exists>pre post. ps = pre @ p # post \<and> (\<forall>q \<in> set post - {src}. \<not> addressed_to U f (h q)))" for p
  define none where "none \<longleftrightarrow> (\<forall>q \<in> set ps - {src}. \<not> addressed_to U f (h q))"
  have last: "later p" if p: "p \<in> set ps" "p \<noteq> src" "addressed_to U f (h p)" for p
  proof -
    obtain pre post where s: "ps = pre @ p # post" using split_list [OF p(1)] by blast
    have "\<not> addressed_to U f (h q)" if q: "q \<in> set post - {src}" for q
    proof -
      have "q \<noteq> p" "q \<in> set ps - {src}" using s q assms(4) by auto
      with assms(3) p show ?thesis by blast
    qed
    with s show ?thesis unfolding later_def by blast
  qed
  have "p \<in> set (switch_targets U f src ps h) \<longleftrightarrow> readme_receives U f src ps h p" for p
    unfolding switch_targets_iff readme_receives_def later_def [symmetric] none_def [symmetric]
    using assms(1,2) last [of p] by (cases "pMode (h p)") auto
  then show ?thesis by blast
qed

lemma switch_targets_pending:
  "hasUnrepeatedDigi f \<Longrightarrow> set (switch_targets U f src ps h) = {p \<in> set ps - {src}. pMode (h p) \<in> {PortModePromiscuous, PortModeDigipeater}}"
  by (auto simp: switch_targets_def Let_def)

lemma switch_targets_source: "switch_targets U (f\<lparr>Source := a\<rparr>) src ps h = switch_targets U f src ps h"
  by (simp add: switch_targets_def addressed_to_def hasUnrepeatedDigi_def)

text \<open>C10: Forwarding. On an open router with one of the three modes and no port registered twice, \<open>Send\<close>, run by itself,
  returns nil and gives one copy of the frame to each port the mode's forwarding rule selects, leaving every other port as it was (but for the
  binding of a dynamic source port); the port the frame came from is never selected. In switch mode the rule is the README's for a frame
  with no digipeater hop to take, if the README does not drop it and no two ports have its destination. In the other cases the code differs
  from what is written, and the statement says how: a frame from another address than the one its dynamic port is bound to is not dropped
  (\<open>README.md\<close>, lines 13 and 40), since the source address has no influence on who gets a copy; and a frame with a hop to take goes to no
  static, dynamic or default port (lines 31 and 41), but to every digipeater port, not only to the one whose address is the next hop
  (the comment in \<open>router.go\<close>, line 21).\<close>

theorem router_send_refines:
  assumes "\<not> closed r" and "rMode r \<in> {RouterModeSwitch, RouterModeBridge, RouterModeHub}"
    and "distinct (ports r)"
  shows "let T = set (targets U (rMode r) f src (ports r) h) in
     T \<subseteq> set (ports r) - {src}
     \<and> Router_Send U (Some f) (Some src) r h =
        (None, \<lambda>p. if p \<in> T then fst (Port_deliver f (h p)) else bound_store r f src h p)
     \<and> (rMode r = RouterModeSwitch \<longrightarrow>
          (\<not> readme_drops U f src h \<and> \<not> hasUnrepeatedDigi f
             \<and> (\<forall>p \<in> set (ports r) - {src}. \<forall>q \<in> set (ports r) - {src}. addressed_to U f (h p) \<and> addressed_to U f (h q) \<longrightarrow> p = q)
             \<longrightarrow> T = {p. readme_receives U f src (ports r) h p})
        \<and> (\<forall>a. set (targets U (rMode r) (f\<lparr>Source := a\<rparr>) src (ports r) h) = T)
        \<and> (hasUnrepeatedDigi f \<longrightarrow> T = {p \<in> set (ports r) - {src}. pMode (h p) \<in> {PortModePromiscuous, PortModeDigipeater}}))"
proof -
  let ?T = "set (targets U (rMode r) f src (ports r) h)"
  have T: "?T \<subseteq> set (ports r) - {src}"
    by (rule targets_subset)
  moreover have "bound_store r f src h p = h p" if "p \<noteq> src" for p
    using that by (simp add: bound_store_def bindDynamic_other)
  ultimately have "bound_store r f src h p = h p" if "p \<in> ?T" for p
    using that by blast
  then have "deliver_to f (targets U (rMode r) f src (ports r) h) (bound_store r f src h) =
      (\<lambda>p. if p \<in> ?T then fst (Port_deliver f (h p)) else bound_store r f src h p)"
    by (auto simp: fun_eq_iff deliver_to_distinct [OF targets_distinct [OF assms(3)]])
  then have send: "Router_Send U (Some f) (Some src) r h = (None, \<lambda>p. if p \<in> ?T then fst (Port_deliver f (h p)) else bound_store r f src h p)"
    using assms(1,2) by (auto simp: Router_Send_targets)
  have switch: "targets U (rMode r) g src (ports r) h = switch_targets U g src (ports r) h" if "rMode r = RouterModeSwitch" for g
    using that by (simp add: targets_def)
  show ?thesis unfolding Let_def
    by (intro conjI impI allI T send) (use switch switch_targets_readme assms(3) switch_targets_source switch_targets_pending in auto)
qed

text \<open>A KISS client that is bound to N0CALL sends a frame of N7GET-5: the uplink gets it.\<close>

theorem router_send_refines_witness:
  "let r = \<lparr>rMode = RouterModeSwitch, ports = [2, 3], closed = False\<rparr>;
       h = (\<lambda>p. Port_start 2 (idle_port (if p = 2 then PortModeDynamic else PortModeDefault) (str ''N0CALL'')));
       U = \<lparr>upper_unicode = id, fold_unicode = (=)\<rparr>
   in readme_drops U sample_frame 2 h
      \<and> Router_Send U (Some sample_frame) (Some 2) r h = (None, \<lambda>p. if p = 3 then fst (Port_deliver sample_frame (h p)) else h p)"
proof -
  let ?r = "\<lparr>rMode = RouterModeSwitch, ports = [2, 3 :: nat], closed = False\<rparr>" and ?U = "\<lparr>upper_unicode = id, fold_unicode = (=)\<rparr>"
  define h where "h = (\<lambda>p :: nat. Port_start 2 (idle_port (if p = 2 then PortModeDynamic else PortModeDefault) (str ''N0CALL'')))"
  have d: "readme_drops ?U sample_frame 2 h"
    by (simp add: h_def readme_drops_def idle_port_def Port_start_def sample_frame_def N7GET_5_def Address_Equal_def)
  have t: "targets ?U RouterModeSwitch sample_frame 2 [2, 3] h = [3]"
    by (simp add: h_def targets_def switch_targets_def addressed_to_def idle_port_def Port_start_def hasUnrepeatedDigi_def sample_frame_def Let_def)
  have b: "bound_store ?r sample_frame 2 h = h" by (simp add: h_def bound_store_def bindDynamic_def idle_port_def Port_start_def)
  have "Router_Send ?U (Some sample_frame) (Some 2) ?r h = (None, \<lambda>p. if p = 3 then fst (Port_deliver sample_frame (h p)) else h p)"
    using router_send_refines [of ?r ?U sample_frame 2 h] t b by (simp add: Let_def cong: if_cong)
  with d show ?thesis unfolding Let_def h_def by blast
qed

text \<open>Switch mode. A frame with a digipeater hop still to take goes to the digipeater ports;
  any other frame goes to the last registered static or dynamic port that has its destination
  address, and to the default ports only when no port has it. Promiscuous ports get every frame.\<close>

theorem switch_selects:
  assumes "distinct ps" and "p \<noteq> src"
  shows "sendSwitch U f src ps h p =
     (if p \<in> set ps \<and>
        (case pMode (h p) of
           PortModePromiscuous \<Rightarrow> True
         | PortModeDigipeater \<Rightarrow> hasUnrepeatedDigi f
         | PortModeDefault \<Rightarrow> \<not> hasUnrepeatedDigi f \<and> (\<forall>q \<in> set ps - {src}. \<not> addressed_to U f (h q))
         | PortModeOther _ \<Rightarrow> False
         | _ \<Rightarrow> \<not> hasUnrepeatedDigi f \<and> addressed_to U f (h p)
             \<and> (\<exists>pre post. ps = pre @ p # post \<and> (\<forall>q \<in> set post - {src}. \<not> addressed_to U f (h q))))
      then fst (Port_deliver f (h p)) else h p)"
  using switch_targets_iff [of p U f src ps h] assms(2)
  unfolding sendSwitch_targets deliver_to_distinct [OF switch_targets_distinct [OF assms(1)]]
  by (simp add: bindDynamic_other)

theorem switch_selects_witness:
  "let h = (\<lambda>_. idle_port PortModePromiscuous [])
   in sendSwitch \<lparr>upper_unicode = id, fold_unicode = (=)\<rparr> sample_frame 4 [4, 5] h 5 = fst (Port_deliver sample_frame (h 5))"
  using switch_selects [of "[4, 5]" 5 4 "\<lparr>upper_unicode = id, fold_unicode = (=)\<rparr>" sample_frame "\<lambda>_. idle_port PortModePromiscuous []"]
  by (simp add: idle_port_def)

text \<open>Bridge isolation. In bridge mode a port gets a copy of a frame exactly when it is
  another registered port and exactly one of it and the source port is a default port: clients
  never hear each other, and neither do uplinks.\<close>

theorem bridge_isolates:
  assumes "distinct ps"
  shows "sendBridge f src ps h = (\<lambda>p.
     if p \<in> set ps \<and> p \<noteq> src \<and> (pMode (h p) = PortModeDefault) \<noteq> (pMode (h src) = PortModeDefault)
     then fst (Port_deliver f (h p)) else h p)"
  using assms by (auto simp: fun_eq_iff sendBridge_targets [where U = "undefined"] targets_def deliver_to_distinct)

theorem bridge_isolates_witness:
  "let h = (\<lambda>p. idle_port (if p = 1 then PortModeDefault else PortModeStatic) [])
   in sendBridge sample_frame 2 [1, 2, 3] h 3 = h 3 \<and>
      sendBridge sample_frame 2 [1, 2, 3] h 1 = fst (Port_deliver sample_frame (h 1))"
  using bridge_isolates [of "[1, 2, 3]" sample_frame 2 "\<lambda>p. idle_port (if p = 1 then PortModeDefault else PortModeStatic) []"]
  by (simp add: idle_port_def)

text \<open>Dynamic binding, and frames from other stations. In switch mode the first frame a
  dynamic port sends binds it to the frame's source, and a bound port keeps its address; but
  whatever station a bound port's frame comes from, the same ports get a copy of it (the README
  says that frames from another address are dropped).\<close>

theorem dynamic_port_binding:
  assumes "pMode (h src) = PortModeDynamic"
  shows "pDestination (sendSwitch U f src ps h src) =
       (if Callsign (pDestination (h src)) = [] then Source f else pDestination (h src))
     \<and> (Callsign (pDestination (h src)) \<noteq> [] \<longrightarrow>
         sendSwitch U (f\<lparr>Source := other\<rparr>) src ps h
           = deliver_to (f\<lparr>Source := other\<rparr>) (switch_targets U f src ps h) h)"
  using assms by (auto simp: sendSwitch_targets switch_targets_source deliver_to_keeps bindDynamic_def)

theorem dynamic_port_binding_witness:
  "let h = (\<lambda>p. idle_port (if p = 2 then PortModeDynamic else PortModeDefault) (str ''N0CALL''));
       U = \<lparr>upper_unicode = id, fold_unicode = (=)\<rparr>
   in sendSwitch U (sample_frame\<lparr>Source := N7GET_5\<rparr>) 2 [2, 3] h
      = deliver_to (sample_frame\<lparr>Source := N7GET_5\<rparr>)
          (switch_targets U sample_frame 2 [2, 3] h) h"
  using dynamic_port_binding [of "\<lambda>p. idle_port (if p = 2 then PortModeDynamic else PortModeDefault) (str ''N0CALL'')" 2
      "\<lparr>upper_unicode = id, fold_unicode = (=)\<rparr>" sample_frame "[2, 3]" N7GET_5]
  by (simp add: idle_port_def Let_def)

text \<open>A port is not restarted. \<open>stop\<close> leaves the started flag set, so registering a port
  again after it was unregistered starts no worker: the frames it accepts stay in its queue, and
  unregistering it once more closes a closed channel, which panics.\<close>

theorem port_reregistered_dead:
  assumes "\<not> closed r" and "p \<in> set (ports r)" and "distinct (ports r)"
    and "started (h p)" and "\<not> quitClosed (h p)"
  shows "\<exists>r1 h1 r2 h2. UnregisterPort p r h = Ret (None, r1, h1)
     \<and> RegisterPort p r1 h1 = (None, r2, h2) \<and> p \<in> set (ports r2)
     \<and> Port_worker (h2 p) = None \<and> UnregisterPort p r2 h2 = Panic"
  using assms
  by (simp add: UnregisterPort_def RegisterPort_def Port_stop_def Port_start_def Port_worker_def
      set_remove1_eq split: option.splits list.splits)

theorem port_reregistered_dead_witness:
  "let r = \<lparr>rMode = RouterModeHub, ports = [4], closed = False\<rparr>;
       h = (\<lambda>_. Port_start 2 (idle_port PortModeDefault []))
   in \<exists>r1 h1 r2 h2. UnregisterPort 4 r h = Ret (None, r1, h1)
     \<and> RegisterPort 4 r1 h1 = (None, r2, h2) \<and> UnregisterPort 4 r2 h2 = Panic"
  using port_reregistered_dead [of "\<lparr>rMode = RouterModeHub, ports = [4], closed = False\<rparr>" 4
      "\<lambda>_. Port_start 2 (idle_port PortModeDefault [])"]
  unfolding Let_def by (auto simp: Port_start_def idle_port_def)

end
