(* ===== verification/Ax25_Digipeater.thy ===== *)
theory Ax25_Digipeater
  imports Ax25_Router
begin

text \<open>
  \<open>src/ax25/digipeater.go\<close>: the digipeater, a router port whose callback relays the frames that
  have it as their next hop. The transmit function is the list of the frames it is called with
  (its error only reaches the log). The lemmas follow a frame through one relay.
\<close>

record Digipeater =
  digiCallsign :: gostring \<comment> \<open>cfg.Callsign\<close>
  digiAddr :: Address
  digiPort :: "port_id option"
  digiEnabled :: bool

definition zero_address :: Address where
  "zero_address = \<lparr>Callsign = [], SSID = 0, HasBeenRepeated = False, IsLast = False\<rparr>"

text \<open>The port literal of \<open>NewDigipeater\<close>; the fields it does not name are zero.\<close>

definition digi_port :: "Address \<Rightarrow> Port" where
  "digi_port addr = \<lparr>pMode = PortModeDigipeater, pDestination = addr, hasOnRx = True, QueueDepth = 0,
     stats = \<lparr>RxFrames = 0, TxFrames = 0, Dropped = 0\<rparr>, txCh = None, txCap = 0,
     quitClosed = False, running = False, started = False\<rparr>"

text \<open>\<open>new\<close> is the identifier of the port the constructor allocates.\<close>

definition NewDigipeater ::
  "unicode \<Rightarrow> gostring \<Rightarrow> port_id \<Rightarrow> bool \<Rightarrow> Router \<Rightarrow> port_store \<Rightarrow>
    (goerr + Digipeater) \<times> Router \<times> port_store" where
  "NewDigipeater U callsign new hasSendFn r h =
     (if \<not> hasSendFn then (Inl (ErrMsg ''ax25: NewDigipeater: sendFn is required''), r, h)
      else
        let d = \<lparr>digiCallsign = callsign, digiAddr = zero_address, digiPort = None, digiEnabled = False\<rparr>
        in if callsign = [] then (Inr d, r, h)
           else
             case ParseAddress U callsign of
               Inl _ \<Rightarrow> (Inl ErrDigiInvalidCallsign, r, h)
             | Inr addr \<Rightarrow>
                 let d = d\<lparr>digiAddr := addr, digiPort := Some new\<rparr>
                 in case RegisterPort new r (h(new := digi_port addr)) of
                      (Some err, r', h') \<Rightarrow> (Inl err, r', h')
                    | (None, r', h') \<Rightarrow> (Inr (d\<lparr>digiEnabled := True\<rparr>), r', h'))"

definition Digipeater_Close ::
  "Digipeater \<Rightarrow> Router \<Rightarrow> port_store \<Rightarrow> (Digipeater \<times> Router \<times> port_store) outcome" where
  "Digipeater_Close d r h =
     (case digiPort d of
        None \<Rightarrow> Ret (d\<lparr>digiEnabled := False\<rparr>, r, h)
      | Some p \<Rightarrow>
          case UnregisterPort p r h of
            Panic \<Rightarrow> Panic
          | Ret (_, r', h') \<Rightarrow> Ret (d\<lparr>digiPort := None, digiEnabled := False\<rparr>, r', h'))"

definition IsEnabled :: "Digipeater \<Rightarrow> bool" where
  "IsEnabled d = digiEnabled d"

definition Digipeater_Port :: "Digipeater \<Rightarrow> port_id option" where
  "Digipeater_Port d = digiPort d"

definition onFrame :: "unicode \<Rightarrow> Digipeater \<Rightarrow> Frame \<Rightarrow> Frame list" where
  "onFrame U d f =
     (if \<not> isNextDigiHop U f (digiAddr d) then []
      else [markDigiHop U (cloneFrame f) (digiAddr d)])"

section \<open>Relaying\<close>


text \<open>A digipeater does not relay a frame twice. What it sent on is not relayed by it again
  unless its address stands on the path once more, in a hop not yet taken.\<close>

theorem digipeater_no_echo:
  assumes "g \<in> set (onFrame U d f)"
    and "\<not> isNextDigiHop U (f\<lparr>Digipeaters := tl (dropWhile HasBeenRepeated (Digipeaters f))\<rparr>) (digiAddr d)"
  shows "onFrame U d g = []"
proof -
  have n: "nextHopIs U (Digipeaters f) (digiAddr d)"
    using assms(1) by (auto simp: onFrame_def isNextDigiHop_def split: if_splits)
  then obtain pre hop post where s: "Digipeaters f = pre @ hop # post" "list_all HasBeenRepeated pre"
    "\<not> HasBeenRepeated hop" "Address_Equal U hop (digiAddr d)" using nextHopIs_prefix by blast
  have drop: "tl (dropWhile HasBeenRepeated (Digipeaters f)) = post"
    using s(1-3) by (simp add: list_all_iff dropWhile_append2)
  have g: "Digipeaters g = pre @ hop\<lparr>HasBeenRepeated := True\<rparr> # post"
    using assms(1) by (auto simp: onFrame_def markDigiHop_def s(1) markHop_next [OF s(2-4)] split: if_splits)
  have "nextHopIs U (pre @ hop\<lparr>HasBeenRepeated := True\<rparr> # post) a = nextHopIs U post a" for a
    using s(2) by (induction pre) auto
  with assms(2) drop g show ?thesis by (simp add: onFrame_def isNextDigiHop_def)
qed

definition via_relay :: Frame where
  "via_relay = sample_frame\<lparr>Digipeaters := [N7GET_5]\<rparr>"

definition relay :: Digipeater where
  "relay = \<lparr>digiCallsign = str ''N7GET-5'', digiAddr = N7GET_5, digiPort = None, digiEnabled = True\<rparr>"

theorem digipeater_no_echo_witness:
  "let U = \<lparr>upper_unicode = id, fold_unicode = (=)\<rparr>
   in onFrame U relay via_relay \<noteq> [] \<and> onFrame U relay (hd (onFrame U relay via_relay)) = []"
proof -
  let ?U = "\<lparr>upper_unicode = id, fold_unicode = (=)\<rparr>"
  have n: "isNextDigiHop ?U via_relay (digiAddr relay)"
    by (simp add: isNextDigiHop_def via_relay_def relay_def N7GET_5_def Address_Equal_def strings_EqualFold_def)
  then have m: "onFrame ?U relay via_relay \<noteq> []" by (simp add: onFrame_def)
  have e: "\<not> isNextDigiHop ?U (via_relay\<lparr>Digipeaters := tl (dropWhile HasBeenRepeated (Digipeaters via_relay))\<rparr>) (digiAddr relay)"
    by (simp add: isNextDigiHop_def via_relay_def N7GET_5_def)
  show ?thesis using digipeater_no_echo [OF hd_in_set [OF m] e] m by simp
qed

text \<open>Starting a digipeater. With a callsign that parses, on an open router, the constructor
  registers one started port of digipeater mode bound to that address; with an empty callsign
  nothing is registered and the digipeater is disabled; a bad callsign or a closed router gives
  an error and leaves the router's list of ports alone.\<close>

theorem new_digipeater_cases:
  assumes "new \<notin> set (ports r)"
  shows "case NewDigipeater U call new True r h of
     (Inr d, r', h') \<Rightarrow>
       if call = [] then \<not> IsEnabled d \<and> Digipeater_Port d = None \<and> r' = r \<and> h' = h
       else IsEnabled d \<and> Digipeater_Port d = Some new \<and> \<not> closed r \<and> r' = r\<lparr>ports := ports r @ [new]\<rparr>
         \<and> ParseAddress U call = Inr (digiAddr d) \<and> pMode (h' new) = PortModeDigipeater
         \<and> pDestination (h' new) = digiAddr d \<and> running (h' new)
         \<and> txCh (h' new) = Some [] \<and> txCap (h' new) = 32
   | (Inl e, r', h') \<Rightarrow> r' = r \<and> call \<noteq> [] \<and>
       (if e = ErrRouterClosed then closed r
        else e = ErrDigiInvalidCallsign \<and> (\<exists>e'. ParseAddress U call = Inl e'))"
proof (cases "ParseAddress U call")
  case (Inl e)
  then show ?thesis by (simp add: NewDigipeater_def IsEnabled_def Digipeater_Port_def Let_def)
next
  case (Inr addr)
  with assms show ?thesis
    by (simp add: NewDigipeater_def RegisterPort_def IsEnabled_def Digipeater_Port_def Let_def
        Port_start_def digi_port_def defaultPortQueueDepth_def)
qed


theorem new_digipeater_cases_witness:
  "case NewDigipeater \<lparr>upper_unicode = id, fold_unicode = (=)\<rparr> [] 1 True (NewRouter None) (\<lambda>_. digi_port N7GET_5) of
     (Inr d, r', h') \<Rightarrow> \<not> IsEnabled d \<and> r' = NewRouter None | _ \<Rightarrow> True"
  using new_digipeater_cases [where new = 1 and r = "NewRouter None" and call = "[]" and
      U = "\<lparr>upper_unicode = id, fold_unicode = (=)\<rparr>" and h = "\<lambda>_. digi_port N7GET_5"]
  by (simp add: NewRouter_def split: prod.splits sum.splits)

end
