(* ===== verification/Ax25_Conn.thy ===== *)
theory Ax25_Conn
  imports Ax25_Frame "HOL-Library.Monad_Syntax"
begin

text \<open>
  \<open>src/ax25/conn.go\<close>: the AX.25 v2.0 connected-mode session. A \<open>Conn\<close> record holds the fields
  of the Go struct; each method with the lock held is a function on records, and the closures it
  queues with \<open>enqueueAction\<close> are \<open>action\<close> values. The acknowledgement loop may run forever on a
  sequence number above 7, so it is a partial function into \<open>option\<close>, \<open>None\<close> being no return.
  \<open>handleDisconnected\<close> gives up the lock around the OnConnect callback; it is split there, and
  whatever happens to the session meanwhile comes between the two parts.
\<close>

section \<open>State\<close>

datatype ConnState =
    ConnStateDisconnected
  | ConnStateAwaitingConnection \<comment> \<open>SABM sent, waiting for UA\<close>
  | ConnStateAwaitingRelease \<comment> \<open>DISC sent, waiting for UA/DM\<close>
  | ConnStateConnected
  | ConnStateTimerRecovery \<comment> \<open>T1 expired, polling peer\<close>

fun ConnState_String :: "ConnState \<Rightarrow> gostring" where
  "ConnState_String ConnStateDisconnected = str ''DISCONNECTED''"
| "ConnState_String ConnStateAwaitingConnection = str ''AWAITING_CONNECTION''"
| "ConnState_String ConnStateAwaitingRelease = str ''AWAITING_RELEASE''"
| "ConnState_String ConnStateConnected = str ''CONNECTED''"
| "ConnState_String ConnStateTimerRecovery = str ''TIMER_RECOVERY''"

record ConnError =
  Code :: goerr
  Message :: string
  RetryCount :: int

text \<open>Which callbacks are set.\<close>

record ConnCallbacks =
  hasOnConnect :: bool
  hasOnDisconnect :: bool
  hasOnLinkReset :: bool
  hasOnError :: bool
  hasOnData :: bool
  hasOnTxFrame :: bool
  hasOnTxAck :: bool

text \<open>The calls the session makes to them.\<close>

datatype action =
    OnConnect Address bool
  | OnDisconnect
  | OnLinkReset
  | OnError ConnError
  | OnData "byte list"
  | OnTxFrame Frame
  | OnTxAck int

text \<open>Durations are in nanoseconds.\<close>

record ConnConfig =
  T1 :: int
  T2 :: int
  T3 :: int
  N2 :: int
  Window :: int

definition defaultConnConfig :: ConnConfig where
  "defaultConnConfig = \<lparr>T1 = 10 * 10 ^ 9, T2 = 1 * 10 ^ 9, T3 = 3 * 60 * 10 ^ 9, N2 = 10, Window = 4\<rparr>"

record pendingFrame =
  pfData :: "byte list"
  pfNs :: byte
  transmitted :: bool

record Conn =
  cfg :: ConnConfig
  cbs :: ConnCallbacks
  localAddr :: Address
  remoteAddr :: Address
  path :: "Address list"
  state :: ConnState
  isLocalInitiated :: bool
  refusePending :: bool
  vs :: byte
  vr :: byte
  va :: byte
  peerBusy :: bool
  localBusy :: bool
  rejSent :: bool
  ackPending :: bool
  retryCount :: int
  txQueue :: "pendingFrame list"
  cancelled :: bool \<comment> \<open>ctx is done\<close>
  t1Timer :: bool \<comment> \<open>the timer pointers are not nil\<close>
  t2Timer :: bool
  t3Timer :: bool
  t1Active :: bool
  t2Active :: bool
  t3Active :: bool
  pendingActions :: "action list"

definition NewConn :: "Address \<Rightarrow> ConnCallbacks \<Rightarrow> ConnConfig option \<Rightarrow> goerr + Conn" where
  "NewConn local cb conf =
     (if \<not> hasOnData cb \<or> \<not> hasOnTxFrame cb
      then Inl (ErrMsg ''ax25: NewConn: OnData and OnTxFrame are required'')
      else
        let conf = (case conf of Some k \<Rightarrow> k | None \<Rightarrow> defaultConnConfig);
            conf = (if Window conf < 1 \<or> Window conf > 7 then conf\<lparr>Window := 4\<rparr> else conf)
        in Inr
          \<lparr>cfg = conf, cbs = cb, localAddr = local,
           remoteAddr = \<lparr>Callsign = [], SSID = 0, HasBeenRepeated = False, IsLast = False\<rparr>,
           path = [], state = ConnStateDisconnected, isLocalInitiated = False, refusePending = False,
           vs = 0, vr = 0, va = 0, peerBusy = False, localBusy = False, rejSent = False,
           ackPending = False, retryCount = 0, txQueue = [], cancelled = False,
           t1Timer = False, t2Timer = False, t3Timer = False,
           t1Active = False, t2Active = False, t3Active = False, pendingActions = []\<rparr>)"

section \<open>Timers\<close>

definition stopT1 :: "Conn \<Rightarrow> Conn" where
  "stopT1 c = c\<lparr>t1Timer := False, t1Active := False\<rparr>"

definition startT1 :: "Conn \<Rightarrow> Conn" where
  "startT1 c = (stopT1 c)\<lparr>t1Active := True, t1Timer := True\<rparr>"

definition startT2 :: "Conn \<Rightarrow> Conn" where
  "startT2 c = (if t2Active c then c else c\<lparr>t2Active := True, t2Timer := True\<rparr>)"

definition stopT2 :: "Conn \<Rightarrow> Conn" where
  "stopT2 c = c\<lparr>t2Timer := False, t2Active := False\<rparr>"

definition stopT3 :: "Conn \<Rightarrow> Conn" where
  "stopT3 c = c\<lparr>t3Timer := False, t3Active := False\<rparr>"

definition startT3 :: "Conn \<Rightarrow> Conn" where
  "startT3 c = (stopT3 c)\<lparr>t3Active := True, t3Timer := True\<rparr>"

definition stopAllTimers :: "Conn \<Rightarrow> Conn" where
  "stopAllTimers c = stopT3 (stopT2 (stopT1 c))"

section \<open>Actions and transitions\<close>

definition enqueueAction :: "action \<Rightarrow> Conn \<Rightarrow> Conn" where
  "enqueueAction a c = c\<lparr>pendingActions := pendingActions c @ [a]\<rparr>"

definition takePendingActions :: "Conn \<Rightarrow> action list \<times> Conn" where
  "takePendingActions c = (pendingActions c, c\<lparr>pendingActions := []\<rparr>)"

definition resetStateVars :: "Conn \<Rightarrow> Conn" where
  "resetStateVars c = c\<lparr>vs := 0, vr := 0, va := 0, peerBusy := False, localBusy := False,
     rejSent := False, ackPending := False, txQueue := []\<rparr>"

definition enterDisconnected :: "Conn \<Rightarrow> Conn" where
  "enterDisconnected c =
     (let c = (stopAllTimers c)\<lparr>state := ConnStateDisconnected\<rparr>
      in if hasOnDisconnect (cbs c) then enqueueAction OnDisconnect c else c)"

definition fireError :: "goerr \<Rightarrow> string \<Rightarrow> int \<Rightarrow> Conn \<Rightarrow> Conn" where
  "fireError code msg retry c =
     (if hasOnError (cbs c)
      then enqueueAction (OnError \<lparr>Code = code, Message = msg, RetryCount = retry\<rparr>) c else c)"

section \<open>Frame builders\<close>

definition buildFrame :: "Conn \<Rightarrow> byte \<Rightarrow> byte \<Rightarrow> byte list \<Rightarrow> Frame" where
  "buildFrame c ctrl pid payload =
     \<lparr>Destination = remoteAddr c, Source = localAddr c, Digipeaters = path c, IsCommand = True,
      Type = IdentifyFrameType ctrl, Control = ctrl, PID = pid, Payload = payload\<rparr>"

definition cloneConnFrame :: "Frame \<Rightarrow> Frame" where
  "cloneConnFrame f = f\<lparr>Digipeaters := Digipeaters f @ [], Payload := Payload f @ []\<rparr>"

definition conn_tx :: "Frame \<Rightarrow> Conn \<Rightarrow> Conn" where
  "conn_tx f c = (if hasOnTxFrame (cbs c) then enqueueAction (OnTxFrame (cloneConnFrame f)) c else c)"

definition with_pf :: "byte \<Rightarrow> bool \<Rightarrow> byte" where
  "with_pf ctrl pf = (if pf then ctrl OR CtrlPFBit else ctrl)"

definition sendSABM :: "bool \<Rightarrow> Conn \<Rightarrow> Conn" where
  "sendSABM poll c = conn_tx (buildFrame c (with_pf CtrlSABM poll) 0 []) c"

definition sendDISC :: "bool \<Rightarrow> Conn \<Rightarrow> Conn" where
  "sendDISC poll c = conn_tx (buildFrame c (with_pf CtrlDISC poll) 0 []) c"

definition sendUA :: "bool \<Rightarrow> Conn \<Rightarrow> Conn" where
  "sendUA final c = conn_tx ((buildFrame c (with_pf CtrlUA final) 0 [])\<lparr>IsCommand := False\<rparr>) c"

definition sendDM :: "bool \<Rightarrow> Conn \<Rightarrow> Conn" where
  "sendDM final c = conn_tx ((buildFrame c (with_pf CtrlDM final) 0 [])\<lparr>IsCommand := False\<rparr>) c"

definition sendRR :: "bool \<Rightarrow> bool \<Rightarrow> Conn \<Rightarrow> Conn" where
  "sendRR pf isCmd c = conn_tx ((buildFrame c (BuildRRControl (vr c) pf) 0 [])\<lparr>IsCommand := isCmd\<rparr>) c"

definition sendRNR :: "bool \<Rightarrow> bool \<Rightarrow> Conn \<Rightarrow> Conn" where
  "sendRNR pf isCmd c = conn_tx ((buildFrame c (BuildRNRControl (vr c) pf) 0 [])\<lparr>IsCommand := isCmd\<rparr>) c"

definition sendREJ :: "bool \<Rightarrow> bool \<Rightarrow> Conn \<Rightarrow> Conn" where
  "sendREJ pf isCmd c = conn_tx ((buildFrame c (BuildREJControl (vr c) pf) 0 [])\<lparr>IsCommand := isCmd\<rparr>) c"

definition sendAck :: "bool \<Rightarrow> bool \<Rightarrow> Conn \<Rightarrow> Conn" where
  "sendAck pf isCmd c = (if localBusy c then sendRNR pf isCmd c else sendRR pf isCmd c)"

section \<open>Sequence numbers and the send window\<close>

definition mod8 :: "byte \<Rightarrow> byte" where
  "mod8 n = n AND 0x07"

definition isValidNR :: "Conn \<Rightarrow> byte \<Rightarrow> bool" where
  "isValidNR c nr =
     (if va c \<le> vs c then va c \<le> nr \<and> nr \<le> vs c else va c \<le> nr \<or> nr \<le> vs c)"

text \<open>The body of the loop over the queue, and the loop over its indices; \<open>break\<close> returns.\<close>

definition send_one :: "nat \<Rightarrow> Conn \<Rightarrow> Conn" where
  "send_one i c =
     (let pf = txQueue c ! i;
          ctrl = BuildIControl (vs c) (vr c) False;
          c = c\<lparr>txQueue := (txQueue c)[i := pf\<lparr>pfNs := vs c, transmitted := True\<rparr>], vs := mod8 (vs c + 1)\<rparr>;
          c = conn_tx ((buildFrame c ctrl PIDNone (pfData pf))\<lparr>Type := FrameI\<rparr>) c
      in if \<not> t1Active c then startT1 c else c)"

fun sendPending_loop :: "nat list \<Rightarrow> Conn \<Rightarrow> Conn" where
  "sendPending_loop [] c = c"
| "sendPending_loop (i # is) c =
     (if transmitted (txQueue c ! i) then sendPending_loop is c
      else if uint (mod8 (vs c - va c)) \<ge> Window (cfg c) \<or> peerBusy c then c
      else sendPending_loop is (send_one i c))"

definition sendPendingIFrames :: "Conn \<Rightarrow> Conn" where
  "sendPendingIFrames c = sendPending_loop [0..<length (txQueue c)] c"

definition retransmitFrom :: "byte \<Rightarrow> Conn \<Rightarrow> Conn" where
  "retransmitFrom nr c =
     sendPendingIFrames (c\<lparr>txQueue := map (\<lambda>pf. if \<not> transmitted pf then pf else pf\<lparr>transmitted := False\<rparr>) (txQueue c),
       vs := nr\<rparr>)"

partial_function (option) ack_loop :: "byte \<Rightarrow> Conn \<Rightarrow> int \<Rightarrow> (Conn \<times> int) option" where
  "ack_loop nr c acked =
     (if va c \<noteq> nr then
        ack_loop nr
          (c\<lparr>txQueue := (if 0 < length (txQueue c) then tl (txQueue c) else txQueue c),
             va := mod8 (va c + 1)\<rparr>)
          (acked + 1)
      else Some (c, acked))"

definition handleReceivedNR :: "byte \<Rightarrow> Conn \<Rightarrow> Conn option" where
  "handleReceivedNR nr c = do {
     (c, acked) \<leftarrow> ack_loop nr c 0;
     let c = (if acked > 0 \<and> hasOnTxAck (cbs c) then enqueueAction (OnTxAck acked) c else c);
     Some (if va c = vs c then startT3 (stopT1 c)
           else if \<not> t1Active c then startT1 c else c)
   }"

definition startNRErrorRecovery :: "string \<Rightarrow> Conn \<Rightarrow> Conn" where
  "startNRErrorRecovery msg c =
     enterDisconnected (sendDM True (fireError (ErrMsg ''ax25: N(R) error'') msg (retryCount c) c))"

section \<open>State handlers\<close>

text \<open>The handlers return a nil error on every path, so they return the session only.\<close>

definition extractReturnPath :: "Frame \<Rightarrow> Address list" where
  "extractReturnPath f =
     rev (map (\<lambda>d. d\<lparr>HasBeenRepeated := False\<rparr>) (filter HasBeenRepeated (Digipeaters f)))"

definition is_u :: "byte \<Rightarrow> Frame \<Rightarrow> bool" where
  "is_u ctrl f \<longleftrightarrow> Type f = FrameU \<and> Control f AND 0xEF = ctrl"

text \<open>\<open>Finished\<close> when the handler ran through; \<open>Accepting\<close> when it released the lock to call
  OnConnect, to go on with \<open>handleDisconnected_resume\<close>.\<close>

datatype handled = Finished Conn | Accepting Conn

definition handleDisconnected_resume :: "bool \<Rightarrow> Conn \<Rightarrow> Conn" where
  "handleDisconnected_resume pf c =
     (if refusePending c then enterDisconnected (sendDM pf c)
      else startT3 (sendUA pf c))"

definition handleDisconnected :: "Frame \<Rightarrow> Conn \<Rightarrow> handled" where
  "handleDisconnected f c =
     (if is_u CtrlSABM f then
        let c = c\<lparr>remoteAddr := Source f, path := extractReturnPath f, isLocalInitiated := False\<rparr>;
            c = (resetStateVars c)\<lparr>state := ConnStateConnected, refusePending := False\<rparr>
        in if hasOnConnect (cbs c) then Accepting c
           else Finished (handleDisconnected_resume (HasPF (Control f)) c)
      else
        let c = c\<lparr>remoteAddr := Source f, path := extractReturnPath f\<rparr>
        in Finished (sendDM (HasPF (Control f)) c))"

definition handleAwaitingConnection :: "Frame \<Rightarrow> Conn \<Rightarrow> Conn" where
  "handleAwaitingConnection f c =
     (if is_u CtrlUA f then
        let c = (resetStateVars (stopT1 c))\<lparr>state := ConnStateConnected\<rparr>;
            c = (if hasOnConnect (cbs c) then enqueueAction (OnConnect (remoteAddr c) True) c else c)
        in sendPendingIFrames (startT3 c)
      else if is_u CtrlDM f then
        enterDisconnected (fireError ErrConnNotConnected ''connection refused (DM received)'' 0 (stopT1 c))
      else c)"

definition handleAwaitingRelease :: "Frame \<Rightarrow> Conn \<Rightarrow> Conn" where
  "handleAwaitingRelease f c =
     (if is_u CtrlUA f \<or> is_u CtrlDM f then enterDisconnected (stopT1 c) else c)"

definition receive_data :: "Frame \<Rightarrow> bool \<Rightarrow> Conn \<Rightarrow> Conn" where
  "receive_data f pf c =
     (let c = c\<lparr>vr := mod8 (vr c + 1), rejSent := False\<rparr>;
          c = (if hasOnData (cbs c) \<and> 0 < length (Payload f) then enqueueAction (OnData (Payload f)) c else c)
      in if pf then (sendAck True False c)\<lparr>ackPending := False\<rparr>
         else startT2 (c\<lparr>ackPending := True\<rparr>))"

definition handleIFrame :: "Frame \<Rightarrow> Conn \<Rightarrow> Conn option" where
  "handleIFrame f c =
     (if localBusy c then Some (sendRNR False False c)
      else
        let n = ExtractNS (Control f); nr = ExtractNR (Control f); pf = HasPF (Control f)
        in if \<not> isValidNR c nr then Some (startNRErrorRecovery ''invalid N(R) in I-frame'' c)
           else do {
             c \<leftarrow> handleReceivedNR nr c;
             Some (if n = vr c then receive_data f pf c
                   else if \<not> rejSent c then sendREJ pf False (c\<lparr>rejSent := True\<rparr>)
                   else if pf then sendRR True False c
                   else c)
           })"

definition handleSFrame :: "Frame \<Rightarrow> Conn \<Rightarrow> Conn option" where
  "handleSFrame f c =
     (let nr = ExtractNR (Control f); pf = HasPF (Control f)
      in if \<not> isValidNR c nr then Some (startNRErrorRecovery ''invalid N(R) in S-frame'' c)
         else if Control f AND 0x0F = CtrlRRMask then do {
           c \<leftarrow> handleReceivedNR nr (c\<lparr>peerBusy := False\<rparr>);
           Some (if pf \<and> state c = ConnStateTimerRecovery then
                   let c = (stopT1 c)\<lparr>state := ConnStateConnected\<rparr>
                   in if va c \<noteq> vs c then retransmitFrom (va c) c else c
                 else if pf then sendRR True False c
                 else c)
         }
         else if Control f AND 0x0F = CtrlRNRMask then do {
           c \<leftarrow> handleReceivedNR nr (c\<lparr>peerBusy := True\<rparr>);
           Some (if pf then startT3 (stopT1 c) else c)
         }
         else if Control f AND 0x0F = CtrlREJMask then do {
           c \<leftarrow> handleReceivedNR nr (c\<lparr>peerBusy := False\<rparr>);
           let c = retransmitFrom nr ((stopT1 c)\<lparr>retryCount := 0, state := ConnStateConnected\<rparr>);
           Some (if pf then sendRR True False c else c)
         }
         else Some c)"

definition handleUFrameConnected :: "Frame \<Rightarrow> Conn \<Rightarrow> Conn" where
  "handleUFrameConnected f c =
     (let ctrl = Control f AND 0xEF
      in if ctrl = CtrlSABM then
           let c = sendUA (HasPF (Control f)) (resetStateVars c)
           in if hasOnLinkReset (cbs c) then enqueueAction OnLinkReset c else c
         else if ctrl = CtrlDISC then enterDisconnected (sendUA (HasPF (Control f)) c)
         else if ctrl = CtrlDM then
           enterDisconnected (fireError (ErrMsg ''DM received while connected'') ''remote disconnected'' (retryCount c) c)
         else c)"

definition handleConnected :: "Frame \<Rightarrow> Conn \<Rightarrow> Conn option" where
  "handleConnected f c =
     (case Type f of
        FrameI \<Rightarrow> handleIFrame f c
      | FrameS \<Rightarrow> handleSFrame f c
      | FrameU \<Rightarrow> Some (handleUFrameConnected f c)
      | _ \<Rightarrow> Some c)"

definition handleTimerRecovery :: "Frame \<Rightarrow> Conn \<Rightarrow> Conn option" where
  "handleTimerRecovery f c = handleConnected f c"

section \<open>Public methods\<close>

text \<open>A method gives its error, the calls it makes once the lock is released and the new session.\<close>

type_synonym conn_result = "goerr option \<times> action list \<times> Conn"

definition unlock :: "goerr option \<Rightarrow> Conn \<Rightarrow> conn_result" where
  "unlock err c = (err, takePendingActions c)"

definition Conn_Close :: "Conn \<Rightarrow> Conn" where
  "Conn_Close c = (stopAllTimers c)\<lparr>state := ConnStateDisconnected, cancelled := True\<rparr>"

definition Conn_State :: "Conn \<Rightarrow> ConnState" where
  "Conn_State c = state c"

definition IsConnected :: "Conn \<Rightarrow> bool" where
  "IsConnected c = (Conn_State c = ConnStateConnected \<or> Conn_State c = ConnStateTimerRecovery)"

definition Connect :: "Address \<Rightarrow> Address list \<Rightarrow> Conn \<Rightarrow> conn_result" where
  "Connect remote via c =
     (if state c \<noteq> ConnStateDisconnected then (Some ErrConnAlreadyActive, [], c)
      else
        let c = resetStateVars (c\<lparr>remoteAddr := remote, path := via, isLocalInitiated := True\<rparr>);
            c = startT1 (c\<lparr>state := ConnStateAwaitingConnection, retryCount := 0\<rparr>)
        in unlock None (sendSABM True c))"

definition Shutdown :: "Conn \<Rightarrow> conn_result" where
  "Shutdown c =
     (if state c = ConnStateDisconnected then (Some ErrConnNotConnected, [], c)
      else
        let c = startT1 ((stopAllTimers c)\<lparr>state := ConnStateAwaitingRelease, retryCount := 0\<rparr>)
        in unlock None (sendDISC True c))"

definition SendData :: "byte list \<Rightarrow> Conn \<Rightarrow> conn_result" where
  "SendData bs c =
     (if state c \<noteq> ConnStateConnected \<and> state c \<noteq> ConnStateTimerRecovery then (Some ErrConnNotConnected, [], c)
      else if int (length (txQueue c)) \<ge> Window (cfg c) then (Some ErrConnSendBufFull, [], c)
      else
        let c = c\<lparr>txQueue := txQueue c @ [\<lparr>pfData = bs, pfNs = 0, transmitted = False\<rparr>]\<rparr>
        in unlock None (sendPendingIFrames c))"

definition Refuse :: "Conn \<Rightarrow> Conn" where
  "Refuse c = c\<lparr>refusePending := True\<rparr>"

definition SetBusy :: "bool \<Rightarrow> Conn \<Rightarrow> conn_result" where
  "SetBusy busy c =
     (if localBusy c = busy then (None, [], c)
      else
        let c = c\<lparr>localBusy := busy\<rparr>;
            c = (if state c = ConnStateConnected \<or> state c = ConnStateTimerRecovery then
                   if busy then sendRNR False False (stopT2 (c\<lparr>ackPending := False\<rparr>))
                   else sendRR False False c
                 else c)
        in unlock None c)"

text \<open>\<open>OnFrame\<close> either returns, or waits for the OnConnect callback it called with the lock
  released; \<open>OnFrame_resume\<close> is the rest of it.\<close>

datatype frame_result = Returned conn_result | CallsOnConnect Address Conn

definition OnFrame :: "Frame \<Rightarrow> Conn \<Rightarrow> frame_result option" where
  "OnFrame f c =
     (if Type f = FrameUI then Some (Returned (None, [], c))
      else
        case state c of
          ConnStateDisconnected \<Rightarrow>
            (case handleDisconnected f c of
               Accepting c \<Rightarrow> Some (CallsOnConnect (remoteAddr c) c)
             | Finished c \<Rightarrow> Some (Returned (unlock None c)))
        | ConnStateAwaitingConnection \<Rightarrow> Some (Returned (unlock None (handleAwaitingConnection f c)))
        | ConnStateAwaitingRelease \<Rightarrow> Some (Returned (unlock None (handleAwaitingRelease f c)))
        | ConnStateConnected \<Rightarrow> map_option (\<lambda>c. Returned (unlock None c)) (handleConnected f c)
        | ConnStateTimerRecovery \<Rightarrow> map_option (\<lambda>c. Returned (unlock None c)) (handleTimerRecovery f c))"

definition OnFrame_resume :: "bool \<Rightarrow> Conn \<Rightarrow> conn_result" where
  "OnFrame_resume pf c = unlock None (handleDisconnected_resume pf c)"

section \<open>Timer callbacks\<close>

definition retry_or_fail :: "string \<Rightarrow> (Conn \<Rightarrow> Conn) \<Rightarrow> (Conn \<Rightarrow> Conn) \<Rightarrow> Conn \<Rightarrow> Conn" where
  "retry_or_fail why before_end resend c =
     (if retryCount c \<ge> N2 (cfg c)
      then enterDisconnected (before_end (fireError (ErrMsg why) ''N2 exceeded'' (retryCount c) c))
      else startT1 (resend (c\<lparr>retryCount := retryCount c + 1\<rparr>)))"

definition onT1Expired :: "Conn \<Rightarrow> action list \<times> Conn" where
  "onT1Expired c =
     (let c = c\<lparr>t1Active := False\<rparr>;
          recover = retry_or_fail ''link failure'' (sendDM True) (sendRR True True)
      in takePendingActions
       (case state c of
          ConnStateAwaitingConnection \<Rightarrow> retry_or_fail ''connection timeout'' id (sendSABM True) c
        | ConnStateAwaitingRelease \<Rightarrow> retry_or_fail ''disconnect timeout'' id (sendDISC True) c
        | ConnStateConnected \<Rightarrow> recover (c\<lparr>state := ConnStateTimerRecovery, retryCount := 0\<rparr>)
        | ConnStateTimerRecovery \<Rightarrow> recover c
        | ConnStateDisconnected \<Rightarrow> c))"

definition onT2Expired :: "Conn \<Rightarrow> action list \<times> Conn" where
  "onT2Expired c =
     (let c = c\<lparr>t2Active := False\<rparr>
      in takePendingActions
       (if (state c = ConnStateConnected \<or> state c = ConnStateTimerRecovery) \<and> ackPending c
        then (sendAck False False c)\<lparr>ackPending := False\<rparr> else c))"

definition onT3Expired :: "Conn \<Rightarrow> action list \<times> Conn" where
  "onT3Expired c =
     (let c = c\<lparr>t3Active := False\<rparr>
      in takePendingActions
       (if state c = ConnStateConnected
        then startT1 ((sendRR True True c)\<lparr>state := ConnStateTimerRecovery, retryCount := 0\<rparr>) else c))"

end
