(* ===== verification/Ax25_Conn_Window.thy ===== *)
theory Ax25_Conn_Window
  imports Ax25_Conn
begin

text \<open>
  The send window of a session: the sequence numbers modulo eight, the queue of unacknowledged
  frames, and what transmission, acknowledgement and retransmission do to them. The invariant
  \<open>window_ok\<close> says that the transmitted frames are the first ones of the queue, that they carry
  the numbers from V(A) on, and that there are V(S) - V(A) of them.
\<close>

section \<open>What each helper leaves alone\<close>

text \<open>Sending a frame, reporting an error and queueing a call only extend the list of calls.\<close>

lemma conn_tx_calls:
  "conn_tx f c = c\<lparr>pendingActions := pendingActions c @ (if hasOnTxFrame (cbs c) then [OnTxFrame f] else [])\<rparr>"
  by (simp add: conn_tx_def enqueueAction_def cloneConnFrame_def)

lemma fireError_calls:
  "fireError e m n c = c\<lparr>pendingActions := pendingActions c @
     (if hasOnError (cbs c) then [OnError \<lparr>Code = e, Message = m, RetryCount = n\<rparr>] else [])\<rparr>"
  by (simp add: fireError_def enqueueAction_def)

definition tx_call :: "Conn \<Rightarrow> Frame \<Rightarrow> action list" where
  "tx_call c f = (if hasOnTxFrame (cbs c) then [OnTxFrame f] else [])"

lemmas send_defs = sendSABM_def sendDISC_def sendUA_def sendDM_def sendRR_def sendRNR_def sendREJ_def

lemma send_calls:
  "sendSABM p c = c\<lparr>pendingActions := pendingActions c @ tx_call c (buildFrame c (with_pf CtrlSABM p) 0 [])\<rparr>"
  "sendDISC p c = c\<lparr>pendingActions := pendingActions c @ tx_call c (buildFrame c (with_pf CtrlDISC p) 0 [])\<rparr>"
  "sendUA p c = c\<lparr>pendingActions := pendingActions c @ tx_call c ((buildFrame c (with_pf CtrlUA p) 0 [])\<lparr>IsCommand := False\<rparr>)\<rparr>"
  "sendDM p c = c\<lparr>pendingActions := pendingActions c @ tx_call c ((buildFrame c (with_pf CtrlDM p) 0 [])\<lparr>IsCommand := False\<rparr>)\<rparr>"
  "sendRR p m c = c\<lparr>pendingActions := pendingActions c @ tx_call c ((buildFrame c (BuildRRControl (vr c) p) 0 [])\<lparr>IsCommand := m\<rparr>)\<rparr>"
  "sendRNR p m c = c\<lparr>pendingActions := pendingActions c @ tx_call c ((buildFrame c (BuildRNRControl (vr c) p) 0 [])\<lparr>IsCommand := m\<rparr>)\<rparr>"
  "sendREJ p m c = c\<lparr>pendingActions := pendingActions c @ tx_call c ((buildFrame c (BuildREJControl (vr c) p) 0 [])\<lparr>IsCommand := m\<rparr>)\<rparr>"
  by (simp_all add: send_defs conn_tx_calls tx_call_def)

lemmas timer_defs = startT1_def stopT1_def startT3_def stopT3_def stopT2_def stopAllTimers_def

text \<open>The fields that transmission of pending frames does not change.\<close>

lemma send_one_queue:
  "txQueue (send_one i c) = (txQueue c)[i := (txQueue c ! i)\<lparr>pfNs := vs c, transmitted := True\<rparr>]"
  "vs (send_one i c) = mod8 (vs c + 1)" "t1Active (send_one i c)"
  by (simp_all add: send_one_def Let_def conn_tx_calls timer_defs)

lemma send_one_keeps [simp]:
  "cfg (send_one i c) = cfg c"
  "cbs (send_one i c) = cbs c"
  "state (send_one i c) = state c"
  "va (send_one i c) = va c"
  "vr (send_one i c) = vr c"
  "peerBusy (send_one i c) = peerBusy c"
  "localBusy (send_one i c) = localBusy c"
  "ackPending (send_one i c) = ackPending c"
  "retryCount (send_one i c) = retryCount c"
  "t2Active (send_one i c) = t2Active c"
  "t3Active (send_one i c) = t3Active c"
  "refusePending (send_one i c) = refusePending c"
  "rejSent (send_one i c) = rejSent c"
  "remoteAddr (send_one i c) = remoteAddr c"
  "localAddr (send_one i c) = localAddr c"
  "path (send_one i c) = path c"
  by (simp_all add: send_one_def Let_def conn_tx_calls timer_defs)

lemma sendPending_loop_keeps [simp]:
  "cfg (sendPending_loop is c) = cfg c"
  "cbs (sendPending_loop is c) = cbs c"
  "state (sendPending_loop is c) = state c"
  "va (sendPending_loop is c) = va c"
  "vr (sendPending_loop is c) = vr c"
  "peerBusy (sendPending_loop is c) = peerBusy c"
  "localBusy (sendPending_loop is c) = localBusy c"
  "ackPending (sendPending_loop is c) = ackPending c"
  "retryCount (sendPending_loop is c) = retryCount c"
  "t2Active (sendPending_loop is c) = t2Active c"
  "t3Active (sendPending_loop is c) = t3Active c"
  "refusePending (sendPending_loop is c) = refusePending c"
  "rejSent (sendPending_loop is c) = rejSent c"
  "remoteAddr (sendPending_loop is c) = remoteAddr c"
  "localAddr (sendPending_loop is c) = localAddr c"
  "path (sendPending_loop is c) = path c"
  "length (txQueue (sendPending_loop is c)) = length (txQueue c)"
  by (induction "is" c rule: sendPending_loop.induct) (simp_all add: send_one_queue)

lemma sendPending_keeps [simp]:
  "cfg (sendPendingIFrames c) = cfg c" "cbs (sendPendingIFrames c) = cbs c"
  "state (sendPendingIFrames c) = state c" "va (sendPendingIFrames c) = va c"
  "vr (sendPendingIFrames c) = vr c" "peerBusy (sendPendingIFrames c) = peerBusy c"
  "localBusy (sendPendingIFrames c) = localBusy c" "ackPending (sendPendingIFrames c) = ackPending c"
  "retryCount (sendPendingIFrames c) = retryCount c"
  "length (txQueue (sendPendingIFrames c)) = length (txQueue c)"
  "t2Active (sendPendingIFrames c) = t2Active c" "t3Active (sendPendingIFrames c) = t3Active c"
  "refusePending (sendPendingIFrames c) = refusePending c" "rejSent (sendPendingIFrames c) = rejSent c"
  by (simp_all add: sendPendingIFrames_def sendPending_loop_keeps)

lemma retransmitFrom_keeps [simp]:
  "cfg (retransmitFrom n c) = cfg c" "cbs (retransmitFrom n c) = cbs c"
  "state (retransmitFrom n c) = state c" "va (retransmitFrom n c) = va c"
  "vr (retransmitFrom n c) = vr c" "peerBusy (retransmitFrom n c) = peerBusy c"
  "localBusy (retransmitFrom n c) = localBusy c" "ackPending (retransmitFrom n c) = ackPending c"
  "retryCount (retransmitFrom n c) = retryCount c"
  "length (txQueue (retransmitFrom n c)) = length (txQueue c)"
  "t2Active (retransmitFrom n c) = t2Active c" "t3Active (retransmitFrom n c) = t3Active c"
  "refusePending (retransmitFrom n c) = refusePending c"
  by (simp_all add: retransmitFrom_def)

section \<open>Sequence numbers\<close>

lemma mod8_less [simp]: "mod8 x < 8"
  by (simp add: mod8_def)

lemma unat_mod8: "unat (mod8 x) = unat x mod 8"
  by (simp add: mod8_def unat_and_7)

lemma mod8_id: "x < 8 \<Longrightarrow> mod8 x = x"
  by (simp add: mod8_def less_8_and_7)

text \<open>The distance from one sequence number to another, modulo eight.\<close>

definition dist8 :: "byte \<Rightarrow> byte \<Rightarrow> nat" where
  "dist8 a b = unat (mod8 (b - a))"

lemma dist8_less [simp]: "dist8 a b < 8"
  by (simp add: dist8_def unat_mod8)

lemma less_8_cases: "(x :: byte) < 8 \<Longrightarrow> x \<in> {0, 1, 2, 3, 4, 5, 6, 7}"
proof -
  assume "x < 8"
  then have "unat x < 8" by (simp add: word_less_nat_alt)
  moreover have "x = of_nat (unat x)" by simp
  ultimately obtain n where n: "x = of_nat n" "n < 8" by blast
  then have "n \<in> {0, 1, 2, 3, 4, 5, 6, 7}" by auto
  with n show ?thesis by auto
qed

lemma dist8_0: "a < 8 \<Longrightarrow> b < 8 \<Longrightarrow> dist8 a b = 0 \<longleftrightarrow> a = b"
  by (drule less_8_cases, drule less_8_cases) (auto simp: dist8_def mod8_def)

lemma dist8_same [simp]: "dist8 a a = 0"
  by (simp add: dist8_def mod8_def)

lemma dist8_Suc: "a < 8 \<Longrightarrow> b < 8 \<Longrightarrow> dist8 a b < 7 \<Longrightarrow> dist8 a (mod8 (b + 1)) = Suc (dist8 a b)"
  by (drule less_8_cases, drule less_8_cases) (auto simp: dist8_def mod8_def)

lemma dist8_step: "a < 8 \<Longrightarrow> b < 8 \<Longrightarrow> a \<noteq> b \<Longrightarrow> dist8 a b = Suc (dist8 (mod8 (a + 1)) b)"
  by (drule less_8_cases, drule less_8_cases) (auto simp: dist8_def mod8_def)

lemma dist8_end: "a < 8 \<Longrightarrow> b < 8 \<Longrightarrow> mod8 (a + of_nat (dist8 a b)) = b"
proof -
  assume "a < 8" "b < 8"
  then have "mod8 (a + mod8 (b - a)) = b" unfolding mod8_def
    by (drule_tac less_8_cases, drule_tac less_8_cases) auto
  then show ?thesis by (simp add: dist8_def)
qed

lemma dist8_nat:
  "a < 8 \<Longrightarrow> b < 8 \<Longrightarrow>
     dist8 a b = (if unat a \<le> unat b then unat b - unat a else unat b + 8 - unat a)"
  by (drule less_8_cases, drule less_8_cases) (auto simp: dist8_def mod8_def)

lemma isValidNR_window:
  assumes "va c < 8" and "vs c < 8" and "nr < 8"
  shows "isValidNR c nr \<longleftrightarrow> dist8 (va c) nr \<le> dist8 (va c) (vs c)"
proof -
  have "unat (va c) < 8" "unat (vs c) < 8" "unat nr < 8"
    using assms by (simp_all add: word_less_nat_alt)
  with assms show ?thesis
    by (auto simp: isValidNR_def dist8_nat word_le_nat_alt)
qed

section \<open>The window invariant\<close>

abbreviation outstanding :: "Conn \<Rightarrow> nat" where
  "outstanding c \<equiv> dist8 (va c) (vs c)"

lemma outstanding_uint: "uint (mod8 (vs c - va c)) = int (outstanding c)"
  by (simp add: dist8_def)

definition window_ok :: "Conn \<Rightarrow> bool" where
  "window_ok c \<longleftrightarrow> vs c < 8 \<and> va c < 8 \<and> outstanding c \<le> length (txQueue c)
     \<and> (\<forall>i < length (txQueue c). transmitted (txQueue c ! i) \<longleftrightarrow> i < outstanding c)
     \<and> (\<forall>i < outstanding c. pfNs (txQueue c ! i) = mod8 (va c + of_nat i))"

definition config_ok :: "Conn \<Rightarrow> bool" where
  "config_ok c \<longleftrightarrow> 1 \<le> Window (cfg c) \<and> Window (cfg c) \<le> 7"

text \<open>Only the sequence numbers and the queue matter for it.\<close>

lemma window_ok_updates [simp]:
  "window_ok (c\<lparr>remoteAddr := x0\<rparr>) = window_ok c"
  "window_ok (c\<lparr>path := x1\<rparr>) = window_ok c"
  "window_ok (c\<lparr>state := x2\<rparr>) = window_ok c"
  "window_ok (c\<lparr>isLocalInitiated := x3\<rparr>) = window_ok c"
  "window_ok (c\<lparr>refusePending := x4\<rparr>) = window_ok c"
  "window_ok (c\<lparr>vr := x5\<rparr>) = window_ok c"
  "window_ok (c\<lparr>peerBusy := x6\<rparr>) = window_ok c"
  "window_ok (c\<lparr>localBusy := x7\<rparr>) = window_ok c"
  "window_ok (c\<lparr>rejSent := x8\<rparr>) = window_ok c"
  "window_ok (c\<lparr>ackPending := x9\<rparr>) = window_ok c"
  "window_ok (c\<lparr>retryCount := x10\<rparr>) = window_ok c"
  "window_ok (c\<lparr>cancelled := x11\<rparr>) = window_ok c"
  "window_ok (c\<lparr>t1Timer := x12\<rparr>) = window_ok c"
  "window_ok (c\<lparr>t2Timer := x13\<rparr>) = window_ok c"
  "window_ok (c\<lparr>t3Timer := x14\<rparr>) = window_ok c"
  "window_ok (c\<lparr>t1Active := x15\<rparr>) = window_ok c"
  "window_ok (c\<lparr>t2Active := x16\<rparr>) = window_ok c"
  "window_ok (c\<lparr>t3Active := x17\<rparr>) = window_ok c"
  "window_ok (c\<lparr>pendingActions := x18\<rparr>) = window_ok c"
  by (simp_all add: window_ok_def)

lemma window_ok_reset [simp]: "window_ok (resetStateVars c)"
  by (simp add: window_ok_def resetStateVars_def)

lemma resetStateVars_fields [simp]:
  "vs (resetStateVars c) = 0" "vr (resetStateVars c) = 0" "va (resetStateVars c) = 0"
  "peerBusy (resetStateVars c) = False" "localBusy (resetStateVars c) = False"
  "rejSent (resetStateVars c) = False" "ackPending (resetStateVars c) = False" "txQueue (resetStateVars c) = []"
  "cfg (resetStateVars c) = cfg c"
  "cbs (resetStateVars c) = cbs c"
  "state (resetStateVars c) = state c"
  "retryCount (resetStateVars c) = retryCount c"
  "t1Active (resetStateVars c) = t1Active c"
  "t2Active (resetStateVars c) = t2Active c"
  "t3Active (resetStateVars c) = t3Active c"
  "refusePending (resetStateVars c) = refusePending c"
  "pendingActions (resetStateVars c) = pendingActions c"
  "remoteAddr (resetStateVars c) = remoteAddr c"
  "localAddr (resetStateVars c) = localAddr c"
  "path (resetStateVars c) = path c"
  by (simp_all add: resetStateVars_def)

lemma outstanding_send_one:
  "window_ok c \<Longrightarrow> outstanding c < 7 \<Longrightarrow> outstanding (send_one i c) = Suc (outstanding c)"
  by (simp add: send_one_queue window_ok_def dist8_Suc)

lemma window_ok_send_one:
  assumes ok: "window_ok c" and i: "outstanding c < 7" "outstanding c < length (txQueue c)"
  shows "window_ok (send_one (outstanding c) c)"
proof -
  have "vs c = mod8 (va c + of_nat (outstanding c))" using ok dist8_end by (simp add: window_ok_def)
  then show ?thesis
    using ok i outstanding_send_one [OF ok i(1), of "outstanding c"]
    by (auto simp: window_ok_def send_one_queue nth_list_update less_Suc_eq)
qed

text \<open>The I frame for queue entry \<open>i\<close>, as \<open>sendPendingIFrames\<close> builds it.\<close>

definition i_frame :: "Conn \<Rightarrow> nat \<Rightarrow> Frame" where
  "i_frame c i = (buildFrame c (BuildIControl (mod8 (va c + of_nat i)) (vr c) False) PIDNone
     (pfData (txQueue c ! i)))\<lparr>Type := FrameI\<rparr>"

lemma send_one_calls:
  "pendingActions (send_one i c) = pendingActions c @
     tx_call c ((buildFrame c (BuildIControl (vs c) (vr c) False) PIDNone (pfData (txQueue c ! i)))\<lparr>Type := FrameI\<rparr>)"
  by (simp add: send_one_def Let_def conn_tx_calls tx_call_def timer_defs buildFrame_def)

lemma send_one_data: "pfData (txQueue (send_one i c) ! j) = pfData (txQueue c ! j)"
  by (cases "i < length (txQueue c)") (simp_all add: send_one_queue nth_list_update list_update_beyond)

lemma i_frame_send_one: "i_frame (send_one i c) j = i_frame c j"
  by (simp add: i_frame_def buildFrame_def send_one_data)

lemma tx_call_send_one: "tx_call (send_one i c) f = tx_call c f"
  by (simp add: tx_call_def)

text \<open>What the transmission loop does: up to the window, the frames not yet sent are sent in the
  order of the queue, and the window invariant is kept.\<close>

definition sent_to :: "Conn \<Rightarrow> nat" where
  "sent_to c = (if peerBusy c then outstanding c
     else max (outstanding c) (min (nat (Window (cfg c))) (length (txQueue c))))"

definition transmits :: "Conn \<Rightarrow> Conn \<Rightarrow> bool" where
  "transmits c d \<longleftrightarrow> window_ok d \<and> outstanding d = sent_to c
    \<and> pendingActions d = pendingActions c @ concat (map (\<lambda>j. tx_call c (i_frame c j)) [outstanding c..<sent_to c])
    \<and> (outstanding c < sent_to c \<or> t1Active c \<longrightarrow> t1Active d)"

lemma transmits_refl: "window_ok c \<Longrightarrow> sent_to c = outstanding c \<Longrightarrow> transmits c c"
  by (simp add: transmits_def)

lemma transmits_send_one:
  assumes ok: "window_ok c" and d: "outstanding c < 7" "outstanding c < sent_to c"
    and t: "transmits (send_one (outstanding c) c) e" "sent_to (send_one (outstanding c) c) = sent_to c"
  shows "transmits c e"
proof -
  have "pendingActions (send_one (outstanding c) c) = pendingActions c @ tx_call c (i_frame c (outstanding c))"
    using ok dist8_end [of "va c" "vs c"] by (simp add: send_one_calls i_frame_def window_ok_def)
  with d t outstanding_send_one [OF ok d(1), of "outstanding c"] send_one_queue(3) [of "outstanding c" c]
  show ?thesis by (simp add: transmits_def i_frame_send_one tx_call_send_one upt_conv_Cons)
qed

lemma sendPending_loop_transmits:
  "window_ok c \<Longrightarrow> config_ok c \<Longrightarrow> i \<le> outstanding c \<Longrightarrow>
     transmits c (sendPending_loop [i..<length (txQueue c)] c)"
proof (induction "length (txQueue c) - i" arbitrary: i c)
  case 0
  then have "outstanding c = length (txQueue c)" by (simp add: window_ok_def)
  with 0 show ?case by (simp add: transmits_refl sent_to_def)
next
  case (Suc n)
  let ?q = "txQueue c" let ?d = "outstanding c"
  have i: "i < length ?q" using Suc.hyps(2) by simp
  then have loop: "[i..<length ?q] = i # [Suc i..<length ?q]" by (simp add: upt_conv_Cons)
  have n: "n = length ?q - Suc i" using Suc.hyps(2) by simp
  consider (skip) "i < ?d" | (stop) "i = ?d" "Window (cfg c) \<le> uint (mod8 (vs c - va c)) \<or> peerBusy c"
    | (send) "i = ?d" "\<not> (Window (cfg c) \<le> uint (mod8 (vs c - va c)) \<or> peerBusy c)"
    using Suc.prems(3) le_neq_implies_less by blast
  then show ?case
  proof cases
    case skip
    with Suc.prems(1) i have "transmitted (?q ! i)" by (simp add: window_ok_def)
    with loop Suc.hyps(1) [OF n Suc.prems(1,2)] skip show ?thesis by simp
  next
    case stop
    have "\<not> transmitted (?q ! i)" using Suc.prems(1) i stop(1) by (simp add: window_ok_def)
    moreover have "sent_to c = ?d"
      using stop Suc.prems(2) by (auto simp: sent_to_def outstanding_uint config_ok_def)
    ultimately show ?thesis using stop loop Suc.prems(1) by (simp add: transmits_refl)
  next
    case send
    let ?c = "send_one i c"
    have nt: "\<not> transmitted (?q ! i)" using Suc.prems(1) i send(1) by (simp add: window_ok_def)
    have d: "?d < nat (Window (cfg c))" "?d < 7" "\<not> peerBusy c"
      using send Suc.prems(2) by (auto simp: outstanding_uint config_ok_def)
    have ok: "window_ok ?c" "config_ok ?c" "length (txQueue ?c) = length ?q"
      using window_ok_send_one [OF Suc.prems(1) d(2)] Suc.prems i send(1)
      by (simp_all add: send_one_queue config_ok_def)
    have od: "outstanding ?c = Suc ?d" by (rule outstanding_send_one [OF Suc.prems(1) d(2)])
    have "transmits ?c (sendPending_loop [Suc i..<length (txQueue ?c)] ?c)"
      by (rule Suc.hyps(1)) (use n ok od send(1) in simp_all)
    moreover have "sent_to ?c = sent_to c" "?d < sent_to c"
      using d i send(1) ok(3) od by (auto simp: sent_to_def)
    ultimately have "transmits c (sendPending_loop [Suc i..<length (txQueue ?c)] ?c)"
      using transmits_send_one Suc.prems(1) d(2) send(1) by blast
    then show ?thesis using send(2) nt loop ok(3) by simp
  qed
qed

lemma sendPending_transmits:
  "window_ok c \<Longrightarrow> config_ok c \<Longrightarrow> transmits c (sendPendingIFrames c)"
  unfolding sendPendingIFrames_def by (rule sendPending_loop_transmits) simp_all

lemma window_ok_sendPending: "window_ok c \<Longrightarrow> config_ok c \<Longrightarrow> window_ok (sendPendingIFrames c)"
  using sendPending_transmits by (simp add: transmits_def)

lemma sendPending_keeps_t1: "window_ok c \<Longrightarrow> config_ok c \<Longrightarrow> t1Active c \<Longrightarrow> t1Active (sendPendingIFrames c)"
  using sendPending_transmits by (simp add: transmits_def)

section \<open>Retransmission\<close>

text \<open>Going back to V(A): every queued frame counts as not sent, and the window is empty.\<close>

definition rewound :: "byte \<Rightarrow> Conn \<Rightarrow> Conn" where
  "rewound nr c = c\<lparr>txQueue := map (\<lambda>pf. if \<not> transmitted pf then pf else pf\<lparr>transmitted := False\<rparr>) (txQueue c),
     vs := nr\<rparr>"

lemma rewound_window: "window_ok c \<Longrightarrow> window_ok (rewound (va c) c)"
  by (auto simp: window_ok_def rewound_def)

lemma rewound_sent_to:
  "sent_to (rewound (va c) c) = (if peerBusy c then 0 else min (nat (Window (cfg c))) (length (txQueue c)))"
  by (simp add: sent_to_def rewound_def)

lemma retransmitFrom_transmits:
  "window_ok c \<Longrightarrow> config_ok c \<Longrightarrow> transmits (rewound (va c) c) (retransmitFrom (va c) c)"
  using sendPending_transmits [OF rewound_window, of c]
  by (simp add: retransmitFrom_def rewound_def config_ok_def)

lemma window_ok_retransmitFrom:
  "window_ok c \<Longrightarrow> config_ok c \<Longrightarrow> window_ok (retransmitFrom (va c) c)"
  using retransmitFrom_transmits by (simp add: transmits_def)

lemma retransmitFrom_t1:
  assumes "window_ok c" and "config_ok c" and "\<not> peerBusy c" and "txQueue c \<noteq> [] \<or> t1Active c"
  shows "t1Active (retransmitFrom (va c) c)"
proof -
  have "outstanding (rewound (va c) c) = 0" "t1Active (rewound (va c) c) = t1Active c"
    by (simp_all add: rewound_def)
  with retransmitFrom_transmits [OF assms(1,2)] assms(2-4) show ?thesis
    by (auto simp: transmits_def rewound_sent_to config_ok_def)
qed

section \<open>Acknowledgement\<close>

lemma ack_loop_result:
  assumes "va c < 8" and "nr < 8"
  shows "ack_loop nr c n = Some (c\<lparr>txQueue := drop (dist8 (va c) nr) (txQueue c), va := nr\<rparr>,
     n + int (dist8 (va c) nr))"
  using assms
proof (induction "dist8 (va c) nr" arbitrary: c n)
  case 0
  then have "va c = nr" by (simp add: dist8_0)
  then show ?case by (simp add: ack_loop.simps)
next
  case (Suc k)
  from Suc.hyps(2) have ne: "va c \<noteq> nr" by auto
  let ?c = "c\<lparr>txQueue := tl (txQueue c), va := mod8 (va c + 1)\<rparr>"
  have d: "dist8 (va c) nr = Suc (dist8 (mod8 (va c + 1)) nr)"
    using dist8_step [OF Suc.prems ne] .
  have "ack_loop nr c n = ack_loop nr ?c (n + 1)"
    using ne by (subst ack_loop.simps) (cases "txQueue c"; simp)
  also have "\<dots> = Some (?c\<lparr>txQueue := drop (dist8 (va ?c) nr) (txQueue ?c), va := nr\<rparr>,
      n + 1 + int (dist8 (va ?c) nr))"
    by (rule Suc.hyps(1)) (use Suc d in simp_all)
  finally show ?case by (simp add: d drop_Suc)
qed

text \<open>A valid N(R) moves V(A) to it and takes the acknowledged frames off the queue.\<close>

definition acked_to :: "byte \<Rightarrow> Conn \<Rightarrow> Conn" where
  "acked_to nr c = c\<lparr>txQueue := drop (dist8 (va c) nr) (txQueue c), va := nr\<rparr>"

lemma dist8_split:
  assumes "a < 8" and "b < 8" and "m < 8" and "dist8 a m \<le> dist8 a b"
  shows "dist8 a b = dist8 a m + dist8 m b"
proof -
  have "unat a < 8" "unat b < 8" "unat m < 8" using assms by (simp_all add: word_less_nat_alt)
  with assms show ?thesis by (auto simp: dist8_nat split: if_splits)
qed

lemma mod8_add_dist8:
  assumes "a < 8" and "m < 8"
  shows "mod8 (m + x) = mod8 (a + of_nat (dist8 a m) + x)"
proof -
  have m: "(n mod 256) mod 8 = n mod 8" for n :: nat by (rule mod_mod_cancel) simp
  have "unat (mod8 (mod8 y + x)) = unat (mod8 (y + x))" for y
    by (simp add: unat_mod8 unat_word_ariths(1) m mod_add_left_eq)
  then have "mod8 (mod8 y + x) = mod8 (y + x)" for y
    by (metis unsigned_word_eqI)
  with dist8_end [OF assms] show ?thesis by metis
qed

lemma window_ok_acked:
  assumes ok: "window_ok c" and nr: "nr < 8" "isValidNR c nr"
  shows "window_ok (acked_to nr c)" "outstanding (acked_to nr c) = outstanding c - dist8 (va c) nr"
proof -
  let ?k = "dist8 (va c) nr"
  have v: "va c < 8" "vs c < 8" using ok by (simp_all add: window_ok_def)
  have k: "?k \<le> outstanding c" using isValidNR_window v nr by blast
  have s: "outstanding c = ?k + dist8 nr (vs c)" using dist8_split [OF v nr(1) k] .
  then show o: "outstanding (acked_to nr c) = outstanding c - ?k" by (simp add: acked_to_def)
  have "mod8 (nr + of_nat i) = mod8 (va c + of_nat (?k + i))" for i
    using mod8_add_dist8 [OF v(1) nr(1), of "of_nat i"] by (simp add: add.assoc)
  with ok s nr(1) show "window_ok (acked_to nr c)"
    by (auto simp: window_ok_def acked_to_def)
qed

text \<open>What \<open>handleReceivedNR\<close> leaves behind.\<close>

definition after_ack :: "byte \<Rightarrow> Conn \<Rightarrow> Conn" where
  "after_ack nr c =
     (let k = int (dist8 (va c) nr);
          c = (acked_to nr c)\<lparr>pendingActions := pendingActions c @ (if k > 0 \<and> hasOnTxAck (cbs c) then [OnTxAck k] else [])\<rparr>
      in if nr = vs c then startT3 (stopT1 c) else if \<not> t1Active c then startT1 c else c)"

lemma handleReceivedNR_result:
  assumes "va c < 8" and "nr < 8"
  shows "handleReceivedNR nr c = Some (after_ack nr c)"
  by (simp add: handleReceivedNR_def ack_loop_result [OF assms] after_ack_def acked_to_def Let_def
      enqueueAction_def)

lemma after_ack_fields [simp]:
  "va (after_ack nr c) = nr" "txQueue (after_ack nr c) = drop (dist8 (va c) nr) (txQueue c)"
  "t1Active (after_ack nr c) \<longleftrightarrow> nr \<noteq> vs c" "t3Active (after_ack nr c) \<longleftrightarrow> nr = vs c \<or> t3Active c"
  "vs (after_ack nr c) = vs c"
  "cfg (after_ack nr c) = cfg c"
  "cbs (after_ack nr c) = cbs c"
  "state (after_ack nr c) = state c"
  "vr (after_ack nr c) = vr c"
  "peerBusy (after_ack nr c) = peerBusy c"
  "localBusy (after_ack nr c) = localBusy c"
  "rejSent (after_ack nr c) = rejSent c"
  "ackPending (after_ack nr c) = ackPending c"
  "retryCount (after_ack nr c) = retryCount c"
  "t2Active (after_ack nr c) = t2Active c"
  "refusePending (after_ack nr c) = refusePending c"
  "remoteAddr (after_ack nr c) = remoteAddr c"
  "localAddr (after_ack nr c) = localAddr c"
  "path (after_ack nr c) = path c"
  by (simp_all add: after_ack_def acked_to_def Let_def timer_defs)

lemma window_ok_after_ack:
  "window_ok c \<Longrightarrow> nr < 8 \<Longrightarrow> isValidNR c nr \<Longrightarrow> window_ok (after_ack nr c)"
  using window_ok_acked(1) by (simp add: after_ack_def Let_def timer_defs)

lemma outstanding_nonempty: "window_ok c \<Longrightarrow> va c \<noteq> vs c \<Longrightarrow> txQueue c \<noteq> []"
  using dist8_0 [of "va c" "vs c"] by (auto simp: window_ok_def)

end
