(* ===== verification/Ax25_Conn_Inv.thy ===== *)
theory Ax25_Conn_Inv
  imports Ax25_Conn_Window Ax25_Interfaces
begin

text \<open>
  The invariant of a session and that every method, handler and timer callback keeps it, also
  when calls come while an OnFrame waits for its OnConnect callback. It joins the send window,
  the bounds of the counters and the timers: an unanswered SABM or DISC has T1 running, a
  disconnected session has neither T1 nor T2, an acknowledgement that is due has T2 running, and
  an established link is supervised by T1 or T3.
\<close>

section \<open>The invariant\<close>

definition timers_ok :: "Conn \<Rightarrow> bool" where
  "timers_ok c \<longleftrightarrow>
     (state c = ConnStateDisconnected \<longrightarrow> \<not> t1Active c \<and> \<not> t2Active c)
     \<and> (state c = ConnStateAwaitingConnection \<or> state c = ConnStateAwaitingRelease \<longrightarrow> t1Active c)
     \<and> (IsConnected c \<and> ackPending c \<longrightarrow> t2Active c)"

definition conn_inv :: "Conn \<Rightarrow> bool" where
  "conn_inv c \<longleftrightarrow> window_ok c \<and> config_ok c \<and> vr c < 8 \<and> int (length (txQueue c)) \<le> Window (cfg c)
     \<and> 0 \<le> retryCount c \<and> retryCount c \<le> max 0 (N2 (cfg c)) \<and> timers_ok c"

definition supervised :: "Conn \<Rightarrow> bool" where
  "supervised c \<longleftrightarrow> (state c = ConnStateConnected \<longrightarrow> t1Active c \<or> t3Active c)"

text \<open>With the flag set, the link is also supervised.\<close>

definition good :: "bool \<Rightarrow> Conn \<Rightarrow> bool" where
  "good b c \<longleftrightarrow> conn_inv c \<and> (b \<longrightarrow> supervised c)"

lemmas good_defs = good_def conn_inv_def supervised_def timers_ok_def config_ok_def IsConnected_def Conn_State_def

lemma good_calls [simp]: "good b (c\<lparr>pendingActions := x\<rparr>) = good b c"
  by (simp add: good_defs)

lemma good_sends [simp]:
  "good b (sendUA p c) = good b c" "good b (sendDM p c) = good b c" "good b (sendRR p m c) = good b c"
  "good b (sendRNR p m c) = good b c" "good b (sendREJ p m c) = good b c" "good b (sendAck p m c) = good b c"
  "good b (sendSABM p c) = good b c" "good b (sendDISC p c) = good b c"
  "good b (fireError e t n c) = good b c" "good b (enqueueAction a c) = good b c"
  by (simp_all add: send_calls fireError_calls enqueueAction_def sendAck_def)

lemma good_flags [simp]:
  "good b (c\<lparr>rejSent := x\<rparr>) = good b c" "good b (c\<lparr>peerBusy := x\<rparr>) = good b c"
  "good b (c\<lparr>localBusy := x\<rparr>) = good b c" "good b (c\<lparr>refusePending := x\<rparr>) = good b c"
  "good b (c\<lparr>remoteAddr := a\<rparr>) = good b c" "good b (c\<lparr>path := p\<rparr>) = good b c"
  "good b (c\<lparr>isLocalInitiated := x\<rparr>) = good b c"
  by (simp_all add: good_defs)

section \<open>Timers and transitions\<close>

lemma good_enterDisconnected: "good b c \<Longrightarrow> good b' (enterDisconnected c)"
  by (simp add: enterDisconnected_def Let_def enqueueAction_def timer_defs good_defs)

lemma good_startT3: "good b c \<Longrightarrow> good b (startT3 c)"
  by (auto simp: good_defs timer_defs)

lemma good_reset: "good b c \<Longrightarrow> good b (resetStateVars c)"
  by (auto simp: good_defs)

lemma good_noAck: "good b c \<Longrightarrow> good b (c\<lparr>ackPending := False\<rparr>)"
  by (auto simp: good_defs)

lemma good_sendPending:
  assumes "good b c" and "IsConnected c"
  shows "good b (sendPendingIFrames c)"
proof -
  have "window_ok c" "config_ok c" using assms by (simp_all add: good_def conn_inv_def)
  then have "window_ok (sendPendingIFrames c)" "t1Active c \<Longrightarrow> t1Active (sendPendingIFrames c)"
    using window_ok_sendPending sendPending_keeps_t1 by auto
  then show ?thesis using assms by (auto simp: good_defs)
qed

section \<open>Frame handlers\<close>

lemma good_after_ack:
  assumes "good b c" and "isValidNR c nr" and "nr < 8" and "IsConnected c"
  shows "good b (after_ack nr c)"
  using assms window_ok_after_ack [of c nr] by (auto simp: good_defs)

lemma isValidNR_flags [simp]:
  "isValidNR (c\<lparr>peerBusy := x\<rparr>) nr = isValidNR c nr"
  by (simp add: isValidNR_def)

lemma IsConnected_simps [simp]:
  "IsConnected (c\<lparr>peerBusy := x\<rparr>) = IsConnected c" "IsConnected (after_ack nr c) = IsConnected c"
  by (simp_all add: IsConnected_def Conn_State_def)

lemma good_retransmit:
  assumes g: "good False c" and "\<not> peerBusy c" and "state c = ConnStateConnected"
    and "txQueue c \<noteq> [] \<or> t3Active c"
  shows "good b (retransmitFrom (va c) c)"
proof -
  have w: "window_ok c" "config_ok c" using g by (simp_all add: good_def conn_inv_def)
  have "txQueue c \<noteq> [] \<Longrightarrow> t1Active (retransmitFrom (va c) c)"
    using retransmitFrom_t1 [OF w assms(2)] by blast
  with assms window_ok_retransmitFrom [OF w] show ?thesis
    by (auto simp: good_defs)
qed

text \<open>Leaving timer recovery on a response with the final bit, or going back on a REJ.\<close>

lemma good_resume:
  fixes r :: int
  assumes "good b c" and "isValidNR c nr" and "nr < 8" and "IsConnected c" and "\<not> peerBusy c"
  defines "d \<equiv> (stopT1 (after_ack nr c))\<lparr>retryCount := r, state := ConnStateConnected\<rparr>"
  assumes r: "0 \<le> r" "r \<le> max 0 (N2 (cfg c))"
  shows "good b (retransmitFrom nr d)" "nr = vs c \<Longrightarrow> good b d"
proof -
  have g: "good b (after_ack nr c)" using good_after_ack [OF assms(1-4)] .
  have "txQueue (after_ack nr c) \<noteq> [] \<or> t3Active (after_ack nr c)"
    using outstanding_nonempty [of "after_ack nr c"] g by (auto simp: good_def conn_inv_def)
  then have "txQueue d \<noteq> [] \<or> t3Active d" by (simp add: d_def timer_defs)
  moreover have "good False d" using g r assms(4) by (auto simp: d_def good_defs timer_defs)
  ultimately show "good b (retransmitFrom nr d)"
    using good_retransmit [of d b] assms(5) by (simp add: d_def timer_defs)
  show "good b d" if "nr = vs c"
    using g r assms(4) that by (auto simp: d_def good_defs timer_defs)
qed

lemma good_receive_data: "good b c \<Longrightarrow> IsConnected c \<Longrightarrow> good b (receive_data f pf c)"
proof -
  assume g: "good b c" "IsConnected c"
  have "good b (c\<lparr>vr := mod8 (vr c + 1), rejSent := False\<rparr>)" using g by (simp add: good_defs)
  moreover have "good b (startT2 (d\<lparr>ackPending := True\<rparr>))" if "good b d" "IsConnected d" for d
    using that by (auto simp: good_defs startT2_def)
  ultimately show ?thesis using g(2)
    by (auto simp: receive_data_def Let_def good_noAck IsConnected_def Conn_State_def enqueueAction_def)
qed

lemma good_handleIFrame:
  assumes g: "good b c" and s: "IsConnected c"
  shows "\<exists>d. handleIFrame f c = Some d \<and> good b d"
proof -
  let ?nr = "ExtractNR (Control f)"
  have va: "va c < 8" using g by (simp add: good_def conn_inv_def window_ok_def)
  have g2: "good b (after_ack ?nr c)" if "isValidNR c ?nr" using good_after_ack [OF g that _ s] by simp
  show ?thesis
    using g s g2 good_receive_data [OF g2]
    by (auto simp: handleIFrame_def Let_def handleReceivedNR_result [OF va] startNRErrorRecovery_def
        intro: good_enterDisconnected [of b])
qed

lemma good_handleSFrame:
  assumes g: "good b c" and s: "IsConnected c"
  shows "\<exists>d. handleSFrame f c = Some d \<and> good b d"
proof -
  let ?nr = "ExtractNR (Control f)" and ?t = "Control f AND 0x0F"
  have va: "va (c\<lparr>peerBusy := x\<rparr>) < 8" for x using g by (simp add: good_def conn_inv_def window_ok_def)
  have r: "0 \<le> retryCount c" "retryCount c \<le> max 0 (N2 (cfg c))"
    using g by (simp_all add: good_def conn_inv_def)
  show ?thesis
  proof (cases "isValidNR c ?nr")
    case False
    then show ?thesis using g by (simp add: handleSFrame_def startNRErrorRecovery_def good_enterDisconnected [of b])
  next
    case True
    let ?c = "\<lambda>x. c\<lparr>peerBusy := x\<rparr>"
    have a: "good b (after_ack ?nr (?c x))" for x
      using good_after_ack [of b "?c x" ?nr] g True s by simp
    have re: "good b (retransmitFrom ?nr ((stopT1 (after_ack ?nr (?c False)))\<lparr>retryCount := n, state := ConnStateConnected\<rparr>))"
      "?nr = vs c \<Longrightarrow> good b ((stopT1 (after_ack ?nr (?c False)))\<lparr>retryCount := n, state := ConnStateConnected\<rparr>)"
      if "0 \<le> n" "n \<le> max 0 (N2 (cfg c))" for n
      using good_resume [OF _ _ Extract_less_8(2), of b "?c False" "Control f" n] g True s that by simp_all
    have same: "(stopT1 d)\<lparr>retryCount := retryCount d, state := x\<rparr> = (stopT1 d)\<lparr>state := x\<rparr>" for d x
      by (cases d) (simp add: stopT1_def)
    have t3: "good b (startT3 (stopT1 d))" if "good b d" "IsConnected d" for d
      using that by (auto simp: good_defs timer_defs)
    have idle: "good b ((stopT1 (after_ack ?nr (?c False)))\<lparr>state := ConnStateConnected\<rparr>)" if "?nr = vs c"
      using re(2) [OF r that] same [where d = "after_ack ?nr (?c False)"] by simp
    have rew: "good b (retransmitFrom ?nr ((stopT1 (after_ack ?nr (?c False)))\<lparr>state := ConnStateConnected\<rparr>))"
      using re(1) [OF r] same [where d = "after_ack ?nr (?c False)"] by simp
    show ?thesis
      using g True a idle rew re(1) [of 0] t3 [OF a] s r
      by (auto simp: handleSFrame_def Let_def handleReceivedNR_result [OF va] timer_defs)
  qed
qed

lemma good_handleUFrame: "good b c \<Longrightarrow> good b (handleUFrameConnected f c)"
  by (simp add: handleUFrameConnected_def Let_def good_reset good_enterDisconnected [of b])

lemma good_handleConnected:
  assumes "good b c" and "IsConnected c"
  shows "\<exists>d. handleConnected f c = Some d \<and> good b d"
  using good_handleIFrame [OF assms] good_handleSFrame [OF assms] good_handleUFrame assms
  by (cases "Type f") (auto simp: handleConnected_def)

lemma good_handleDisconnected_resume: "good b c \<Longrightarrow> good b' (handleDisconnected_resume pf c)"
proof -
  assume "good b c"
  then have "good b' (startT3 c)" by (auto simp: good_defs timer_defs)
  then have "good b' (startT3 (sendUA pf c))" by (simp add: send_calls timer_defs good_defs)
  with \<open>good b c\<close> show ?thesis
    by (simp add: handleDisconnected_resume_def good_enterDisconnected [of b])
qed

lemma good_accepting:
  "good b c \<Longrightarrow> state c = ConnStateDisconnected \<Longrightarrow>
     good False ((resetStateVars (c\<lparr>remoteAddr := a, path := p, isLocalInitiated := False\<rparr>))
       \<lparr>state := ConnStateConnected, refusePending := False\<rparr>)"
  by (auto simp: good_defs)

lemma good_handleDisconnected:
  assumes "good b c" and "state c = ConnStateDisconnected"
  shows "case handleDisconnected f c of Finished d \<Rightarrow> good b d | Accepting d \<Rightarrow> good False d"
  using assms good_accepting [OF assms, where a = "Source f" and p = "extractReturnPath f"]
    good_handleDisconnected_resume [OF good_accepting [OF assms]]
  by (simp add: handleDisconnected_def Let_def)

lemma good_handleAwaitingConnection:
  assumes g: "good b c" and s: "state c = ConnStateAwaitingConnection"
  shows "good b (handleAwaitingConnection f c)"
proof -
  let ?r = "(resetStateVars (stopT1 c))\<lparr>state := ConnStateConnected\<rparr>"
  have "good b (startT3 ?r)" "IsConnected (startT3 ?r)"
    using g s by (auto simp: good_defs timer_defs)
  moreover have "startT3 (enqueueAction a d) = (startT3 d)\<lparr>pendingActions := pendingActions d @ [a]\<rparr>" for a d
    by (simp add: timer_defs enqueueAction_def)
  ultimately have "good b (sendPendingIFrames (startT3 ?r))"
    "good b (sendPendingIFrames (startT3 (enqueueAction a ?r)))" for a
    using good_sendPending by (auto simp: IsConnected_def Conn_State_def)
  moreover have "good b' (enterDisconnected (fireError e t n (stopT1 c)))" for e t n b'
    using g s by (auto simp: enterDisconnected_def fireError_calls Let_def enqueueAction_def good_defs timer_defs)
  ultimately show ?thesis using g by (simp add: handleAwaitingConnection_def Let_def)
qed

lemma good_handleAwaitingRelease: "good b c \<Longrightarrow> good b (handleAwaitingRelease f c)"
  by (auto simp: handleAwaitingRelease_def enterDisconnected_def Let_def enqueueAction_def good_defs timer_defs)

section \<open>Methods and timer callbacks\<close>

lemma good_Connect: "good b c \<Longrightarrow> good b (snd (snd (Connect remote via c)))"
  by (auto simp: Connect_def unlock_def takePendingActions_def Let_def send_calls good_defs timer_defs)

lemma good_Shutdown: "good b c \<Longrightarrow> good b (snd (snd (Shutdown c)))"
  by (auto simp: Shutdown_def unlock_def takePendingActions_def Let_def send_calls good_defs timer_defs)

lemma window_ok_append:
  assumes "window_ok c"
  shows "window_ok (c\<lparr>txQueue := txQueue c @ [\<lparr>pfData = bs, pfNs = n, transmitted = False\<rparr>]\<rparr>)"
  using assms by (auto simp: window_ok_def nth_append)

lemma good_SendData:
  assumes "good b c"
  shows "good b (snd (snd (SendData bs c)))"
proof (cases "IsConnected c \<and> int (length (txQueue c)) < Window (cfg c)")
  case True
  let ?d = "c\<lparr>txQueue := txQueue c @ [\<lparr>pfData = bs, pfNs = 0, transmitted = False\<rparr>]\<rparr>"
  have "good b ?d" using assms True window_ok_append [of c] by (auto simp: good_defs)
  then have "good b (sendPendingIFrames ?d)"
    using good_sendPending True by (auto simp: IsConnected_def Conn_State_def)
  with True show ?thesis
    by (auto simp: SendData_def unlock_def takePendingActions_def Let_def IsConnected_def Conn_State_def)
next
  case False
  with assms show ?thesis by (auto simp: SendData_def IsConnected_def Conn_State_def)
qed

lemma good_SetBusy: "good b c \<Longrightarrow> good b (snd (snd (SetBusy busy c)))"
  by (auto simp: SetBusy_def unlock_def takePendingActions_def Let_def send_calls good_defs timer_defs)

lemma good_Conn_Close: "good b c \<Longrightarrow> good b (Conn_Close c)"
  by (auto simp: Conn_Close_def good_defs timer_defs)

lemma good_Refuse: "good b c \<Longrightarrow> good b (Refuse c)"
  by (simp add: Refuse_def)

text \<open>A retry keeps the counter within N2.\<close>

lemma good_retry_or_fail:
  assumes g: "good False (c\<lparr>t1Active := True\<rparr>)" "state c \<noteq> ConnStateDisconnected"
    and sends: "\<And>d. resend d = d\<lparr>pendingActions := p d\<rparr>" "\<And>d. before d = d\<lparr>pendingActions := q d\<rparr>"
  shows "good b (retry_or_fail why before resend c)"
proof (cases "retryCount c \<ge> N2 (cfg c)")
  case True
  with g show ?thesis
    by (simp add: retry_or_fail_def sends fireError_calls enterDisconnected_def Let_def enqueueAction_def timer_defs good_defs)
next
  case False
  with g show ?thesis by (auto simp: retry_or_fail_def sends timer_defs good_defs)
qed

lemma id_calls: "id d = d\<lparr>pendingActions := pendingActions d\<rparr>"
  by simp

lemma good_onT1Expired:
  assumes g: "good b c"
  shows "good b (snd (onT1Expired c))"
proof -
  let ?c = "c\<lparr>t1Active := False\<rparr>"
  have t: "good False (?c\<lparr>t1Active := True\<rparr>)" if "state c \<noteq> ConnStateDisconnected"
    using g that by (auto simp: good_defs)
  have r: "good False (?c\<lparr>state := ConnStateTimerRecovery, retryCount := 0, t1Active := True\<rparr>)"
    if "state c = ConnStateConnected"
    using g that by (auto simp: good_defs)
  have f: "good b (retry_or_fail w id (sendSABM True) d)" "good b (retry_or_fail w id (sendDISC True) d)"
    "good b (retry_or_fail w (sendDM True) (sendRR True True) d)"
    if "good False (d\<lparr>t1Active := True\<rparr>)" "state d \<noteq> ConnStateDisconnected" for w d
    by (rule good_retry_or_fail [OF that], rule send_calls, rule id_calls send_calls)+
  show ?thesis
  proof (cases "state c")
    case ConnStateDisconnected
    with g show ?thesis by (simp add: onT1Expired_def Let_def takePendingActions_def good_defs)
  next
    case ConnStateAwaitingConnection
    with t f(1) [of ?c] show ?thesis by (simp add: onT1Expired_def Let_def takePendingActions_def)
  next
    case ConnStateAwaitingRelease
    with t f(2) [of ?c] show ?thesis by (simp add: onT1Expired_def Let_def takePendingActions_def)
  next
    case ConnStateConnected
    with r f(3) [of "?c\<lparr>state := ConnStateTimerRecovery, retryCount := 0\<rparr>"] show ?thesis
      by (simp add: onT1Expired_def Let_def takePendingActions_def)
  next
    case ConnStateTimerRecovery
    with t f(3) [of ?c] show ?thesis by (simp add: onT1Expired_def Let_def takePendingActions_def)
  qed
qed

lemma good_onT2Expired: "good b c \<Longrightarrow> good b (snd (onT2Expired c))"
  by (auto simp: onT2Expired_def Let_def takePendingActions_def sendAck_def send_calls good_defs)

lemma good_onT3Expired: "good b c \<Longrightarrow> good b (snd (onT3Expired c))"
  by (auto simp: onT3Expired_def Let_def takePendingActions_def send_calls timer_defs good_defs)

section \<open>Sessions as a transition system\<close>

text \<open>A step of a session, with the calls to the application it makes: a method, a frame, or a
  timer callback, each in one hold of the lock. The second component of the state lists the poll bits of the SABM frames
  whose OnFrame is waiting for its OnConnect callback to return. A timer callback may come at any
  time: a timer that has fired is not recalled by \<open>Stop\<close>, its callback waits for the lock.\<close>

type_synonym session = "Conn \<times> bool list"

inductive conn_step :: "session \<Rightarrow> action list \<Rightarrow> session \<Rightarrow> bool" where
  connect: "Connect remote via c = (e, out, d) \<Longrightarrow> conn_step (c, w) out (d, w)"
| shutdown: "Shutdown c = (e, out, d) \<Longrightarrow> conn_step (c, w) out (d, w)"
| send: "SendData bs c = (e, out, d) \<Longrightarrow> conn_step (c, w) out (d, w)"
| busy: "SetBusy x c = (e, out, d) \<Longrightarrow> conn_step (c, w) out (d, w)"
| refuse: "conn_step (c, w) [] (Refuse c, w)"
| close: "conn_step (c, w) [] (Conn_Close c, w)"
| frame: "OnFrame f c = Some (Returned (e, out, d)) \<Longrightarrow> conn_step (c, w) out (d, w)"
| accept: "OnFrame f c = Some (CallsOnConnect a d) \<Longrightarrow>
    conn_step (c, w) [OnConnect a False] (d, HasPF (Control f) # w)"
| resume: "pf \<in> set w \<Longrightarrow> OnFrame_resume pf c = (e, out, d) \<Longrightarrow> conn_step (c, w) out (d, remove1 pf w)"
| t1: "onT1Expired c = (out, d) \<Longrightarrow> conn_step (c, w) out (d, w)"
| t2: "onT2Expired c = (out, d) \<Longrightarrow> conn_step (c, w) out (d, w)"
| t3: "onT3Expired c = (out, d) \<Longrightarrow> conn_step (c, w) out (d, w)"

definition conn_init :: "session \<Rightarrow> bool" where
  "conn_init s \<longleftrightarrow> (\<exists>local cb conf c. NewConn local cb conf = Inr c \<and> s = (c, []))"

definition session_ok :: "session \<Rightarrow> bool" where
  "session_ok s \<longleftrightarrow> good (snd s = []) (fst s) \<and> pendingActions (fst s) = []"

lemma good_weaken: "good b c \<Longrightarrow> (b' \<longrightarrow> b) \<Longrightarrow> good b' c"
  by (simp add: good_def)

lemma good_OnFrame:
  assumes "good b c"
  shows "\<exists>r. OnFrame f c = Some r \<and>
     (case r of Returned (e, out, d) \<Rightarrow> good b d | CallsOnConnect a d \<Rightarrow> good False d)"
  using assms good_handleDisconnected [OF assms, of f] good_handleAwaitingConnection [OF assms, of f]
    good_handleAwaitingRelease [OF assms, of f] good_handleConnected [OF assms, of f]
  by (auto simp: OnFrame_def unlock_def takePendingActions_def handleTimerRecovery_def IsConnected_def
      Conn_State_def split: ConnState.splits handled.splits)

text \<open>A call leaves no action behind: all of them are taken before the lock is released.\<close>

lemma OnFrame_taken:
  "pendingActions c = [] \<Longrightarrow> OnFrame f c = Some r \<Longrightarrow>
     (case r of Returned (e, out, d) \<Rightarrow> pendingActions d = [] | CallsOnConnect a d \<Rightarrow> pendingActions d = [])"
  by (auto simp: OnFrame_def unlock_def takePendingActions_def handleDisconnected_def Let_def
      split: if_splits ConnState.splits handled.splits)

lemma methods_taken:
  "pendingActions c = [] \<Longrightarrow> pendingActions (snd (snd (Connect remote via c))) = []"
  "pendingActions c = [] \<Longrightarrow> pendingActions (snd (snd (Shutdown c))) = []"
  "pendingActions c = [] \<Longrightarrow> pendingActions (snd (snd (SendData bs c))) = []"
  "pendingActions c = [] \<Longrightarrow> pendingActions (snd (snd (SetBusy x c))) = []"
  "pendingActions c = [] \<Longrightarrow> pendingActions (Refuse c) = []"
  "pendingActions c = [] \<Longrightarrow> pendingActions (Conn_Close c) = []"
  "pendingActions (snd (snd (OnFrame_resume pf c))) = []"
  "pendingActions (snd (onT1Expired c)) = []" "pendingActions (snd (onT2Expired c)) = []"
  "pendingActions (snd (onT3Expired c)) = []"
  by (simp_all add: Connect_def Shutdown_def SendData_def SetBusy_def Refuse_def Conn_Close_def OnFrame_resume_def
      onT1Expired_def onT2Expired_def onT3Expired_def Let_def unlock_def takePendingActions_def timer_defs)

lemmas good_methods = good_Connect good_Shutdown good_SendData good_SetBusy good_onT1Expired
  good_onT2Expired good_onT3Expired

lemma session_step: "conn_step s out t \<Longrightarrow> session_ok s \<Longrightarrow> session_ok t"
proof (induction rule: conn_step.induct)
  case (connect remote via c e out d w)
  then show ?case using good_Connect [of "w = []" c remote via] methods_taken(1) [of c remote via]
    by (simp add: session_ok_def)
next
  case (shutdown c e out d w)
  then show ?case using good_Shutdown [of "w = []" c] methods_taken(2) [of c] by (simp add: session_ok_def)
next
  case (send bs c e out d w)
  then show ?case using good_SendData [of "w = []" c bs] methods_taken(3) [of c bs] by (simp add: session_ok_def)
next
  case (busy x c e out d w)
  then show ?case using good_SetBusy [of "w = []" c x] methods_taken(4) [of c x] by (simp add: session_ok_def)
next
  case (refuse c w)
  then show ?case by (simp add: session_ok_def good_Refuse methods_taken)
next
  case (close c w)
  then show ?case by (simp add: session_ok_def good_Conn_Close methods_taken)
next
  case (frame f c e out d w)
  then show ?case using good_OnFrame [of "w = []" c f] OnFrame_taken [of c f] by (auto simp: session_ok_def)
next
  case (accept f c a d w)
  then show ?case using good_OnFrame [of "w = []" c f] OnFrame_taken [of c f] by (auto simp: session_ok_def)
next
  case (resume pf w c e out d)
  then have "d = (handleDisconnected_resume pf c)\<lparr>pendingActions := []\<rparr>" "good (w = []) c"
    by (auto simp: OnFrame_resume_def unlock_def takePendingActions_def session_ok_def)
  then show ?case using good_handleDisconnected_resume [of "w = []" c] by (simp add: session_ok_def)
next
  case (t1 c out d w)
  then show ?case using good_onT1Expired [of "w = []" c] methods_taken(8) [of c] by (simp add: session_ok_def)
next
  case (t2 c out d w)
  then show ?case using good_onT2Expired [of "w = []" c] methods_taken(9) [of c] by (simp add: session_ok_def)
next
  case (t3 c out d w)
  then show ?case using good_onT3Expired [of "w = []" c] methods_taken(10) [of c] by (simp add: session_ok_def)
qed

lemma session_init: "conn_init s \<Longrightarrow> session_ok s"
  by (auto simp: conn_init_def NewConn_def session_ok_def good_defs window_ok_def Let_def split: if_splits option.splits)

interpretation session: transition_system conn_init "\<lambda>s t. \<exists>out. conn_step s out t" session_ok
  by unfold_locales (auto intro: session_init session_step)

end
