(* ===== verification/Ax25_Conn_Props.thy ===== *)
theory Ax25_Conn_Props
  imports Ax25_Conn_Inv
begin

text \<open>
  What the connected-mode session promises: the window and timer invariant of every reachable
  session, that \<open>OnFrame\<close> always returns, what is transmitted, acknowledged, retransmitted and
  delivered, and that retries end. The last group records behaviours in which the code does not
  do what the protocol needs.
\<close>

section \<open>Sample sessions\<close>

definition all_callbacks :: ConnCallbacks where
  "all_callbacks = \<lparr>hasOnConnect = True, hasOnDisconnect = True, hasOnLinkReset = True, hasOnError = True,
     hasOnData = True, hasOnTxFrame = True, hasOnTxAck = True\<rparr>"

definition fresh_conn :: Conn where
  "fresh_conn = (case NewConn N7GET_5 all_callbacks None of Inr c \<Rightarrow> c)"

lemma fresh_conn_fields:
  "fresh_conn = \<lparr>cfg = defaultConnConfig, cbs = all_callbacks, localAddr = N7GET_5,
     remoteAddr = \<lparr>Callsign = [], SSID = 0, HasBeenRepeated = False, IsLast = False\<rparr>,
     path = [], state = ConnStateDisconnected, isLocalInitiated = False, refusePending = False,
     vs = 0, vr = 0, va = 0, peerBusy = False, localBusy = False, rejSent = False,
     ackPending = False, retryCount = 0, txQueue = [], cancelled = False,
     t1Timer = False, t2Timer = False, t3Timer = False,
     t1Active = False, t2Active = False, t3Active = False, pendingActions = []\<rparr>"
  by (simp add: fresh_conn_def NewConn_def all_callbacks_def defaultConnConfig_def)

lemma fresh_conn_init: "conn_init (fresh_conn, [])"
  unfolding conn_init_def
  by (rule exI [of _ N7GET_5], rule exI [of _ all_callbacks], rule exI [of _ None])
    (simp add: fresh_conn_fields NewConn_def all_callbacks_def defaultConnConfig_def)

lemma fresh_conn_ok: "session_ok (fresh_conn, [])"
  by (rule session_init [OF fresh_conn_init])

text \<open>An established session with an empty window.\<close>

definition linked :: Conn where
  "linked = fresh_conn\<lparr>state := ConnStateConnected, remoteAddr := N7GET_5, t3Active := True, t3Timer := True\<rparr>"

lemma linked_good: "good True linked"
  by (simp add: linked_def fresh_conn_fields good_defs window_ok_def defaultConnConfig_def)

section \<open>The reachable sessions\<close>

text \<open>C1: Invariant of a session. In every state reachable from \<open>NewConn\<close>, whatever methods,
  frames, timer callbacks and suspended OnFrame calls come in whatever order: the window is between
  one and seven and the queue no longer than it; the frames in flight are the first
  V(S) - V(A) of the queue and carry the numbers from V(A) on; the retry counter is within N2;
  no timer of a disconnected session but T3 can be active; a SABM or DISC waiting for its answer
  has T1 running, an acknowledgement due has T2 running; and a connected session with no
  OnConnect in progress has T1 or T3 running.\<close>

theorem session_invariant:
  assumes "conn_init s" and "(\<lambda>s t. \<exists>out. conn_step s out t)\<^sup>*\<^sup>* s (c, w)"
  shows "1 \<le> Window (cfg c) \<and> Window (cfg c) \<le> 7 \<and> int (length (txQueue c)) \<le> Window (cfg c)
    \<and> vs c < 8 \<and> va c < 8 \<and> vr c < 8
    \<and> outstanding c \<le> length (txQueue c)
    \<and> (\<forall>i < length (txQueue c). transmitted (txQueue c ! i) \<longleftrightarrow> i < outstanding c)
    \<and> (\<forall>i < outstanding c. pfNs (txQueue c ! i) = mod8 (va c + of_nat i))
    \<and> 0 \<le> retryCount c \<and> retryCount c \<le> max 0 (N2 (cfg c))
    \<and> (state c = ConnStateDisconnected \<longrightarrow> \<not> t1Active c \<and> \<not> t2Active c)
    \<and> (state c \<in> {ConnStateAwaitingConnection, ConnStateAwaitingRelease} \<longrightarrow> t1Active c)
    \<and> (IsConnected c \<and> ackPending c \<longrightarrow> t2Active c)
    \<and> (state c = ConnStateConnected \<and> w = [] \<longrightarrow> t1Active c \<or> t3Active c)
    \<and> pendingActions c = []"
proof -
  have "good (w = []) c" "pendingActions c = []"
    using session.reachable_inv [OF assms] by (simp_all add: session_ok_def)
  then show ?thesis
    by (auto simp: good_def conn_inv_def window_ok_def config_ok_def timers_ok_def supervised_def)
qed

theorem session_invariant_witness:
  "conn_init (fresh_conn, []) \<and> \<not> t1Active fresh_conn \<and> Window (cfg fresh_conn) \<le> 7"
  using session_invariant [OF fresh_conn_init rtranclp.rtrancl_refl] fresh_conn_init
  by (simp add: fresh_conn_fields)

text \<open>C2: \<open>OnFrame\<close> returns. On every reachable session and for every frame, the acknowledgement
  loop ends and the call returns, or calls OnConnect. (The loop of \<open>handleReceivedNR\<close> would not
  end on a sequence number above seven; none can get there.)\<close>

theorem onFrame_returns:
  assumes "conn_init s" and "(\<lambda>s t. \<exists>out. conn_step s out t)\<^sup>*\<^sup>* s (c, w)"
  shows "\<exists>r. OnFrame f c = Some r"
  using session.reachable_inv [OF assms] good_OnFrame [of "w = []" c f]
  by (auto simp: session_ok_def)

theorem onFrame_returns_witness: "\<exists>r. OnFrame sample_frame fresh_conn = Some r"
  by (rule onFrame_returns [OF fresh_conn_init rtranclp.rtrancl_refl])

section \<open>Sending\<close>

lemma sendPending_data: "map pfData (txQueue (sendPendingIFrames c)) = map pfData (txQueue c)"
proof -
  have one: "map pfData (txQueue (send_one i c)) = map pfData (txQueue c)" for i c
    by (rule nth_equalityI) (simp_all add: send_one_data, simp_all add: send_one_queue)
  have "map pfData (txQueue (sendPending_loop is c)) = map pfData (txQueue c)" for "is"
    by (induction "is" c rule: sendPending_loop.induct) (simp_all add: one)
  then show ?thesis by (simp add: sendPendingIFrames_def)
qed

lemma i_frame_sendPending:
  assumes "i < length (txQueue c)"
  shows "i_frame (sendPendingIFrames c) i = i_frame c i"
proof -
  have "pfData (txQueue (sendPendingIFrames c) ! i) = pfData (txQueue c ! i)"
    using arg_cong [OF sendPending_data, of "\<lambda>xs. xs ! i" c] assms by simp
  then show ?thesis by (simp add: i_frame_def buildFrame_def sendPendingIFrames_def)
qed

lemma tx_calls_all: "hasOnTxFrame (cbs c) \<Longrightarrow> concat (map (\<lambda>j. tx_call c (g j)) xs) = map (\<lambda>j. OnTxFrame (g j)) xs"
  by (induction xs) (simp_all add: tx_call_def)

lemma sent_to_all:
  "window_ok c \<Longrightarrow> int (length (txQueue c)) \<le> Window (cfg c) \<Longrightarrow> \<not> peerBusy c \<Longrightarrow> sent_to c = length (txQueue c)"
  by (simp add: sent_to_def window_ok_def)

text \<open>C3: Sending data. On a session with the invariant, \<open>SendData\<close> fails exactly when the session is not connected
  or the queue is as long as the window; otherwise the data joins the queue and every
  queued frame not yet sent goes out, in the order of the queue, numbered from V(S), as long as
  the peer is not busy.\<close>

theorem sendData_transmits:
  assumes "session_ok (c, w)" and "hasOnTxFrame (cbs c)"
  shows "case SendData bs c of (err, out, d) \<Rightarrow>
     if \<not> IsConnected c then err = Some ErrConnNotConnected \<and> out = [] \<and> d = c
     else if int (length (txQueue c)) = Window (cfg c) then err = Some ErrConnSendBufFull \<and> out = [] \<and> d = c
     else err = None \<and> map pfData (txQueue d) = map pfData (txQueue c) @ [bs]
        \<and> (if peerBusy c then out = [] \<and> outstanding d = outstanding c
           else out = map (\<lambda>i. OnTxFrame (i_frame d i)) [outstanding c..<length (txQueue d)]
             \<and> outstanding d = length (txQueue d) \<and> t1Active d)"
proof (cases "IsConnected c \<and> int (length (txQueue c)) < Window (cfg c)")
  case False
  with assms show ?thesis
    by (auto simp: SendData_def session_ok_def good_def conn_inv_def IsConnected_def Conn_State_def)
next
  case True
  let ?c = "c\<lparr>txQueue := txQueue c @ [\<lparr>pfData = bs, pfNs = 0, transmitted = False\<rparr>]\<rparr>"
  let ?d = "sendPendingIFrames ?c"
  have ok: "window_ok c" "config_ok c" "pendingActions c = []"
    using assms by (simp_all add: session_ok_def good_def conn_inv_def)
  have t: "transmits ?c ?d"
    using sendPending_transmits window_ok_append [OF ok(1)] ok(2) by (simp add: config_ok_def)
  have r: "SendData bs c = (None, pendingActions ?d, ?d\<lparr>pendingActions := []\<rparr>)"
    using True by (auto simp: SendData_def IsConnected_def Conn_State_def unlock_def takePendingActions_def Let_def)
  have o: "outstanding ?c = outstanding c" by simp
  have s: "sent_to ?c = (if peerBusy c then outstanding c else Suc (length (txQueue c)))"
    using True sent_to_all [of ?c] window_ok_append [OF ok(1)] by (auto simp: sent_to_def)
  have i: "i_frame (?d\<lparr>pendingActions := []\<rparr>) j = i_frame ?c j" if "j < Suc (length (txQueue c))" for j
    using that i_frame_sendPending [of j ?c] by (simp add: i_frame_def buildFrame_def)
  have lt: "outstanding c < Suc (length (txQueue c))" using ok(1) by (simp add: window_ok_def)
  have dat: "map pfData (txQueue ?d) = map pfData (txQueue c) @ [bs]" by (simp add: sendPending_data)
  show ?thesis
    using True t s lt ok(3) assms(2) dat unfolding r
    by (auto simp: transmits_def tx_calls_all i)
qed

theorem sendData_transmits_witness:
  "case SendData (str ''hi'') linked of (err, out, d) \<Rightarrow>
     err = None \<and> map pfData (txQueue d) = [str ''hi''] \<and> outstanding d = length (txQueue d)"
  using sendData_transmits [of linked "[]" "str ''hi''"] linked_good
  by (simp add: session_ok_def linked_def fresh_conn_fields all_callbacks_def defaultConnConfig_def
      IsConnected_def Conn_State_def split: prod.splits)

section \<open>Acknowledgement and retransmission\<close>

text \<open>C6: Acknowledgement. On a session with the invariant an N(R) is accepted exactly when it
  lies between V(A) and V(S) modulo eight; accepting it takes the acknowledged frames, and no
  others, off the front of the queue, reports their number once, and leaves T1 running exactly
  when frames are still in flight.\<close>

theorem ack_removes_frames:
  assumes "session_ok (c, w)" and "nr < 8"
  shows "(isValidNR c nr \<longleftrightarrow> dist8 (va c) nr \<le> outstanding c)
    \<and> (isValidNR c nr \<longrightarrow> (\<exists>d. handleReceivedNR nr c = Some d \<and> va d = nr \<and> vs d = vs c
        \<and> txQueue d = drop (dist8 (va c) nr) (txQueue c)
        \<and> outstanding d = outstanding c - dist8 (va c) nr
        \<and> pendingActions d = (if va c \<noteq> nr \<and> hasOnTxAck (cbs c) then [OnTxAck (int (dist8 (va c) nr))] else [])
        \<and> (t1Active d \<longleftrightarrow> 0 < outstanding d)))"
proof -
  have w: "window_ok c" "pendingActions c = []" "va c < 8" "vs c < 8"
    using assms(1) by (simp_all add: session_ok_def good_def conn_inv_def window_ok_def)
  have "dist8 nr (vs c) = outstanding c - dist8 (va c) nr" if "isValidNR c nr"
    using window_ok_acked(2) [OF w(1) assms(2) that] by (simp add: acked_to_def)
  moreover have "pendingActions (after_ack nr c) =
      (if va c \<noteq> nr \<and> hasOnTxAck (cbs c) then [OnTxAck (int (dist8 (va c) nr))] else [])"
    using w dist8_0 [OF w(3) assms(2)] by (cases "va c = nr") (auto simp: after_ack_def Let_def timer_defs acked_to_def)
  ultimately show ?thesis
    using isValidNR_window [OF w(3,4) assms(2)] handleReceivedNR_result [OF w(3) assms(2)]
      dist8_0 [OF assms(2) w(4)]
    by (auto simp del: not_gr_zero)
qed

theorem ack_removes_frames_witness:
  "\<not> isValidNR linked 1 \<and> (\<exists>d. handleReceivedNR 0 linked = Some d \<and> \<not> t1Active d)"
proof -
  have "session_ok (linked, [])" using linked_good by (simp add: session_ok_def linked_def fresh_conn_fields)
  then show ?thesis
    using ack_removes_frames [of linked "[]" 0] ack_removes_frames [of linked "[]" 1]
    by (auto simp: linked_def fresh_conn_fields isValidNR_def dist8_def mod8_def)
qed

text \<open>A frame out of the window ends the session. An I frame (unless the receiver is busy) or
  an S frame whose N(R) is not between V(A) and V(S) makes the session report an error, send DM and
  disconnect with all timers stopped.\<close>

theorem invalid_nr_disconnects:
  assumes "session_ok (c, w)" and "IsConnected c" and "\<not> isValidNR c (ExtractNR (Control f))"
    and "Type f = FrameS \<or> Type f = FrameI \<and> \<not> localBusy c"
    and "hasOnTxFrame (cbs c)" and "hasOnError (cbs c)" and "hasOnDisconnect (cbs c)"
  shows "\<exists>msg d. OnFrame f c = Some (Returned (None,
      [OnError \<lparr>Code = ErrMsg ''ax25: N(R) error'', Message = msg, RetryCount = retryCount c\<rparr>,
       OnTxFrame ((buildFrame c (CtrlDM OR CtrlPFBit) 0 [])\<lparr>IsCommand := False\<rparr>), OnDisconnect], d))
     \<and> state d = ConnStateDisconnected \<and> \<not> t1Active d \<and> \<not> t2Active d \<and> \<not> t3Active d"
  using assms
  by (auto simp: OnFrame_def IsConnected_def Conn_State_def handleTimerRecovery_def handleConnected_def
      handleIFrame_def handleSFrame_def startNRErrorRecovery_def session_ok_def unlock_def
      takePendingActions_def enterDisconnected_def enqueueAction_def fireError_calls send_calls
      tx_call_def timer_defs buildFrame_def with_pf_def Let_def)


theorem invalid_nr_disconnects_witness:
  "\<exists>msg d. OnFrame (sample_frame\<lparr>Type := FrameS, Control := BuildRRControl 3 False\<rparr>) linked = Some (Returned (None,
      [OnError \<lparr>Code = ErrMsg ''ax25: N(R) error'', Message = msg, RetryCount = 0\<rparr>,
       OnTxFrame ((buildFrame linked (CtrlDM OR CtrlPFBit) 0 [])\<lparr>IsCommand := False\<rparr>), OnDisconnect], d))
     \<and> state d = ConnStateDisconnected"
proof -
  have "session_ok (linked, [])" using linked_good by (simp add: session_ok_def linked_def fresh_conn_fields)
  then show ?thesis
    using invalid_nr_disconnects [of linked "[]" "sample_frame\<lparr>Type := FrameS, Control := BuildRRControl 3 False\<rparr>"]
    by (auto simp: linked_def fresh_conn_fields isValidNR_def all_callbacks_def BuildRRControl_def ExtractNR_def
        IsConnected_def Conn_State_def)
qed

text \<open>C5: Going back on a REJ. A REJ frame with an acceptable N(R) acknowledges the frames before
  it, clears the peer's busy condition and sends all the frames left in the queue once more,
  in order and numbered from N(R); the session is connected and T1 runs if anything is in flight.\<close>

theorem rej_retransmits:
  assumes s: "session_ok (c, w)" "IsConnected c" and f: "Type f = FrameS" "Control f AND 0x0F = CtrlREJMask"
    and nr: "nr = ExtractNR (Control f)" "isValidNR c nr" and "hasOnTxFrame (cbs c)"
  shows "\<exists>acks d. OnFrame f c = Some (Returned (None,
      acks @ map (\<lambda>i. OnTxFrame (i_frame d i)) [0..<length (txQueue d)]
        @ (if HasPF (Control f) then [OnTxFrame ((buildFrame d (BuildRRControl (vr d) True) 0 [])\<lparr>IsCommand := False\<rparr>)] else []), d))
     \<and> acks = (if va c \<noteq> nr \<and> hasOnTxAck (cbs c) then [OnTxAck (int (dist8 (va c) nr))] else [])
     \<and> map pfData (txQueue d) = map pfData (drop (dist8 (va c) nr) (txQueue c))
     \<and> va d = nr \<and> outstanding d = length (txQueue d) \<and> state d = ConnStateConnected \<and> retryCount d = 0
     \<and> (txQueue d \<noteq> [] \<longrightarrow> t1Active d)"
proof -
  let ?a = "after_ack nr (c\<lparr>peerBusy := False\<rparr>)"
  let ?b = "(stopT1 ?a)\<lparr>retryCount := 0, state := ConnStateConnected\<rparr>"
  let ?r = "rewound nr ?b"
  let ?d = "retransmitFrom nr ?b"
  have n8: "nr < 8" using nr(1) by simp
  have w: "window_ok (c\<lparr>peerBusy := False\<rparr>)" "va c < 8" "config_ok c" "pendingActions c = []"
    "int (length (txQueue c)) \<le> Window (cfg c)"
    using s by (simp_all add: session_ok_def good_def conn_inv_def window_ok_def)
  have wb: "window_ok ?b" "config_ok ?b" "va ?b = nr"
    using window_ok_after_ack [OF w(1) n8] nr(2) w(3) by (simp_all add: timer_defs config_ok_def)
  have t: "transmits ?r ?d" using retransmitFrom_transmits [OF wb(1,2)] wb(3) by simp
  have q: "length (txQueue ?d) = length (txQueue ?b)" by simp
  have st: "sent_to ?r = length (txQueue ?b)"
    using rewound_sent_to [of ?b] w(5) wb(3) by (simp add: timer_defs)
  have dat: "map pfData (txQueue ?d) = map pfData (drop (dist8 (va c) nr) (txQueue c))"
    by (simp add: retransmitFrom_def sendPending_data timer_defs comp_def)
  have dr: "?d = sendPendingIFrames ?r" by (simp add: retransmitFrom_def rewound_def)
  have i: "i_frame ?d j = i_frame ?r j" if "j < length (txQueue ?b)" for j
    using that i_frame_sendPending [of j ?r] dr by (simp add: rewound_def)
  have r0: "outstanding ?r = 0" "cbs ?r = cbs c" "pendingActions ?r = pendingActions ?a"
    using wb(3) by (simp_all add: rewound_def timer_defs)
  define acks where "acks = (if va c \<noteq> nr \<and> hasOnTxAck (cbs c) then [OnTxAck (int (dist8 (va c) nr))] else [])"
  have a: "pendingActions ?a = acks"
    using w dist8_0 [OF w(2) n8] by (cases "va c = nr") (auto simp: acks_def after_ack_def Let_def timer_defs acked_to_def)
  have fr: "map (\<lambda>j. OnTxFrame (i_frame ?d j)) [0..<length (txQueue ?b)] = map (\<lambda>j. OnTxFrame (i_frame ?r j)) [0..<length (txQueue ?b)]"
    by (rule map_cong) (simp_all add: i)
  have tx: "pendingActions ?d = acks @ map (\<lambda>j. OnTxFrame (i_frame ?d j)) [0..<length (txQueue ?d)]"
    using t assms(7) unfolding transmits_def q fr st r0 a by (simp add: tx_calls_all r0)
  have d: "outstanding ?d = length (txQueue ?d)" "txQueue ?d \<noteq> [] \<Longrightarrow> t1Active ?d"
    using t st q r0(1) unfolding transmits_def by (simp, metis length_greater_0_conv)
  have v: "handleReceivedNR nr (c\<lparr>peerBusy := False\<rparr>) = Some ?a"
    using handleReceivedNR_result [of "c\<lparr>peerBusy := False\<rparr>" nr] w(2) n8 by simp
  let ?e = "if HasPF (Control f) then sendRR True False ?d else ?d"
  have h: "OnFrame f c = Some (Returned (unlock None ?e))"
    using s(2) f nr v
    by (auto simp: OnFrame_def IsConnected_def Conn_State_def handleTimerRecovery_def handleConnected_def
        handleSFrame_def Let_def)
  have p: "i_frame (?e\<lparr>pendingActions := x\<rparr>) = i_frame ?d" for x
    by (auto simp: fun_eq_iff i_frame_def buildFrame_def send_calls)
  have cb: "cbs (stopT1 ?a) = cbs c" by (simp add: timer_defs)
  show ?thesis unfolding h unlock_def takePendingActions_def
    by (rule exI [of _ acks], rule exI [of _ "?e\<lparr>pendingActions := []\<rparr>"])
      (use tx d dat assms(7) wb(3) cb in \<open>auto simp: p acks_def send_calls tx_call_def buildFrame_def\<close>)
qed


theorem rej_retransmits_witness:
  "\<exists>out d. OnFrame (sample_frame\<lparr>Type := FrameS, Control := BuildREJControl 0 False\<rparr>) linked
     = Some (Returned (None, out, d)) \<and> va d = 0 \<and> outstanding d = length (txQueue d)"
proof -
  have "session_ok (linked, [])" using linked_good by (simp add: session_ok_def linked_def fresh_conn_fields)
  then show ?thesis
    using rej_retransmits [of linked "[]" "sample_frame\<lparr>Type := FrameS, Control := BuildREJControl 0 False\<rparr>" 0]
    by (auto simp: linked_def fresh_conn_fields isValidNR_def all_callbacks_def BuildREJControl_def ExtractNR_def
        IsConnected_def Conn_State_def)
qed

section \<open>Receiving\<close>

text \<open>The receiver of the protocol, over the numbers N(S) and N(R) and the data of the I frames it gets, with V(S), V(A) and V(R). A busy
  receiver takes nothing. A frame whose N(R) is not between V(A) and V(S) modulo eight breaks the link, and nothing is taken after
  it. Any other frame acknowledges up to its N(R), and its data are taken if it has the expected number.\<close>

fun receiver :: "bool \<Rightarrow> byte \<Rightarrow> byte \<Rightarrow> byte \<Rightarrow> (byte \<times> byte \<times> byte list) list \<Rightarrow> byte list list" where
  "receiver busy s a r [] = []"
| "receiver busy s a r ((n, k, p) # fs) =
     (if busy then receiver busy s a r fs
      else if dist8 a k > dist8 a s then []
      else if n = r then (if p = [] then [] else [p]) @ receiver busy s k (mod8 (r + 1)) fs
      else receiver busy s k r fs)"

text \<open>Frames given to \<open>OnFrame\<close> one after the other, with all the calls they cause.\<close>

fun on_frames :: "Frame list \<Rightarrow> Conn \<Rightarrow> (action list \<times> Conn) option" where
  "on_frames [] c = Some ([], c)"
| "on_frames (f # fs) c =
     (case OnFrame f c of
        Some (Returned (_, out, d)) \<Rightarrow> map_option (\<lambda>(outs, e). (out @ outs, e)) (on_frames fs d)
      | _ \<Rightarrow> None)"

fun data_calls :: "action list \<Rightarrow> byte list list" where
  "data_calls [] = []"
| "data_calls (OnData d # as) = d # data_calls as"
| "data_calls (_ # as) = data_calls as"

lemma data_calls_append [simp]: "data_calls (as @ bs) = data_calls as @ data_calls bs"
  by (induction as rule: data_calls.induct) simp_all

lemma data_calls_tx [simp]: "data_calls (tx_call c f) = []"
  by (simp add: tx_call_def)

lemma isValidNR_va: "va c < 8 \<Longrightarrow> vs c < 8 \<Longrightarrow> isValidNR c (va c)"
  by (auto simp: isValidNR_def)

lemma after_ack_va_calls: "va c < 8 \<Longrightarrow> pendingActions (after_ack (va c) c) = pendingActions c"
  by (simp add: after_ack_def Let_def timer_defs acked_to_def)

definition receiving :: "Conn \<Rightarrow> bool" where
  "receiving c \<longleftrightarrow> good False c \<and> pendingActions c = [] \<and> IsConnected c \<and> hasOnData (cbs c)"

lemma after_ack_data: "data_calls (pendingActions (after_ack nr c)) = data_calls (pendingActions c)"
  by (simp add: after_ack_def Let_def timer_defs acked_to_def)

lemma receive_data_fields:
  "vr (receive_data f pf c) = mod8 (vr c + 1)" "localBusy (receive_data f pf c) = localBusy c"
  "cbs (receive_data f pf c) = cbs c" "va (receive_data f pf c) = va c" "state (receive_data f pf c) = state c"
  "vs (receive_data f pf c) = vs c"
  "data_calls (pendingActions (receive_data f pf c)) = data_calls (pendingActions c) @
     (if hasOnData (cbs c) \<and> Payload f \<noteq> [] then [Payload f] else [])"
  by (simp_all add: receive_data_def Let_def sendAck_def send_calls startT2_def enqueueAction_def)

lemma connected_OnFrame_I:
  "IsConnected c \<Longrightarrow> Type f = FrameI \<Longrightarrow> OnFrame f c = map_option (\<lambda>c. Returned (unlock None c)) (handleIFrame f c)"
  by (auto simp: OnFrame_def IsConnected_def Conn_State_def handleTimerRecovery_def handleConnected_def)

lemma receive_busy:
  assumes "receiving c" and "Type f = FrameI" and "localBusy c"
  shows "\<exists>out. OnFrame f c = Some (Returned (None, out, c)) \<and> data_calls out = []"
proof -
  have "handleIFrame f c = Some (sendRNR False False c)" using assms(3) by (simp add: handleIFrame_def)
  then show ?thesis using assms(1,2) connected_OnFrame_I [of c f]
    by (simp add: receiving_def unlock_def takePendingActions_def send_calls)
qed

lemma receive_invalid:
  assumes "receiving c" and "Type f = FrameI" and "\<not> localBusy c" and "\<not> isValidNR c (ExtractNR (Control f))"
  shows "\<exists>out d. OnFrame f c = Some (Returned (None, out, d)) \<and> data_calls out = [] \<and> state d = ConnStateDisconnected \<and> pendingActions d = []"
proof -
  have "handleIFrame f c = Some (startNRErrorRecovery ''invalid N(R) in I-frame'' c)" using assms(3,4) by (simp add: handleIFrame_def Let_def)
  then show ?thesis using assms(1,2) connected_OnFrame_I [of c f]
    by (simp add: receiving_def unlock_def takePendingActions_def startNRErrorRecovery_def enterDisconnected_def enqueueAction_def Let_def timer_defs
        send_calls fireError_calls)
qed

lemma receive_disconnected:
  assumes "state c = ConnStateDisconnected" and "pendingActions c = []" and "\<forall>f \<in> set fs. Type f = FrameI"
  shows "\<exists>out d. on_frames fs c = Some (out, d) \<and> data_calls out = []"
  using assms
proof (induction fs arbitrary: c)
  case (Cons f fs)
  let ?d = "c\<lparr>remoteAddr := Source f, path := extractReturnPath f\<rparr>"
  obtain out where f: "OnFrame f c = Some (Returned (None, out, ?d))" "data_calls out = []"
    using Cons.prems by (auto simp: OnFrame_def handleDisconnected_def is_u_def unlock_def takePendingActions_def send_calls Let_def)
  then show ?case using Cons.IH [of ?d] Cons.prems by auto
qed simp

lemma receive_valid:
  assumes r: "receiving c" and f: "Type f = FrameI" "nr = ExtractNR (Control f)" and b: "\<not> localBusy c" and nr: "isValidNR c nr"
  shows "\<exists>out d. OnFrame f c = Some (Returned (None, out, d)) \<and> receiving d \<and> \<not> localBusy d \<and> va d = nr \<and> vs d = vs c
    \<and> (if ExtractNS (Control f) = vr c
       then vr d = mod8 (vr c + 1) \<and> data_calls out = (if Payload f = [] then [] else [Payload f])
       else vr d = vr c \<and> data_calls out = [])"
proof -
  have g: "good False c" and c: "IsConnected c" "pendingActions c = []" "hasOnData (cbs c)"
    using r by (simp_all add: receiving_def)
  have v: "va c < 8" "vs c < 8" "nr < 8" using g f(2) by (simp_all add: good_def conn_inv_def window_ok_def)
  let ?a = "after_ack nr c" let ?pf = "HasPF (Control f)"
  let ?d = "if ExtractNS (Control f) = vr ?a then receive_data f ?pf ?a
            else if \<not> rejSent ?a then sendREJ ?pf False (?a\<lparr>rejSent := True\<rparr>)
            else if ?pf then sendRR True False ?a else ?a"
  have h: "handleIFrame f c = Some ?d"
    using b f nr handleReceivedNR_result [OF v(1,3)] by (simp add: handleIFrame_def Let_def)
  have "good False ?d" using good_handleIFrame [OF g c(1), of f] h by auto
  moreover have "OnFrame f c = Some (Returned (None, pendingActions ?d, ?d\<lparr>pendingActions := []\<rparr>))"
    using connected_OnFrame_I [OF c(1) f(1)] h by (simp add: unlock_def takePendingActions_def)
  moreover have "IsConnected ?d" "\<not> localBusy ?d" "hasOnData (cbs ?d)" "va ?d = nr" "vs ?d = vs c"
    using c b by (auto simp: IsConnected_def Conn_State_def receive_data_fields send_calls)
  ultimately show ?thesis
    using c(2,3) after_ack_data [of nr c]
    by (auto simp: receiving_def receive_data_fields send_calls IsConnected_def Conn_State_def)
qed

text \<open>C4: In-sequence delivery. On every connected session with the invariant, busy or not and with any number of frames in flight, and
  for every series of I frames, whatever they acknowledge: \<open>OnFrame\<close> handles every frame of the series, and the data handed to the application are exactly
  what the protocol's receiver takes, in order. Each expected frame is taken once, also when it carries a new acknowledgement;
  duplicates, frames after a gap, frames to a busy receiver and frames after one whose N(R) is out of the window never are.\<close>

theorem receives_in_sequence:
  assumes "session_ok (c, w)" and "IsConnected c" and "hasOnData (cbs c)" and "\<forall>f \<in> set fs. Type f = FrameI"
  shows "\<exists>out d. on_frames fs c = Some (out, d)
    \<and> data_calls out = receiver (localBusy c) (vs c) (va c) (vr c)
        (map (\<lambda>f. (ExtractNS (Control f), ExtractNR (Control f), Payload f)) fs)"
proof -
  have "receiving c" using assms by (simp add: receiving_def session_ok_def good_def)
  then show ?thesis using assms(4)
  proof (induction fs arbitrary: c)
    case (Cons f fs)
    let ?nr = "ExtractNR (Control f)"
    have v: "va c < 8" "vs c < 8" using Cons.prems(1) by (simp_all add: receiving_def good_def conn_inv_def window_ok_def)
    have w: "isValidNR c ?nr \<longleftrightarrow> \<not> dist8 (va c) ?nr > dist8 (va c) (vs c)" using isValidNR_window [OF v, of ?nr] by (simp add: not_less)
    consider "localBusy c" | "\<not> localBusy c" "\<not> isValidNR c ?nr" | "\<not> localBusy c" "isValidNR c ?nr" by blast
    then show ?case
    proof cases
      case 1
      then obtain out where "OnFrame f c = Some (Returned (None, out, c))" "data_calls out = []"
        using receive_busy [of c f] Cons.prems by auto
      then show ?thesis using Cons.IH [OF Cons.prems(1)] Cons.prems(2) 1 by auto
    next
      case 2
      then obtain out d where d: "OnFrame f c = Some (Returned (None, out, d))" "data_calls out = []"
        "state d = ConnStateDisconnected" "pendingActions d = []" using receive_invalid [of c f] Cons.prems by auto
      then show ?thesis using receive_disconnected [OF d(3,4), of fs] Cons.prems(2) 2 w by auto
    next
      case 3
      then obtain out d where d: "OnFrame f c = Some (Returned (None, out, d))" "receiving d" "\<not> localBusy d" "va d = ?nr" "vs d = vs c"
        "if ExtractNS (Control f) = vr c
         then vr d = mod8 (vr c + 1) \<and> data_calls out = (if Payload f = [] then [] else [Payload f])
         else vr d = vr c \<and> data_calls out = []"
        using receive_valid [of c f ?nr] Cons.prems by auto
      with Cons.IH [of d] Cons.prems(2) obtain outs e where "on_frames fs d = Some (outs, e)"
        "data_calls outs = receiver False (vs c) ?nr (vr d) (map (\<lambda>f. (ExtractNS (Control f), ExtractNR (Control f), Payload f)) fs)" by auto
      with d 3 w show ?thesis by (auto split: if_splits)
    qed
  qed simp
qed

text \<open>One frame in flight, acknowledged along with data; then one whose N(R) is out of the window.\<close>

theorem receives_in_sequence_witness:
  "let fr = (\<lambda>n k p. sample_frame\<lparr>Type := FrameI, Control := BuildIControl n k False, Payload := str p\<rparr>);
       c = snd (snd (SendData (str ''x'') linked))
   in \<exists>out d. on_frames [fr 0 0 ''a'', fr 2 0 ''c'', fr 1 1 ''b'', fr 1 1 ''b'', fr 2 3 ''no'', fr 2 1 ''no''] c = Some (out, d)
     \<and> data_calls out = [str ''a'', str ''b'']"
proof -
  let ?f = "\<lambda>n k p. sample_frame\<lparr>Type := FrameI, Control := BuildIControl n k False, Payload := str p\<rparr>"
  let ?fs = "[?f 0 0 ''a'', ?f 2 0 ''c'', ?f 1 1 ''b'', ?f 1 1 ''b'', ?f 2 3 ''no'', ?f 2 1 ''no'']"
  obtain err out c where sd: "SendData (str ''x'') linked = (err, out, c)" by (cases "SendData (str ''x'') linked") auto
  have g: "session_ok (linked, [])" using linked_good by (simp add: session_ok_def linked_def fresh_conn_fields)
  have c: "vs c = 1" "va c = 0" "vr c = 0" "\<not> localBusy c" "hasOnData (cbs c)" "state c = ConnStateConnected" "pendingActions c = []"
    using sd by (auto simp: SendData_def linked_def fresh_conn_fields all_callbacks_def defaultConnConfig_def unlock_def takePendingActions_def
        sendPendingIFrames_def send_one_def conn_tx_def enqueueAction_def timer_defs Let_def mod8_def upt_rec split: if_splits)
  have s: "session_ok (c, [])" using good_SendData [of True linked "str ''x''"] sd g c(7) by (simp add: session_ok_def)
  obtain out' d where o: "on_frames ?fs c = Some (out', d)"
    "data_calls out' = receiver (localBusy c) (vs c) (va c) (vr c) (map (\<lambda>f. (ExtractNS (Control f), ExtractNR (Control f), Payload f)) ?fs)"
    using receives_in_sequence [OF s, of ?fs] c(5,6) by (auto simp: IsConnected_def Conn_State_def)
  then have "data_calls out' = [str ''a'', str ''b'']"
    using c by (simp add: BuildI_fields mod8_def dist8_def)
  with o(1) show ?thesis unfolding Let_def sd by auto
qed

section \<open>Retries end\<close>

fun t1_expiries :: "nat \<Rightarrow> Conn \<Rightarrow> action list \<times> Conn" where
  "t1_expiries 0 c = ([], c)"
| "t1_expiries (Suc n) c =
     (let (out, d) = onT1Expired c; (outs, e) = t1_expiries n d in (out @ outs, e))"

fun tx_calls :: "action list \<Rightarrow> Frame list" where
  "tx_calls [] = []"
| "tx_calls (OnTxFrame f # as) = f # tx_calls as"
| "tx_calls (_ # as) = tx_calls as"

lemma tx_calls_append [simp]: "tx_calls (as @ bs) = tx_calls as @ tx_calls bs"
  by (induction as rule: tx_calls.induct) simp_all

text \<open>What a session waiting for an answer sends when T1 expires, and when it gives up.\<close>

definition poll_frame :: "Conn \<Rightarrow> Frame" where
  "poll_frame c =
     (case state c of
        ConnStateAwaitingConnection \<Rightarrow> buildFrame c (CtrlSABM OR CtrlPFBit) 0 []
      | ConnStateAwaitingRelease \<Rightarrow> buildFrame c (CtrlDISC OR CtrlPFBit) 0 []
      | _ \<Rightarrow> (buildFrame c (BuildRRControl (vr c) True) 0 [])\<lparr>IsCommand := True\<rparr>)"

definition last_words :: "Conn \<Rightarrow> Frame list" where
  "last_words c = (if state c = ConnStateTimerRecovery
     then [(buildFrame c (CtrlDM OR CtrlPFBit) 0 [])\<lparr>IsCommand := False\<rparr>] else [])"

definition waiting :: "Conn \<Rightarrow> bool" where
  "waiting c \<longleftrightarrow> state c \<in> {ConnStateAwaitingConnection, ConnStateAwaitingRelease, ConnStateTimerRecovery}
     \<and> pendingActions c = [] \<and> hasOnTxFrame (cbs c)"

lemma onT1Expired_retry:
  assumes "waiting c" and "retryCount c < N2 (cfg c)"
  shows "\<exists>d. onT1Expired c = ([OnTxFrame (poll_frame c)], d) \<and> waiting d \<and> state d = state c
    \<and> retryCount d = retryCount c + 1 \<and> cfg d = cfg c \<and> poll_frame d = poll_frame c
    \<and> last_words d = last_words c \<and> t1Active d"
  using assms
  by (auto simp: waiting_def onT1Expired_def retry_or_fail_def takePendingActions_def send_calls tx_call_def
      timer_defs poll_frame_def last_words_def buildFrame_def with_pf_def Let_def)

lemma onT1Expired_fail:
  assumes "waiting c" and "retryCount c \<ge> N2 (cfg c)"
  shows "\<exists>out d. onT1Expired c = (out, d) \<and> state d = ConnStateDisconnected \<and> tx_calls out = last_words c"
  using assms
  by (auto simp: waiting_def onT1Expired_def retry_or_fail_def takePendingActions_def send_calls tx_call_def
      timer_defs last_words_def buildFrame_def with_pf_def Let_def enterDisconnected_def enqueueAction_def
      fireError_calls)

text \<open>C7: Retries end. A session whose SABM, DISC or poll is never answered sends it again on each
  expiry of T1 until the retry counter is at N2; on the next expiry it is disconnected, after a DM
  if it was in timer recovery.\<close>

theorem retries_end:
  assumes "waiting c"
  shows "case t1_expiries (Suc (nat (N2 (cfg c) - retryCount c))) c of (out, d) \<Rightarrow>
     state d = ConnStateDisconnected
     \<and> tx_calls out = replicate (nat (N2 (cfg c) - retryCount c)) (poll_frame c) @ last_words c"
  using assms
proof (induction "nat (N2 (cfg c) - retryCount c)" arbitrary: c)
  case 0
  then show ?case using onT1Expired_fail [of c] by auto
next
  case (Suc n)
  have "retryCount c < N2 (cfg c)" using Suc.hyps(2) by simp
  then obtain d where d: "onT1Expired c = ([OnTxFrame (poll_frame c)], d)" "waiting d"
    "retryCount d = retryCount c + 1" "cfg d = cfg c" "poll_frame d = poll_frame c" "last_words d = last_words c"
    using onT1Expired_retry [OF Suc.prems] by blast
  have n: "n = nat (N2 (cfg d) - retryCount d)" "nat (N2 (cfg c) - retryCount c) = Suc n"
    using Suc.hyps(2) d(3,4) by auto
  have "case t1_expiries (Suc n) d of (out, e) \<Rightarrow> state e = ConnStateDisconnected
      \<and> tx_calls out = replicate n (poll_frame c) @ last_words c"
    using Suc.hyps(1) [OF n(1) d(2)] n(1) d(5,6) by simp
  then show ?case unfolding n(2) by (subst t1_expiries.simps) (auto simp: d(1) simp del: t1_expiries.simps split: prod.splits)
qed

theorem retries_end_witness:
  "case t1_expiries 11 (snd (snd (Connect N7GET_5 [] fresh_conn))) of (out, d) \<Rightarrow>
     state d = ConnStateDisconnected \<and> length (tx_calls out) = 10"
  using retries_end [of "snd (snd (Connect N7GET_5 [] fresh_conn))"]
  by (simp add: waiting_def Connect_def fresh_conn_fields all_callbacks_def defaultConnConfig_def unlock_def
      takePendingActions_def send_calls timer_defs resetStateVars_def last_words_def Let_def
      del: t1_expiries.simps split: prod.splits)

section \<open>Answering a connection request\<close>

text \<open>Accepting and refusing. A SABM to a disconnected session calls OnConnect with the
  caller's address before anything is sent; when the callback returns, the session answers UA and
  starts T3, or, if Refuse was called, answers DM and is disconnected again, the
  answer carrying the poll bit of the SABM and going back along the hops it came by.\<close>

theorem sabm_answer:
  assumes "state c = ConnStateDisconnected" and "Type f = FrameU" and "Control f AND 0xEF = CtrlSABM"
    and "hasOnConnect (cbs c)" and "hasOnTxFrame (cbs c)" and "pendingActions c = []"
  shows "\<exists>d. OnFrame f c = Some (CallsOnConnect (Source f) d) \<and> state d = ConnStateConnected
     \<and> (let pf = HasPF (Control f);
            answer = (\<lambda>ctrl. \<lparr>Destination = Source f, Source = localAddr c, Digipeaters = extractReturnPath f,
               IsCommand = False, Type = FrameU, Control = (if pf then ctrl OR CtrlPFBit else ctrl), PID = 0, Payload = []\<rparr>)
        in (\<exists>e. OnFrame_resume pf d = (None, [OnTxFrame (answer CtrlUA)], e)
              \<and> state e = ConnStateConnected \<and> t3Active e)
         \<and> (\<exists>rest e. OnFrame_resume pf (Refuse d) = (None, OnTxFrame (answer CtrlDM) # rest, e)
              \<and> state e = ConnStateDisconnected \<and> tx_calls rest = []))"
  using assms
  by (auto simp: OnFrame_def handleDisconnected_def is_u_def resetStateVars_def OnFrame_resume_def
      handleDisconnected_resume_def Refuse_def unlock_def takePendingActions_def send_calls tx_call_def
      buildFrame_def with_pf_def timer_defs enterDisconnected_def enqueueAction_def Let_def IdentifyFrameType_def)

theorem sabm_answer_witness:
  "\<exists>d. OnFrame (sample_frame\<lparr>Type := FrameU, Control := CtrlSABM OR CtrlPFBit\<rparr>) fresh_conn
     = Some (CallsOnConnect N7GET_5 d) \<and> state d = ConnStateConnected"
  using sabm_answer [of fresh_conn "sample_frame\<lparr>Type := FrameU, Control := CtrlSABM OR CtrlPFBit\<rparr>"]
  by (auto simp: fresh_conn_fields all_callbacks_def sample_frame_def)

section \<open>Behaviours the protocol does not want\<close>

text \<open>A final RR is answered with a final RR. A connected session answers an RR response with
  the final bit by an RR response with the final bit, although only a command asks for an
  answer, and stays connected: two connected sessions that receive one such frame exchange it
  forever.\<close>

theorem rr_final_echoed:
  assumes "session_ok (c, w)" and "state c = ConnStateConnected" and "Type f = FrameS"
    and "Control f AND 0x0F = CtrlRRMask" and "HasPF (Control f)" and "ExtractNR (Control f) = va c"
    and "hasOnTxFrame (cbs c)"
  shows "\<exists>d. OnFrame f c = Some (Returned (None,
        [OnTxFrame ((buildFrame c (BuildRRControl (vr c) True) 0 [])\<lparr>IsCommand := False\<rparr>)], d))
     \<and> state d = ConnStateConnected \<and> va d = va c \<and> vr d = vr c \<and> vs d = vs c \<and> txQueue d = txQueue c"
proof -
  have v: "va c < 8" "vs c < 8" "pendingActions c = []"
    using assms(1) by (simp_all add: session_ok_def good_def conn_inv_def window_ok_def)
  let ?c = "c\<lparr>peerBusy := False\<rparr>"
  have "handleReceivedNR (va c) ?c = Some (after_ack (va c) ?c)"
    using handleReceivedNR_result [of ?c "va c"] v by simp
  moreover have "pendingActions (after_ack (va c) ?c) = []" using after_ack_va_calls [of ?c] v by simp
  ultimately show ?thesis
    using assms v isValidNR_va [OF v(1,2)]
    by (simp add: OnFrame_def handleConnected_def handleSFrame_def Let_def unlock_def takePendingActions_def
        send_calls tx_call_def buildFrame_def)
qed

theorem rr_final_echoed_witness:
  "\<exists>d. OnFrame (sample_frame\<lparr>Type := FrameS, Control := BuildRRControl 0 True, IsCommand := False\<rparr>) linked
     = Some (Returned (None, [OnTxFrame ((buildFrame linked (BuildRRControl 0 True) 0 [])\<lparr>IsCommand := False\<rparr>)], d))"
proof -
  have s: "session_ok (linked, [])" using linked_good by (simp add: session_ok_def linked_def fresh_conn_fields)
  show ?thesis
    using rr_final_echoed [OF s, of "sample_frame\<lparr>Type := FrameS, Control := BuildRRControl 0 True, IsCommand := False\<rparr>"]
    by (auto simp: linked_def fresh_conn_fields all_callbacks_def BuildRRControl_def ExtractNR_def HasPF_def)
qed

text \<open>A link in timer recovery can lose its supervision. When a frame without the final bit
  acknowledges everything in flight while the session polls its peer, T1 is stopped and the
  session stays in timer recovery; T3, started instead, does nothing there when it expires, so
  that afterwards no timer runs and nothing polls the peer again.\<close>

theorem timer_recovery_unsupervised:
  assumes "session_ok (c, w)" and "state c = ConnStateTimerRecovery" and "Type f = FrameS"
    and "Control f AND 0x0F = CtrlRRMask" and "\<not> HasPF (Control f)" and "ExtractNR (Control f) = vs c"
  shows "\<exists>out d. OnFrame f c = Some (Returned (None, out, d)) \<and> state d = ConnStateTimerRecovery
     \<and> (case onT3Expired d of (out', e) \<Rightarrow> out' = [] \<and> state e = ConnStateTimerRecovery
          \<and> \<not> t1Active e \<and> \<not> t3Active e)"
proof -
  have v: "va c < 8" "vs c < 8" "pendingActions c = []"
    using assms(1) by (simp_all add: session_ok_def good_def conn_inv_def window_ok_def)
  let ?c = "c\<lparr>peerBusy := False\<rparr>"
  have "handleReceivedNR (vs c) ?c = Some (after_ack (vs c) ?c)"
    using handleReceivedNR_result [of ?c "vs c"] v by simp
  moreover have "isValidNR c (vs c)" by (auto simp: isValidNR_def)
  ultimately show ?thesis using assms
    by (simp add: OnFrame_def handleTimerRecovery_def handleConnected_def handleSFrame_def Let_def unlock_def
        takePendingActions_def onT3Expired_def)
qed

theorem timer_recovery_unsupervised_witness:
  "\<exists>out d. OnFrame (sample_frame\<lparr>Type := FrameS, Control := BuildRRControl 0 False\<rparr>) (snd (onT3Expired linked))
     = Some (Returned (None, out, d)) \<and> state d = ConnStateTimerRecovery"
proof -
  have s: "session_ok (snd (onT3Expired linked), [])"
    using linked_good good_onT3Expired methods_taken(10) by (simp add: session_ok_def)
  show ?thesis
    using timer_recovery_unsupervised [OF s, of "sample_frame\<lparr>Type := FrameS, Control := BuildRRControl 0 False\<rparr>"]
    by (auto simp: onT3Expired_def linked_def fresh_conn_fields BuildRRControl_def ExtractNR_def HasPF_def
        takePendingActions_def send_calls timer_defs Let_def)
qed

text \<open>Nothing in flight and the queue full.\<close>

definition stuck :: "Conn \<Rightarrow> bool" where
  "stuck c \<longleftrightarrow> good False c \<and> pendingActions c = [] \<and> IsConnected c \<and> va c = vs c
     \<and> int (length (txQueue c)) = Window (cfg c)"

text \<open>Frames queued while the peer was busy are stuck. When the queue has filled up while the
  peer was busy and nothing is in flight, an RR that ends the busy condition sends none of the
  queued frames, in whichever of the two connected states and with or without the final bit;
  the queue stays full, so \<open>SendData\<close>, the only call that would send them, keeps failing.\<close>

theorem busy_end_leaves_queue:
  assumes "stuck c" and "Type f = FrameS" and "Control f AND 0x0F = CtrlRRMask" and "ExtractNR (Control f) = va c"
  shows "\<exists>out d. OnFrame f c = Some (Returned (None, out, d)) \<and> \<not> peerBusy d \<and> stuck d
     \<and> txQueue d = txQueue c \<and> (\<forall>g \<in> set (tx_calls out). Type g = FrameS)
     \<and> SendData bs d = (Some ErrConnSendBufFull, [], d)"
proof -
  have s: "good False c" "IsConnected c" "pendingActions c = []" "va c = vs c"
    "int (length (txQueue c)) = Window (cfg c)" using assms(1) by (simp_all add: stuck_def)
  have v: "va c < 8" using s(1) by (simp add: good_def conn_inv_def window_ok_def)
  let ?c = "c\<lparr>peerBusy := False\<rparr>" let ?a = "after_ack (va c) ?c" let ?pf = "HasPF (Control f)"
  let ?d = "if ?pf \<and> state c = ConnStateTimerRecovery then (stopT1 ?a)\<lparr>state := ConnStateConnected\<rparr>
            else if ?pf then sendRR True False ?a else ?a"
  have a: "handleReceivedNR (va c) ?c = Some ?a" "pendingActions ?a = []"
    using handleReceivedNR_result [of ?c "va c"] after_ack_va_calls [of ?c] v s(3) by simp_all
  have "isValidNR c (va c)" using s(4) by (simp add: isValidNR_def)
  then have h: "handleSFrame f c = Some ?d"
    using assms(2-4) a(1) s(4) by (simp add: handleSFrame_def Let_def timer_defs)
  have g: "good False ?d" using good_handleSFrame [OF s(1,2), of f] h by auto
  have o: "OnFrame f c = Some (Returned (None, pendingActions ?d, ?d\<lparr>pendingActions := []\<rparr>))"
    using s(2) assms(2) h
    by (auto simp: OnFrame_def IsConnected_def Conn_State_def handleTimerRecovery_def handleConnected_def
        unlock_def takePendingActions_def)
  have f: "IsConnected ?d" "\<not> peerBusy ?d" "txQueue ?d = txQueue c" "va ?d = va c" "vs ?d = vs c" "cfg ?d = cfg c"
    using s(2) by (auto simp: IsConnected_def Conn_State_def send_calls timer_defs)
  have t: "\<forall>g \<in> set (tx_calls (pendingActions ?d)). Type g = FrameS"
    using a(2) by (auto simp: send_calls tx_call_def buildFrame_def timer_defs BuildS_type)
  have full: "SendData bs e = (Some ErrConnSendBufFull, [], e)" if "stuck e" for e
    using that by (auto simp: stuck_def SendData_def IsConnected_def Conn_State_def)
  have "stuck (?d\<lparr>pendingActions := []\<rparr>)"
    using g f s by (simp add: stuck_def IsConnected_def Conn_State_def)
  then show ?thesis using o f t full by simp
qed

definition stuck_conn :: Conn where
  "stuck_conn = linked\<lparr>peerBusy := True, txQueue := replicate 4 \<lparr>pfData = [1], pfNs = 0, transmitted = False\<rparr>\<rparr>"

theorem busy_end_leaves_queue_witness:
  "\<exists>out d. OnFrame (sample_frame\<lparr>Type := FrameS, Control := BuildRRControl 0 False\<rparr>) stuck_conn
     = Some (Returned (None, out, d)) \<and> \<not> peerBusy d \<and> length (txQueue d) = 4
     \<and> SendData [2] d = (Some ErrConnSendBufFull, [], d)"
proof -
  have "stuck stuck_conn"
    by (auto simp: stuck_def stuck_conn_def linked_def fresh_conn_fields good_defs window_ok_def defaultConnConfig_def)
  then show ?thesis
    using busy_end_leaves_queue [of stuck_conn "sample_frame\<lparr>Type := FrameS, Control := BuildRRControl 0 False\<rparr>" "[2]"]
    by (auto simp: stuck_conn_def linked_def fresh_conn_fields BuildRRControl_def ExtractNR_def)
qed

text \<open>The answer to a direct call is malformed. The source address of a frame that came
  without digipeaters carries the last-address bit; the session keeps it in the address it answers
  to, so the frames it sends have the last-address bit in their destination, where the
  address field of the frame would end.\<close>

theorem reply_ends_address_field:
  assumes "state c = ConnStateDisconnected" and "Type f = FrameU" and "Control f AND 0xEF = CtrlSABM"
    and "\<not> hasOnConnect (cbs c)" and "hasOnTxFrame (cbs c)" and "pendingActions c = []"
    and "IsLast (Source f)" and "Digipeaters f = []"
  shows "\<exists>g d w. OnFrame f c = Some (Returned (None, [OnTxFrame g], d))
     \<and> Frame_Encode U g = Inr w \<and> w ! 6 AND 0x01 = 1"
proof -
  let ?g = "\<lparr>Destination = Source f, Source = localAddr c, Digipeaters = [], IsCommand = False, Type = FrameU,
    Control = with_pf CtrlUA (HasPF (Control f)), PID = 0, Payload = []\<rparr>"
  have "\<exists>d. OnFrame f c = Some (Returned (None, [OnTxFrame ?g], d))"
    using assms
    by (auto simp: OnFrame_def handleDisconnected_def is_u_def resetStateVars_def extractReturnPath_def
      handleDisconnected_resume_def unlock_def takePendingActions_def send_calls tx_call_def
      buildFrame_def with_pf_def timer_defs Let_def IdentifyFrameType_def)
  moreover have "\<exists>w. Frame_Encode U ?g = Inr w \<and> w ! 6 AND 0x01 = 1"
    using assms(7) by (auto simp: Frame_Encode_def Let_def nth_append clear_b6_def Address_Encode_def byte_bitwise)
  ultimately show ?thesis by blast
qed

theorem reply_ends_address_field_witness:
  "\<exists>g d w. OnFrame (sample_frame\<lparr>Type := FrameU, Control := CtrlSABM, Digipeaters := [], Source := N7GET_5\<lparr>IsLast := True\<rparr>\<rparr>)
       (fresh_conn\<lparr>cbs := all_callbacks\<lparr>hasOnConnect := False\<rparr>\<rparr>) = Some (Returned (None, [OnTxFrame g], d))
     \<and> Frame_Encode \<lparr>upper_unicode = id, fold_unicode = (=)\<rparr> g = Inr w \<and> w ! 6 AND 0x01 = 1"
  by (rule reply_ends_address_field) (simp_all add: fresh_conn_fields all_callbacks_def)

end
