(* ===== verification/Ax25_Kiss.thy ===== *)
theory Ax25_Kiss
  imports Ax25_Frame
begin

text \<open>
  \<open>src/ax25/kiss.go\<close>: KISS framing. \<open>KISSEncode\<close> wraps a frame between two FEND bytes and
  escapes FEND and FESC in its data; \<open>KISSDecoder\<close> cuts a byte stream into frames again. The
  decoder's callback is the list of frames a byte makes it deliver. The lemmas show the round
  trip of a stream of frames under any chunking, where it fails (the type byte is not escaped),
  and that the decoder finds the frame boundaries again from any state.
\<close>

section \<open>Encoder\<close>

definition KISSFEnd :: byte where [simp, byte_simps]: "KISSFEnd = 0xC0"
definition KISSFEsc :: byte where [simp, byte_simps]: "KISSFEsc = 0xDB"
definition KISSTFEnd :: byte where [simp, byte_simps]: "KISSTFEnd = 0xDC"
definition KISSTFEsc :: byte where [simp, byte_simps]: "KISSTFEsc = 0xDD"

definition kiss_escape :: "byte \<Rightarrow> byte list" where
  "kiss_escape b =
     (if b = KISSFEnd then [KISSFEsc, KISSTFEnd]
      else if b = KISSFEsc then [KISSFEsc, KISSTFEsc]
      else [b])"

definition KISSEncode :: "byte \<Rightarrow> byte \<Rightarrow> byte list \<Rightarrow> byte list" where
  [wire_defs]: "KISSEncode port cmd data =
     [KISSFEnd, push_bit 4 port OR cmd] @ concat (map kiss_escape data) @ [KISSFEnd]"

definition EncodeFrameKISS :: "unicode \<Rightarrow> byte \<Rightarrow> Frame \<Rightarrow> goerr + byte list" where
  "EncodeFrameKISS U port f =
     (case Frame_Encode U f of Inl e \<Rightarrow> Inl e | Inr raw \<Rightarrow> Inr (KISSEncode port 0 raw))"

section \<open>Decoder\<close>

datatype kissState = kissStateHunt | kissStateData | kissStateEscape

type_synonym kiss_msg = "byte \<times> byte \<times> byte list"

record KISSDecoder =
  kcb :: bool \<comment> \<open>the callback is not nil\<close>
  kstate :: kissState
  kbuf :: "byte list"
  kport :: byte
  kcmd :: byte
  haveHeader :: bool

definition NewKISSDecoder :: "bool \<Rightarrow> KISSDecoder" where
  "NewKISSDecoder cb =
     \<lparr>kcb = cb, kstate = kissStateHunt, kbuf = [], kport = 0, kcmd = 0, haveHeader = False\<rparr>"

definition appendDataByte :: "byte \<Rightarrow> KISSDecoder \<Rightarrow> KISSDecoder" where
  "appendDataByte b d =
     (if \<not> haveHeader d
      then d\<lparr>kport := drop_bit 4 b AND 0x0F, kcmd := b AND 0x0F, haveHeader := True\<rparr>
      else d\<lparr>kbuf := kbuf d @ [b]\<rparr>)"

definition kiss_dispatch :: "KISSDecoder \<Rightarrow> kiss_msg list" where
  "kiss_dispatch d = (if kcb d then [(kport d, kcmd d, kbuf d)] else [])"

definition kiss_step :: "KISSDecoder \<Rightarrow> byte \<Rightarrow> KISSDecoder \<times> kiss_msg list" where
  "kiss_step d b =
     (case kstate d of
        kissStateHunt \<Rightarrow>
          if b = KISSFEnd then (d\<lparr>kstate := kissStateData, kbuf := [], haveHeader := False\<rparr>, [])
          else (d, [])
      | kissStateData \<Rightarrow>
          if b = KISSFEnd then
            (d\<lparr>kbuf := [], haveHeader := False\<rparr>, if haveHeader d then kiss_dispatch d else [])
          else if b = KISSFEsc then (d\<lparr>kstate := kissStateEscape\<rparr>, [])
          else (appendDataByte b d, [])
      | kissStateEscape \<Rightarrow>
          let d = d\<lparr>kstate := kissStateData\<rparr> in
          if b = KISSTFEnd then (appendDataByte KISSFEnd d, [])
          else if b = KISSTFEsc then (appendDataByte KISSFEsc d, [])
          else (appendDataByte b d, []))"

text \<open>\<open>Write\<close> always returns the length of its argument and no error; the model is the new state
  and the callback's calls.\<close>

definition KISSDecoder_Write :: "KISSDecoder \<Rightarrow> byte list \<Rightarrow> KISSDecoder \<times> kiss_msg list" where
  "KISSDecoder_Write d p = feed kiss_step d p"

text \<open>A receive loop: one \<open>Write\<close> per buffer read.\<close>

fun KISSDecoder_Writes :: "KISSDecoder \<Rightarrow> byte list list \<Rightarrow> KISSDecoder \<times> kiss_msg list" where
  "KISSDecoder_Writes d [] = (d, [])"
| "KISSDecoder_Writes d (p # ps) =
     (let (d', out) = KISSDecoder_Write d p; (d'', out') = KISSDecoder_Writes d' ps
      in (d'', out @ out'))"

definition KISSDecoder_Reset :: "KISSDecoder \<Rightarrow> KISSDecoder" where
  "KISSDecoder_Reset d = d\<lparr>kstate := kissStateHunt, kbuf := [], haveHeader := False\<rparr>"

lemma Writes_feed_chunks: "KISSDecoder_Writes d ps = feed_chunks kiss_step d ps"
  by (induction ps arbitrary: d) (simp_all add: KISSDecoder_Write_def)

section \<open>Messages the framing carries\<close>

text \<open>The port and the command share the type byte, a nibble each, which \<open>KISSEncode\<close> does not
  escape: port 12 with command 0 is FEND, port 13 with command 11 is FESC.\<close>

definition kiss_header :: "kiss_msg \<Rightarrow> byte" where
  "kiss_header m = (case m of (p, c, _) \<Rightarrow> push_bit 4 p OR c)"

definition kiss_valid :: "kiss_msg \<Rightarrow> bool" where
  "kiss_valid m \<longleftrightarrow> (case m of (p, c, _) \<Rightarrow> p < 16 \<and> c < 16 \<and> (p, c) \<noteq> (12, 0) \<and> (p, c) \<noteq> (13, 11))"

definition kiss_frame :: "kiss_msg \<Rightarrow> byte list" where
  "kiss_frame m = (case m of (p, c, data) \<Rightarrow> KISSEncode p c data)"

text \<open>Between frames: hunting, or after a FEND with no type byte yet.\<close>

definition kiss_ready :: "KISSDecoder \<Rightarrow> bool" where
  "kiss_ready d \<longleftrightarrow> kcb d \<and> (kstate d = kissStateHunt \<or> kstate d = kissStateData \<and> \<not> haveHeader d)"

definition in_frame :: "KISSDecoder \<Rightarrow> bool" where
  "in_frame d \<longleftrightarrow> kcb d \<and> kstate d = kissStateData \<and> haveHeader d"

lemma nibbles:
  fixes p c :: byte
  assumes "p < 16" and "c < 16"
  shows "drop_bit 4 (push_bit 4 p OR c) AND 0x0F = p" and "(push_bit 4 p OR c) AND 0x0F = c"
proof -
  have *: "x AND 0x0F = x" if "x < 16" for x :: byte
  proof -
    from that have "x AND mask 4 = x" by (intro less_mask_eq) simp
    then show ?thesis by (simp add: mask_eq_exp_minus_1)
  qed
  have "drop_bit 4 (push_bit 4 (p AND 0x0F) OR (c AND 0x0F)) AND 0x0F = p AND 0x0F"
    "(push_bit 4 (p AND 0x0F) OR (c AND 0x0F)) AND 0x0F = c AND 0x0F"
    by (simp_all add: byte_bitwise)
  with assms show "drop_bit 4 (push_bit 4 p OR c) AND 0x0F = p" "(push_bit 4 p OR c) AND 0x0F = c"
    by (simp_all add: *)
qed

lemma kiss_header_plain:
  assumes "kiss_valid (p, c, data)"
  shows "push_bit 4 p OR c \<noteq> KISSFEnd" and "push_bit 4 p OR c \<noteq> KISSFEsc"
proof -
  from assms have v: "p < 16" "c < 16" "(p, c) \<noteq> (12, 0)" "(p, c) \<noteq> (13, 11)"
    by (auto simp: kiss_valid_def)
  show "push_bit 4 p OR c \<noteq> KISSFEnd"
    using nibbles [OF v(1,2)] v(3) by auto
  show "push_bit 4 p OR c \<noteq> KISSFEsc"
  proof
    assume "push_bit 4 p OR c = KISSFEsc"
    then have e: "push_bit 4 p OR c = 0xDB" by simp
    have "p = 13" "c = 11" using nibbles [OF v(1,2), unfolded e] by simp_all
    with v(4) show False by simp
  qed
qed

section \<open>Feeding encoded bytes\<close>

lemma feed_escaped:
  assumes "kstate d = kissStateData"
  shows "feed kiss_step d (kiss_escape b) = (appendDataByte b d, [])"
  using assms
  by (auto simp: kiss_escape_def kiss_step_def appendDataByte_def Let_def)

lemma appendDataByte_keeps [simp]:
  "kstate (appendDataByte b d) = kstate d" "kcb (appendDataByte b d) = kcb d"
  "haveHeader (appendDataByte b d)"
  by (auto simp: appendDataByte_def)

lemma feed_data:
  assumes "in_frame d"
  shows "feed kiss_step d (concat (map kiss_escape data)) = (d\<lparr>kbuf := kbuf d @ data\<rparr>, [])"
  using assms
proof (induction data arbitrary: d)
  case Nil
  then show ?case by simp
next
  case (Cons b data)
  then have "in_frame (appendDataByte b d)" and "appendDataByte b d = d\<lparr>kbuf := kbuf d @ [b]\<rparr>"
    by (auto simp: in_frame_def appendDataByte_def)
  with Cons show ?case
    by (simp add: feed_append feed_escaped in_frame_def)
qed

lemma feed_end:
  assumes "in_frame d"
  shows "feed kiss_step d [KISSFEnd] =
    (d\<lparr>kbuf := [], haveHeader := False\<rparr>, [(kport d, kcmd d, kbuf d)])"
  using assms by (simp add: in_frame_def kiss_step_def kiss_dispatch_def)

lemma feed_body:
  assumes "in_frame d"
  shows "feed kiss_step d (concat (map kiss_escape data) @ [KISSFEnd]) =
    (d\<lparr>kbuf := [], haveHeader := False\<rparr>, [(kport d, kcmd d, kbuf d @ data)])"
proof -
  let ?d = "d\<lparr>kbuf := kbuf d @ data\<rparr>"
  have "in_frame ?d" using assms by (simp add: in_frame_def)
  then show ?thesis
    using feed_end [of ?d] by (simp add: feed_append feed_data [OF assms] del: feed.simps)
qed

lemma ready_after_body: "in_frame d \<Longrightarrow> kiss_ready (d\<lparr>kbuf := [], haveHeader := False\<rparr>)"
  by (simp add: in_frame_def kiss_ready_def)

lemma feed_FEnd_ready:
  assumes "kiss_ready d"
  shows "feed kiss_step d [KISSFEnd] =
    (d\<lparr>kstate := kissStateData, kbuf := [], haveHeader := False\<rparr>, [])"
  using assms by (auto simp: kiss_ready_def kiss_step_def)

lemma kiss_frame_ready:
  assumes "kiss_ready d" and "kiss_valid m"
  shows "\<exists>d'. feed kiss_step d (kiss_frame m) = (d', [m]) \<and> kiss_ready d'"
proof -
  obtain p c data where m: "m = (p, c, data)" by (cases m) auto
  let ?d0 = "d\<lparr>kstate := kissStateData, kbuf := [], haveHeader := False\<rparr>"
  let ?d1 = "?d0\<lparr>kport := p, kcmd := c, haveHeader := True\<rparr>"
  have "feed kiss_step d ([KISSFEnd] @ [push_bit 4 p OR c]) = (?d1, [])"
    using assms(2) kiss_header_plain [of p c data] nibbles [of p c]
    by (simp only: feed_append feed_FEnd_ready [OF assms(1)] m)
      (simp add: kiss_valid_def kiss_step_def appendDataByte_def)
  moreover have f: "in_frame ?d1" using assms(1) by (simp add: in_frame_def kiss_ready_def)
  ultimately have "feed kiss_step d (kiss_frame m) =
      (?d1\<lparr>kbuf := [], haveHeader := False\<rparr>, [(kport ?d1, kcmd ?d1, kbuf ?d1 @ data)])"
    using feed_append [of kiss_step d "[KISSFEnd, push_bit 4 p OR c]"
        "concat (map kiss_escape data) @ [KISSFEnd]"] feed_body [OF f, of data]
    by (simp add: kiss_frame_def KISSEncode_def m del: feed.simps KISSFEnd_def)
  then show ?thesis using ready_after_body [OF f] m by simp
qed

interpretation kiss: stream_codec kiss_step kiss_frame kiss_valid kiss_ready
  by unfold_locales (rule kiss_frame_ready)

lemma NewKISSDecoder_ready: "kiss_ready (NewKISSDecoder True)"
  by (simp add: kiss_ready_def NewKISSDecoder_def)

lemma Reset_ready: "kcb d \<Longrightarrow> kiss_ready (KISSDecoder_Reset d)"
  by (simp add: kiss_ready_def KISSDecoder_Reset_def)

section \<open>Synchronisation\<close>

text \<open>A frame that starts while the decoder is inside another one: the opening FEND ends that
  one. Only after an FESC is the opening FEND taken as data; then the frame's own closing FEND
  still ends the merged frame.\<close>

lemma sync_in_frame:
  assumes "in_frame d" and "kiss_valid m"
  shows "\<exists>d'. feed kiss_step d (kiss_frame m) = (d', [(kport d, kcmd d, kbuf d), m]) \<and> kiss_ready d'"
proof -
  obtain p c data where m: "m = (p, c, data)" by (cases m) auto
  let ?d = "d\<lparr>kbuf := [], haveHeader := False\<rparr>"
  have "kiss_ready ?d" using assms(1) by (rule ready_after_body)
  then obtain d' where d': "feed kiss_step ?d (kiss_frame m) = (d', [m])" "kiss_ready d'"
    using kiss_frame_ready assms(2) by blast
  have ne: "kiss_frame m = KISSFEnd # tl (kiss_frame m)" by (simp add: m kiss_frame_def KISSEncode_def)
  have again: "kiss_step ?d KISSFEnd = (?d, [])"
    using assms(1) by (simp add: kiss_step_def in_frame_def)
  then have "feed kiss_step ?d (tl (kiss_frame m)) = (d', [m])"
    using d'(1) by (subst (asm) ne) (simp split: prod.splits)
  moreover have "kiss_step d KISSFEnd = (?d, [(kport d, kcmd d, kbuf d)])"
    using feed_end [OF assms(1)] by (simp split: prod.splits)
  ultimately have "feed kiss_step d (kiss_frame m) = (d', [(kport d, kcmd d, kbuf d), m])"
    by (subst ne) simp
  with d'(2) show ?thesis by blast
qed

lemma sync_escape:
  assumes "kcb d" and "kstate d = kissStateEscape" and "kiss_valid m"
  shows "\<exists>d' x. feed kiss_step d (kiss_frame m) = (d', [x]) \<and> kiss_ready d'"
proof -
  obtain p c data where m: "m = (p, c, data)" by (cases m) auto
  let ?d1 = "appendDataByte (push_bit 4 p OR c) (appendDataByte KISSFEnd (d\<lparr>kstate := kissStateData\<rparr>))"
  have "feed kiss_step d [KISSFEnd, push_bit 4 p OR c] = (?d1, [])"
    using assms kiss_header_plain [of p c data]
    by (simp add: m kiss_step_def Let_def)
  moreover have f: "in_frame ?d1" using assms(1) by (simp add: in_frame_def)
  ultimately show ?thesis
    using feed_append [of kiss_step d "[KISSFEnd, push_bit 4 p OR c]"
        "concat (map kiss_escape data) @ [KISSFEnd]"] feed_body [OF f, of data] ready_after_body [OF f]
    by (simp add: kiss_frame_def KISSEncode_def m del: feed.simps KISSFEnd_def)
qed

lemma kiss_sync:
  assumes "kcb d" and "kiss_valid m"
  obtains d' out where "feed kiss_step d (kiss_frame m) = (d', out)" "kiss_ready d'"
    "length out \<le> 2" "kstate d \<noteq> kissStateEscape \<Longrightarrow> last out = m \<and> out \<noteq> []"
proof (cases "kiss_ready d")
  case True
  then show thesis using kiss_frame_ready [OF _ assms(2)] that by fastforce
next
  case False
  show thesis
  proof (cases "kstate d = kissStateEscape")
    case True
    then show thesis using sync_escape [OF assms(1) _ assms(2)] that by fastforce
  next
    case noesc: False
    with False assms(1) have "in_frame d" by (cases "kstate d") (auto simp: in_frame_def kiss_ready_def)
    then show thesis using sync_in_frame [OF _ assms(2)] that by fastforce
  qed
qed

section \<open>Properties\<close>

text \<open>What arrives of the messages of a stream. The type byte is not escaped: if it is FEND it counts as a boundary and the first data byte is
  taken for the type byte; if it is FESC it makes an escape sequence with the byte that follows. With no data that is
  the closing FEND, and the message is only ended by the next one. All other messages arrive, with the type byte cut into nibbles.\<close>

definition kiss_type :: "byte \<Rightarrow> byte list \<Rightarrow> kiss_msg" where
  "kiss_type b data = (drop_bit 4 b AND 0x0F, b AND 0x0F, data)"

fun kiss_received :: "kiss_msg list \<Rightarrow> kiss_msg list" where
  "kiss_received [] = []"
| "kiss_received ((p, c, data) # ms) =
     (if push_bit 4 p OR c = KISSFEnd then (case data of [] \<Rightarrow> [] | b # bs \<Rightarrow> [kiss_type b bs])
      else if push_bit 4 p OR c = KISSFEsc then
        (case data of
           [] \<Rightarrow> if ms = [] then [] else [kiss_type KISSFEnd []]
         | b # bs \<Rightarrow>
             if b = KISSFEnd then [kiss_type KISSFEsc (KISSTFEnd # bs)]
             else if b = KISSFEsc then [kiss_type KISSFEsc (KISSTFEsc # bs)]
             else if b = KISSTFEnd then [kiss_type KISSFEnd bs]
             else if b = KISSTFEsc then [kiss_type KISSFEsc bs]
             else [kiss_type b bs])
      else [kiss_type (push_bit 4 p OR c) data]) @ kiss_received ms"

lemma received_valid: "list_all kiss_valid ms \<Longrightarrow> kiss_received ms = ms"
proof (induction ms)
  case (Cons m ms)
  obtain p c data where m: "m = (p, c, data)" by (cases m)
  then have v: "p < 16" "c < 16" "kiss_valid (p, c, data)" using Cons.prems by (auto simp: kiss_valid_def)
  show ?case using Cons kiss_header_plain [OF v(3)] nibbles [OF v(1,2)] unfolding m kiss_received.simps by (simp add: kiss_type_def)
qed simp

lemma ready_header:
  assumes "kiss_ready d"
  shows "feed kiss_step d (KISSFEnd # bs) = feed kiss_step (d\<lparr>kstate := kissStateData, kbuf := [], haveHeader := False\<rparr>) bs"
  using feed_append [of kiss_step d "[KISSFEnd]" bs] feed_FEnd_ready [OF assms] by (simp del: feed.simps)

text \<open>A byte after the opening FEND becomes the type byte, and the rest is data.\<close>

lemma feed_typed:
  assumes "kcb d" and "kstate d = kissStateData" and "\<not> haveHeader d" and "kbuf d = []"
  shows "\<exists>d'. feed kiss_step (appendDataByte b d) (concat (map kiss_escape data) @ [KISSFEnd]) = (d', [kiss_type b data]) \<and> kiss_ready d'"
proof -
  have f: "in_frame (appendDataByte b d)" using assms by (simp add: in_frame_def)
  show ?thesis using feed_body [OF f, of data] ready_after_body [OF f] assms by (auto simp: appendDataByte_def kiss_type_def)
qed

lemma in_frame_next:
  assumes "in_frame d"
  shows "feed kiss_step d (concat (map kiss_frame (m # ms))) =
    (case feed kiss_step (d\<lparr>kbuf := [], haveHeader := False\<rparr>) (concat (map kiss_frame (m # ms))) of (d', out) \<Rightarrow> (d', (kport d, kcmd d, kbuf d) # out))"
proof -
  let ?d = "d\<lparr>kbuf := [], haveHeader := False\<rparr>"
  obtain bs where b: "concat (map kiss_frame (m # ms)) = KISSFEnd # bs" by (cases m) (simp add: kiss_frame_def KISSEncode_def)
  have "kiss_step d KISSFEnd = (?d, [(kport d, kcmd d, kbuf d)])" "kiss_step ?d KISSFEnd = (?d, [])"
    using assms by (simp_all add: in_frame_def kiss_step_def kiss_dispatch_def)
  then show ?thesis unfolding b by (simp split: prod.splits)
qed

text \<open>One message, from a decoder between frames.\<close>

lemma feed_any_message:
  assumes "kiss_ready d" and "\<not> (push_bit 4 p OR c = KISSFEsc \<and> data = [])"
  shows "\<exists>d'. feed kiss_step d (kiss_frame (p, c, data)) = (d', kiss_received [(p, c, data)]) \<and> kiss_ready d'"
proof -
  let ?h = "push_bit 4 p OR c" and ?d = "d\<lparr>kstate := kissStateData, kbuf := [], haveHeader := False\<rparr>"
  let ?t = "concat (map kiss_escape data) @ [KISSFEnd]"
  have d: "kcb ?d" "kstate ?d = kissStateData" "\<not> haveHeader ?d" "kbuf ?d = []" using assms(1) by (simp_all add: kiss_ready_def)
  have e: "feed kiss_step d (kiss_frame (p, c, data)) = feed kiss_step ?d (?h # ?t)"
    using ready_header [OF assms(1)] by (simp add: kiss_frame_def KISSEncode_def del: feed.simps)
  consider "?h = KISSFEnd" | "?h = KISSFEsc" | "?h \<noteq> KISSFEnd" "?h \<noteq> KISSFEsc" by blast
  then show ?thesis
  proof cases
    case 1
    have s: "feed kiss_step ?d (?h # ?t) = feed kiss_step ?d ?t" unfolding 1 by (simp add: kiss_step_def)
    show ?thesis
    proof (cases data)
      case Nil
      then show ?thesis using 1 e s d by (simp add: kiss_step_def kiss_ready_def)
    next
      case (Cons b bs)
      have "feed kiss_step ?d ?t = feed kiss_step (appendDataByte b ?d) (concat (map kiss_escape bs) @ [KISSFEnd])"
        using feed_append [of kiss_step ?d "kiss_escape b" "concat (map kiss_escape bs) @ [KISSFEnd]"] feed_escaped [of ?d b] Cons by simp
      then show ?thesis using feed_typed [OF d, of b bs] 1 e s Cons by simp
    qed
  next
    case 2
    then obtain b bs where b: "data = b # bs" using assms(2) by (cases data) auto
    let ?e = "?d\<lparr>kstate := kissStateEscape\<rparr>" and ?u = "concat (map kiss_escape bs) @ [KISSFEnd]"
    have s: "feed kiss_step ?d (?h # ?t) = feed kiss_step ?e (kiss_escape b @ ?u)" unfolding 2 b by (simp add: kiss_step_def)
    have esc: "feed kiss_step ?e (x # xs) = feed kiss_step (appendDataByte (if x = KISSTFEnd then KISSFEnd else if x = KISSTFEsc then KISSFEsc else x) ?d) xs" for x xs
      by (cases d) (simp add: kiss_step_def Let_def)
    have one: "feed kiss_step (appendDataByte y ?d) (x # xs) = feed kiss_step (appendDataByte x (appendDataByte y ?d)) xs"
      if "x \<noteq> KISSFEnd" "x \<noteq> KISSFEsc" for x y xs using that d by (simp add: kiss_step_def)
    have two: "\<exists>d'. feed kiss_step (appendDataByte x (appendDataByte y ?d)) ?u = (d', [kiss_type y (x # bs)]) \<and> kiss_ready d'" for x y
    proof -
      have f: "in_frame (appendDataByte x (appendDataByte y ?d))" using d by (simp add: in_frame_def)
      show ?thesis using feed_body [OF f, of bs] ready_after_body [OF f] d by (auto simp: appendDataByte_def kiss_type_def)
    qed
    consider "b = KISSFEnd" | "b = KISSFEsc" | "b \<noteq> KISSFEnd" "b \<noteq> KISSFEsc" by blast
    then show ?thesis
    proof cases
      case 1
      have "feed kiss_step ?e (kiss_escape b @ ?u) = feed kiss_step (appendDataByte KISSTFEnd (appendDataByte KISSFEsc ?d)) ?u"
        using 1 esc [of KISSFEsc] one [of KISSTFEnd KISSFEsc] by (simp add: kiss_escape_def del: feed.simps)
      then show ?thesis using two [of KISSTFEnd KISSFEsc] e s 2 b 1 by simp
    next
      case bb: 2
      have "feed kiss_step ?e (kiss_escape b @ ?u) = feed kiss_step (appendDataByte KISSTFEsc (appendDataByte KISSFEsc ?d)) ?u"
        using bb esc [of KISSFEsc] one [of KISSTFEsc KISSFEsc] by (simp add: kiss_escape_def del: feed.simps)
      then show ?thesis using two [of KISSTFEsc KISSFEsc] e s 2 b bb by simp
    next
      case 3
      let ?y = "if b = KISSTFEnd then KISSFEnd else if b = KISSTFEsc then KISSFEsc else b"
      have "feed kiss_step ?e (kiss_escape b @ ?u) = feed kiss_step (appendDataByte ?y ?d) ?u"
        using 3 esc [of b] by (simp add: kiss_escape_def del: feed.simps)
      then show ?thesis using feed_typed [OF d, of ?y bs] e s 2 b 3 by auto
    qed
  next
    case 3
    have "feed kiss_step ?d (?h # ?t) = feed kiss_step (appendDataByte ?h ?d) ?t" using 3 d by (simp add: kiss_step_def)
    then show ?thesis using feed_typed [OF d, of ?h data] e 3 by simp
  qed
qed

text \<open>A message of type FESC without data: its closing FEND becomes the type byte.\<close>

lemma feed_open_message:
  assumes "kiss_ready d" and "push_bit 4 p OR c = KISSFEsc"
  shows "\<exists>d'. feed kiss_step d (kiss_frame (p, c, [])) = (d', []) \<and> in_frame d' \<and> (kport d', kcmd d', kbuf d') = kiss_type KISSFEnd []"
proof -
  let ?d = "d\<lparr>kstate := kissStateData, kbuf := [], haveHeader := False\<rparr>"
  have "feed kiss_step d (kiss_frame (p, c, [])) = feed kiss_step ?d [KISSFEsc, KISSFEnd]"
    using ready_header [OF assms(1)] assms(2) by (simp add: kiss_frame_def KISSEncode_def del: feed.simps)
  also have "\<dots> = (appendDataByte KISSFEnd ?d, [])" by (cases d) (simp add: kiss_step_def Let_def)
  finally show ?thesis using assms(1) by (auto simp: in_frame_def kiss_ready_def appendDataByte_def kiss_type_def)
qed

lemma stream_received: "kiss_ready d \<Longrightarrow> snd (feed kiss_step d (concat (map kiss_frame ms))) = kiss_received ms"
proof (induction ms arbitrary: d)
  case (Cons m ms)
  obtain p c data where m: "m = (p, c, data)" by (cases m)
  show ?case
  proof (cases "push_bit 4 p OR c = KISSFEsc \<and> data = []")
    case False
    then obtain d' where d': "feed kiss_step d (kiss_frame m) = (d', kiss_received [m])" "kiss_ready d'"
      using feed_any_message [OF Cons.prems] m by blast
    have "kiss_received (m # ms) = kiss_received [m] @ kiss_received ms" using False m by (cases data) auto
    then show ?thesis using d' Cons.IH [OF d'(2)] by (auto simp: feed_append split: prod.splits)
  next
    case True
    then obtain d' where d': "feed kiss_step d (kiss_frame m) = (d', [])" "in_frame d'" "(kport d', kcmd d', kbuf d') = kiss_type KISSFEnd []"
      using feed_open_message [OF Cons.prems] m by blast
    have "snd (feed kiss_step d' (concat (map kiss_frame ms))) = (if ms = [] then [] else [kiss_type KISSFEnd []]) @ kiss_received ms"
    proof (cases ms)
      case (Cons m' ms')
      then show ?thesis using in_frame_next [OF d'(2), of m' ms'] local.Cons.IH [OF ready_after_body [OF d'(2)]] d'(3) by (auto split: prod.splits)
    qed simp
    then show ?thesis using d'(1) True m by (auto simp: feed_append split: prod.splits)
  qed
qed simp

text \<open>C8: Framing. Any list of messages, KISS-framed and concatenated, then cut into reads of any size and written to a fresh decoder, makes it
  call the callback with exactly \<open>kiss_received\<close> of that list, in order. For messages whose port and command are nibbles and whose type byte
  is neither FEND nor FESC this is the list itself, and the decoder is between frames again: the round trip. For the two
  types left out, port 12 with command 0 and port 13 with command 11, which \<open>KISSEncode\<close> does not escape, it says what arrives instead.\<close>

theorem kiss_stream_roundtrip:
  assumes "concat reads = concat (map kiss_frame ms)"
  shows "snd (KISSDecoder_Writes (NewKISSDecoder True) reads) = kiss_received ms
    \<and> (list_all kiss_valid ms \<longrightarrow> kiss_received ms = ms \<and> kiss_ready (fst (KISSDecoder_Writes (NewKISSDecoder True) reads)))"
proof -
  have "feed_chunks kiss_step (NewKISSDecoder True) reads = feed kiss_step (NewKISSDecoder True) (concat (map kiss_frame ms))"
    using assms by (simp add: feed_chunks_concat)
  then show ?thesis
    using stream_received [OF NewKISSDecoder_ready, of ms] kiss.chunks_decoded [OF NewKISSDecoder_ready _ assms] received_valid [of ms]
    unfolding Writes_feed_chunks by auto
qed

text \<open>Two messages that arrive, then one for port 12: its first data byte is taken for the type byte.\<close>

theorem kiss_stream_roundtrip_witness:
  "snd (KISSDecoder_Writes (NewKISSDecoder True)
       [[0xC0], [0x10, 0x41, 0xDB], [0xDC, 0xC0, 0xC0, 0], [0xC0], [0xC0, 0xC0, 0x41], [0x42, 0xC0]]) = [(1, 0, [0x41, 0xC0]), (0, 0, []), (4, 1, [0x42])]
     \<and> kiss_received [(1, 0, [0x41, 0xC0]), (0, 0, [])] = [(1, 0, [0x41, 0xC0]), (0, 0, [])]"
  using kiss_stream_roundtrip [of "[[0xC0], [0x10, 0x41, 0xDB], [0xDC, 0xC0, 0xC0, 0], [0xC0], [0xC0, 0xC0, 0x41], [0x42, 0xC0]]"
      "[(1, 0, [0x41, 0xC0]), (0, 0, []), (12, 0, [0x41, 0x42])]"]
  by (simp add: kiss_frame_def KISSEncode_def kiss_escape_def kiss_type_def)

text \<open>Resynchronisation. Whatever the decoder has seen before, after one complete well-formed frame
  it is between frames again, it has made at most two deliveries, and unless it was in the middle
  of an escape sequence the last of them is that frame.\<close>

theorem kiss_resynchronises:
  assumes "kcb d" and "kiss_valid m"
  shows "\<exists>d' out. KISSDecoder_Write d (kiss_frame m) = (d', out) \<and> kiss_ready d' \<and> length out \<le> 2
     \<and> (kstate d \<noteq> kissStateEscape \<longrightarrow> out \<noteq> [] \<and> last out = m)"
  unfolding KISSDecoder_Write_def by (rule kiss_sync [OF assms]) blast

theorem kiss_resynchronises_witness:
  "\<exists>d' out. KISSDecoder_Write
        \<lparr>kcb = True, kstate = kissStateData, kbuf = [7], kport = 0, kcmd = 0, haveHeader = True\<rparr>
        (kiss_frame (0, 0, [0x41])) = (d', out) \<and> kiss_ready d' \<and> length out \<le> 2
     \<and> out \<noteq> [] \<and> last out = (0, 0, [0x41])"
  using kiss_resynchronises
    [of "\<lparr>kcb = True, kstate = kissStateData, kbuf = [7], kport = 0, kcmd = 0, haveHeader = True\<rparr>"
      "(0, 0, [0x41])"]
  by (simp add: kiss_valid_def)

text \<open>The type byte is not escaped. For port 12 and command 0 the type byte is FEND, so a
  fresh decoder takes the first data byte for the type byte: it never delivers the message
  that was encoded.\<close>

theorem kiss_port12_misframed:
  "KISSDecoder_Write (NewKISSDecoder True) (KISSEncode 12 0 data) =
     (NewKISSDecoder True\<lparr>kstate := kissStateData,
        kport := (case data of [] \<Rightarrow> 0 | b # _ \<Rightarrow> drop_bit 4 b AND 0x0F),
        kcmd := (case data of [] \<Rightarrow> 0 | b # _ \<Rightarrow> b AND 0x0F)\<rparr>,
      case data of [] \<Rightarrow> [] | b # bs \<Rightarrow> [(drop_bit 4 b AND 0x0F, b AND 0x0F, bs)])"
proof (cases data)
  case Nil
  then show ?thesis
    by (simp add: KISSDecoder_Write_def KISSEncode_def NewKISSDecoder_def kiss_step_def)
next
  case (Cons b bs)
  let ?d0 = "NewKISSDecoder True\<lparr>kstate := kissStateData\<rparr>"
  let ?d1 = "appendDataByte b ?d0"
  have "feed kiss_step (NewKISSDecoder True) [KISSFEnd, KISSFEnd] = (?d0, [])"
    by (simp add: NewKISSDecoder_def kiss_step_def)
  moreover have "feed kiss_step ?d0 (kiss_escape b) = (?d1, [])"
    by (rule feed_escaped) simp
  moreover have "in_frame ?d1" by (simp add: in_frame_def NewKISSDecoder_def)
  then have "feed kiss_step ?d1 (concat (map kiss_escape bs) @ [KISSFEnd]) =
      (?d1\<lparr>kbuf := [], haveHeader := False\<rparr>, [(kport ?d1, kcmd ?d1, kbuf ?d1 @ bs)])"
    by (rule feed_body)
  moreover have "KISSEncode 12 0 data =
      [KISSFEnd, KISSFEnd] @ kiss_escape b @ concat (map kiss_escape bs) @ [KISSFEnd]"
    by (simp add: KISSEncode_def Cons)
  ultimately have "feed kiss_step (NewKISSDecoder True) (KISSEncode 12 0 data) =
      (?d1\<lparr>kbuf := [], haveHeader := False\<rparr>, [(kport ?d1, kcmd ?d1, kbuf ?d1 @ bs)])"
    by (simp only: feed_append prod.case Let_def append_Nil)
  then show ?thesis
    by (simp add: KISSDecoder_Write_def Cons appendDataByte_def NewKISSDecoder_def)
qed

end
