(* ===== verification/Ax25_Beacon.thy ===== *)
theory Ax25_Beacon
  imports Ax25_Kiss
begin

text \<open>
  \<open>src/ax25/beacon.go\<close>: the beacon, which sends a UI frame periodically. The send callback is a
  function that says what it returns; a send gives the error and the frames handed to it. The
  goroutine's state is what the code keeps of it, and each wait that ends is one step. The lemmas
  show what text the escapes produce and which frame a configuration sends.
\<close>

section \<open>Text\<close>

definition hexNibble :: "byte \<Rightarrow> int" where
  "hexNibble c =
     (if 0x30 \<le> c \<and> c \<le> 0x39 then int (unat (c - 0x30))
      else if 0x61 \<le> c \<and> c \<le> 0x66 then int (unat (c - 0x61)) + 10
      else if 0x41 \<le> c \<and> c \<le> 0x46 then int (unat (c - 0x41)) + 10
      else - 1)"

text \<open>\<open>0x5C\<close> is the backslash.\<close>

fun unescapeText :: "gostring \<Rightarrow> gostring" where
  "unescapeText [] = []"
| "unescapeText [b] = [b]"
| "unescapeText (b # c # s) =
     (if b \<noteq> 0x5C then b # unescapeText (c # s)
      else if c = 0x72 then 0x0D # unescapeText s
      else if c = 0x6E then 0x0A # unescapeText s
      else if c = 0x74 then 0x09 # unescapeText s
      else if c = 0x5C then 0x5C # unescapeText s
      else if c = 0x78 then
        (case s of
           h # l # r \<Rightarrow>
             if hexNibble h \<ge> 0 \<and> hexNibble l \<ge> 0
             then word_of_int (hexNibble h * 16 + hexNibble l) # unescapeText r
             else 0x5C # c # unescapeText s
         | _ \<Rightarrow> 0x5C # c # unescapeText s)
      else 0x5C # c # unescapeText s)"

section \<open>Beacon\<close>

record BeaconConfig =
  bSource :: gostring
  bDestination :: gostring
  bVia :: gostring
  bText :: gostring
  bEvery :: int

text \<open>Where the goroutine is: not running, in the wait for the interval with the configuration it
  has read, or in the wait for the end of its context.\<close>

datatype run_state = BeaconOff | BeaconWaits BeaconConfig | BeaconDisabled

record Beacon =
  bCfg :: BeaconConfig
  hasSendFn :: bool
  bCancel :: bool \<comment> \<open>\<open>cancel\<close> is not nil\<close>
  bDone :: bool   \<comment> \<open>the context of the goroutine is done\<close>
  bRun :: run_state

definition NewBeacon :: "BeaconConfig \<Rightarrow> bool \<Rightarrow> Beacon" where
  "NewBeacon c fn = \<lparr>bCfg = c, hasSendFn = fn, bCancel = False, bDone = False, bRun = BeaconOff\<rparr>"

text \<open>Invalid and empty entries of the path are skipped.\<close>

definition via_digis :: "unicode \<Rightarrow> unicode_trim \<Rightarrow> gostring \<Rightarrow> Address list" where
  "via_digis U T via =
     (if via = [] then []
      else concat (map (\<lambda>part. let part = strings_TrimSpace T part
                               in if part = [] then []
                                  else case ParseAddress U part of Inl _ \<Rightarrow> [] | Inr d \<Rightarrow> [d])
             (strings_Split via 0x2C)))"

definition beacon_frame :: "unicode \<Rightarrow> unicode_trim \<Rightarrow> BeaconConfig \<Rightarrow> Address \<Rightarrow> Address \<Rightarrow> Frame" where
  "beacon_frame U T c src dst =
     (let text = unescapeText (bText c);
          text = (if length text > MaxInfoLen then take MaxInfoLen text else text)
      in \<lparr>Destination = dst, Source = src, Digipeaters = via_digis U T (bVia c), IsCommand = True, Type = FrameUI,
          Control = CtrlUI, PID = PIDNone, Payload = text\<rparr>)"

definition beacon_send ::
  "unicode \<Rightarrow> unicode_trim \<Rightarrow> (Frame \<Rightarrow> goerr option) \<Rightarrow> BeaconConfig \<Rightarrow> Beacon \<Rightarrow> goerr option \<times> Frame list" where
  "beacon_send U T sendFn c b =
     (if bSource c = [] then (None, [])
      else case ParseAddress U (bSource c) of
        Inl e \<Rightarrow> (Some e, [])
      | Inr src \<Rightarrow>
      (case ParseAddress U (bDestination c) of
        Inl e \<Rightarrow> (Some e, [])
      | Inr dst \<Rightarrow>
          let f = beacon_frame U T c src dst
          in if hasSendFn b then (sendFn f, [f]) else (None, [])))"

definition Trigger :: "unicode \<Rightarrow> unicode_trim \<Rightarrow> (Frame \<Rightarrow> goerr option) \<Rightarrow> Beacon \<Rightarrow> goerr option \<times> Frame list" where
  "Trigger U T sendFn b = beacon_send U T sendFn (bCfg b) b"

definition UpdateConfig :: "BeaconConfig \<Rightarrow> Beacon \<Rightarrow> Beacon" where
  "UpdateConfig c b = b\<lparr>bCfg := c\<rparr>"

text \<open>The top of the loop of \<open>run\<close>: what it waits for.\<close>

definition run_top :: "Beacon \<Rightarrow> Beacon" where
  "run_top b = b\<lparr>bRun := (if bEvery (bCfg b) \<le> 0 \<or> bSource (bCfg b) = [] then BeaconDisabled else BeaconWaits (bCfg b))\<rparr>"

definition Beacon_Start :: "Beacon \<Rightarrow> Beacon" where
  "Beacon_Start b = (if bCancel b then b else run_top (b\<lparr>bCancel := True, bDone := False\<rparr>))"

text \<open>\<open>Stop\<close> waits for the goroutine, which both waits leave when the context is done.\<close>

definition Beacon_Stop :: "Beacon \<Rightarrow> Beacon" where
  "Beacon_Stop b = b\<lparr>bCancel := False, bDone := True, bRun := BeaconOff\<rparr>"

text \<open>The interval is over: the frame sent is that of the configuration read when the wait began.\<close>

definition run_tick ::
  "unicode \<Rightarrow> unicode_trim \<Rightarrow> (Frame \<Rightarrow> goerr option) \<Rightarrow> Beacon \<Rightarrow> Frame list \<times> Beacon" where
  "run_tick U T sendFn b =
     (case bRun b of
        BeaconWaits c \<Rightarrow> (snd (beacon_send U T sendFn c b), run_top b)
      | _ \<Rightarrow> ([], b))"

section \<open>Escapes\<close>

definition hex_nibble :: "nat \<Rightarrow> byte" where
  "hex_nibble n = of_nat (if n < 10 then 48 + n else 55 + n)"

definition escape_hex :: "byte \<Rightarrow> gostring" where
  "escape_hex b = [0x5C, 0x78, hex_nibble (unat b div 16), hex_nibble (unat b mod 16)]"

lemma hexNibble_hex: "n < 16 \<Longrightarrow> hexNibble (hex_nibble n) = int n"
proof -
  have "\<forall>n \<in> set [0..<16]. hexNibble (hex_nibble n) = int n" by code_simp
  then show "n < 16 \<Longrightarrow> hexNibble (hex_nibble n) = int n" by simp
qed

lemma unescape_hex: "unescapeText (escape_hex b @ s) = b # unescapeText s"
proof -
  have n: "unat b div 16 < 16" "unat b mod 16 < 16" using unsigned_less [of b, where 'a = nat] by auto
  have "int (unat b div 16) * 16 + int (unat b mod 16) = uint b"
    by (simp add: zdiv_int zmod_int uint_nat [symmetric])
  then have "word_of_int (int (unat b div 16) * 16 + int (unat b mod 16)) = b" by simp
  then show ?thesis by (simp add: escape_hex_def hexNibble_hex n)
qed

lemma unescape_escaped: "unescapeText (concat (map escape_hex bs)) = bs"
  by (induction bs) (simp_all only: unescape_hex list.map concat.simps unescapeText.simps)

lemma unescape_plain: "0x5C \<notin> set s \<Longrightarrow> unescapeText s = s"
  by (induction s rule: unescapeText.induct) auto

section \<open>Paths\<close>

lemma Address_String_chars:
  assumes "valid_address a"
  shows "\<forall>b \<in> set (Address_String a). \<not> ascii_space b \<and> b < 0x80 \<and> b \<noteq> 0x2C"
proof -
  have "list_all is_digit (fmt_d (unat (SSID a)))" using fmt_d_digits by blast
  then show ?thesis
    using assms
    by (auto simp: valid_address_def Address_String_def list_all_iff ascii_space_def is_digit_def callsign_char_def
        word_less_nat_alt word_le_nat_alt)
qed

lemma via_digis_path:
  assumes "ds \<noteq> []" and "\<forall>d \<in> set ds. valid_address d"
  shows "via_digis U T (strings_Join (map Address_String ds) [0x2C]) = map (\<lambda>d. d\<lparr>HasBeenRepeated := False, IsLast := False\<rparr>) ds"
proof -
  have ne: "Address_String d \<noteq> []" if "d \<in> set ds" for d
    using assms(2) that by (auto simp: valid_address_def Address_String_def)
  then have v: "strings_Join (map Address_String ds) [0x2C] \<noteq> []"
    using assms(1) by (cases ds; cases "tl ds") auto
  have "strings_Split (strings_Join (map Address_String ds) [0x2C]) 0x2C = map Address_String ds"
    by (rule Split_Join) (use assms Address_String_chars in fastforce)+
  moreover have "strings_TrimSpace T (Address_String d) = Address_String d" if "d \<in> set ds" for d
    using Address_String_chars [of d] assms(2) that by (intro TrimSpace_plain) auto
  ultimately have "via_digis U T (strings_Join (map Address_String ds) [0x2C])
      = concat (map (\<lambda>d. if Address_String d = [] then []
          else case ParseAddress U (Address_String d) of Inl _ \<Rightarrow> [] | Inr d \<Rightarrow> [d]) ds)"
    using v by (simp add: via_digis_def Let_def comp_def cong: map_cong if_cong)
  also have "\<dots> = concat (map (\<lambda>d. [d\<lparr>HasBeenRepeated := False, IsLast := False\<rparr>]) ds)"
    using ne assms(2) by (simp add: ParseAddress_String cong: map_cong)
  finally show ?thesis by simp
qed

lemma beacon_sent:
  assumes "valid_address src" and "valid_address dst" and "\<forall>d \<in> set ds. valid_address d" and "length ds \<le> MaxDigipeaters"
    and "hasSendFn b" and "bSource (bCfg b) = Address_String src" and "bDestination (bCfg b) = Address_String dst"
    and "bVia (bCfg b) = strings_Join (map Address_String ds) [0x2C]"
  shows "\<exists>f. Trigger U T sendFn b = (sendFn f, [f]) \<and> wf_frame f \<and> Type f = FrameUI \<and> Control f = CtrlUI \<and> IsCommand f
     \<and> Source f = src\<lparr>HasBeenRepeated := False, IsLast := False\<rparr> \<and> Destination f = dst\<lparr>HasBeenRepeated := False, IsLast := False\<rparr>
     \<and> Digipeaters f = map (\<lambda>d. d\<lparr>HasBeenRepeated := False, IsLast := False\<rparr>) ds
     \<and> Payload f = take MaxInfoLen (unescapeText (bText (bCfg b)))
     \<and> (\<forall>bs. bText (bCfg b) = concat (map escape_hex bs) \<longrightarrow> Payload f = take MaxInfoLen bs)
     \<and> (0x5C \<notin> set (bText (bCfg b)) \<longrightarrow> Payload f = take MaxInfoLen (bText (bCfg b)))"
proof -
  let ?p = "\<lambda>d. d\<lparr>HasBeenRepeated := False, IsLast := False\<rparr>"
  let ?f = "beacon_frame U T (bCfg b) (?p src) (?p dst)"
  have v: "via_digis U T (bVia (bCfg b)) = map ?p ds"
  proof (cases "ds = []")
    case False
    then show ?thesis using via_digis_path [OF False assms(3)] assms(8) by simp
  qed (simp add: assms(8) via_digis_def)
  have s: "bSource (bCfg b) \<noteq> []" using assms(1,6) by (auto simp: valid_address_def Address_String_def)
  have t: "Trigger U T sendFn b = (sendFn ?f, [?f])"
    using s assms(1,2,5,6,7) by (simp add: Trigger_def beacon_send_def ParseAddress_String Let_def)
  have p: "Payload ?f = take MaxInfoLen (unescapeText (bText (bCfg b)))"
    by (simp add: beacon_frame_def Let_def)
  have f: "Digipeaters ?f = map ?p ds" "Source ?f = ?p src" "Destination ?f = ?p dst" "Type ?f = FrameUI"
    "IsCommand ?f" "Control ?f = CtrlUI" by (simp_all add: beacon_frame_def v Let_def)
  have "wf_frame ?f"
    using assms(4) f p by (simp add: wf_frame_def encodable_def has_info_def IdentifyFrameType_def)
  then show ?thesis
    using t p f by (intro exI [of _ ?f]) (auto simp: unescape_escaped unescape_plain)
qed

section \<open>Properties\<close>

text \<open>What a beacon sends. With valid addresses in its configuration, their path joined by
  commas, and at most eight digipeaters, \<open>Trigger\<close> hands exactly one frame to the send callback and
  returns what it returns; the frame carries these addresses and the text with its escapes
  replaced, cut to 256 bytes, and is well formed, so that it can be encoded and a receiver gets
  it. Any bytes can be put into the text by hexadecimal escapes, and a text without a backslash
  stands for itself.\<close>

theorem beacon_sends_frame:
  assumes "valid_address src" and "valid_address dst" and "\<forall>d \<in> set ds. valid_address d" and "length ds \<le> MaxDigipeaters"
    and "hasSendFn b" and "bSource (bCfg b) = Address_String src" and "bDestination (bCfg b) = Address_String dst"
    and "bVia (bCfg b) = strings_Join (map Address_String ds) [0x2C]"
  shows "\<exists>f. Trigger U T sendFn b = (sendFn f, [f]) \<and> wf_frame f \<and> Type f = FrameUI \<and> Control f = CtrlUI \<and> IsCommand f
     \<and> Source f = src\<lparr>HasBeenRepeated := False, IsLast := False\<rparr> \<and> Destination f = dst\<lparr>HasBeenRepeated := False, IsLast := False\<rparr>
     \<and> Digipeaters f = map (\<lambda>d. d\<lparr>HasBeenRepeated := False, IsLast := False\<rparr>) ds
     \<and> Payload f = take MaxInfoLen (unescapeText (bText (bCfg b)))
     \<and> (\<forall>bs. bText (bCfg b) = concat (map escape_hex bs) \<longrightarrow> Payload f = take MaxInfoLen bs)
     \<and> (0x5C \<notin> set (bText (bCfg b)) \<longrightarrow> Payload f = take MaxInfoLen (bText (bCfg b)))"
  by (rule beacon_sent [OF assms])

theorem beacon_sends_frame_witness:
  "\<exists>f. Trigger \<lparr>upper_unicode = id, fold_unicode = (=)\<rparr> \<lparr>trim_func = id, trim_right_func = id\<rparr> (\<lambda>_. None)
      (NewBeacon \<lparr>bSource = str ''N7GET-5'', bDestination = str ''N7GET-5'', bVia = str ''N7GET-5,N7GET-5'', bText = str ''hi'', bEvery = 0\<rparr> True)
      = (None, [f]) \<and> Payload f = str ''hi'' \<and> length (Digipeaters f) = 2"
proof -
  have a: "Address_String N7GET_5 = str ''N7GET-5''"
    by (simp add: N7GET_5_def Address_String_def fmt_d.simps)
  let ?b = "NewBeacon \<lparr>bSource = str ''N7GET-5'', bDestination = str ''N7GET-5'', bVia = str ''N7GET-5,N7GET-5'',
    bText = str ''hi'', bEvery = 0\<rparr> True"
  let ?U = "\<lparr>upper_unicode = id, fold_unicode = (=)\<rparr>" and ?T = "\<lparr>trim_func = id, trim_right_func = id\<rparr>"
  have "\<forall>d \<in> set [N7GET_5, N7GET_5]. valid_address d" using N7GET_5_valid by simp
  from beacon_sends_frame [OF N7GET_5_valid N7GET_5_valid this, of ?b ?U ?T "\<lambda>_. None"]
  obtain f where "Trigger ?U ?T (\<lambda>_. None) ?b = (None, [f])" "length (Digipeaters f) = 2"
    "Payload f = take MaxInfoLen (str ''hi'')"
    by (auto simp: a NewBeacon_def)
  then show ?thesis by (intro exI [of _ f]) (auto simp: MaxInfoLen_def)
qed

text \<open>A beacon that was disabled when its goroutine looked stays silent: a later \<open>UpdateConfig\<close> is
  not seen until the beacon is stopped and started again.\<close>

theorem disabled_beacon_ignores_update:
  assumes "bEvery c \<le> 0 \<or> bSource c = []"
  shows "run_tick U T sendFn (UpdateConfig c' (Beacon_Start (NewBeacon c fn)))
     = ([], UpdateConfig c' (Beacon_Start (NewBeacon c fn)))"
  using assms by (auto simp: run_tick_def UpdateConfig_def Beacon_Start_def run_top_def NewBeacon_def)

end
