(* ===== verification/Agwpe_Frame.thy ===== *)
theory Agwpe_Frame
  imports Ax25_Frame Ax25_Interfaces
begin

text \<open>
  \<open>src/agwpe/frame.go\<close>: the AGWPE message, its 36-byte header, the three decoders the package has
  (\<open>DecodeFrame\<close> for a buffer, \<open>Decoder.Write\<close> for a byte stream, \<open>ReadFrame\<close> for a reader), the
  conversions from and to AX.25 frames and the request builders. The numbers that error messages
  print are left out of the messages. The lemmas show the round trips and that the decoders agree.
\<close>

section \<open>Constants\<close>

definition HeaderSize :: nat where [simp]: "HeaderSize = 36"
definition CallsignLen :: nat where [simp]: "CallsignLen = 10"
definition MaxDataLen :: nat where [simp]: "MaxDataLen = 4096"
definition LoginDataLen :: nat where [simp]: "LoginDataLen = 510"

text \<open>The kinds, named by their letter in the code.\<close>

definition KindVersionReq :: byte where [simp]: "KindVersionReq = 0x52"
definition KindVersionResp :: byte where [simp]: "KindVersionResp = 0x52"
definition KindPortInfoReq :: byte where [simp]: "KindPortInfoReq = 0x47"
definition KindPortInfoResp :: byte where [simp]: "KindPortInfoResp = 0x47"
definition KindPortCapReq :: byte where [simp]: "KindPortCapReq = 0x67"
definition KindPortCapResp :: byte where [simp]: "KindPortCapResp = 0x67"
definition KindLogin :: byte where [simp]: "KindLogin = 0x50"
definition KindRegisterCall :: byte where [simp]: "KindRegisterCall = 0x58"
definition KindUnregisterCall :: byte where [simp]: "KindUnregisterCall = 0x78"
definition KindHeardReq :: byte where [simp]: "KindHeardReq = 0x48"
definition KindConnectReq :: byte where [simp]: "KindConnectReq = 0x43"
definition KindConnectViaReq :: byte where [simp]: "KindConnectViaReq = 0x76"
definition KindConnectPID :: byte where [simp]: "KindConnectPID = 0x63"
definition KindConnectResp :: byte where [simp]: "KindConnectResp = 0x43"
definition KindSendData :: byte where [simp]: "KindSendData = 0x44"
definition KindRecvData :: byte where [simp]: "KindRecvData = 0x44"
definition KindDisconnectReq :: byte where [simp]: "KindDisconnectReq = 0x64"
definition KindDisconnectResp :: byte where [simp]: "KindDisconnectResp = 0x64"
definition KindSendUnproto :: byte where [simp]: "KindSendUnproto = 0x4D"
definition KindSendUnprotoVia :: byte where [simp]: "KindSendUnprotoVia = 0x56"
definition KindRecvUnproto :: byte where [simp]: "KindRecvUnproto = 0x55"
definition KindRecvSupervisory :: byte where [simp]: "KindRecvSupervisory = 0x53"
definition KindRecvIFrame :: byte where [simp]: "KindRecvIFrame = 0x49"
definition KindRecvOwn :: byte where [simp]: "KindRecvOwn = 0x54"
definition KindRecvRaw :: byte where [simp]: "KindRecvRaw = 0x4B"
definition KindSendRaw :: byte where [simp]: "KindSendRaw = 0x4B"
definition KindToggleRaw :: byte where [simp]: "KindToggleRaw = 0x6B"
definition KindToggleMonitor :: byte where [simp]: "KindToggleMonitor = 0x6D"
definition KindOutstandingReq :: byte where [simp]: "KindOutstandingReq = 0x59"
definition KindOutstandingResp :: byte where [simp]: "KindOutstandingResp = 0x79"

section \<open>Frames on the wire\<close>

record AgwFrame =
  agwPort :: byte
  Kind :: byte
  agwPID :: byte
  CallFrom :: gostring
  CallTo :: gostring
  Data :: "byte list"
  User :: "32 word"

text \<open>A frame literal with only a kind.\<close>

definition of_kind :: "byte \<Rightarrow> AgwFrame" where
  "of_kind k = \<lparr>agwPort = 0, Kind = k, agwPID = 0, CallFrom = [], CallTo = [], Data = [], User = 0\<rparr>"

text \<open>\<open>setCallsign\<close> on a destination of \<open>n\<close> bytes.\<close>

definition setCallsign :: "nat \<Rightarrow> gostring \<Rightarrow> byte list" where
  "setCallsign n s = take n s @ replicate (n - length s) 0"

fun getCallsign :: "byte list \<Rightarrow> gostring" where
  "getCallsign [] = []"
| "getCallsign (b # bs) = (if b = 0 then [] else b # getCallsign bs)"

definition AgwFrame_Encode :: "AgwFrame \<Rightarrow> goerr + byte list" where
  "AgwFrame_Encode f =
     (if length (Data f) > MaxDataLen then Inl (ErrMsg ''agwpe: data length exceeds maximum'')
      else Inr ([agwPort f, 0, 0, 0, Kind f, 0, agwPID f, 0]
        @ setCallsign 10 (CallFrom f) @ setCallsign 10 (CallTo f)
        @ le32 (of_nat (length (Data f))) @ le32 (User f) @ Data f))"

text \<open>The frame literal the three decoders build from the header and the data.\<close>

definition header_frame :: "byte list \<Rightarrow> byte list \<Rightarrow> AgwFrame" where
  "header_frame hdr d =
     \<lparr>agwPort = hdr ! 0, Kind = hdr ! 4, agwPID = hdr ! 6,
      CallFrom = getCallsign (go_slice 8 18 hdr), CallTo = getCallsign (go_slice 18 28 hdr),
      Data = d, User = le_uint32 (go_slice 32 36 hdr)\<rparr>"

definition DecodeFrame :: "byte list \<Rightarrow> goerr + AgwFrame" where
  "DecodeFrame b =
     (if length b < HeaderSize then Inl (ErrMsg ''agwpe: frame too short'')
      else
        let dataLen = le_uint32 (go_slice 28 32 b)
        in if dataLen > of_nat MaxDataLen then Inl (ErrMsg ''agwpe: data_len exceeds maximum'')
           else if (of_nat (length b) :: 32 word) < of_nat HeaderSize + dataLen
             then Inl (ErrMsg ''agwpe: frame truncated'')
           else Inr (header_frame b (go_slice HeaderSize (HeaderSize + unat dataLen) b)))"

section \<open>Streaming decoder\<close>

datatype decoderState = stateHeader | stateData

record Decoder =
  agwCb :: bool \<comment> \<open>the callback is not nil\<close>
  agwState :: decoderState
  header :: "byte list"
  hdrN :: nat
  dataLen :: "32 word"
  dataBuf :: "byte list"
  dataN :: nat

definition NewDecoder :: "bool \<Rightarrow> Decoder" where
  "NewDecoder cb = \<lparr>agwCb = cb, agwState = stateHeader, header = replicate HeaderSize 0, hdrN = 0, dataLen = 0,
     dataBuf = [], dataN = 0\<rparr>"

definition Decoder_Reset :: "Decoder \<Rightarrow> Decoder" where
  "Decoder_Reset d = d\<lparr>agwState := stateHeader, hdrN := 0, dataN := 0, dataBuf := []\<rparr>"

definition Decoder_deliver :: "Decoder \<Rightarrow> Decoder \<times> AgwFrame list" where
  "Decoder_deliver d =
     (let f = header_frame (header d) (if dataLen d > 0 then take (unat (dataLen d)) (dataBuf d) else [])
      in (Decoder_Reset d, if agwCb d then [f] else []))"

text \<open>One byte in the loop of \<open>Write\<close>; the last component is the error it returns with.\<close>

definition Decoder_byte :: "Decoder \<Rightarrow> byte \<Rightarrow> Decoder \<times> AgwFrame list \<times> goerr option" where
  "Decoder_byte d b =
     (case agwState d of
        stateHeader \<Rightarrow>
          let d = d\<lparr>header := (header d)[hdrN d := b], hdrN := hdrN d + 1\<rparr>
          in if hdrN d = HeaderSize then
               let d = d\<lparr>dataLen := le_uint32 (go_slice 28 32 (header d))\<rparr>
               in if dataLen d > of_nat MaxDataLen
                  then (Decoder_Reset d, [], Some (ErrMsg ''agwpe: decoder: data_len exceeds maximum''))
                  else if dataLen d > 0
                  then (d\<lparr>dataBuf := replicate (unat (dataLen d)) 0, dataN := 0, agwState := stateData\<rparr>, [], None)
                  else let (d, out) = Decoder_deliver d in (d, out, None)
             else (d, [], None)
      | stateData \<Rightarrow>
          let d = d\<lparr>dataBuf := (dataBuf d)[dataN d := b], dataN := dataN d + 1\<rparr>
          in if (of_nat (dataN d) :: 32 word) \<ge> dataLen d
             then let (d, out) = Decoder_deliver d in (d, out, None)
             else (d, [], None))"

text \<open>The loop: after an error the rest of the slice is not looked at. The state pairs the decoder with the
  error \<open>Write\<close> will return.\<close>

fun Decoder_step :: "Decoder \<times> goerr option \<Rightarrow> byte \<Rightarrow> (Decoder \<times> goerr option) \<times> AgwFrame list" where
  "Decoder_step (d, Some e) b = ((d, Some e), [])"
| "Decoder_step (d, None) b = (let (d', out, e) = Decoder_byte d b in ((d', e), out))"

definition Decoder_Write :: "Decoder \<Rightarrow> byte list \<Rightarrow> Decoder \<times> AgwFrame list \<times> goerr option" where
  "Decoder_Write d p = (let ((d', e), out) = feed Decoder_step (d, None) p in (d', out, e))"

section \<open>Reading from a reader\<close>

definition ReadFrame :: "byte list \<Rightarrow> goerr + AgwFrame \<times> byte list" where
  "ReadFrame r =
     (case io_ReadFull r HeaderSize of
        Inl e \<Rightarrow> Inl (ErrWrap ''agwpe: read header'' e)
      | Inr (hdr, r) \<Rightarrow>
          let dataLen = le_uint32 (go_slice 28 32 hdr)
          in if dataLen > of_nat MaxDataLen then Inl (ErrMsg ''agwpe: data_len exceeds maximum'')
             else if dataLen > 0 then
               (case io_ReadFull r (unat dataLen) of
                  Inl e \<Rightarrow> Inl (ErrWrap ''agwpe: read data'' e)
                | Inr (d, r) \<Rightarrow> Inr (header_frame hdr d, r))
             else Inr (header_frame hdr [], r))"

section \<open>Conversion from and to AX.25\<close>

definition FromAX25Raw :: "unicode \<Rightarrow> Frame option \<Rightarrow> byte \<Rightarrow> goerr + AgwFrame" where
  "FromAX25Raw U frame port =
     (case frame of
        None \<Rightarrow> Inl (ErrMsg ''agwpe: FromAX25Raw: nil frame'')
      | Some frame \<Rightarrow>
          (case Frame_Encode U frame of
             Inl e \<Rightarrow> Inl (ErrWrap ''agwpe: FromAX25Raw: encode'' e)
           | Inr raw \<Rightarrow>
               let d = 0 # raw
               in if length d > MaxDataLen then Inl (ErrMsg ''agwpe: FromAX25Raw: frame too large'')
                  else Inr \<lparr>agwPort = port, Kind = KindSendRaw, agwPID = 0,
                    CallFrom = Address_String (Source frame), CallTo = Address_String (Destination frame),
                    Data = d, User = 0\<rparr>))"

definition FromAX25Unproto :: "Frame option \<Rightarrow> byte \<Rightarrow> goerr + AgwFrame" where
  "FromAX25Unproto frame port =
     (case frame of
        None \<Rightarrow> Inl (ErrMsg ''agwpe: FromAX25Unproto: nil frame'')
      | Some frame \<Rightarrow>
          let via = length (Digipeaters frame) > 0;
              kind = (if via then KindSendUnprotoVia else KindSendUnproto);
              payload = (if via then of_nat (length (Digipeaters frame))
                           # concat (map (\<lambda>d. setCallsign CallsignLen (Address_String d)) (Digipeaters frame))
                           @ Payload frame
                         else Payload frame)
          in if length payload > MaxDataLen then Inl (ErrMsg ''agwpe: FromAX25Unproto: payload too large'')
             else Inr \<lparr>agwPort = port, Kind = kind, agwPID = PID frame,
               CallFrom = Address_String (Source frame), CallTo = Address_String (Destination frame),
               Data = payload, User = 0\<rparr>)"

definition ToAX25 :: "AgwFrame option \<Rightarrow> goerr + Frame" where
  "ToAX25 f =
     (case f of
        None \<Rightarrow> Inl (ErrMsg ''agwpe: ToAX25: nil frame'')
      | Some f \<Rightarrow>
          if Kind f \<noteq> KindRecvRaw then Inl (ErrMsg ''agwpe: ToAX25: expected kind K'')
          else if length (Data f) < 2 then Inl (ErrMsg ''agwpe: ToAX25: data too short'')
          else ParseFrame (drop 1 (Data f)))"

section \<open>Request builders and response parsers\<close>

definition BuildVersionReq :: AgwFrame where "BuildVersionReq = of_kind KindVersionReq"
definition BuildPortInfoReq :: AgwFrame where "BuildPortInfoReq = of_kind KindPortInfoReq"
definition BuildPortCapReq :: "byte \<Rightarrow> AgwFrame" where
  "BuildPortCapReq port = (of_kind KindPortCapReq)\<lparr>agwPort := port\<rparr>"
definition BuildToggleMonitor :: AgwFrame where "BuildToggleMonitor = of_kind KindToggleMonitor"
definition BuildToggleRaw :: AgwFrame where "BuildToggleRaw = of_kind KindToggleRaw"
definition BuildEnableMonitor :: AgwFrame where "BuildEnableMonitor = BuildToggleMonitor"
definition BuildEnableRaw :: AgwFrame where "BuildEnableRaw = BuildToggleRaw"

definition BuildRegisterCall :: "byte \<Rightarrow> gostring \<Rightarrow> AgwFrame" where
  "BuildRegisterCall port call = (of_kind KindRegisterCall)\<lparr>agwPort := port, CallFrom := call\<rparr>"

definition BuildUnregisterCall :: "byte \<Rightarrow> gostring \<Rightarrow> AgwFrame" where
  "BuildUnregisterCall port call = (of_kind KindUnregisterCall)\<lparr>agwPort := port, CallFrom := call\<rparr>"

definition BuildConnectReq :: "byte \<Rightarrow> gostring \<Rightarrow> gostring \<Rightarrow> AgwFrame" where
  "BuildConnectReq port from to = (of_kind KindConnectReq)\<lparr>agwPort := port, CallFrom := from, CallTo := to\<rparr>"

definition BuildConnectViaReq :: "byte \<Rightarrow> gostring \<Rightarrow> gostring \<Rightarrow> gostring list \<Rightarrow> AgwFrame" where
  "BuildConnectViaReq port from to digis =
     (of_kind KindConnectViaReq)\<lparr>agwPort := port, CallFrom := from, CallTo := to,
       Data := of_nat (length digis) # concat (map (setCallsign CallsignLen) digis)\<rparr>"

definition BuildDisconnectReq :: "byte \<Rightarrow> gostring \<Rightarrow> gostring \<Rightarrow> AgwFrame" where
  "BuildDisconnectReq port from to = (of_kind KindDisconnectReq)\<lparr>agwPort := port, CallFrom := from, CallTo := to\<rparr>"

definition BuildSendData :: "byte \<Rightarrow> gostring \<Rightarrow> gostring \<Rightarrow> byte \<Rightarrow> byte list \<Rightarrow> AgwFrame" where
  "BuildSendData port from to pid d =
     (of_kind KindSendData)\<lparr>agwPort := port, agwPID := pid, CallFrom := from, CallTo := to, Data := d\<rparr>"

definition BuildHeardReq :: "byte \<Rightarrow> AgwFrame" where
  "BuildHeardReq port = (of_kind KindHeardReq)\<lparr>agwPort := port\<rparr>"

definition BuildLogin :: "gostring \<Rightarrow> gostring \<Rightarrow> AgwFrame" where
  "BuildLogin user pass = (of_kind KindLogin)\<lparr>Data := setCallsign 255 user @ setCallsign 255 pass\<rparr>"

definition ParseVersionResp :: "AgwFrame option \<Rightarrow> goerr + 32 word \<times> 32 word" where
  "ParseVersionResp f =
     (case f of None \<Rightarrow> Inl (ErrMsg ''agwpe: ParseVersionResp: wrong kind'') | Some f \<Rightarrow>
        if Kind f \<noteq> KindVersionResp then Inl (ErrMsg ''agwpe: ParseVersionResp: wrong kind'')
        else if length (Data f) < 8 then Inl (ErrMsg ''agwpe: ParseVersionResp: data too short'')
        else Inr (le_uint32 (go_slice 0 4 (Data f)), le_uint32 (go_slice 4 8 (Data f))))"

definition ParseOutstandingResp :: "AgwFrame option \<Rightarrow> goerr + 32 word" where
  "ParseOutstandingResp f =
     (case f of None \<Rightarrow> Inl (ErrMsg ''agwpe: ParseOutstandingResp: wrong kind'') | Some f \<Rightarrow>
        if Kind f \<noteq> KindOutstandingResp then Inl (ErrMsg ''agwpe: ParseOutstandingResp: wrong kind'')
        else if length (Data f) < 4 then Inl (ErrMsg ''agwpe: ParseOutstandingResp: data too short'')
        else Inr (le_uint32 (go_slice 0 4 (Data f))))"

text \<open>The verb \<open>%02X\<close> on a byte.\<close>

definition hex_digit :: "nat \<Rightarrow> byte" where
  "hex_digit n = of_nat (if n < 10 then 48 + n else 55 + n)"

definition fmt_02X :: "byte \<Rightarrow> gostring" where
  "fmt_02X b = [hex_digit (unat b div 16), hex_digit (unat b mod 16)]"

definition kind_names :: "(byte \<times> string) list" where
  "kind_names = [(0x52, ''Version''), (0x47, ''PortInfo''), (0x67, ''PortCap''), (0x50, ''Login''),
     (0x58, ''RegisterCall''), (0x78, ''UnregisterCall''), (0x48, ''HeardReq''), (0x43, ''Connect''),
     (0x76, ''ConnectVia''), (0x63, ''ConnectPID''), (0x44, ''Data''), (0x64, ''Disconnect''),
     (0x4D, ''SendUnproto''), (0x56, ''SendUnprotoVia''), (0x55, ''RecvUnproto''),
     (0x53, ''RecvSupervisory''), (0x49, ''RecvIFrame''), (0x54, ''RecvOwn''), (0x4B, ''Raw''),
     (0x6B, ''ToggleRaw''), (0x6D, ''ToggleMonitor''), (0x59, ''OutstandingConn''), (0x79, ''OutstandingPort'')]"

definition KindString :: "byte \<Rightarrow> gostring" where
  "KindString kind =
     (case map_of kind_names kind of
        Some s \<Rightarrow> str s
      | None \<Rightarrow> str ''Unknown(0x'' @ fmt_02X kind @ str '')'')"

definition IsMonitored :: "byte \<Rightarrow> bool" where
  "IsMonitored kind \<longleftrightarrow> kind \<in> {KindRecvUnproto, KindRecvSupervisory, KindRecvIFrame, KindRecvOwn}"

section \<open>The header\<close>

lemma setCallsign_length [simp]: "length (setCallsign n s) = n"
  by (simp add: setCallsign_def)

lemma getCallsign_takeWhile: "getCallsign bs = takeWhile (\<lambda>b. b \<noteq> 0) bs"
  by (induction bs) auto

text \<open>What a ten-byte field keeps of a string: at most ten bytes, up to the first NUL.\<close>

lemma getCallsign_set: "getCallsign (setCallsign n s) = takeWhile (\<lambda>b. b \<noteq> 0) (take n s)"
proof -
  have "takeWhile (\<lambda>b. b \<noteq> 0) (xs @ replicate k 0) = takeWhile (\<lambda>b. b \<noteq> (0 :: byte)) xs" for xs k
    by (induction xs) (auto simp: takeWhile_replicate)
  then show ?thesis by (simp add: getCallsign_takeWhile setCallsign_def)
qed

definition agw_header :: "AgwFrame \<Rightarrow> byte list" where
  "agw_header f = [agwPort f, 0, 0, 0, Kind f, 0, agwPID f, 0]
     @ setCallsign 10 (CallFrom f) @ setCallsign 10 (CallTo f)
     @ le32 (of_nat (length (Data f))) @ le32 (User f)"

definition agw_norm :: "AgwFrame \<Rightarrow> AgwFrame" where
  "agw_norm f = f\<lparr>CallFrom := takeWhile (\<lambda>b. b \<noteq> 0) (take 10 (CallFrom f)),
     CallTo := takeWhile (\<lambda>b. b \<noteq> 0) (take 10 (CallTo f))\<rparr>"

definition agw_valid :: "AgwFrame \<Rightarrow> bool" where
  "agw_valid f \<longleftrightarrow> length (Data f) \<le> MaxDataLen"

lemma Encode_header: "agw_valid f \<Longrightarrow> AgwFrame_Encode f = Inr (agw_header f @ Data f)"
  by (simp add: AgwFrame_Encode_def agw_valid_def agw_header_def)

lemma agw_header_length [simp]: "length (agw_header f) = 36"
  by (simp add: agw_header_def)

lemma agw_header_slices:
  "go_slice 8 18 (agw_header f @ r) = setCallsign 10 (CallFrom f)"
  "go_slice 18 28 (agw_header f @ r) = setCallsign 10 (CallTo f)"
  "go_slice 28 32 (agw_header f @ r) = le32 (of_nat (length (Data f)))"
  "go_slice 32 36 (agw_header f @ r) = le32 (User f)"
  by (simp_all add: go_slice_def agw_header_def)

lemma agw_header_nth:
  "(agw_header f @ r) ! 0 = agwPort f" "(agw_header f @ r) ! 4 = Kind f" "(agw_header f @ r) ! 6 = agwPID f"
  by (simp_all add: agw_header_def)

lemma le_uint32_le32' [simp]: "le_uint32 (le32 w) = w"
  using le_uint32_le32 [of w "[]"] by simp

lemma header_frame_header: "header_frame (agw_header f @ r) (Data f) = agw_norm f"
  by (simp add: header_frame_def agw_header_slices agw_header_nth [simplified] agw_norm_def getCallsign_set)

lemma data_len_word:
  assumes "agw_valid f"
  shows "unat (of_nat (length (Data f)) :: 32 word) = length (Data f)"
    "\<not> (of_nat MaxDataLen < (of_nat (length (Data f)) :: 32 word))"
proof -
  have l: "length (Data f) \<le> 4096" using assms by (simp add: agw_valid_def)
  then show u: "unat (of_nat (length (Data f)) :: 32 word) = length (Data f)"
    by (simp add: unat_of_nat)
  with l show "\<not> (of_nat MaxDataLen < (of_nat (length (Data f)) :: 32 word))"
    by (simp add: word_less_nat_alt)
qed

section \<open>The three decoders\<close>

lemma DecodeFrame_Encode:
  assumes v: "agw_valid f" and r: "length rest < 2 ^ 31"
  shows "DecodeFrame (agw_header f @ Data f @ rest) = Inr (agw_norm f)"
proof -
  let ?n = "length (Data f)"
  have n: "?n \<le> 4096" using v by (simp add: agw_valid_def)
  have u: "unat (of_nat (36 + ?n + length rest) :: 32 word) = 36 + ?n + length rest"
    "unat (of_nat (36 + ?n) :: 32 word) = 36 + ?n"
    using n r by (simp_all only: unat_of_nat, simp_all)
  have "\<not> (of_nat (36 + ?n + length rest) :: 32 word) < of_nat (36 + ?n)"
    unfolding word_less_nat_alt u by simp
  then have t: "\<not> (of_nat (length (agw_header f @ Data f @ rest)) :: 32 word) < of_nat HeaderSize + of_nat ?n"
    by (simp add: add.assoc)
  have s: "go_slice 36 (36 + ?n) (agw_header f @ Data f @ rest) = Data f" by (simp add: go_slice_def)
  show ?thesis
    using t s header_frame_header [of f "Data f @ rest"] data_len_word [OF v]
    by (simp add: DecodeFrame_def agw_header_slices Let_def)
qed

interpretation agw: codec AgwFrame_Encode DecodeFrame agw_norm agw_valid
proof unfold_locales
  show "agw_valid f \<Longrightarrow> \<exists>w. AgwFrame_Encode f = Inr w" for f by (simp add: Encode_header)
  show "agw_valid f \<Longrightarrow> AgwFrame_Encode f = Inr w \<Longrightarrow> DecodeFrame w = Inr (agw_norm f)" for f w
    using DecodeFrame_Encode [of f "[]"] by (simp add: Encode_header)
qed

lemma ReadFrame_Encode:
  assumes v: "agw_valid f"
  shows "ReadFrame (agw_header f @ Data f @ rest) = Inr (agw_norm f, rest)"
proof (cases "Data f = []")
  case True
  then show ?thesis
    using data_len_word [OF v] agw_header_slices [of f "[]"] header_frame_header [of f "[]"]
    by (simp add: ReadFrame_def io_ReadFull_def Let_def)
next
  case False
  then have "(0 :: 32 word) < of_nat (length (Data f))"
    using data_len_word(1) [OF v] by (simp add: word_less_nat_alt)
  then show ?thesis
    using data_len_word [OF v] agw_header_slices [of f "[]"] header_frame_header [of f "[]"]
    by (simp add: ReadFrame_def io_ReadFull_def Let_def)
qed

text \<open>Filling a buffer from position \<open>n\<close> on.\<close>

definition filled :: "nat \<Rightarrow> byte list \<Rightarrow> byte list \<Rightarrow> byte list" where
  "filled n buf bs = take n buf @ bs @ drop (n + length bs) buf"

lemma filled_Nil [simp]: "filled n buf [] = buf"
  by (simp add: filled_def)

lemma filled_Cons: "n < length buf \<Longrightarrow> filled (Suc n) (buf[n := b]) bs = filled n buf (b # bs)"
  by (simp add: filled_def take_Suc_conv_app_nth)

lemma filled_all: "length bs = length buf \<Longrightarrow> filled 0 buf bs = bs"
  by (simp add: filled_def)

lemma filled_snoc:
  assumes "n + length bs < length buf"
  shows "(filled n buf bs)[n + length bs := b] = filled n buf (bs @ [b])"
proof -
  have "drop (n + length bs) buf = buf ! (n + length bs) # drop (Suc (n + length bs)) buf"
    using assms by (simp add: Cons_nth_drop_Suc)
  with assms show ?thesis by (simp add: filled_def list_update_append)
qed

lemma feed_header:
  "length (header d) = 36 \<Longrightarrow> agwState d = stateHeader \<Longrightarrow> hdrN d + length hs < 36 \<Longrightarrow>
     feed Decoder_step (d, None) hs =
       ((d\<lparr>header := filled (hdrN d) (header d) hs, hdrN := hdrN d + length hs\<rparr>, None), [])"
proof (induction hs arbitrary: d)
  case (Cons b hs)
  let ?d = "d\<lparr>header := (header d)[hdrN d := b], hdrN := Suc (hdrN d)\<rparr>"
  have "Decoder_byte d b = (?d, [], None)" using Cons.prems by (simp add: Decoder_byte_def Let_def)
  with Cons.IH [of ?d] Cons.prems show ?case by (simp add: filled_Cons)
qed simp

lemma agw_feed_data:
  "agwState d = stateData \<Longrightarrow> length (dataBuf d) = unat (dataLen d) \<Longrightarrow> dataN d + length ds < unat (dataLen d) \<Longrightarrow>
     feed Decoder_step (d, None) ds =
       ((d\<lparr>dataBuf := filled (dataN d) (dataBuf d) ds, dataN := dataN d + length ds\<rparr>, None), [])"
proof (induction ds arbitrary: d)
  case (Cons b ds)
  let ?d = "d\<lparr>dataBuf := (dataBuf d)[dataN d := b], dataN := Suc (dataN d)\<rparr>"
  have "Suc (dataN d) < unat (dataLen d)" using Cons.prems by simp
  moreover have "unat (dataLen d) < 2 ^ 32" by (rule order_less_le_trans [OF unsigned_less]) simp
  ultimately have "unat (of_nat (Suc (dataN d)) :: 32 word) = Suc (dataN d)"
    by (simp only: unat_of_nat) simp
  then have "\<not> dataLen d \<le> (of_nat (Suc (dataN d)) :: 32 word)"
    using Cons.prems unfolding word_le_nat_alt by simp
  then have "Decoder_byte d b = (?d, [], None)" using Cons.prems by (simp add: Decoder_byte_def Let_def)
  with Cons.IH [of ?d] Cons.prems show ?case by (simp add: filled_Cons)
qed simp

definition agw_ready :: "Decoder \<times> goerr option \<Rightarrow> bool" where
  "agw_ready s \<longleftrightarrow> snd s = None \<and> agwState (fst s) = stateHeader \<and> hdrN (fst s) = 0
     \<and> length (header (fst s)) = 36 \<and> agwCb (fst s)"

text \<open>A whole header: the decoder is between frames again if there is no data, else it has the buffer
  for it.\<close>

lemma feed_whole_header:
  assumes r: "agw_ready (d, None)" and w: "length w = 36"
    and n: "le_uint32 (go_slice 28 32 w) \<le> of_nat MaxDataLen"
  defines "e \<equiv> d\<lparr>header := w, hdrN := 36, dataLen := le_uint32 (go_slice 28 32 w)\<rparr>"
  shows "feed Decoder_step (d, None) w =
    (if dataLen e > 0 then ((e\<lparr>dataBuf := replicate (unat (dataLen e)) 0, dataN := 0, agwState := stateData\<rparr>, None), [])
     else ((fst (Decoder_deliver e), None), snd (Decoder_deliver e)))"
proof -
  define hs b where "hs = butlast w" and "b = last w"
  have b: "w = hs @ [b]" "length hs = 35" using w by (cases "w = []"; simp add: hs_def b_def)+
  let ?c = "d\<lparr>header := filled 0 (header d) hs, hdrN := 35\<rparr>"
  have f: "feed Decoder_step (d, None) hs = ((?c, None), [])"
    using feed_header [of d hs] r b by (simp add: agw_ready_def)
  have u: "(filled 0 (header d) hs)[35 := b] = w"
    using filled_snoc [of 0 hs "header d" b] filled_all [of w "header d"] r b w by (simp add: agw_ready_def)
  have "Decoder_byte ?c b = (if dataLen e > 0
      then (e\<lparr>dataBuf := replicate (unat (dataLen e)) 0, dataN := 0, agwState := stateData\<rparr>, [], None)
      else (fst (Decoder_deliver e), snd (Decoder_deliver e), None))"
    using r n by (auto simp: Decoder_byte_def u e_def agw_ready_def Let_def case_prod_beta dest: leD)
  then have "feed Decoder_step (?c, None) [b] =
    (if dataLen e > 0 then ((e\<lparr>dataBuf := replicate (unat (dataLen e)) 0, dataN := 0, agwState := stateData\<rparr>, None), [])
     else ((fst (Decoder_deliver e), None), snd (Decoder_deliver e)))" by simp
  then show ?thesis unfolding b(1) feed_append f by (simp add: case_prod_beta)
qed

lemma feed_whole_data:
  assumes d: "agwState d = stateData" "dataBuf d = replicate (length w) 0" "dataN d = 0"
    and w: "unat (dataLen d) = length w" "w \<noteq> []"
  shows "feed Decoder_step (d, None) w =
    ((Decoder_Reset (d\<lparr>dataBuf := w, dataN := length w\<rparr>), None), if agwCb d then [header_frame (header d) w] else [])"
proof -
  define ds b where "ds = butlast w" and "b = last w"
  have b: "w = ds @ [b]" using w(2) by (simp add: ds_def b_def)
  let ?c = "d\<lparr>dataBuf := filled 0 (replicate (length w) 0) ds, dataN := length ds\<rparr>"
  have f: "feed Decoder_step (d, None) ds = ((?c, None), [])"
    using agw_feed_data [of d ds] d w b by simp
  have full: "(filled 0 (replicate (length w) 0) ds)[length ds := b] = w"
    using filled_snoc [of 0 ds "replicate (length w) 0" b] filled_all [of w "replicate (length w) 0"] b by simp
  have n: "unat (dataLen d) = Suc (length ds)" using w b by simp
  have "dataLen d = of_nat (unat (dataLen d))" by simp
  then have L: "dataLen d = of_nat (Suc (length ds))" unfolding n .
  have pos: "dataLen d > 0" using n by (simp add: word_less_nat_alt)
  have "Decoder_byte ?c b = (Decoder_Reset (d\<lparr>dataBuf := w, dataN := length w\<rparr>),
      if agwCb d then [header_frame (header d) w] else [], None)"
    using d w L pos full b
    by (simp add: Decoder_byte_def Decoder_deliver_def Let_def Decoder_Reset_def)
  then have g: "feed Decoder_step (?c, None) [b] =
    ((Decoder_Reset (d\<lparr>dataBuf := w, dataN := length w\<rparr>), None), if agwCb d then [header_frame (header d) w] else [])"
    by simp
  have "feed Decoder_step (d, None) (ds @ [b]) =
    ((Decoder_Reset (d\<lparr>dataBuf := w, dataN := length w\<rparr>), None), if agwCb d then [header_frame (header d) w] else [])"
    unfolding feed_append f by (simp only: g prod.case Let_def append_Nil)
  then show ?thesis unfolding b(1) [symmetric] .
qed

lemma Decoder_frame:
  assumes r: "agw_ready s" and v: "agw_valid f"
  shows "\<exists>s'. feed Decoder_step s (agw_header f @ Data f) = (s', [agw_norm f]) \<and> agw_ready s'"
proof -
  obtain d where s: "s = (d, None)" using r by (cases s) (auto simp: agw_ready_def)
  let ?n = "length (Data f)" and ?L = "of_nat (length (Data f)) :: 32 word"
  let ?e = "d\<lparr>header := agw_header f, hdrN := 36, dataLen := ?L\<rparr>"
  have l: "le_uint32 (go_slice 28 32 (agw_header f)) = ?L" using agw_header_slices(3) [of f "[]"] by simp
  have u: "unat ?L = ?n" "?L \<le> of_nat MaxDataLen" using data_len_word [OF v] by auto
  have h: "feed Decoder_step (d, None) (agw_header f) =
    (if ?L > 0 then ((?e\<lparr>dataBuf := replicate ?n 0, dataN := 0, agwState := stateData\<rparr>, None), [])
     else ((fst (Decoder_deliver ?e), None), snd (Decoder_deliver ?e)))"
    using feed_whole_header [of d "agw_header f"] r s u l by simp
  have hf: "header_frame (agw_header f) (Data f) = agw_norm f" using header_frame_header [of f "[]"] by simp
  have rd: "agwState d = stateHeader" "hdrN d = 0" "length (header d) = 36" "agwCb d"
    using r s by (simp_all add: agw_ready_def)
  show ?thesis
  proof (cases "Data f = []")
    case True
    with h hf rd s show ?thesis by (simp add: Decoder_deliver_def Decoder_Reset_def agw_ready_def)
  next
    case False
    then have pos: "?L > 0" using u(1) by (simp add: word_less_nat_alt)
    let ?d = "?e\<lparr>dataBuf := replicate ?n 0, dataN := 0, agwState := stateData\<rparr>"
    have "feed Decoder_step (?d, None) (Data f) =
      ((Decoder_Reset (?d\<lparr>dataBuf := Data f, dataN := ?n\<rparr>), None), [agw_norm f])"
      using feed_whole_data [of ?d "Data f"] u(1) False rd(4) hf by simp
    with h pos have "feed Decoder_step s (agw_header f @ Data f) =
      ((Decoder_Reset (?d\<lparr>dataBuf := Data f, dataN := ?n\<rparr>), None), [agw_norm f])"
      by (simp add: feed_append s)
    then show ?thesis using rd by (simp add: agw_ready_def Decoder_Reset_def)
  qed
qed

text \<open>A stream read in chunks.\<close>

fun Decoder_Writes :: "Decoder \<Rightarrow> byte list list \<Rightarrow> Decoder \<times> AgwFrame list" where
  "Decoder_Writes d [] = (d, [])"
| "Decoder_Writes d (p # ps) =
     (let (d', out, e) = Decoder_Write d p; (d'', out') = Decoder_Writes d' ps in (d'', out @ out'))"

lemma feed_sticky: "feed Decoder_step (d, Some e) p = ((d, Some e), [])"
  by (induction p) auto

lemma agw_Writes_chunks:
  "feed_chunks Decoder_step (d, None) ps = ((d', None), out) \<Longrightarrow> Decoder_Writes d ps = (d', out)"
proof (induction ps arbitrary: d out)
  case (Cons p ps)
  obtain d1 e out1 where f: "feed Decoder_step (d, None) p = ((d1, e), out1)" by (metis prod.collapse)
  have "feed_chunks Decoder_step (d1, Some x) qs = ((d1, Some x), [])" for x qs
    by (induction qs) (auto simp: feed_sticky)
  with Cons.prems f have e: "e = None" by (cases e) auto
  with Cons f show ?case by (auto simp: Decoder_Write_def split: prod.splits)
qed simp

text \<open>The decoder as a provider of the streaming interface. A message is what survives the
  header, a frame already in normal form.\<close>

definition agw_stable :: "AgwFrame \<Rightarrow> bool" where
  "agw_stable f \<longleftrightarrow> agw_valid f \<and> agw_norm f = f"

definition agw_wire :: "AgwFrame \<Rightarrow> byte list" where
  "agw_wire f = agw_header f @ Data f"

interpretation agw_stream: stream_codec Decoder_step agw_wire agw_stable agw_ready
  by unfold_locales (metis Decoder_frame agw_stable_def agw_wire_def)

lemma agw_wire_norm: "agw_wire (agw_norm f) = agw_header (agw_norm f) @ Data f"
  by (simp add: agw_wire_def agw_norm_def)

lemma NewDecoder_ready: "agw_ready (NewDecoder True, None)"
  by (simp add: agw_ready_def NewDecoder_def)

lemma agw_stream_decoded:
  assumes "\<forall>f \<in> set fs. length (Data f) \<le> MaxDataLen \<and> agw_norm f = f"
    and "concat reads = concat (map (\<lambda>f. case AgwFrame_Encode f of Inr w \<Rightarrow> w | Inl _ \<Rightarrow> []) fs)"
  shows "\<exists>d. Decoder_Writes (NewDecoder True) reads = (d, fs)"
proof -
  have v: "list_all agw_stable fs" using assms(1) by (simp add: list_all_iff agw_stable_def agw_valid_def)
  have "map (\<lambda>f. case AgwFrame_Encode f of Inr w \<Rightarrow> w | Inl _ \<Rightarrow> []) fs = map agw_wire fs"
    using v by (auto simp: list_all_iff agw_stable_def Encode_header agw_wire_def)
  with assms(2) have c: "concat reads = concat (map agw_wire fs)" by metis
  obtain s where s: "feed_chunks Decoder_step (NewDecoder True, None) reads = (s, fs)" "agw_ready s"
    using agw_stream.chunks_decoded [OF NewDecoder_ready v c] by blast
  then obtain d where "s = (d, None)" by (cases s) (auto simp: agw_ready_def)
  with s show ?thesis using agw_Writes_chunks by blast
qed

section \<open>Properties\<close>

text \<open>AGWPE frames on the wire. A frame with at most 4096 bytes of data is encoded without
  error, and both \<open>DecodeFrame\<close> and \<open>ReadFrame\<close>, whatever follows it, give it back, the two
  callsigns cut at ten bytes or their first NUL; a longer frame is refused.\<close>

theorem agw_wire_roundtrip:
  assumes "length rest < 2 ^ 31"
  shows "if length (Data f) \<le> MaxDataLen
     then \<exists>w. AgwFrame_Encode f = Inr w \<and> length w = HeaderSize + length (Data f)
        \<and> DecodeFrame (w @ rest) = Inr (agw_norm f) \<and> ReadFrame (w @ rest) = Inr (agw_norm f, rest)
     else \<exists>e. AgwFrame_Encode f = Inl e"
proof (cases "length (Data f) \<le> MaxDataLen")
  case True
  then have v: "agw_valid f" by (simp add: agw_valid_def)
  then show ?thesis
    using DecodeFrame_Encode [OF v assms] ReadFrame_Encode [OF v] Encode_header [OF v] True by simp
qed (simp add: AgwFrame_Encode_def)

theorem agw_wire_roundtrip_witness:
  "\<exists>w. AgwFrame_Encode (BuildConnectReq 0 (str ''N0CALL'') (str ''N7GET-5'')) = Inr w
     \<and> ReadFrame (w @ [1, 2]) = Inr (agw_norm (BuildConnectReq 0 (str ''N0CALL'') (str ''N7GET-5'')), [1, 2])"
  using agw_wire_roundtrip [of "[1, 2]" "BuildConnectReq 0 (str ''N0CALL'') (str ''N7GET-5'')"]
  by (auto simp: BuildConnectReq_def of_kind_def)

text \<open>AGWPE frames in a byte stream. A series of frames (with callsigns of at most ten bytes
  without NUL and at most 4096 bytes of data) written one after the other comes out of the
  streaming decoder as exactly that series, however the stream is cut into reads.\<close>

theorem agw_stream_roundtrip:
  assumes "\<forall>f \<in> set fs. length (Data f) \<le> MaxDataLen \<and> agw_norm f = f"
    and "concat reads = concat (map (\<lambda>f. case AgwFrame_Encode f of Inr w \<Rightarrow> w | Inl _ \<Rightarrow> []) fs)"
  shows "\<exists>d. Decoder_Writes (NewDecoder True) reads = (d, fs)"
  by (rule agw_stream_decoded [OF assms])

theorem agw_stream_roundtrip_witness:
  "\<exists>d. Decoder_Writes (NewDecoder True)
     [[0, 0, 0, 0, 0x52], replicate 30 0, [0] @ replicate 4 0 @ [0x47] @ replicate 31 0] = (d, [BuildVersionReq, BuildPortInfoReq])"
  by (rule agw_stream_roundtrip)
    (simp_all add: BuildVersionReq_def BuildPortInfoReq_def of_kind_def agw_norm_def AgwFrame_Encode_def
      setCallsign_def le32_def numeral_eq_Suc)

lemma Frame_Encode_length: "Frame_Encode U f = Inr w \<Longrightarrow> length w \<le> 328"
proof -
  have d: "length (concat (map (encode_digi U ds) [0..<n])) = 7 * n" for ds n
    by (induction n) (simp_all add: encode_digi_def or_b6_def clear_b6_def Let_def)
  show "Frame_Encode U f = Inr w \<Longrightarrow> length w \<le> 328"
    by (auto simp: Frame_Encode_def Let_def or_b6_def clear_b6_def d split: if_splits)
qed

text \<open>Raw frames through AGWPE. A well-formed AX.25 frame wrapped as a raw frame and unwrapped
  by the receiver is the frame a receiver sees on the air.\<close>

theorem agw_raw_roundtrip:
  assumes "wf_frame f"
  shows "\<exists>a. FromAX25Raw U (Some f) port = Inr a \<and> agwPort a = port \<and> Kind a = KindRecvRaw
     \<and> ToAX25 (Some a) = Inr (wire_frame U f)"
proof -
  obtain w where w: "Frame_Encode U f = Inr w" "ParseFrame w = Inr (wire_frame U f)"
    using frame_wire.roundtrip [OF assms] by blast
  have "length w \<le> 328" by (rule Frame_Encode_length [OF w(1)])
  moreover have "w \<noteq> []" using w(2) by (auto simp: ParseFrame_def)
  ultimately show ?thesis using w by (simp add: FromAX25Raw_def ToAX25_def Let_def)
qed

theorem agw_raw_roundtrip_witness:
  "\<exists>a. FromAX25Raw \<lparr>upper_unicode = id, fold_unicode = (=)\<rparr> (Some sample_frame) 0 = Inr a
     \<and> ToAX25 (Some a) = Inr (wire_frame \<lparr>upper_unicode = id, fold_unicode = (=)\<rparr> sample_frame)"
  using agw_raw_roundtrip [OF sample_frame_wf] by blast

end
