(* ===== verification/Agwpe_Builders.thy ===== *)
theory Agwpe_Builders
  imports Agwpe_Frame
begin

text \<open>
  \<open>src/agwpe/builders.go\<close>: the frames the AGWPE server sends to its client, the text of monitor
  frames included. \<open>fmt.Sprintf\<close> is written out; the clock \<open>FromAX25Monitor\<close> reads is an argument
  (hours, minutes, seconds).
\<close>

section \<open>Responses\<close>

definition BuildVersionResp :: "int \<Rightarrow> int \<Rightarrow> AgwFrame" where
  "BuildVersionResp major minor =
     (of_kind KindVersionResp)\<lparr>Data := le32 (word_of_int major) @ le32 (word_of_int minor)\<rparr>"

definition BuildPortInfoResp :: "int \<Rightarrow> int \<Rightarrow> gostring \<Rightarrow> AgwFrame" where
  "BuildPortInfoResp port numPorts desc =
     (of_kind KindPortInfoResp)\<lparr>agwPort := word_of_int port,
       Data := fmt_int numPorts @ str '';'' @ desc @ str '';'' @ [0]\<rparr>"

definition BuildPortCapResp :: "int \<Rightarrow> AgwFrame" where
  "BuildPortCapResp port = (of_kind KindPortCapResp)\<lparr>agwPort := word_of_int port, Data := replicate 12 0\<rparr>"

definition BuildRegisterCallResp :: "gostring \<Rightarrow> bool \<Rightarrow> byte \<Rightarrow> AgwFrame" where
  "BuildRegisterCallResp call success port =
     (of_kind KindRegisterCall)\<lparr>agwPort := port, CallFrom := call, Data := [if success then 1 else 0]\<rparr>"

definition BuildConnectedResp :: "int \<Rightarrow> gostring \<Rightarrow> gostring \<Rightarrow> bool \<Rightarrow> AgwFrame" where
  "BuildConnectedResp port localCall remoteCall localInitiated =
     (of_kind KindConnectResp)\<lparr>agwPort := word_of_int port, CallFrom := remoteCall, CallTo := localCall,
       Data := (if localInitiated then str ''*** CONNECTED With Station '' else str ''*** CONNECTED To Station '')
         @ remoteCall @ [13, 0]\<rparr>"

definition BuildDisconnectedResp :: "int \<Rightarrow> gostring \<Rightarrow> gostring \<Rightarrow> AgwFrame" where
  "BuildDisconnectedResp port localCall remoteCall =
     (of_kind KindDisconnectResp)\<lparr>agwPort := word_of_int port, CallFrom := remoteCall, CallTo := localCall,
       Data := str ''*** DISCONNECTED From Station '' @ remoteCall @ [13, 0]\<rparr>"

definition BuildDisconnectedTimeoutResp :: "int \<Rightarrow> gostring \<Rightarrow> gostring \<Rightarrow> AgwFrame" where
  "BuildDisconnectedTimeoutResp port localCall remoteCall =
     (of_kind KindDisconnectResp)\<lparr>agwPort := word_of_int port, CallFrom := remoteCall, CallTo := localCall,
       Data := str ''*** DISCONNECTED RETRYOUT With '' @ remoteCall @ [13, 0]\<rparr>"

definition BuildConnectedData :: "int \<Rightarrow> gostring \<Rightarrow> gostring \<Rightarrow> byte list \<Rightarrow> AgwFrame" where
  "BuildConnectedData port localCall remoteCall d =
     (of_kind KindRecvData)\<lparr>agwPort := word_of_int port, CallFrom := remoteCall, CallTo := localCall, Data := d\<rparr>"

definition BuildOutstandingPort :: "int \<Rightarrow> int \<Rightarrow> AgwFrame" where
  "BuildOutstandingPort port count =
     (of_kind KindOutstandingResp)\<lparr>agwPort := word_of_int port, Data := le32 (word_of_int count)\<rparr>"

definition BuildOutstandingConn :: "int \<Rightarrow> gostring \<Rightarrow> gostring \<Rightarrow> int \<Rightarrow> AgwFrame" where
  "BuildOutstandingConn port localCall remoteCall count =
     (of_kind KindOutstandingReq)\<lparr>agwPort := word_of_int port, CallFrom := localCall, CallTo := remoteCall,
       Data := le32 (word_of_int count)\<rparr>"

section \<open>Monitor frames\<close>

definition FormatMonitorAddrs :: "int \<Rightarrow> Frame \<Rightarrow> gostring" where
  "FormatMonitorAddrs port frame =
     (let src = Address_String (Source frame); dst = Address_String (Destination frame);
          hd = str '' '' @ fmt_int (port + 1) @ str '':Fm '' @ src @ str '' To '' @ dst
      in if length (Digipeaters frame) > 0 then
           let parts = map (\<lambda>d. Address_String d @ (if HasBeenRepeated d then str ''*'' else [])) (Digipeaters frame)
           in hd @ str '' Via '' @ strings_Join parts (str '','') @ str '' ''
         else hd @ str '' '')"

definition FormatMonitorDesc :: "Frame \<Rightarrow> byte \<times> gostring" where
  "FormatMonitorDesc frame =
     (let ctrl = Control frame;
          pf = (if IsCommand frame then str ''P'' else str ''F'') @ str ''='' @ fmt_d (unat (drop_bit 4 (ctrl AND CtrlPFBit))) @ str ''>'';
          len = fmt_d (length (Payload frame));
          nr = fmt_d (unat (ExtractNR ctrl))
      in case Type frame of
           FrameUI \<Rightarrow> (0x55, str ''<UI pid='' @ fmt_02X (PID frame) @ str '' Len='' @ len @ str '' '' @ pf)
         | FrameI \<Rightarrow> (0x49, str ''<I S'' @ fmt_d (unat (ExtractNS ctrl)) @ str '' R'' @ nr @ str '' pid=''
             @ fmt_02X (PID frame) @ str '' Len='' @ len @ str '' '' @ pf)
         | _ \<Rightarrow>
             (0x53,
              if ctrl AND 0x0F = CtrlRRMask then str ''<RR R'' @ nr @ str '' '' @ pf
              else if ctrl AND 0x0F = CtrlRNRMask then str ''<RNR R'' @ nr @ str '' '' @ pf
              else if ctrl AND 0x0F = CtrlREJMask then str ''<REJ R'' @ nr @ str '' '' @ pf
              else str ''<'' @ ControlName ctrl @ str '' '' @ pf))"

type_synonym clock = "nat \<times> nat \<times> nat"

definition FromAX25Monitor :: "clock \<Rightarrow> Frame \<Rightarrow> int \<Rightarrow> AgwFrame" where
  "FromAX25Monitor now frame port =
     (let (kind, desc) = FormatMonitorDesc frame;
          (h, m, s) = now;
          ts = str ''['' @ fmt_02d h @ str '':'' @ fmt_02d m @ str '':'' @ fmt_02d s @ str '']'' @ [13]
      in (of_kind kind)\<lparr>agwPort := word_of_int port,
           CallFrom := Address_String (Source frame), CallTo := Address_String (Destination frame),
           Data := FormatMonitorAddrs port frame @ desc @ ts
             @ (if length (Payload frame) > 0 then Payload frame @ [13] else []) @ [0]\<rparr>)"

section \<open>Responses and their parsers\<close>

lemma version_resp: "ParseVersionResp (Some (BuildVersionResp a b)) = Inr (word_of_int a, word_of_int b)"
proof -
  have "le_uint32 (go_slice 0 4 (le32 x @ le32 y)) = x" "le_uint32 (go_slice 4 8 (le32 x @ le32 y)) = y"
    for x y :: "32 word"
    by (simp_all add: go_slice_def)
  then show ?thesis by (simp add: ParseVersionResp_def BuildVersionResp_def of_kind_def)
qed

lemma outstanding_resp: "ParseOutstandingResp (Some (BuildOutstandingPort p n)) = Inr (word_of_int n)"
  by (simp add: ParseOutstandingResp_def BuildOutstandingPort_def of_kind_def go_slice_def)

text \<open>A monitor frame has the kind of its frame type, and all kinds of monitor frames are
  recognised as such.\<close>

lemma monitor_kind: "IsMonitored (Kind (FromAX25Monitor now f p))"
  by (cases "Type f") (simp_all add: FromAX25Monitor_def FormatMonitorDesc_def IsMonitored_def of_kind_def
      Let_def split: prod.splits)

end
