(* ===== verification/Agwpe_Server.thy ===== *)
theory Agwpe_Server
  imports Agwpe_Builders Ax25_Router Ax25_Conn_Inv "HOL-Library.AList"
begin

text \<open>
  \<open>src/agwpe/server.go\<close>: the AGWPE server, which bridges one TCP client to the AX.25 stack. The
  world holds the server, the router with its ports and the sessions, the pointers of the code
  being identifiers in stores. A closure given to a session or a port is known by its owner. The
  calls a session makes once its lock is released are run against the world, one after the other;
  a goroutine that waits for itself, or panics, stops there: \<open>Blocked\<close> and \<open>Panicked\<close> end a run.
\<close>

section \<open>State\<close>

record ServerConfig =
  RadioPort :: int
  PortDescription :: gostring
  TXQueueDepth :: int
  MaxConns :: int
  ReadBufSize :: int

definition portDesc :: "ServerConfig \<Rightarrow> gostring" where
  "portDesc c = (if PortDescription c \<noteq> [] then PortDescription c
     else str ''Port'' @ fmt_int (RadioPort c + 1) @ str '' go-ax25 radio'')"

type_synonym conn_id = nat

record connSlot =
  inUse :: bool
  localCall :: gostring
  remoteCall :: gostring
  slotConn :: "conn_id option"
  slotPort :: "port_id option"

record listenerEntry =
  lCall :: gostring
  lRemote :: gostring
  lConn :: conn_id
  lPort :: port_id

record Server =
  srvCfg :: ServerConfig
  txCh :: "AgwFrame list"
  txClosed :: bool
  routerPort :: port_id
  slots :: "connSlot list"
  rawEnabled :: bool
  monitorEnabled :: bool
  calls :: "gostring list"
  listeners :: "(gostring \<times> listenerEntry) list"
  pendingFrames :: "int list"

text \<open>Whose callbacks a session has.\<close>

datatype owner = SlotOwner nat gostring gostring | ListenerOwner gostring

record World =
  srv :: Server
  rtr :: Router
  pstore :: port_store
  conns :: "conn_id \<Rightarrow> Conn"
  owners :: "conn_id \<rightharpoonup> owner"
  rxConn :: "port_id \<rightharpoonup> conn_id \<times> Address" \<comment> \<open>the session and address a port's OnRxFrame closes over\<close>
  nextPort :: port_id
  nextConn :: conn_id

datatype status = Done | Blocked | Panicked

type_synonym run = "World \<times> status"

text \<open>What follows an operation runs only if it is done.\<close>

definition after :: "run \<Rightarrow> (World \<Rightarrow> run) \<Rightarrow> run" where
  "after r k = (case r of (w, Done) \<Rightarrow> k w | (w, st) \<Rightarrow> (w, st))"

definition emptySlot :: connSlot where
  "emptySlot = \<lparr>inUse = False, localCall = [], remoteCall = [], slotConn = None, slotPort = None\<rparr>"

definition NewServer :: "ServerConfig \<Rightarrow> port_id \<Rightarrow> Server" where
  "NewServer c port =
     (let c = (if MaxConns c \<le> 0 then c\<lparr>MaxConns := 4\<rparr> else c);
          c = (if TXQueueDepth c \<le> 0 then c\<lparr>TXQueueDepth := 64\<rparr> else c);
          c = (if ReadBufSize c \<le> 0 then c\<lparr>ReadBufSize := int (HeaderSize + MaxDataLen)\<rparr> else c);
          n = nat (MaxConns c)
      in \<lparr>srvCfg = c, txCh = [], txClosed = False, routerPort = port, slots = replicate n emptySlot,
          rawEnabled = False, monitorEnabled = False, calls = [], listeners = [], pendingFrames = replicate n 0\<rparr>)"

section \<open>Helpers\<close>

text \<open>Sending on a closed channel panics; on a full one the frame is dropped.\<close>

definition enqueue :: "AgwFrame \<Rightarrow> World \<Rightarrow> run" where
  "enqueue f w =
     (if txClosed (srv w) then (w, Panicked)
      else if int (length (txCh (srv w))) < TXQueueDepth (srvCfg (srv w))
      then (w\<lparr>srv := (srv w)\<lparr>txCh := txCh (srv w) @ [f]\<rparr>\<rparr>, Done)
      else (w, Done))"

definition radio :: "World \<Rightarrow> int" where
  "radio w = RadioPort (srvCfg (srv w))"

text \<open>A slot by index (the code's pointer); updates leave the others alone.\<close>

definition upd_slot :: "nat \<Rightarrow> (connSlot \<Rightarrow> connSlot) \<Rightarrow> World \<Rightarrow> World" where
  "upd_slot i g w = w\<lparr>srv := (srv w)\<lparr>slots := (slots (srv w))[i := g (slots (srv w) ! i)]\<rparr>\<rparr>"

fun first_index :: "('a \<Rightarrow> bool) \<Rightarrow> 'a list \<Rightarrow> nat option" where
  "first_index P [] = None"
| "first_index P (x # xs) = (if P x then Some 0 else map_option Suc (first_index P xs))"

definition allocSlot :: "gostring \<Rightarrow> gostring \<Rightarrow> World \<Rightarrow> (nat \<times> World) option" where
  "allocSlot lc rc w =
     (case first_index (\<lambda>s. \<not> inUse s) (slots (srv w)) of
        None \<Rightarrow> None
      | Some i \<Rightarrow> Some (i, upd_slot i (\<lambda>s. s\<lparr>inUse := True, localCall := lc, remoteCall := rc, slotConn := None\<rparr>) w))"

definition freeSlot :: "nat \<Rightarrow> World \<Rightarrow> World" where
  "freeSlot i w = upd_slot i (\<lambda>s. s\<lparr>inUse := False, slotConn := None, localCall := [], remoteCall := []\<rparr>) w"

definition findSlot :: "gostring \<Rightarrow> gostring \<Rightarrow> World \<Rightarrow> nat option" where
  "findSlot lc rc w = first_index (\<lambda>s. inUse s \<and> localCall s = lc \<and> remoteCall s = rc) (slots (srv w))"

definition add_pending :: "nat \<Rightarrow> int \<Rightarrow> World \<Rightarrow> World" where
  "add_pending i n w = w\<lparr>srv := (srv w)\<lparr>pendingFrames := (pendingFrames (srv w))[i := pendingFrames (srv w) ! i + n]\<rparr>\<rparr>"

definition router_send :: "unicode \<Rightarrow> Frame \<Rightarrow> World \<Rightarrow> World" where
  "router_send U f w = w\<lparr>pstore := snd (Router_Send U (Some f) (Some (routerPort (srv w))) (rtr w) (pstore w))\<rparr>"

text \<open>\<open>UnregisterPort\<close> waits for the port's worker; when the worker itself calls it, it waits forever,
  with the port out of the router's list and its quit channel closed.\<close>

definition unregister :: "port_id option \<Rightarrow> port_id \<Rightarrow> World \<Rightarrow> run" where
  "unregister worker p w =
     (case UnregisterPort p (rtr w) (pstore w) of
        Panic \<Rightarrow> (w\<lparr>rtr := (rtr w)\<lparr>ports := remove1 p (ports (rtr w))\<rparr>\<rparr>, Panicked)
      | Ret (e, r, h) \<Rightarrow>
          if worker = Some p \<and> p \<in> set (ports (rtr w)) \<and> started (pstore w p)
          then (w\<lparr>rtr := r, pstore := (pstore w)(p := (pstore w p)\<lparr>quitClosed := True\<rparr>)\<rparr>, Blocked)
          else (w\<lparr>rtr := r, pstore := h\<rparr>, Done))"

definition sendRawToClient :: "unicode \<Rightarrow> Frame \<Rightarrow> World \<Rightarrow> run" where
  "sendRawToClient U f w =
     (case FromAX25Raw U (Some f) (word_of_int (radio w)) of Inl _ \<Rightarrow> (w, Done) | Inr a \<Rightarrow> enqueue a w)"

definition sendMonitorToClient :: "clock \<Rightarrow> Frame \<Rightarrow> World \<Rightarrow> run" where
  "sendMonitorToClient now f w = enqueue (FromAX25Monitor now f (radio w)) w"

definition sendOwnFrameToClient :: "clock \<Rightarrow> Frame \<Rightarrow> World \<Rightarrow> run" where
  "sendOwnFrameToClient now f w = enqueue ((FromAX25Monitor now f (radio w))\<lparr>Kind := KindRecvOwn\<rparr>) w"

definition onRouterFrame :: "unicode \<Rightarrow> clock \<Rightarrow> Frame \<Rightarrow> World \<Rightarrow> run" where
  "onRouterFrame U now f w =
     after (if rawEnabled (srv w) then sendRawToClient U f w else (w, Done))
       (\<lambda>w. if monitorEnabled (srv w) then sendMonitorToClient now f w else (w, Done))"

section \<open>Callbacks of the sessions\<close>

definition listener_remote :: "gostring \<Rightarrow> World \<Rightarrow> gostring" where
  "listener_remote call w = (case map_of (listeners (srv w)) call of Some e \<Rightarrow> lRemote e | None \<Rightarrow> [])"

definition set_listener_remote :: "gostring \<Rightarrow> gostring \<Rightarrow> World \<Rightarrow> World" where
  "set_listener_remote call r w = w\<lparr>srv := (srv w)\<lparr>listeners :=
     map (\<lambda>(c, e). (c, if c = call then e\<lparr>lRemote := r\<rparr> else e)) (listeners (srv w))\<rparr>\<rparr>"

definition on_tx :: "unicode \<Rightarrow> clock \<Rightarrow> Frame \<Rightarrow> World \<Rightarrow> run" where
  "on_tx U now f w =
     after (if monitorEnabled (srv w) then sendOwnFrameToClient now f w else (w, Done))
       (\<lambda>w. (router_send U f w, Done))"

text \<open>The closures of \<open>handleConnect\<close> for slot \<open>i\<close>.\<close>

definition slot_callback ::
  "unicode \<Rightarrow> clock \<Rightarrow> port_id option \<Rightarrow> nat \<Rightarrow> gostring \<Rightarrow> gostring \<Rightarrow> action \<Rightarrow> World \<Rightarrow> run" where
  "slot_callback U now worker i lc rc a w =
     (case a of
        OnConnect remote localInitiated \<Rightarrow> enqueue (BuildConnectedResp (radio w) lc rc localInitiated) w
      | OnDisconnect \<Rightarrow>
          after (enqueue (BuildDisconnectedResp (radio w) lc rc) w) (\<lambda>w.
            let cp = slotPort (slots (srv w) ! i);
                w = upd_slot i (\<lambda>s. s\<lparr>slotPort := None\<rparr>) w
            in after (case cp of Some p \<Rightarrow> unregister worker p w | None \<Rightarrow> (w, Done))
                 (\<lambda>w. (freeSlot i w, Done)))
      | OnData d \<Rightarrow> enqueue (BuildConnectedData (radio w) lc rc d) w
      | OnTxAck count \<Rightarrow> (add_pending i (- count) w, Done)
      | OnTxFrame f \<Rightarrow> on_tx U now f w
      | OnError _ \<Rightarrow> (w, Done)
      | OnLinkReset \<Rightarrow> (w, Done))"

text \<open>The closures of \<open>setupListener\<close>.\<close>

definition listener_callback ::
  "unicode \<Rightarrow> clock \<Rightarrow> gostring \<Rightarrow> action \<Rightarrow> World \<Rightarrow> run" where
  "listener_callback U now call a w =
     (case a of
        OnConnect remote localInitiated \<Rightarrow>
          (let w = set_listener_remote call (Address_String remote) w
           in enqueue (BuildConnectedResp (radio w) call (Address_String remote) False) w)
      | OnDisconnect \<Rightarrow>
          (let r = listener_remote call w; w = set_listener_remote call [] w
           in enqueue (BuildDisconnectedResp (radio w) call r) w)
      | OnData d \<Rightarrow> enqueue (BuildConnectedData (radio w) call (listener_remote call w) d) w
      | OnTxFrame f \<Rightarrow> on_tx U now f w
      | _ \<Rightarrow> (w, Done))"

definition callback :: "unicode \<Rightarrow> clock \<Rightarrow> port_id option \<Rightarrow> conn_id \<Rightarrow> action \<Rightarrow> World \<Rightarrow> run" where
  "callback U now worker c a w =
     (case owners w c of
        Some (SlotOwner i lc rc) \<Rightarrow> slot_callback U now worker i lc rc a w
      | Some (ListenerOwner call) \<Rightarrow> listener_callback U now call a w
      | None \<Rightarrow> (w, Done))"

fun run_actions :: "unicode \<Rightarrow> clock \<Rightarrow> port_id option \<Rightarrow> conn_id \<Rightarrow> action list \<Rightarrow> World \<Rightarrow> run" where
  "run_actions U now worker c [] w = (w, Done)"
| "run_actions U now worker c (a # as) w =
     after (callback U now worker c a w) (run_actions U now worker c as)"

text \<open>The callbacks each kind of session has.\<close>

definition slot_callbacks :: ConnCallbacks where
  "slot_callbacks = \<lparr>hasOnConnect = True, hasOnDisconnect = True, hasOnLinkReset = False, hasOnError = True,
     hasOnData = True, hasOnTxFrame = True, hasOnTxAck = True\<rparr>"

definition listener_callbacks :: ConnCallbacks where
  "listener_callbacks = slot_callbacks\<lparr>hasOnTxAck := False\<rparr>"

definition set_conn :: "conn_id \<Rightarrow> Conn \<Rightarrow> World \<Rightarrow> World" where
  "set_conn c k w = w\<lparr>conns := (conns w)(c := k)\<rparr>"

text \<open>A call of a session's method, and the calls it makes afterwards in the same goroutine.\<close>

definition conn_call ::
  "unicode \<Rightarrow> clock \<Rightarrow> port_id option \<Rightarrow> conn_id \<Rightarrow> (Conn \<Rightarrow> conn_result) \<Rightarrow> World \<Rightarrow> goerr option \<times> run" where
  "conn_call U now worker c m w =
     (case m (conns w c) of (err, as, k) \<Rightarrow> (err, run_actions U now worker c as (set_conn c k w)))"

text \<open>The OnRxFrame closure of a session's port, in the port's worker.\<close>

definition port_rx :: "unicode \<Rightarrow> clock \<Rightarrow> port_id \<Rightarrow> Frame \<Rightarrow> World \<Rightarrow> run" where
  "port_rx U now p f w =
     (case rxConn w p of
        None \<Rightarrow> (w, Done)
      | Some (c, addr) \<Rightarrow>
          if \<not> Address_Equal U (Destination f) addr then (w, Done)
          else
            case OnFrame f (conns w c) of
              None \<Rightarrow> (w, Blocked)
            | Some (Returned (_, as, k)) \<Rightarrow> run_actions U now (Some p) c as (set_conn c k w)
            | Some (CallsOnConnect a k) \<Rightarrow>
                after (callback U now (Some p) c (OnConnect a False) (set_conn c k w)) (\<lambda>w.
                  case OnFrame_resume (HasPF (Control f)) (conns w c) of
                    (_, as, k) \<Rightarrow> run_actions U now (Some p) c as (set_conn c k w)))"

section \<open>Frames from the client\<close>

fun parse_calls :: "unicode \<Rightarrow> gostring list \<Rightarrow> goerr + Address list" where
  "parse_calls U [] = Inr []"
| "parse_calls U (call # cs) =
     (case ParseAddress U call of
        Inl e \<Rightarrow> Inl (ErrWrap ''agwpe server: parse digi'' e)
      | Inr a \<Rightarrow> map_sum id (\<lambda>as. a # as) (parse_calls U cs))"

text \<open>The ten-byte callsign fields behind the count byte.\<close>

definition digi_field :: "byte list \<Rightarrow> nat \<Rightarrow> byte list" where
  "digi_field d i = go_slice (1 + i * CallsignLen) (1 + (i + 1) * CallsignLen) d"

definition toAX25Unproto :: "unicode \<Rightarrow> AgwFrame \<Rightarrow> goerr + Frame" where
  "toAX25Unproto U f =
     (case ParseAddress U (CallFrom f) of
        Inl e \<Rightarrow> Inl (ErrWrap ''agwpe server: parse source'' e)
      | Inr src \<Rightarrow>
      (case ParseAddress U (CallTo f) of
        Inl e \<Rightarrow> Inl (ErrWrap ''agwpe server: parse destination'' e)
      | Inr dst \<Rightarrow>
          let payload = Data f;
              ndigi = (if length payload \<ge> 1 then unat (payload ! 0) else 0);
              via = Kind f = KindSendUnprotoVia \<and> length payload \<ge> 1 \<and> length payload \<ge> 1 + ndigi * CallsignLen
          in case (if via then parse_calls U (map (\<lambda>i. getCallsign (digi_field payload i)) [0..<ndigi]) else Inr []) of
               Inl e \<Rightarrow> Inl e
             | Inr digis \<Rightarrow>
                 Inr \<lparr>Destination = dst, Source = src, Digipeaters = digis, IsCommand = False, Type = FrameUI,
                   Control = CtrlUI, PID = (if agwPID f = 0 then PIDNone else agwPID f),
                   Payload = (if via then drop (1 + ndigi * CallsignLen) payload else payload)\<rparr>))"

definition parseDigiPath :: "unicode \<Rightarrow> byte list \<Rightarrow> Address list" where
  "parseDigiPath U d =
     (if length d < 1 then []
      else
        let ndigi = unat (d ! 0)
        in if ndigi = 0 \<or> length d < 1 + ndigi * CallsignLen then []
           else concat (map (\<lambda>i. case ParseAddress U (strings_TrimRight (digi_field d i) 0) of
                               Inr a \<Rightarrow> [a] | Inl _ \<Rightarrow> []) [0..<ndigi]))"

text \<open>The port literals of the server: the fields they do not name are zero.\<close>

definition new_port :: "PortMode \<Rightarrow> Address \<Rightarrow> Port" where
  "new_port mode dest = \<lparr>pMode = mode, pDestination = dest, hasOnRx = True, QueueDepth = 0,
     stats = \<lparr>RxFrames = 0, TxFrames = 0, Dropped = 0\<rparr>, txCh = None, txCap = 0,
     quitClosed = False, running = False, started = False\<rparr>"

definition handleConnect :: "unicode \<Rightarrow> clock \<Rightarrow> AgwFrame \<Rightarrow> Address list \<Rightarrow> World \<Rightarrow> run" where
  "handleConnect U now f digis w0 =
     (let lc = CallFrom f; rc = CallTo f
      in case allocSlot lc rc w0 of
           None \<Rightarrow> (w0, Done)
         | Some (i, w) \<Rightarrow>
      (case ParseAddress U lc of Inl _ \<Rightarrow> (freeSlot i w, Done) | Inr laddr \<Rightarrow>
      (case ParseAddress U rc of Inl _ \<Rightarrow> (freeSlot i w, Done) | Inr raddr \<Rightarrow>
      (case NewConn laddr slot_callbacks None of Inl _ \<Rightarrow> (freeSlot i w, Done) | Inr k \<Rightarrow>
        let c = nextConn w; p = nextPort w;
            w = set_conn c k (w\<lparr>nextConn := c + 1, owners := (owners w)(c \<mapsto> SlotOwner i lc rc)\<rparr>);
            w = upd_slot i (\<lambda>s. s\<lparr>slotConn := Some c\<rparr>) w;
            w = w\<lparr>nextPort := p + 1, rxConn := (rxConn w)(p \<mapsto> (c, laddr)),
                  pstore := (pstore w)(p := new_port PortModeStatic laddr)\<rparr>
        in case RegisterPort p (rtr w) (pstore w) of
             (Some _, r, h) \<Rightarrow> (freeSlot i w, Done)
           | (None, r, h) \<Rightarrow>
               let w = upd_slot i (\<lambda>s. s\<lparr>slotPort := Some p\<rparr>) (w\<lparr>rtr := r, pstore := h\<rparr>)
               in case conn_call U now None c (Connect raddr digis) w of
                    (None, r) \<Rightarrow> r
                  | (Some _, r) \<Rightarrow> after r (\<lambda>w. after (unregister None p w) (\<lambda>w. (freeSlot i w, Done)))))))"

definition setupListener :: "unicode \<Rightarrow> gostring \<Rightarrow> World \<Rightarrow> World" where
  "setupListener U call w =
     (case ParseAddress U call of Inl _ \<Rightarrow> w | Inr addr \<Rightarrow>
      (case NewConn addr listener_callbacks None of Inl _ \<Rightarrow> w | Inr k \<Rightarrow>
        let c = nextConn w; p = nextPort w;
            w = set_conn c k (w\<lparr>nextConn := c + 1, owners := (owners w)(c \<mapsto> ListenerOwner call)\<rparr>);
            w = w\<lparr>nextPort := p + 1, rxConn := (rxConn w)(p \<mapsto> (c, addr)),
                  pstore := (pstore w)(p := new_port PortModeStatic addr)\<rparr>
        in case RegisterPort p (rtr w) (pstore w) of
             (Some _, r, h) \<Rightarrow> w
           | (None, r, h) \<Rightarrow>
               w\<lparr>rtr := r, pstore := h, srv := (srv w)\<lparr>listeners :=
                 AList.update call \<lparr>lCall = call, lRemote = [], lConn = c, lPort = p\<rparr> (listeners (srv w))\<rparr>\<rparr>))"

definition close_conn :: "conn_id \<Rightarrow> World \<Rightarrow> World" where
  "close_conn c w = set_conn c (Conn_Close (conns w c)) w"

definition teardownEntry :: "listenerEntry \<Rightarrow> World \<Rightarrow> run" where
  "teardownEntry e w = after (unregister None (lPort e) w) (\<lambda>w. (close_conn (lConn e) w, Done))"

definition teardownListener :: "gostring \<Rightarrow> World \<Rightarrow> run" where
  "teardownListener call w =
     (case map_of (listeners (srv w)) call of
        None \<Rightarrow> (w, Done)
      | Some e \<Rightarrow> teardownEntry e (w\<lparr>srv := (srv w)\<lparr>listeners := AList.delete call (listeners (srv w))\<rparr>\<rparr>))"

fun teardownEntries :: "listenerEntry list \<Rightarrow> World \<Rightarrow> run" where
  "teardownEntries [] w = (w, Done)"
| "teardownEntries (e # es) w = after (teardownEntry e w) (teardownEntries es)"

definition teardownAllListeners :: "World \<Rightarrow> run" where
  "teardownAllListeners w =
     teardownEntries (map snd (listeners (srv w))) (w\<lparr>srv := (srv w)\<lparr>listeners := [], calls := []\<rparr>\<rparr>)"

definition handleRegisterCall :: "unicode \<Rightarrow> AgwFrame \<Rightarrow> World \<Rightarrow> run" where
  "handleRegisterCall U f w =
     (let call = CallFrom f;
          found = call \<in> set (calls (srv w));
          w = (if found then w else setupListener U call (w\<lparr>srv := (srv w)\<lparr>calls := calls (srv w) @ [call]\<rparr>\<rparr>))
      in enqueue (BuildRegisterCallResp call True (word_of_int (radio w))) w)"

definition handleUnregisterCall :: "AgwFrame \<Rightarrow> World \<Rightarrow> run" where
  "handleUnregisterCall f w =
     teardownListener (CallFrom f) (w\<lparr>srv := (srv w)\<lparr>calls := remove1 (CallFrom f) (calls (srv w))\<rparr>\<rparr>)"

definition handleSendRaw :: "unicode \<Rightarrow> AgwFrame \<Rightarrow> World \<Rightarrow> World" where
  "handleSendRaw U f w = (case ToAX25 (Some f) of Inl _ \<Rightarrow> w | Inr g \<Rightarrow> router_send U g w)"

definition handleSendUnproto :: "unicode \<Rightarrow> AgwFrame \<Rightarrow> World \<Rightarrow> World" where
  "handleSendUnproto U f w = (case toAX25Unproto U f of Inl _ \<Rightarrow> w | Inr g \<Rightarrow> router_send U g w)"

definition handleSendData :: "unicode \<Rightarrow> clock \<Rightarrow> AgwFrame \<Rightarrow> World \<Rightarrow> run" where
  "handleSendData U now f w =
     (case findSlot (CallFrom f) (CallTo f) w of
        Some i \<Rightarrow>
          (case slotConn (slots (srv w) ! i) of
             None \<Rightarrow> (w, Done)
           | Some c \<Rightarrow> after (snd (conn_call U now None c (SendData (Data f)) w)) (\<lambda>w. (add_pending i 1 w, Done)))
      | None \<Rightarrow>
          (case map_of (listeners (srv w)) (CallFrom f) of
             Some e \<Rightarrow> snd (conn_call U now None (lConn e) (SendData (Data f)) w)
           | None \<Rightarrow> (w, Done)))"

definition handleDisconnect :: "unicode \<Rightarrow> clock \<Rightarrow> AgwFrame \<Rightarrow> World \<Rightarrow> run" where
  "handleDisconnect U now f w =
     (case findSlot (CallFrom f) (CallTo f) w of
        Some i \<Rightarrow>
          (case slotConn (slots (srv w) ! i) of
             None \<Rightarrow> (w, Done)
           | Some c \<Rightarrow> snd (conn_call U now None c Shutdown w))
      | None \<Rightarrow>
          (case map_of (listeners (srv w)) (CallFrom f) of
             Some e \<Rightarrow> snd (conn_call U now None (lConn e) Shutdown w)
           | None \<Rightarrow> (w, Done)))"

definition handleOutstandingConn :: "AgwFrame \<Rightarrow> World \<Rightarrow> run" where
  "handleOutstandingConn f w =
     (let pending = (case findSlot (CallFrom f) (CallTo f) w of Some i \<Rightarrow> pendingFrames (srv w) ! i | None \<Rightarrow> 0);
          pending = (if pending < 0 then 0 else pending)
      in enqueue (BuildOutstandingConn (radio w) (CallFrom f) (CallTo f) pending) w)"

definition handleVersionReq :: "World \<Rightarrow> run" where
  "handleVersionReq w = enqueue (BuildVersionResp 2005 127) w"

definition handlePortInfoReq :: "World \<Rightarrow> run" where
  "handlePortInfoReq w = enqueue (BuildPortInfoResp (radio w) 1 (portDesc (srvCfg (srv w)))) w"

definition handlePortCapReq :: "World \<Rightarrow> run" where
  "handlePortCapReq w = enqueue (BuildPortCapResp (radio w)) w"

definition handleSendUnprotoVia :: "unicode \<Rightarrow> AgwFrame \<Rightarrow> World \<Rightarrow> World" where
  "handleSendUnprotoVia U f w = handleSendUnproto U f w"

definition handleConnectVia :: "unicode \<Rightarrow> clock \<Rightarrow> AgwFrame \<Rightarrow> World \<Rightarrow> run" where
  "handleConnectVia U now f w = handleConnect U now f (parseDigiPath U (Data f)) w"

definition handleConnectPID :: "unicode \<Rightarrow> clock \<Rightarrow> AgwFrame \<Rightarrow> World \<Rightarrow> run" where
  "handleConnectPID U now f w = handleConnect U now f [] w"

definition handleOutstandingPort :: "World \<Rightarrow> run" where
  "handleOutstandingPort w = enqueue (BuildOutstandingPort (radio w) 0) w"

definition handleClientFrame :: "unicode \<Rightarrow> clock \<Rightarrow> AgwFrame \<Rightarrow> World \<Rightarrow> run" where
  "handleClientFrame U now f w =
     (let k = Kind f in
      if k = KindLogin then (w, Done)
      else if k = 0x52 then handleVersionReq w
      else if k = 0x47 then handlePortInfoReq w
      else if k = 0x67 then handlePortCapReq w
      else if k = 0x48 then (w, Done)
      else if k = 0x58 then handleRegisterCall U f w
      else if k = 0x78 then handleUnregisterCall f w
      else if k = 0x6B then (w\<lparr>srv := (srv w)\<lparr>rawEnabled := \<not> rawEnabled (srv w)\<rparr>\<rparr>, Done)
      else if k = 0x6D then (w\<lparr>srv := (srv w)\<lparr>monitorEnabled := \<not> monitorEnabled (srv w)\<rparr>\<rparr>, Done)
      else if k = 0x4B then (handleSendRaw U f w, Done)
      else if k = 0x56 then (handleSendUnprotoVia U f w, Done)
      else if k = 0x4D then (handleSendUnproto U f w, Done)
      else if k = 0x43 then handleConnect U now f [] w
      else if k = 0x76 then handleConnectVia U now f w
      else if k = 0x63 then handleConnectPID U now f w
      else if k = 0x44 then handleSendData U now f w
      else if k = 0x64 then handleDisconnect U now f w
      else if k = 0x79 then handleOutstandingPort w
      else if k = 0x59 then handleOutstandingConn f w
      else (w, Done))"

section \<open>A client's connection\<close>

definition close_slot :: "connSlot \<Rightarrow> World \<Rightarrow> World" where
  "close_slot s w = (case slotConn s of Some c \<Rightarrow> if inUse s then close_conn c w else w | None \<Rightarrow> w)"

definition disconnectAllSlots :: "World \<Rightarrow> World" where
  "disconnectAllSlots w =
     (let w = fold close_slot (slots (srv w)) w
      in w\<lparr>srv := (srv w)\<lparr>slots := map (\<lambda>s. s\<lparr>inUse := False, slotConn := None, localCall := [], remoteCall := []\<rparr>)
            (slots (srv w))\<rparr>\<rparr>)"

text \<open>The read loop: each read is given to the decoder, whose callback handles the frames one after
  the other; a decoder error is ignored. The loop ends with the reads.\<close>

fun client_frames :: "unicode \<Rightarrow> clock \<Rightarrow> AgwFrame list \<Rightarrow> World \<Rightarrow> run" where
  "client_frames U now [] w = (w, Done)"
| "client_frames U now (f # fs) w = after (handleClientFrame U now f w) (client_frames U now fs)"

fun rxLoop :: "unicode \<Rightarrow> clock \<Rightarrow> Decoder \<Rightarrow> byte list list \<Rightarrow> World \<Rightarrow> run" where
  "rxLoop U now d [] w = (w, Done)"
| "rxLoop U now d (p # reads) w =
     (let (d', fs, _) = Decoder_Write d p in after (client_frames U now fs w) (rxLoop U now d' reads))"

text \<open>\<open>HandleConn\<close> up to its read loop, and after it: first the transmit channel is closed, and once
  the writer is gone it is replaced and everything of the client is torn down.\<close>

definition HandleConn_start :: "World \<Rightarrow> World" where
  "HandleConn_start w =
     (let p = routerPort (srv w); w = w\<lparr>pstore := (pstore w)(p := new_port PortModePromiscuous
            \<lparr>Callsign = [], SSID = 0, HasBeenRepeated = False, IsLast = False\<rparr>)\<rparr>
      in case RegisterPort p (rtr w) (pstore w) of (_, r, h) \<Rightarrow> w\<lparr>rtr := r, pstore := h\<rparr>)"

definition HandleConn_closing :: "World \<Rightarrow> run" where
  "HandleConn_closing w =
     after (unregister None (routerPort (srv w)) w) (\<lambda>w. (w\<lparr>srv := (srv w)\<lparr>txClosed := True\<rparr>\<rparr>, Done))"

definition HandleConn_end :: "World \<Rightarrow> run" where
  "HandleConn_end w =
     (let w = w\<lparr>srv := (srv w)\<lparr>txCh := [], txClosed := False\<rparr>\<rparr>
      in after (teardownAllListeners (disconnectAllSlots w))
           (\<lambda>w. (w\<lparr>srv := (srv w)\<lparr>rawEnabled := False, monitorEnabled := False\<rparr>\<rparr>, Done)))"

text \<open>The writer: the oldest frame leaves the queue; its bytes, or none if it cannot be encoded.\<close>

definition txPump :: "World \<Rightarrow> (byte list \<times> World) option" where
  "txPump w =
     (case txCh (srv w) of
        [] \<Rightarrow> None
      | f # q \<Rightarrow> Some (case AgwFrame_Encode f of Inr b \<Rightarrow> b | Inl _ \<Rightarrow> [], w\<lparr>srv := (srv w)\<lparr>txCh := q\<rparr>\<rparr>))"

section \<open>Slots and helpers\<close>

lemma first_index_Some:
  "first_index P xs = Some i \<Longrightarrow> i < length xs \<and> P (xs ! i) \<and> (\<forall>j < i. \<not> P (xs ! j))"
proof (induction xs arbitrary: i)
  case (Cons x xs)
  then show ?case by (auto simp: less_Suc_eq_0_disj split: if_splits)
qed simp

lemma first_index_None: "first_index P xs = None \<longleftrightarrow> (\<forall>x \<in> set xs. \<not> P x)"
  by (induction xs) auto

lemma after_Done [simp]: "after (w, Done) k = k w"
  by (simp add: after_def)

lemma after_stop [simp]: "after (w, Blocked) k = (w, Blocked)" "after (w, Panicked) k = (w, Panicked)"
  by (simp_all add: after_def)

text \<open>What \<open>enqueue\<close> leaves alone.\<close>

lemma enqueue_open:
  "\<not> txClosed (srv w) \<Longrightarrow> \<exists>q. enqueue f w = (w\<lparr>srv := (srv w)\<lparr>txCh := q\<rparr>\<rparr>, Done)"
  by (cases w; cases "srv w") (auto simp: enqueue_def)

lemma Router_Send_keeps:
  "started (snd (Router_Send U f src r h) p) = started (h p)"
  "quitClosed (snd (Router_Send U f src r h) p) = quitClosed (h p)"
proof -
  have q: "quitClosed (deliver_to g ps k p) = quitClosed (k p)" for g ps k
    by (induction ps arbitrary: k) (auto simp: Port_deliver_def split: option.splits)
  have b: "quitClosed (bindDynamic g s k p) = quitClosed (k p)" for g s k by (simp add: bindDynamic_def)
  have "started (snd (Router_Send U f src r h) p) = started (h p)
      \<and> quitClosed (snd (Router_Send U f src r h) p) = quitClosed (h p)"
    by (auto simp: Router_Send_def sendSwitch_targets sendBridge_targets [where U = U] sendHub_def
        deliver_to_keeps bindDynamic_keeps q b split: option.splits RouterMode.splits)
  then show "started (snd (Router_Send U f src r h) p) = started (h p)"
    "quitClosed (snd (Router_Send U f src r h) p) = quitClosed (h p)" by blast+
qed

lemma on_tx_open:
  assumes "\<not> txClosed (srv w)"
  shows "\<exists>q h. on_tx U now f w = (w\<lparr>srv := (srv w)\<lparr>txCh := q\<rparr>, pstore := h\<rparr>, Done)
    \<and> (\<forall>p. started (h p) = started (pstore w p) \<and> quitClosed (h p) = quitClosed (pstore w p))"
proof -
  obtain q where q: "(if monitorEnabled (srv w) then sendOwnFrameToClient now f w else (w, Done))
      = (w\<lparr>srv := (srv w)\<lparr>txCh := q\<rparr>\<rparr>, Done)"
  proof (cases "monitorEnabled (srv w)")
    case True
    with enqueue_open [OF assms] that show thesis by (auto simp: sendOwnFrameToClient_def)
  next
    case False
    show thesis by (rule that [of "txCh (srv w)"]) (simp add: False)
  qed
  show ?thesis
    by (rule exI [of _ q], rule exI [of _ "snd (Router_Send U (Some f) (Some (routerPort (srv w))) (rtr w) (pstore w))"])
      (simp add: on_tx_def router_send_def Router_Send_keeps q)
qed

lemma slot_full:
  "s\<lparr>inUse := a, localCall := b, remoteCall := c, slotConn := d, slotPort := e\<rparr>
     = \<lparr>inUse = a, localCall = b, remoteCall = c, slotConn = d, slotPort = e\<rparr>"
  by (cases s) simp

lemma Connect_new:
  assumes "NewConn la slot_callbacks None = Inr k"
  shows "\<exists>fr k'. Connect ra digis k = (None, [OnTxFrame fr], k') \<and> state k' = ConnStateAwaitingConnection
    \<and> t1Active k' \<and> remoteAddr k' = ra \<and> path k' = digis"
  using assms
  by (auto simp: NewConn_def slot_callbacks_def defaultConnConfig_def Connect_def unlock_def takePendingActions_def
      resetStateVars_def send_calls tx_call_def timer_defs Let_def)

lemma NewConn_slot: "\<exists>k. NewConn la slot_callbacks None = Inr k"
  by (simp add: NewConn_def slot_callbacks_def)

section \<open>Properties\<close>

text \<open>A local connect request. With a free slot, callsigns that parse and an open router, the
  request takes the first free slot, registers a new static port for the local address at the
  end of the router's list, and leaves a session that has sent SABM and waits with T1 running; with
  no free slot, or with a callsign that does not parse, nothing is left behind.\<close>

theorem handleConnect_takes_slot:
  assumes "\<not> txClosed (srv w)" and "\<not> closed (rtr w)" and "nextPort w \<notin> set (ports (rtr w))"
  shows "case handleConnect U now f digis w of (w', st) \<Rightarrow> st = Done \<and>
    (case first_index (\<lambda>s. \<not> inUse s) (slots (srv w)) of
       None \<Rightarrow> w' = w
     | Some i \<Rightarrow>
         (case (ParseAddress U (CallFrom f), ParseAddress U (CallTo f)) of
            (Inr la, Inr ra) \<Rightarrow>
              slots (srv w') = (slots (srv w))[i := \<lparr>inUse = True, localCall = CallFrom f, remoteCall = CallTo f,
                 slotConn = Some (nextConn w), slotPort = Some (nextPort w)\<rparr>]
              \<and> ports (rtr w') = ports (rtr w) @ [nextPort w] \<and> rxConn w' (nextPort w) = Some (nextConn w, la)
              \<and> state (conns w' (nextConn w)) = ConnStateAwaitingConnection \<and> t1Active (conns w' (nextConn w))
              \<and> remoteAddr (conns w' (nextConn w)) = ra \<and> path (conns w' (nextConn w)) = digis
          | _ \<Rightarrow> \<not> inUse (slots (srv w') ! i) \<and> ports (rtr w') = ports (rtr w) \<and> conns w' = conns w))"
proof (cases "first_index (\<lambda>s. \<not> inUse s) (slots (srv w))")
  case None
  then show ?thesis by (simp add: handleConnect_def allocSlot_def)
next
  case (Some i)
  have i: "i < length (slots (srv w))" using first_index_Some [OF Some] by simp
  let ?w1 = "upd_slot i (\<lambda>s. s\<lparr>inUse := True, localCall := CallFrom f, remoteCall := CallTo f, slotConn := None\<rparr>) w"
  have al: "allocSlot (CallFrom f) (CallTo f) w = Some (i, ?w1)" by (simp add: allocSlot_def Some)
  have fr: "\<not> inUse (slots (srv (freeSlot i ?w1)) ! i)" "rtr (freeSlot i ?w1) = rtr w" "conns (freeSlot i ?w1) = conns w"
    using i by (simp_all add: freeSlot_def upd_slot_def)
  show ?thesis
  proof (cases "ParseAddress U (CallFrom f)")
    case (Inl e)
    with al fr Some show ?thesis by (simp add: handleConnect_def)
  next
    case la: (Inr la)
    show ?thesis
    proof (cases "ParseAddress U (CallTo f)")
      case (Inl e)
      with al fr Some la show ?thesis by (simp add: handleConnect_def)
    next
      case (Inr ra)
      obtain k where k: "NewConn la slot_callbacks None = Inr k" using NewConn_slot by blast
      obtain g k' where c: "Connect ra digis k = (None, [OnTxFrame g], k')" "state k' = ConnStateAwaitingConnection"
        "t1Active k'" "remoteAddr k' = ra" "path k' = digis" using Connect_new [OF k] by metis
      let ?c = "nextConn w" and ?p = "nextPort w"
      define w2 where "w2 = upd_slot i (\<lambda>s. s\<lparr>slotPort := Some ?p\<rparr>)
        ((upd_slot i (\<lambda>s. s\<lparr>slotConn := Some ?c\<rparr>) (set_conn ?c k (?w1\<lparr>nextConn := ?c + 1,
           owners := (owners w)(?c \<mapsto> SlotOwner i (CallFrom f) (CallTo f))\<rparr>)))
         \<lparr>nextPort := ?p + 1, rxConn := (rxConn w)(?p \<mapsto> (?c, la)), rtr := (rtr w)\<lparr>ports := ports (rtr w) @ [?p]\<rparr>,
           pstore := (pstore w)(?p := Port_start defaultPortQueueDepth (new_port PortModeStatic la))\<rparr>)"
      have w2: "conns w2 ?c = k" "owners w2 ?c = Some (SlotOwner i (CallFrom f) (CallTo f))" "\<not> txClosed (srv w2)"
        "ports (rtr w2) = ports (rtr w) @ [?p]" "rxConn w2 ?p = Some (?c, la)"
        "slots (srv w2) = (slots (srv w))[i := \<lparr>inUse = True, localCall = CallFrom f, remoteCall = CallTo f,
           slotConn = Some ?c, slotPort = Some ?p\<rparr>]"
        using i assms(1) by (simp_all add: w2_def upd_slot_def set_conn_def slot_full)
      have h: "handleConnect U now f digis w = snd (conn_call U now None ?c (Connect ra digis) w2)"
        using al la Inr k c(1) assms(2,3)
        by (simp add: handleConnect_def Let_def RegisterPort_def conn_call_def w2_def upd_slot_def set_conn_def)
      obtain q h' where "on_tx U now g (set_conn ?c k' w2) =
          ((set_conn ?c k' w2)\<lparr>srv := (srv w2)\<lparr>txCh := q\<rparr>, pstore := h'\<rparr>, Done)"
        using on_tx_open [of "set_conn ?c k' w2" U now g] w2(3) by (auto simp: set_conn_def)
      then have "handleConnect U now f digis w = ((set_conn ?c k' w2)\<lparr>srv := (srv w2)\<lparr>txCh := q\<rparr>, pstore := h'\<rparr>, Done)"
        using w2(1,2) c(1) unfolding h by (simp add: conn_call_def callback_def slot_callback_def set_conn_def)
      with Some la Inr c w2 show ?thesis by (simp add: set_conn_def)
    qed
  qed
qed

definition demo_server :: World where
  "demo_server = \<lparr>srv = NewServer \<lparr>RadioPort = 0, PortDescription = [], TXQueueDepth = 0, MaxConns = 0, ReadBufSize = 0\<rparr> 0,
     rtr = NewRouter None, pstore = (\<lambda>_. new_port PortModeDefault N7GET_5), conns = (\<lambda>_. undefined), owners = Map.empty,
     rxConn = Map.empty, nextPort = 1, nextConn = 0\<rparr>"

theorem handleConnect_takes_slot_witness:
  "case handleConnect \<lparr>upper_unicode = id, fold_unicode = (=)\<rparr> (12, 0, 0) (of_kind 0x43) [] demo_server of
     (w', st) \<Rightarrow> st = Done \<and> \<not> inUse (slots (srv w') ! 0) \<and> ports (rtr w') = []"
proof -
  let ?U = "\<lparr>upper_unicode = id, fold_unicode = (=)\<rparr>"
  have p: "ParseAddress ?U [] = Inl ErrCallsignEmpty"
    by (simp add: ParseAddress_def check_callsign_def Let_def)
  have d: "\<not> txClosed (srv demo_server)" "rtr demo_server = NewRouter None"
    by (simp_all add: demo_server_def NewServer_def Let_def)
  have "first_index (\<lambda>s. \<not> inUse s) (slots (srv demo_server)) = Some 0"
    by (simp add: demo_server_def NewServer_def emptySlot_def numeral_eq_Suc Let_def)
  then show ?thesis
    using handleConnect_takes_slot [where w = demo_server and f = "of_kind 0x43" and U = ?U and now = "(12, 0, 0)" and digis = "[]"] d p
    by (simp add: NewRouter_def of_kind_def split: prod.splits)
qed

text \<open>C37: A connection ended by the peer keeps its slot. When the session of a slot gets DISC through
  its router port, the port's own worker runs the OnDisconnect closure, which unregisters the port
  and so waits for that same worker: it never returns, and the slot is not freed.\<close>

theorem peer_disconnect_blocks:
  assumes "rxConn w p = Some (c, addr)" and "owners w c = Some (SlotOwner i lc rc)"
    and "i < length (slots (srv w))" and "slotPort (slots (srv w) ! i) = Some p" and "inUse (slots (srv w) ! i)"
    and "p \<in> set (ports (rtr w))" and "started (pstore w p)" and "\<not> quitClosed (pstore w p)"
    and "\<not> txClosed (srv w)" and "cbs (conns w c) = slot_callbacks" and "pendingActions (conns w c) = []"
    and "IsConnected (conns w c)" and "Address_Equal U (Destination f) addr"
    and "Type f = FrameU" and "Control f AND 0xEF = CtrlDISC"
  shows "\<exists>w'. port_rx U now p f w = (w', Blocked) \<and> inUse (slots (srv w') ! i)
     \<and> state (conns w' c) = ConnStateDisconnected"
proof -
  obtain g k where o: "OnFrame f (conns w c) = Some (Returned (None, [OnTxFrame g, OnDisconnect], k))"
    "state k = ConnStateDisconnected"
    using assms(10-12,14,15)
    by (auto simp: OnFrame_def IsConnected_def Conn_State_def handleTimerRecovery_def handleConnected_def
        handleUFrameConnected_def Let_def unlock_def takePendingActions_def enterDisconnected_def enqueueAction_def
        send_calls tx_call_def timer_defs slot_callbacks_def)
  let ?w1 = "set_conn c k w"
  obtain q h where t: "on_tx U now g ?w1 = (?w1\<lparr>srv := (srv w)\<lparr>txCh := q\<rparr>, pstore := h\<rparr>, Done)"
    "started (h p)" "\<not> quitClosed (h p)"
    using on_tx_open [of ?w1 U now g] assms(7-9) by (auto simp: set_conn_def)
  let ?w2 = "?w1\<lparr>srv := (srv w)\<lparr>txCh := q\<rparr>, pstore := h\<rparr>"
  obtain q2 where e: "enqueue (BuildDisconnectedResp (radio ?w2) lc rc) ?w2 = (?w2\<lparr>srv := (srv w)\<lparr>txCh := q2\<rparr>\<rparr>, Done)"
    using enqueue_open [of ?w2] assms(9) by auto
  let ?w3 = "upd_slot i (\<lambda>s. s\<lparr>slotPort := None\<rparr>) (?w2\<lparr>srv := (srv w)\<lparr>txCh := q2\<rparr>\<rparr>)"
  have u: "\<exists>r h'. unregister (Some p) p ?w3 = (?w3\<lparr>rtr := r, pstore := h'\<rparr>, Blocked)"
    using assms(6) t(2,3) by (auto simp: unregister_def UnregisterPort_def Port_stop_def upd_slot_def set_conn_def)
  then obtain r h' where u: "unregister (Some p) p ?w3 = (?w3\<lparr>rtr := r, pstore := h'\<rparr>, Blocked)" by blast
  have "port_rx U now p f w = (?w3\<lparr>rtr := r, pstore := h'\<rparr>, Blocked)"
    using assms(1,2,4,13) o t e u
    by (simp add: port_rx_def callback_def slot_callback_def Let_def set_conn_def)
  then show ?thesis using assms(3,5) o(2) by (simp add: upd_slot_def set_conn_def)
qed

definition demo_session :: World where
  "demo_session = demo_server\<lparr>
     srv := (srv demo_server)\<lparr>slots := [\<lparr>inUse = True, localCall = str ''N7GET-5'', remoteCall = str ''N0CALL'',
       slotConn = Some 0, slotPort = Some 7\<rparr>], pendingFrames := [0]\<rparr>,
     rtr := (NewRouter None)\<lparr>ports := [7]\<rparr>, pstore := (\<lambda>_. Port_start 32 (new_port PortModeStatic N7GET_5)),
     conns := (\<lambda>_. case NewConn N7GET_5 slot_callbacks None of Inr k \<Rightarrow> k\<lparr>state := ConnStateConnected\<rparr>),
     owners := [0 \<mapsto> SlotOwner 0 (str ''N7GET-5'') (str ''N0CALL'')], rxConn := [7 \<mapsto> (0, N7GET_5)]\<rparr>"

theorem peer_disconnect_blocks_witness:
  "\<exists>w'. port_rx \<lparr>upper_unicode = id, fold_unicode = (=)\<rparr> (12, 0, 0) 7
       (sample_frame\<lparr>Destination := N7GET_5, Type := FrameU, Control := CtrlDISC\<rparr>) demo_session = (w', Blocked)
     \<and> inUse (slots (srv w') ! 0)"
proof -
  let ?U = "\<lparr>upper_unicode = id, fold_unicode = (=)\<rparr>"
  let ?f = "sample_frame\<lparr>Destination := N7GET_5, Type := FrameU, Control := CtrlDISC\<rparr>"
  have c: "cbs (conns demo_session 0) = slot_callbacks" "pendingActions (conns demo_session 0) = []"
    "IsConnected (conns demo_session 0)"
    by (simp_all add: demo_session_def NewConn_def slot_callbacks_def defaultConnConfig_def IsConnected_def Conn_State_def)
  have p: "started (pstore demo_session 7)" "\<not> quitClosed (pstore demo_session 7)"
    by (simp_all add: demo_session_def Port_start_def new_port_def Let_def)
  have s: "rxConn demo_session 7 = Some (0, N7GET_5)" "owners demo_session 0 = Some (SlotOwner 0 (str ''N7GET-5'') (str ''N0CALL''))"
    "0 < length (slots (srv demo_session))" "slotPort (slots (srv demo_session) ! 0) = Some 7" "inUse (slots (srv demo_session) ! 0)"
    "7 \<in> set (ports (rtr demo_session))" "\<not> txClosed (srv demo_session)"
    by (simp_all add: demo_session_def demo_server_def NewServer_def Let_def)
  have a: "Address_Equal ?U (Destination ?f) N7GET_5"
    using Address_Equal_refl [OF valid_ascii [OF N7GET_5_valid]] by simp
  have "\<exists>w'. port_rx ?U (12, 0, 0) 7 ?f demo_session = (w', Blocked) \<and> inUse (slots (srv w') ! 0)
      \<and> state (conns w' 0) = ConnStateDisconnected"
    by (rule peer_disconnect_blocks [OF s(1-6) p s(7) c a]) simp_all
  then show ?thesis by blast
qed

lemma teardownEntries_keeps:
  "teardownEntries es w = (w', Done) \<Longrightarrow> p \<notin> lPort ` set es \<Longrightarrow> p \<in> set (ports (rtr w)) \<Longrightarrow>
     p \<in> set (ports (rtr w')) \<and> srv w' = srv w"
proof (induction es arbitrary: w)
  case (Cons e es)
  let ?r = "unregister None (lPort e) w"
  obtain w1 st where r: "?r = (w1, st)" by fastforce
  with Cons.prems(1) have st: "st = Done" by (cases st) (auto simp: teardownEntry_def)
  have k: "p \<in> set (ports (rtr w1)) \<and> srv w1 = srv w"
    using r st Cons.prems(2,3)
    by (auto simp: unregister_def UnregisterPort_def split: outcome.splits if_splits)
  have "teardownEntries es (close_conn (lConn e) w1) = (w', Done)"
    using Cons.prems(1) r st by (simp add: teardownEntry_def)
  from Cons.IH [OF this] k Cons.prems(2) show ?case by (simp add: close_conn_def set_conn_def)
qed simp

text \<open>The router keeps the ports of a client that has gone. When the client's connection ends,
  the slots are emptied without unregistering their ports: a slot's port that was registered
  still is, though its slot is free.\<close>

theorem client_end_leaks_ports:
  assumes "HandleConn_end w = (w', Done)" and "i < length (slots (srv w))" and "slotPort (slots (srv w) ! i) = Some p"
    and "p \<in> set (ports (rtr w))" and "\<forall>e \<in> snd ` set (listeners (srv w)). lPort e \<noteq> p"
  shows "p \<in> set (ports (rtr w')) \<and> \<not> inUse (slots (srv w') ! i)"
proof -
  have "rtr (fold close_slot ss v) = rtr v \<and> srv (fold close_slot ss v) = srv v" for ss v
    by (induction ss arbitrary: v) (auto simp: close_slot_def close_conn_def set_conn_def split: option.splits)
  then have f: "rtr (fold close_slot ss v) = rtr v" "srv (fold close_slot ss v) = srv v" for ss v by auto
  let ?w = "w\<lparr>srv := (srv w)\<lparr>txCh := [], txClosed := False\<rparr>\<rparr>"
  let ?v = "disconnectAllSlots ?w"
  have v: "rtr ?v = rtr w" "listeners (srv ?v) = listeners (srv w)"
    "slots (srv ?v) = map (\<lambda>s. s\<lparr>inUse := False, slotConn := None, localCall := [], remoteCall := []\<rparr>) (slots (srv w))"
    by (simp_all add: disconnectAllSlots_def Let_def f)
  let ?u = "?v\<lparr>srv := (srv ?v)\<lparr>listeners := [], calls := []\<rparr>\<rparr>"
  obtain x where x: "teardownEntries (map snd (listeners (srv ?v))) ?u = (x, Done)"
    "w' = x\<lparr>srv := (srv x)\<lparr>rawEnabled := False, monitorEnabled := False\<rparr>\<rparr>"
    using assms(1) by (auto simp: HandleConn_end_def teardownAllListeners_def after_def Let_def split: prod.splits status.splits)
  have "p \<in> set (ports (rtr x)) \<and> srv x = srv ?u"
    by (rule teardownEntries_keeps [OF x(1)]) (use assms(4,5) v in auto)
  then show ?thesis using assms(2) x(2) v(3) by simp
qed

theorem client_end_leaks_ports_witness:
  "case HandleConn_end demo_session of (w', st) \<Rightarrow> st = Done \<and> 7 \<in> set (ports (rtr w')) \<and> \<not> inUse (slots (srv w') ! 0)"
proof -
  obtain w' where w: "HandleConn_end demo_session = (w', Done)"
    by (simp add: HandleConn_end_def teardownAllListeners_def disconnectAllSlots_def demo_session_def demo_server_def
        NewServer_def Let_def close_slot_def close_conn_def set_conn_def)
  then show ?thesis
    using client_end_leaks_ports [OF w, of 0 7]
    by (simp add: demo_session_def demo_server_def NewServer_def Let_def)
qed

text \<open>The outstanding count drifts. A data request whose \<open>SendData\<close> fails still counts one more
  frame pending, and taking a slot over for a new connection leaves the count of the old one.\<close>

theorem pending_count_drifts:
  assumes "findSlot (CallFrom f) (CallTo f) w = Some i" and "slotConn (slots (srv w) ! i) = Some c"
    and "SendData (Data f) (conns w c) = (Some err, [], conns w c)"
  shows "\<exists>w'. handleSendData U now f w = (w', Done) \<and> pstore w' = pstore w \<and> conns w' = conns w
      \<and> pendingFrames (srv w') = (pendingFrames (srv w))[i := pendingFrames (srv w) ! i + 1]
      \<and> (\<forall>lc rc j w''. allocSlot lc rc (freeSlot i w') = Some (j, w'') \<longrightarrow> pendingFrames (srv w'') = pendingFrames (srv w'))"
  using assms
  by (auto simp: handleSendData_def conn_call_def add_pending_def set_conn_def allocSlot_def freeSlot_def upd_slot_def
      split: option.splits)

theorem pending_count_drifts_witness:
  "\<exists>w'. handleSendData \<lparr>upper_unicode = id, fold_unicode = (=)\<rparr> (12, 0, 0)
       (BuildSendData 0 (str ''N7GET-5'') (str ''N0CALL'') 0 [1])
       (demo_session\<lparr>conns := (\<lambda>_. case NewConn N7GET_5 slot_callbacks None of Inr k \<Rightarrow> k)\<rparr>) = (w', Done)
     \<and> pendingFrames (srv w') = [1]"
proof -
  let ?w = "demo_session\<lparr>conns := (\<lambda>_. case NewConn N7GET_5 slot_callbacks None of Inr k \<Rightarrow> k)\<rparr>"
  let ?f = "BuildSendData 0 (str ''N7GET-5'') (str ''N0CALL'') 0 [1]"
  have f: "findSlot (CallFrom ?f) (CallTo ?f) ?w = Some 0" "slotConn (slots (srv ?w) ! 0) = Some 0"
    "pendingFrames (srv ?w) = [0]"
    by (simp_all add: findSlot_def BuildSendData_def of_kind_def demo_session_def)
  have d: "SendData (Data ?f) (conns ?w 0) = (Some ErrConnNotConnected, [], conns ?w 0)"
    by (simp add: SendData_def NewConn_def slot_callbacks_def defaultConnConfig_def)
  show ?thesis
    using pending_count_drifts [OF f(1,2) d, of "\<lparr>upper_unicode = id, fold_unicode = (=)\<rparr>" "(12, 0, 0)"] f(3) by auto
qed

section \<open>Unproto frames\<close>

lemma Address_String_field:
  assumes "valid_address a"
  shows "getCallsign (setCallsign 10 (Address_String a)) = Address_String a"
proof -
  have c: "length (Callsign a) \<le> 6" "list_all callsign_char (Callsign a)" "SSID a < 16"
    using assms by (simp_all add: valid_address_def)
  then have n: "unat (SSID a) < 16" by (simp add: word_less_nat_alt)
  have "unat (SSID a) div 10 < 10" using n by simp
  then have "length (fmt_d (unat (SSID a))) \<le> 2"
    by (simp add: fmt_d.simps [of "unat (SSID a)"] fmt_d.simps [of "unat (SSID a) div 10"])
  then have l: "length (Address_String a) \<le> 10" using c(1) by (simp add: Address_String_def)
  have "list_all is_digit (fmt_d (unat (SSID a)))" using fmt_d_digits by blast
  then have "0 \<notin> set (Address_String a)"
    using c(2) by (auto simp: Address_String_def list_all_iff is_digit_def callsign_char_def)
  then have "takeWhile (\<lambda>b. b \<noteq> 0) (Address_String a) = Address_String a"
    by (auto simp: takeWhile_eq_all_conv)
  with l show ?thesis by (simp add: getCallsign_set)
qed

lemma concat_field:
  "\<forall>x \<in> set xs. length (g x) = 10 \<Longrightarrow> i < length xs \<Longrightarrow> take 10 (drop (10 * i) (concat (map g xs) @ r)) = g (xs ! i)"
proof (induction xs arbitrary: i)
  case (Cons x xs)
  show ?case
  proof (cases i)
    case (Suc j)
    have "drop (10 * i) (concat (map g (x # xs)) @ r) = drop (10 * j) (concat (map g xs) @ r)"
      using Cons.prems(1) Suc by simp
    with Cons Suc show ?thesis by simp
  qed (use Cons.prems in simp)
qed simp

definition plain :: "Address \<Rightarrow> Address" where
  "plain a = a\<lparr>HasBeenRepeated := False, IsLast := False\<rparr>"

lemma parse_calls_String:
  "\<forall>d \<in> set ds. valid_address d \<Longrightarrow> parse_calls U (map Address_String ds) = Inr (map plain ds)"
  by (induction ds) (auto simp: ParseAddress_String plain_def)

lemma digi_fields:
  assumes "\<forall>d \<in> set ds. valid_address d"
  shows "map (\<lambda>i. getCallsign (digi_field (b # concat (map (\<lambda>d. setCallsign 10 (Address_String d)) ds) @ r) i)) [0..<length ds]
    = map Address_String ds"
proof (rule nth_equalityI)
  show "map (\<lambda>i. getCallsign (digi_field (b # concat (map (\<lambda>d. setCallsign 10 (Address_String d)) ds) @ r) i)) [0..<length ds] ! i
      = map Address_String ds ! i" if "i < length (map (\<lambda>i. getCallsign (digi_field (b # concat (map (\<lambda>d. setCallsign 10 (Address_String d)) ds) @ r) i)) [0..<length ds])" for i
  proof -
    have i: "i < length ds" using that by simp
    have "digi_field (b # concat (map (\<lambda>d. setCallsign 10 (Address_String d)) ds) @ r) i
        = take 10 (drop (10 * i) (concat (map (\<lambda>d. setCallsign 10 (Address_String d)) ds) @ r))"
      by (simp add: digi_field_def go_slice_def mult.commute)
    also have "\<dots> = setCallsign 10 (Address_String (ds ! i))" by (rule concat_field) (use i in simp_all)
    finally show ?thesis using i assms Address_String_field by simp
  qed
qed simp

lemma concat_setCallsign_length: "length (concat (map (\<lambda>d. setCallsign 10 (Address_String d)) ds)) = 10 * length ds"
  by (induction ds) simp_all

text \<open>Unproto frames from a client. A UI frame with valid addresses, at most eight digipeaters and a PID, put
  into an 'M' or 'V' request by the client's builder, is unpacked by the server to the same
  addresses, path, PID and payload (with all flags of the addresses clear), as a UI frame that is not
  marked as a command.\<close>

theorem unproto_roundtrip:
  assumes "valid_address (Source f)" and "valid_address (Destination f)"
    and "\<forall>d \<in> set (Digipeaters f). valid_address d" and "length (Digipeaters f) \<le> MaxDigipeaters"
    and "length (Payload f) \<le> 4000" and "PID f \<noteq> 0"
  shows "\<exists>a. FromAX25Unproto (Some f) port = Inr a
     \<and> toAX25Unproto U a = Inr \<lparr>Destination = plain (Destination f), Source = plain (Source f),
         Digipeaters = map plain (Digipeaters f), IsCommand = False, Type = FrameUI, Control = CtrlUI,
         PID = PID f, Payload = Payload f\<rparr>"
proof (cases "Digipeaters f = []")
  case True
  with assms show ?thesis
    by (simp add: FromAX25Unproto_def toAX25Unproto_def ParseAddress_String plain_def Let_def)
next
  case False
  let ?n = "length (Digipeaters f)"
  let ?d = "of_nat ?n # concat (map (\<lambda>d. setCallsign 10 (Address_String d)) (Digipeaters f)) @ Payload f"
  have n: "unat (of_nat ?n :: byte) = ?n" using assms(4) by (simp add: unat_of_nat)
  have a: "FromAX25Unproto (Some f) port = Inr \<lparr>agwPort = port, Kind = KindSendUnprotoVia, agwPID = PID f,
      CallFrom = Address_String (Source f), CallTo = Address_String (Destination f), Data = ?d, User = 0\<rparr>"
    using False assms(4,5) by (simp add: FromAX25Unproto_def concat_setCallsign_length Let_def)
  have p: "parse_calls U (map (\<lambda>i. getCallsign (digi_field ?d i)) [0..<?n]) = Inr (map plain (Digipeaters f))"
    unfolding digi_fields [OF assms(3)] by (rule parse_calls_String [OF assms(3)])
  have "drop (Suc (?n * 10)) ?d = Payload f"
    by (simp add: concat_setCallsign_length mult.commute)
  then show ?thesis
    using a n p assms(1,2,6)
    by (simp add: toAX25Unproto_def ParseAddress_String plain_def [symmetric] concat_setCallsign_length Let_def)
qed

definition via_frame :: Frame where
  "via_frame = sample_frame\<lparr>Digipeaters := [N7GET_5], Destination := N7GET_5\<rparr>"

theorem unproto_roundtrip_witness:
  "\<exists>a. FromAX25Unproto (Some via_frame) 0 = Inr a \<and> toAX25Unproto \<lparr>upper_unicode = id, fold_unicode = (=)\<rparr> a
     = Inr (via_frame\<lparr>IsCommand := False\<rparr>)"
  using unproto_roundtrip [of via_frame 0 "\<lparr>upper_unicode = id, fold_unicode = (=)\<rparr>"] N7GET_5_valid
  by (simp add: via_frame_def sample_frame_def plain_def N7GET_5_def)

section \<open>Requests in a byte stream\<close>

lemma after_after: "after (after r k) l = after r (\<lambda>w. after (k w) l)"
  by (simp add: after_def split: prod.splits status.splits)

lemma client_frames_append:
  "client_frames U now (fs @ gs) w = after (client_frames U now fs w) (client_frames U now gs)"
proof (induction fs arbitrary: w)
  case (Cons f fs)
  then have "client_frames U now (fs @ gs) = (\<lambda>w. after (client_frames U now fs w) (client_frames U now gs))" by blast
  then show ?case by (simp add: after_after)
qed simp

lemma rxLoop_frames: "rxLoop U now d reads w = client_frames U now (snd (Decoder_Writes d reads)) w"
proof (induction reads arbitrary: d w)
  case (Cons p reads)
  have "(\<lambda>w. rxLoop U now d' reads w) = client_frames U now (snd (Decoder_Writes d' reads))" for d'
    by (rule ext) (rule Cons.IH)
  then show ?case by (simp add: client_frames_append split: prod.splits)
qed simp

text \<open>A client's requests are served in order. When a client writes a series of requests (callsigns
  of at most ten bytes without NUL, at most 4096 bytes of data), the server's read loop runs the
  handler of each of them, once and in that order, however the stream is cut into reads; the first
  handler that does not return ends the run.\<close>

theorem requests_served_in_order:
  assumes "\<forall>f \<in> set fs. length (Data f) \<le> MaxDataLen \<and> agw_norm f = f"
    and "concat reads = concat (map (\<lambda>f. case AgwFrame_Encode f of Inr w \<Rightarrow> w | Inl _ \<Rightarrow> []) fs)"
  shows "rxLoop U now (NewDecoder True) reads w = client_frames U now fs w"
  using agw_stream_decoded [OF assms] by (auto simp: rxLoop_frames)

theorem requests_served_in_order_witness:
  "rxLoop \<lparr>upper_unicode = id, fold_unicode = (=)\<rparr> (12, 0, 0) (NewDecoder True) [[0, 0, 0, 0, 0x6B], replicate 30 0, [0]] demo_server
     = client_frames \<lparr>upper_unicode = id, fold_unicode = (=)\<rparr> (12, 0, 0) [BuildToggleRaw] demo_server
   \<and> rawEnabled (srv (fst (client_frames \<lparr>upper_unicode = id, fold_unicode = (=)\<rparr> (12, 0, 0) [BuildToggleRaw] demo_server)))"
proof
  show "rxLoop \<lparr>upper_unicode = id, fold_unicode = (=)\<rparr> (12, 0, 0) (NewDecoder True) [[0, 0, 0, 0, 0x6B], replicate 30 0, [0]] demo_server
     = client_frames \<lparr>upper_unicode = id, fold_unicode = (=)\<rparr> (12, 0, 0) [BuildToggleRaw] demo_server"
    by (rule requests_served_in_order)
      (simp_all add: BuildToggleRaw_def of_kind_def agw_norm_def AgwFrame_Encode_def
        setCallsign_def le32_def numeral_eq_Suc)
qed (simp add: handleClientFrame_def BuildToggleRaw_def of_kind_def demo_server_def NewServer_def Let_def)

end
