(* ===== verification/Ax25_Phy.thy ===== *)
theory Ax25_Phy
  imports Ax25_Kiss
begin

text \<open>
  \<open>src/ax25/phy.go\<close> and \<open>src/phy/kiss_serial.go\<close>: \<open>KISSSerialPHY\<close>, the driver that carries
  frames over a KISS-framed \<open>io.ReadWriter\<close>. The reader-writer is not code of the repository:
  what the driver does to it is the list of the calls it makes, and what comes back (the bytes of a
  read, whether a write succeeds, whether there is a Close method) are arguments of the steps. The
  two goroutines and the callers of \<open>SendFrame\<close> and \<open>Stop\<close> take their steps in any order
  (\<open>phy_step\<close>). The lemmas show that the driver is a first-in first-out channel, that a link of
  two drivers delivers what was sent, and what \<open>Stop\<close> does with frames that still wait.
\<close>

section \<open>State\<close>

record KISSSerialPHYConfig =
  phyPort :: byte
  rxQueueDepth :: int
  txQueueDepth :: int
  readBufSize :: int
  hasOnRxKISS :: bool
  hasOnTxKISS :: bool

record KISSSerialPHY =
  phyCfg :: KISSSerialPHYConfig
  rxCh :: "Frame list"
  rxChClosed :: bool
  phyTxCh :: "byte list list"
  phyStarted :: bool   \<comment> \<open>\<open>once\<close> has run\<close>
  cancelled :: bool    \<comment> \<open>the context is done\<close>
  phyClosed :: bool
  rxRunning :: bool    \<comment> \<open>the two goroutines \<open>wg\<close> counts\<close>
  txRunning :: bool

text \<open>The calls the driver makes on the reader-writer and on its hooks.\<close>

datatype phy_call = RwWrite "byte list" | RwClose | OnRxKISS "byte list" | OnTxKISS "byte list"

definition NewKISSSerialPHY :: "KISSSerialPHYConfig \<Rightarrow> KISSSerialPHY" where
  "NewKISSSerialPHY c =
     (let c = (if rxQueueDepth c \<le> 0 then c\<lparr>rxQueueDepth := 64\<rparr> else c);
          c = (if txQueueDepth c \<le> 0 then c\<lparr>txQueueDepth := 32\<rparr> else c);
          c = (if readBufSize c \<le> 0 then c\<lparr>readBufSize := 1024\<rparr> else c)
      in \<lparr>phyCfg = c, rxCh = [], rxChClosed = False, phyTxCh = [], phyStarted = False, cancelled = False,
          phyClosed = False, rxRunning = False, txRunning = False\<rparr>)"

section \<open>Operations\<close>

definition RxFrames :: "KISSSerialPHY \<Rightarrow> Frame list" where
  "RxFrames p = rxCh p"

definition SendFrame :: "unicode \<Rightarrow> Frame \<Rightarrow> KISSSerialPHY \<Rightarrow> goerr option \<times> phy_call list \<times> KISSSerialPHY" where
  "SendFrame U f p =
     (if phyClosed p then (Some ErrPHYClosed, [], p)
      else case Frame_Encode U f of
        Inl e \<Rightarrow> (Some (ErrWrap ''ax25: KISSSerialPHY.SendFrame'' e), [], p)
      | Inr raw \<Rightarrow>
          let encoded = KISSEncode (phyPort (phyCfg p)) 0 raw;
              calls = (if hasOnTxKISS (phyCfg p) then [OnTxKISS encoded] else [])
          in if int (length (phyTxCh p)) < txQueueDepth (phyCfg p)
             then (None, calls, p\<lparr>phyTxCh := phyTxCh p @ [encoded]\<rparr>)
             else (Some ErrPHYTxFull, calls, p))"

definition Phy_Start :: "KISSSerialPHY \<Rightarrow> KISSSerialPHY" where
  "Phy_Start p = (if phyStarted p then p else p\<lparr>phyStarted := True, rxRunning := True, txRunning := True\<rparr>)"

text \<open>\<open>Stop\<close> up to the drain loop, its drain loop, and what follows \<open>wg.Wait\<close>. There is a context to
  cancel only after \<open>Start\<close>.\<close>

definition Stop_begin :: "bool \<Rightarrow> KISSSerialPHY \<Rightarrow> phy_call list \<times> KISSSerialPHY" where
  "Stop_begin closer p =
     (if closer then [RwClose] else [], p\<lparr>phyClosed := True, cancelled := cancelled p \<or> phyStarted p\<rparr>)"

definition Stop_drain :: "KISSSerialPHY \<Rightarrow> phy_call list \<times> KISSSerialPHY" where
  "Stop_drain p = (map RwWrite (phyTxCh p), p\<lparr>phyTxCh := []\<rparr>)"

definition Stop_end :: "KISSSerialPHY \<Rightarrow> KISSSerialPHY option" where
  "Stop_end p = (if rxRunning p \<or> txRunning p then None else Some (p\<lparr>rxChClosed := True\<rparr>))"

text \<open>The decoder's callback in \<open>rxLoop\<close>.\<close>

definition rx_message :: "kiss_msg \<Rightarrow> KISSSerialPHY \<Rightarrow> phy_call list \<times> KISSSerialPHY" where
  "rx_message m p =
     (case m of (port, cmd, data) \<Rightarrow>
        if cmd \<noteq> 0 then ([], p)
        else
          (if hasOnRxKISS (phyCfg p) then [OnRxKISS (KISSEncode port cmd data)] else [],
           case ParseFrame data of
             Inl _ \<Rightarrow> p
           | Inr f \<Rightarrow> if int (length (rxCh p)) < rxQueueDepth (phyCfg p) then p\<lparr>rxCh := rxCh p @ [f]\<rparr> else p))"

fun rx_messages :: "kiss_msg list \<Rightarrow> KISSSerialPHY \<Rightarrow> phy_call list \<times> KISSSerialPHY" where
  "rx_messages [] p = ([], p)"
| "rx_messages (m # ms) p =
     (let (as, p') = rx_message m p; (bs, p'') = rx_messages ms p' in (as @ bs, p''))"

text \<open>One read of \<open>rxLoop\<close>: the bytes go to the decoder; the last component says whether the loop
  ends (the read failed, or the context is done at the next turn).\<close>

definition rxLoop_read ::
  "byte list \<Rightarrow> bool \<Rightarrow> KISSDecoder \<times> KISSSerialPHY \<Rightarrow> phy_call list \<times> KISSDecoder \<times> KISSSerialPHY" where
  "rxLoop_read buf failed s =
     (case s of (dec, p) \<Rightarrow>
        let (dec', ms) = KISSDecoder_Write dec buf; (calls, p') = rx_messages ms p
        in (calls, dec', if failed \<or> cancelled p' then p'\<lparr>rxRunning := False, rxChClosed := True\<rparr> else p'))"

text \<open>One turn of \<open>txLoop\<close>, when it takes from the queue: a failed write ends the loop. When the
  context is done it may end instead.\<close>

definition txLoop_write :: "bool \<Rightarrow> KISSSerialPHY \<Rightarrow> phy_call list \<times> KISSSerialPHY" where
  "txLoop_write ok p =
     (case phyTxCh p of
        [] \<Rightarrow> ([], p)
      | encoded # q \<Rightarrow> ([RwWrite encoded], p\<lparr>phyTxCh := q, txRunning := ok\<rparr>))"

definition txLoop_done :: "KISSSerialPHY \<Rightarrow> KISSSerialPHY" where
  "txLoop_done p = (if cancelled p then p\<lparr>txRunning := False\<rparr> else p)"

text \<open>\<open>src/phy/kiss_serial.go\<close>: the wrapper with its own configuration. The hooks \<open>OnRxFrame\<close> and
  \<open>OnError\<close> of that configuration are not passed on.\<close>

record KISSSerialConfig =
  serialPort :: bool \<comment> \<open>not nil\<close>
  serialTXQueueDepth :: int
  serialReadBufSize :: int
  serialOnRxKISS :: bool
  serialOnTxKISS :: bool
  serialOnRxFrame :: bool
  serialOnError :: bool

definition phy_NewKISSSerialPHY :: "KISSSerialConfig \<Rightarrow> goerr + KISSSerialPHY" where
  "phy_NewKISSSerialPHY c =
     (if \<not> serialPort c then Inl (ErrMsg ''phy: KISSSerialPHY: Port must not be nil'')
      else Inr (NewKISSSerialPHY \<lparr>phyPort = 0, rxQueueDepth = 0, txQueueDepth = serialTXQueueDepth c,
        readBufSize = serialReadBufSize c, hasOnRxKISS = serialOnRxKISS c, hasOnTxKISS = serialOnTxKISS c\<rparr>))"

section \<open>The driver as a transition system\<close>

text \<open>A state is the decoder of \<open>rxLoop\<close>, the driver, the encoded frames \<open>SendFrame\<close> has accepted
  and the calls made on the reader-writer and the hooks so far; the reader of \<open>RxFrames\<close> takes
  frames at any time.\<close>

record phy_run =
  decoder :: KISSDecoder
  driver :: KISSSerialPHY
  accepted :: "byte list list"
  calls :: "phy_call list"

inductive phy_step :: "unicode \<Rightarrow> bool \<Rightarrow> phy_run \<Rightarrow> phy_run \<Rightarrow> bool" for U closer where
  send: "SendFrame U f (driver s) = (err, as, p) \<Longrightarrow>
     phy_step U closer s (s\<lparr>driver := p, calls := calls s @ as,
       accepted := accepted s @ (if err = None then [last (phyTxCh p)] else [])\<rparr>)"
| start: "phy_step U closer s (s\<lparr>driver := Phy_Start (driver s)\<rparr>)"
| read: "rxRunning (driver s) \<Longrightarrow> rxLoop_read buf failed (decoder s, driver s) = (as, dec, p) \<Longrightarrow>
     phy_step U closer s (s\<lparr>decoder := dec, driver := p, calls := calls s @ as\<rparr>)"
| tx_write: "txRunning (driver s) \<Longrightarrow> txLoop_write ok (driver s) = (as, p) \<Longrightarrow>
     phy_step U closer s (s\<lparr>driver := p, calls := calls s @ as\<rparr>)"
| tx_end: "txRunning (driver s) \<Longrightarrow> phy_step U closer s (s\<lparr>driver := txLoop_done (driver s)\<rparr>)"
| stop_begin: "Stop_begin closer (driver s) = (as, p) \<Longrightarrow>
     phy_step U closer s (s\<lparr>driver := p, calls := calls s @ as\<rparr>)"
| stop_drain: "phyClosed (driver s) \<Longrightarrow> Stop_drain (driver s) = (as, p) \<Longrightarrow>
     phy_step U closer s (s\<lparr>driver := p, calls := calls s @ as\<rparr>)"
| stop_end: "phyClosed (driver s) \<Longrightarrow> Stop_end (driver s) = Some p \<Longrightarrow>
     phy_step U closer s (s\<lparr>driver := p\<rparr>)"
| receive: "rxCh (driver s) = f # fs \<Longrightarrow> phy_step U closer s (s\<lparr>driver := (driver s)\<lparr>rxCh := fs\<rparr>\<rparr>)"

definition phy_init :: "phy_run \<Rightarrow> bool" where
  "phy_init s \<longleftrightarrow> (\<exists>c. driver s = NewKISSSerialPHY c) \<and> accepted s = [] \<and> calls s = []"

fun writes :: "phy_call list \<Rightarrow> byte list list" where
  "writes [] = []"
| "writes (RwWrite b # cs) = b # writes cs"
| "writes (_ # cs) = writes cs"

text \<open>The writes a closed reader-writer does not take any more.\<close>

definition before_close :: "phy_call list \<Rightarrow> phy_call list" where
  "before_close cs = takeWhile (\<lambda>c. c \<noteq> RwClose) cs"

section \<open>Queues\<close>

lemma writes_append [simp]: "writes (xs @ ys) = writes xs @ writes ys"
  by (induction xs rule: writes.induct) auto

lemma writes_map [simp]: "writes (map RwWrite bs) = bs"
  by (induction bs) auto

lemma before_close_append [simp]:
  "RwClose \<in> set cs \<Longrightarrow> before_close (cs @ ds) = before_close cs"
  by (auto simp: before_close_def takeWhile_append1)

lemma before_close_snoc [simp]: "RwClose \<notin> set cs \<Longrightarrow> before_close (cs @ [RwClose]) = cs"
  unfolding before_close_def by (subst takeWhile_append2) auto

lemma rx_message_keeps:
  assumes "rx_message m p = (as, p')"
  shows "phyTxCh p' = phyTxCh p" "phyCfg p' = phyCfg p" "writes as = []" "RwClose \<notin> set as"
    "phyClosed p' = phyClosed p" "cancelled p' = cancelled p"
    "int (length (rxCh p)) \<le> rxQueueDepth (phyCfg p) \<Longrightarrow> int (length (rxCh p')) \<le> rxQueueDepth (phyCfg p)"
  using assms by (auto simp: rx_message_def split: prod.splits if_splits sum.splits)

lemma rx_messages_keeps:
  "rx_messages ms p = (as, p') \<Longrightarrow>
     phyTxCh p' = phyTxCh p \<and> phyCfg p' = phyCfg p \<and> writes as = [] \<and> RwClose \<notin> set as
     \<and> phyClosed p' = phyClosed p \<and> cancelled p' = cancelled p
     \<and> (int (length (rxCh p)) \<le> rxQueueDepth (phyCfg p) \<longrightarrow> int (length (rxCh p')) \<le> rxQueueDepth (phyCfg p))"
proof (induction ms arbitrary: p as)
  case (Cons m ms)
  obtain bs q where m: "rx_message m p = (bs, q)" by fastforce
  obtain cs where r: "rx_messages ms q = (cs, p')" "as = bs @ cs"
    using Cons.prems m by (auto split: prod.splits)
  show ?case using rx_message_keeps [OF m] Cons.IH [OF r(1)] r(2) by auto
qed simp

lemma rxLoop_read_keeps:
  assumes "rxLoop_read buf failed (dec, p) = (as, dec', p')"
  shows "phyTxCh p' = phyTxCh p \<and> phyCfg p' = phyCfg p \<and> writes as = [] \<and> RwClose \<notin> set as
     \<and> phyClosed p' = phyClosed p
     \<and> (int (length (rxCh p)) \<le> rxQueueDepth (phyCfg p) \<longrightarrow> int (length (rxCh p')) \<le> rxQueueDepth (phyCfg p))"
  using assms rx_messages_keeps
  by (auto simp: rxLoop_read_def Let_def split: prod.splits if_splits)

lemma SendFrame_cases:
  assumes "SendFrame U f p = (err, as, p')"
  shows "writes as = [] \<and> RwClose \<notin> set as \<and>
    (if err = None
     then \<exists>e. p' = p\<lparr>phyTxCh := phyTxCh p @ [e]\<rparr> \<and> int (length (phyTxCh p)) < txQueueDepth (phyCfg p) \<and> \<not> phyClosed p
     else p' = p)"
  using assms by (auto simp: SendFrame_def Let_def split: if_splits sum.splits)

text \<open>The invariant: what was accepted is what was written, in that order, followed by what waits;
  the queues stay within their capacity; and the reader-writer is closed only by \<open>Stop\<close>.\<close>

definition phy_ok :: "phy_run \<Rightarrow> bool" where
  "phy_ok s \<longleftrightarrow> accepted s = writes (calls s) @ phyTxCh (driver s)
     \<and> int (length (phyTxCh (driver s))) \<le> txQueueDepth (phyCfg (driver s))
     \<and> int (length (rxCh (driver s))) \<le> rxQueueDepth (phyCfg (driver s))
     \<and> (RwClose \<in> set (calls s) \<longrightarrow> phyClosed (driver s))"

lemma phy_init_ok: "phy_init s \<Longrightarrow> phy_ok s"
  by (auto simp: phy_init_def phy_ok_def NewKISSSerialPHY_def Let_def)

lemma phy_step_ok: "phy_step U closer s t \<Longrightarrow> phy_ok s \<Longrightarrow> phy_ok t"
proof (induction rule: phy_step.induct)
  case (send f s err as p)
  then show ?case using SendFrame_cases [OF send(1)] by (auto simp: phy_ok_def split: if_splits)
next
  case (read s buf failed as dec p)
  then show ?case using rxLoop_read_keeps [OF read(2)] by (auto simp: phy_ok_def)
next
  case (tx_write s ok as p)
  then show ?case by (auto simp: phy_ok_def txLoop_write_def split: list.splits)
next
  case (stop_begin s as p)
  then show ?case by (auto simp: phy_ok_def Stop_begin_def split: if_splits)
qed (auto simp: phy_ok_def Phy_Start_def txLoop_done_def Stop_drain_def Stop_end_def split: if_splits)

interpretation phy_sys: transition_system phy_init "phy_step U closer" phy_ok for U closer
  by unfold_locales (auto intro: phy_init_ok phy_step_ok)

text \<open>Once the reader-writer is closed, no step adds to what it took.\<close>

lemma closed_step:
  "phy_step U closer s t \<Longrightarrow> RwClose \<in> set (calls s) \<Longrightarrow>
     RwClose \<in> set (calls t) \<and> before_close (calls t) = before_close (calls s)"
  by (induction rule: phy_step.induct) auto

lemma closed_steps:
  "(phy_step U closer)\<^sup>*\<^sup>* s t \<Longrightarrow> RwClose \<in> set (calls s) \<Longrightarrow>
     RwClose \<in> set (calls t) \<and> before_close (calls t) = before_close (calls s)"
  by (induction rule: rtranclp_induct) (auto dest: closed_step)

section \<open>A link of two drivers\<close>

fun SendFrames :: "unicode \<Rightarrow> Frame list \<Rightarrow> KISSSerialPHY \<Rightarrow> goerr option list \<times> KISSSerialPHY" where
  "SendFrames U [] p = ([], p)"
| "SendFrames U (f # fs) p =
     (let (e, _, p') = SendFrame U f p; (es, p'') = SendFrames U fs p' in (e # es, p''))"

fun rxLoop_reads :: "byte list list \<Rightarrow> KISSDecoder \<times> KISSSerialPHY \<Rightarrow> KISSDecoder \<times> KISSSerialPHY" where
  "rxLoop_reads [] s = s"
| "rxLoop_reads (b # bs) s = rxLoop_reads bs (snd (rxLoop_read b False s))"

definition phy_wire :: "unicode \<Rightarrow> byte \<Rightarrow> Frame \<Rightarrow> byte list" where
  "phy_wire U port f = (case Frame_Encode U f of Inr raw \<Rightarrow> KISSEncode port 0 raw | Inl _ \<Rightarrow> [])"

text \<open>The message a receiver's decoder gets for a frame, and a stream of them.\<close>

definition frame_msg :: "unicode \<Rightarrow> byte \<Rightarrow> Frame \<Rightarrow> kiss_msg" where
  "frame_msg U port f = (port, 0, case Frame_Encode U f of Inr raw \<Rightarrow> raw | Inl _ \<Rightarrow> [])"

lemma wire_decoded:
  assumes "list_all wf_frame fs" and "port < 16" and "port \<noteq> 12"
    and "concat reads = concat (map (phy_wire U port) fs)"
  shows "\<exists>d. KISSDecoder_Writes (NewKISSDecoder True) reads = (d, map (frame_msg U port) fs)"
proof -
  have v: "list_all kiss_valid (map (frame_msg U port) fs)"
    using assms(2,3) by (induction fs) (simp_all add: kiss_valid_def frame_msg_def)
  have "phy_wire U port f = kiss_frame (frame_msg U port f)" if "f \<in> set fs" for f
    using frame_wire.enc_total [of f U] assms(1) that
    by (auto simp: phy_wire_def kiss_frame_def frame_msg_def list_all_iff)
  then have "concat reads = concat (map kiss_frame (map (frame_msg U port) fs))"
    using assms(4) by (metis (no_types, lifting) map_cong map_map comp_apply)
  then show ?thesis
    using kiss.chunks_decoded [OF NewKISSDecoder_ready v] by (auto simp: Writes_feed_chunks)
qed

lemma SendFrame_wf:
  assumes "wf_frame f" and "\<not> phyClosed p" and "int (length (phyTxCh p)) < txQueueDepth (phyCfg p)"
  shows "\<exists>as. SendFrame U f p = (None, as, p\<lparr>phyTxCh := phyTxCh p @ [phy_wire U (phyPort (phyCfg p)) f]\<rparr>)"
  using frame_wire.enc_total [OF assms(1), of U] assms(2,3) by (auto simp: SendFrame_def phy_wire_def Let_def)

lemma SendFrames_wf:
  "list_all wf_frame fs \<Longrightarrow> \<not> phyClosed p \<Longrightarrow> int (length (phyTxCh p) + length fs) \<le> txQueueDepth (phyCfg p) \<Longrightarrow>
     SendFrames U fs p = (map (\<lambda>_. None) fs, p\<lparr>phyTxCh := phyTxCh p @ map (phy_wire U (phyPort (phyCfg p))) fs\<rparr>)"
proof (induction fs arbitrary: p)
  case (Cons f fs)
  let ?p = "p\<lparr>phyTxCh := phyTxCh p @ [phy_wire U (phyPort (phyCfg p)) f]\<rparr>"
  obtain as where "SendFrame U f p = (None, as, ?p)" using SendFrame_wf [of f p U] Cons.prems by auto
  then show ?case using Cons.IH [of ?p] Cons.prems by simp
qed simp

text \<open>The messages of well-formed frames, received.\<close>

lemma rx_messages_frames:
  assumes "list_all wf_frame fs"
  shows "rxCh (snd (rx_messages (map (frame_msg U port) fs) p))
    = rxCh p @ take (nat (rxQueueDepth (phyCfg p)) - length (rxCh p)) (map (wire_frame U) fs)"
  using assms
proof (induction fs arbitrary: p)
  case (Cons f fs)
  obtain raw where raw: "Frame_Encode U f = Inr raw" "ParseFrame raw = Inr (wire_frame U f)"
    using frame_wire.roundtrip [of f U] Cons.prems by auto
  let ?d = "nat (rxQueueDepth (phyCfg p))"
  have rest: "list_all wf_frame fs" using Cons.prems by simp
  show ?case
  proof (cases "length (rxCh p) < ?d")
    case True
    then have "?d - length (rxCh p) = Suc (?d - Suc (length (rxCh p)))" by simp
    with Cons.IH [OF rest] raw True show ?thesis
      by (simp add: rx_message_def frame_msg_def case_prod_beta)
  next
    case False
    with Cons.IH [OF rest] raw show ?thesis by (simp add: rx_message_def frame_msg_def case_prod_beta)
  qed
qed simp

lemma rx_messages_append:
  "snd (rx_messages (ms @ ns) p) = snd (rx_messages ns (snd (rx_messages ms p)))"
  by (induction ms arbitrary: p) (simp_all add: case_prod_beta)

lemma rxLoop_reads_messages:
  "\<not> cancelled p \<Longrightarrow> rxLoop_reads reads (dec, p) =
     (fst (KISSDecoder_Writes dec reads), snd (rx_messages (snd (KISSDecoder_Writes dec reads)) p))"
proof (induction reads arbitrary: dec p)
  case (Cons b reads)
  obtain d1 ms where w: "KISSDecoder_Write dec b = (d1, ms)" by fastforce
  obtain as p1 where m: "rx_messages ms p = (as, p1)" by fastforce
  have "\<not> cancelled p1" using rx_messages_keeps [OF m] Cons.prems by simp
  with Cons.IH [of p1 d1] w m show ?case
    using rx_messages_append [of ms "snd (KISSDecoder_Writes d1 reads)" p]
    by (simp add: rxLoop_read_def case_prod_beta)
qed simp

lemma link_delivered:
  assumes "list_all wf_frame fs" and "p = NewKISSSerialPHY c" and "int (length fs) \<le> txQueueDepth (phyCfg p)"
    and "phyPort c < 16" and "phyPort c \<noteq> 12" and "SendFrames U fs p = (errs, p')" and "q = NewKISSSerialPHY c'"
    and "concat reads = concat (phyTxCh p')"
  shows "errs = map (\<lambda>_. None) fs
     \<and> rxCh (snd (rxLoop_reads reads (NewKISSDecoder True, q)))
         = take (nat (rxQueueDepth (phyCfg q))) (map (wire_frame U) fs)"
proof -
  let ?port = "phyPort c"
  have p: "phyTxCh p = []" "\<not> phyClosed p" "phyPort (phyCfg p) = ?port"
    and q: "rxCh q = []" "\<not> cancelled q" using assms(2,7) by (simp_all add: NewKISSSerialPHY_def Let_def)
  have s: "errs = map (\<lambda>_. None) fs" "phyTxCh p' = map (phy_wire U ?port) fs"
    using SendFrames_wf [OF assms(1) p(2), of U] assms(3,6) p by auto
  obtain d where "KISSDecoder_Writes (NewKISSDecoder True) reads = (d, map (frame_msg U ?port) fs)"
    using wire_decoded [OF assms(1,4,5)] assms(8) s(2) by metis
  then show ?thesis
    using rxLoop_reads_messages [OF q(2), of reads "NewKISSDecoder True"] rx_messages_frames [OF assms(1), of U ?port q] q(1) s(1)
    by simp
qed

section \<open>Properties\<close>

text \<open>The driver is a first-in first-out channel. Whatever its callers and goroutines do and in
  whatever order, the encoded frames \<open>SendFrame\<close> has accepted are those written to the
  reader-writer, in that order, followed by those in the transmit queue, and both queues stay
  within the capacity the constructor set.\<close>

theorem phy_fifo:
  assumes "phy_init s" and "(phy_step U closer)\<^sup>*\<^sup>* s t"
  shows "accepted t = writes (calls t) @ phyTxCh (driver t)
    \<and> int (length (phyTxCh (driver t))) \<le> txQueueDepth (phyCfg (driver t))
    \<and> int (length (rxCh (driver t))) \<le> rxQueueDepth (phyCfg (driver t))"
  using phy_sys.reachable_inv [OF assms] by (simp add: phy_ok_def)

definition demo_phy :: phy_run where
  "demo_phy = \<lparr>decoder = NewKISSDecoder True, driver = NewKISSSerialPHY \<lparr>phyPort = 0, rxQueueDepth = 0,
     txQueueDepth = 0, readBufSize = 0, hasOnRxKISS = False, hasOnTxKISS = False\<rparr>, accepted = [], calls = []\<rparr>"

lemma demo_phy_init: "phy_init demo_phy"
  by (auto simp: phy_init_def demo_phy_def)

theorem phy_fifo_witness:
  "\<exists>t e. phy_step \<lparr>upper_unicode = id, fold_unicode = (=)\<rparr> True demo_phy t
     \<and> accepted t = [e] \<and> writes (calls t) @ phyTxCh (driver t) = [e]"
proof -
  let ?U = "\<lparr>upper_unicode = id, fold_unicode = (=)\<rparr>"
  obtain as p where p: "SendFrame ?U sample_frame (driver demo_phy) = (None, as, p)"
    using SendFrame_wf [OF sample_frame_wf, of "driver demo_phy" ?U]
    by (auto simp: demo_phy_def NewKISSSerialPHY_def)
  let ?t = "demo_phy\<lparr>driver := p, calls := calls demo_phy @ as, accepted := accepted demo_phy @ [last (phyTxCh p)]\<rparr>"
  have s: "phy_step ?U True demo_phy ?t" using phy_step.send [OF p, where closer = True] by simp
  have "accepted ?t = [last (phyTxCh p)]" by (simp add: demo_phy_def)
  moreover have "accepted ?t = writes (calls ?t) @ phyTxCh (driver ?t)"
    using phy_fifo [OF demo_phy_init, where t = ?t and U = ?U and closer = True] s by blast
  ultimately show ?thesis using s by metis
qed

text \<open>Stopping the driver discards the frames that wait. When \<open>Stop\<close> comes to a driver whose
  reader-writer can be closed, the reader-writer has taken everything accepted but the frames in
  the queue, and whatever happens afterwards, the drain loop of \<open>Stop\<close> included, it takes no
  more.\<close>

theorem stop_discards_queue:
  assumes "phy_init s" and "(phy_step U closer)\<^sup>*\<^sup>* s t" and "RwClose \<notin> set (calls t)"
    and "Stop_begin True (driver t) = (as, p)"
    and "(phy_step U closer)\<^sup>*\<^sup>* (t\<lparr>driver := p, calls := calls t @ as\<rparr>) u"
  shows "writes (before_close (calls u)) @ phyTxCh (driver t) = accepted t"
proof -
  have "as = [RwClose]" using assms(4) by (simp add: Stop_begin_def)
  then have "before_close (calls u) = calls t"
    using closed_steps [OF assms(5)] assms(3) by simp
  then show ?thesis using phy_sys.reachable_inv [OF assms(1,2)] by (simp add: phy_ok_def)
qed

theorem stop_discards_queue_witness:
  "\<exists>t e p. (phy_step \<lparr>upper_unicode = id, fold_unicode = (=)\<rparr> True)\<^sup>*\<^sup>* demo_phy t \<and> accepted t = [e]
     \<and> Stop_begin True (driver t) = ([RwClose], p)
     \<and> writes (before_close (calls t @ [RwClose] @ fst (Stop_drain p))) = []"
proof -
  let ?U = "\<lparr>upper_unicode = id, fold_unicode = (=)\<rparr>"
  obtain as p where p: "SendFrame ?U sample_frame (driver demo_phy) = (None, as, p)"
    and q: "phyTxCh p = [phy_wire ?U 0 sample_frame]"
    using SendFrame_wf [OF sample_frame_wf, of "driver demo_phy" ?U]
    by (auto simp: demo_phy_def NewKISSSerialPHY_def)
  have as: "as = []"
    using p by (auto simp: SendFrame_def demo_phy_def NewKISSSerialPHY_def Let_def split: sum.splits if_splits)
  let ?t = "demo_phy\<lparr>driver := p, accepted := [phy_wire ?U 0 sample_frame]\<rparr>"
  have s: "(phy_step ?U True)\<^sup>*\<^sup>* demo_phy ?t"
    using phy_step.send [OF p, where closer = True] by (auto simp: q as demo_phy_def)
  obtain p1 where b: "Stop_begin True (driver ?t) = ([RwClose], p1)" by (simp add: Stop_begin_def)
  have b': "phyClosed p1" "phyTxCh p1 = phyTxCh p" using b by (auto simp: Stop_begin_def)
  obtain p2 where d: "Stop_drain p1 = (map RwWrite (phyTxCh p1), p2)" by (simp add: Stop_drain_def)
  let ?s1 = "?t\<lparr>driver := p1, calls := calls ?t @ [RwClose]\<rparr>"
  let ?u = "?s1\<lparr>driver := p2, calls := calls ?s1 @ map RwWrite (phyTxCh p1)\<rparr>"
  have "phy_step ?U True ?s1 ?u"
    using phy_step.stop_drain [of ?s1, where U = ?U and closer = True] b'(1) d by simp
  then have "(phy_step ?U True)\<^sup>*\<^sup>* ?s1 ?u" by blast
  moreover have "RwClose \<notin> set (calls ?t)" by (simp add: demo_phy_def)
  ultimately have "writes (before_close (calls ?u)) @ phyTxCh (driver ?t) = accepted ?t"
    using stop_discards_queue [OF demo_phy_init s _ b, of ?u] by blast
  then have "writes (before_close (calls ?t @ [RwClose] @ fst (Stop_drain p1))) = []"
    using q by (simp add: d)
  with s b show ?thesis by (intro exI conjI) (assumption | simp)+
qed

text \<open>C13: Two drivers on a link. Well-formed frames handed to \<open>SendFrame\<close> of one driver (no more
  than its queue holds, on a KISS port other than 12) are all accepted; when the bytes it then
  writes reach the other driver, in reads of any size, that driver's receive channel holds, in
  order, what a receiver sees of these frames, up to the channel's capacity.\<close>

theorem link_delivers:
  assumes "list_all wf_frame fs" and "p = NewKISSSerialPHY c" and "int (length fs) \<le> txQueueDepth (phyCfg p)"
    and "phyPort c < 16" and "phyPort c \<noteq> 12" and "SendFrames U fs p = (errs, p')" and "q = NewKISSSerialPHY c'"
    and "concat reads = concat (phyTxCh p')"
  shows "errs = map (\<lambda>_. None) fs
     \<and> rxCh (snd (rxLoop_reads reads (NewKISSDecoder True, q)))
         = take (nat (rxQueueDepth (phyCfg q))) (map (wire_frame U) fs)"
  by (rule link_delivered [OF assms])

theorem link_delivers_witness:
  "\<exists>reads p'. SendFrames \<lparr>upper_unicode = id, fold_unicode = (=)\<rparr> [sample_frame] (driver demo_phy) = ([None], p')
     \<and> reads = phyTxCh p' \<and> reads \<noteq> []
     \<and> rxCh (snd (rxLoop_reads reads (NewKISSDecoder True, driver demo_phy)))
       = [wire_frame \<lparr>upper_unicode = id, fold_unicode = (=)\<rparr> sample_frame]"
proof -
  let ?U = "\<lparr>upper_unicode = id, fold_unicode = (=)\<rparr>"
  let ?c = "\<lparr>phyPort = 0, rxQueueDepth = 0, txQueueDepth = 0, readBufSize = 0, hasOnRxKISS = False, hasOnTxKISS = False\<rparr>"
  have d: "driver demo_phy = NewKISSSerialPHY ?c" by (simp add: demo_phy_def)
  have w: "list_all wf_frame [sample_frame]" by (simp add: sample_frame_wf)
  obtain es p' where s: "SendFrames ?U [sample_frame] (driver demo_phy) = (es, p')" by fastforce
  have t: "phyTxCh p' \<noteq> []"
    using s SendFrames_wf [OF w, of "driver demo_phy" ?U] by (simp add: d NewKISSSerialPHY_def)
  have "es = [None] \<and> rxCh (snd (rxLoop_reads (phyTxCh p') (NewKISSDecoder True, driver demo_phy)))
      = [wire_frame ?U sample_frame]"
    using link_delivers [OF w d _ _ _ s d refl] by (simp add: d NewKISSSerialPHY_def)
  with s t show ?thesis by blast
qed

end
