(* ===== verification/Phy_Tcp.thy ===== *)
theory Phy_Tcp
  imports Ax25_Phy
begin

text \<open>
  \<open>src/phy/kiss_tcp_client.go\<close> and \<open>src/phy/kiss_tcp_server.go\<close>: KISS over TCP. The client dials
  a server and redials when the connection is lost; its two goroutines, \<open>rxLoop\<close> and one \<open>txLoop\<close>
  per connection, are a state machine (\<open>tcp_link\<close>), which the AGWPE client of
  \<open>src/agwpe/client.go\<close> repeats line for line, so the machine is stated once for any decoder and
  any send operation. Sockets are not code of the repository: whether a dial, a read or a write
  succeeds is an argument of the step, except that a write on a connection that was closed here
  fails. The lemmas show what frames a receiver gets and that a client that loses its connection
  while its queue is empty never dials again.
\<close>

section \<open>A client's goroutines\<close>

text \<open>Where \<open>rxLoop\<close> is: not started, at the dial, in the read loop, at \<open><-txDone\<close>, in the
  reconnect delay, or returned.\<close>

datatype rx_phase = RxIdle | RxDialing | RxReading | RxAwaitsTx | RxDelay | RxReturned

record 'd tcp_link =
  linkTx :: "byte list list" \<comment> \<open>\<open>txCh\<close>\<close>
  linkDone :: bool           \<comment> \<open>the context is done\<close>
  linkUp :: bool             \<comment> \<open>\<open>conn\<close> is not nil\<close>
  linkClosed :: bool         \<comment> \<open>the last connection was closed by this side\<close>
  rxPhase :: rx_phase
  txAlive :: bool            \<comment> \<open>a \<open>txLoop\<close> runs\<close>
  linkDec :: 'd              \<comment> \<open>the decoder of the connection\<close>

definition new_link :: "'d \<Rightarrow> 'd tcp_link" where
  "new_link d = \<lparr>linkTx = [], linkDone = False, linkUp = False, linkClosed = False, rxPhase = RxIdle,
     txAlive = False, linkDec = d\<rparr>"

definition link_Start :: "'d tcp_link \<Rightarrow> 'd tcp_link" where
  "link_Start l = (if rxPhase l = RxIdle then l\<lparr>rxPhase := RxDialing\<rparr> else l)"

text \<open>\<open>Stop\<close> up to \<open>wg.Wait\<close>, and whether the wait is over.\<close>

definition link_Stop :: "'d tcp_link \<Rightarrow> 'd tcp_link" where
  "link_Stop l = l\<lparr>linkDone := True, linkClosed := linkClosed l \<or> linkUp l\<rparr>"

definition link_stopped :: "'d tcp_link \<Rightarrow> bool" where
  "link_stopped l \<longleftrightarrow> rxPhase l \<in> {RxIdle, RxReturned} \<and> \<not> txAlive l"

text \<open>The enqueueing part of a send: the connection is looked at first, then the frame is encoded.\<close>

definition link_send :: "string \<Rightarrow> int \<Rightarrow> goerr + byte list \<Rightarrow> 'd tcp_link \<Rightarrow> goerr option \<times> 'd tcp_link" where
  "link_send what depth enc l =
     (if \<not> linkUp l then (Some ErrNotConnected, l)
      else case enc of
        Inl e \<Rightarrow> (Some (ErrWrap what e), l)
      | Inr pkt \<Rightarrow>
          if int (length (linkTx l)) < depth then (None, l\<lparr>linkTx := linkTx l @ [pkt]\<rparr>)
          else (Some ErrTXQueueFull, l))"

text \<open>The turns of \<open>rxLoop\<close>. At the top of the loop and after the delay it returns if the context is
  done.\<close>

definition rx_dial :: "bool \<Rightarrow> 'd \<Rightarrow> 'd tcp_link \<Rightarrow> 'd tcp_link" where
  "rx_dial ok d l =
     (if linkDone l then l\<lparr>rxPhase := RxReturned\<rparr>
      else if ok then l\<lparr>linkUp := True, linkClosed := False, txAlive := True, linkDec := d, rxPhase := RxReading\<rparr>
      else l\<lparr>rxPhase := RxDelay\<rparr>)"

definition rx_lost :: "'d tcp_link \<Rightarrow> 'd tcp_link" where
  "rx_lost l = l\<lparr>linkUp := False, linkClosed := True, rxPhase := RxAwaitsTx\<rparr>"

definition rx_txDone :: "'d tcp_link \<Rightarrow> 'd tcp_link" where
  "rx_txDone l = (if txAlive l then l else l\<lparr>rxPhase := RxDelay\<rparr>)"

definition rx_delayed :: "'d tcp_link \<Rightarrow> 'd tcp_link" where
  "rx_delayed l = l\<lparr>rxPhase := (if linkDone l then RxReturned else RxDialing)\<rparr>"

text \<open>The turns of \<open>txLoop\<close>: the oldest packet is taken and written; a failed write, and the end of the
  context, end the loop.\<close>

definition tx_write :: "bool \<Rightarrow> 'd tcp_link \<Rightarrow> 'd tcp_link" where
  "tx_write ok l =
     (case linkTx l of [] \<Rightarrow> l | pkt # q \<Rightarrow> l\<lparr>linkTx := q, txAlive := ok \<and> \<not> linkClosed l\<rparr>)"

definition tx_done :: "'d tcp_link \<Rightarrow> 'd tcp_link" where
  "tx_done l = (if linkDone l then l\<lparr>txAlive := False\<rparr> else l)"

text \<open>The steps of a client, in any order.\<close>

inductive link_step ::
  "('f \<Rightarrow> 'd tcp_link \<Rightarrow> goerr option \<times> 'd tcp_link) \<Rightarrow> ('d \<Rightarrow> byte list \<Rightarrow> 'd) \<Rightarrow> 'd
     \<Rightarrow> 'd tcp_link \<Rightarrow> 'd tcp_link \<Rightarrow> bool" for send recv new where
  link_send: "link_step send recv new l (snd (send f l))"
| link_stop: "link_step send recv new l (link_Stop l)"
| link_start: "link_step send recv new l (link_Start l)"
| link_dial: "rxPhase l = RxDialing \<Longrightarrow> link_step send recv new l (rx_dial ok new l)"
| link_read: "rxPhase l = RxReading \<Longrightarrow> link_step send recv new l (l\<lparr>linkDec := recv (linkDec l) buf\<rparr>)"
| link_lost: "rxPhase l = RxReading \<Longrightarrow> link_step send recv new l (rx_lost l)"
| link_txDone: "rxPhase l = RxAwaitsTx \<Longrightarrow> link_step send recv new l (rx_txDone l)"
| link_delayed: "rxPhase l = RxDelay \<Longrightarrow> link_step send recv new l (rx_delayed l)"
| link_write: "txAlive l \<Longrightarrow> link_step send recv new l (tx_write ok l)"
| link_tx_done: "txAlive l \<Longrightarrow> link_step send recv new l (tx_done l)"

section \<open>KISS client\<close>

record KISSTCPClientConfig =
  tcpHost :: gostring
  tcpPort :: "16 word"
  ConnectTimeout :: int \<comment> \<open>nanoseconds, as \<open>time.Duration\<close>\<close>
  ReconnectDelay :: int
  tcpTXQueueDepth :: int
  tcpReadBufSize :: int
  tcpOnRxKISS :: bool
  tcpOnTxKISS :: bool
  tcpOnRxFrame :: bool
  tcpOnError :: bool

definition second :: int where "second = 1000000000"

datatype tcp_call = CbRxKISS "byte list" | CbTxKISS "byte list" | CbRxFrame Frame | CbError goerr

text \<open>The channel is made with the configured depth, which panics if it is negative.\<close>

definition NewKISSTCPClientPHY ::
  "KISSTCPClientConfig \<Rightarrow> (goerr + KISSTCPClientConfig \<times> KISSDecoder tcp_link) outcome" where
  "NewKISSTCPClientPHY c =
     (if tcpHost c = [] then Ret (Inl (ErrMsg ''phy: KISSTCPClientPHY: Host must not be empty''))
      else if tcpPort c = 0 then Ret (Inl (ErrMsg ''phy: KISSTCPClientPHY: Port must not be 0''))
      else if \<not> tcpOnRxFrame c then Ret (Inl (ErrMsg ''phy: KISSTCPClientPHY: OnRxFrame must not be nil''))
      else
        let c = (if ConnectTimeout c = 0 then c\<lparr>ConnectTimeout := 6 * second\<rparr> else c);
            c = (if ReconnectDelay c = 0 then c\<lparr>ReconnectDelay := 5 * second\<rparr> else c);
            c = (if tcpTXQueueDepth c = 0 then c\<lparr>tcpTXQueueDepth := 8\<rparr> else c);
            c = (if tcpReadBufSize c = 0 then c\<lparr>tcpReadBufSize := 4096\<rparr> else c)
        in if tcpTXQueueDepth c < 0 then Panic else Ret (Inr (c, new_link (NewKISSDecoder True))))"

definition KISSTCPClient_Send ::
  "unicode \<Rightarrow> KISSTCPClientConfig \<Rightarrow> Frame option \<Rightarrow> KISSDecoder tcp_link \<Rightarrow> goerr option \<times> KISSDecoder tcp_link" where
  "KISSTCPClient_Send U c f l =
     (case f of
        None \<Rightarrow> (Some (ErrMsg ''phy: Send: nil frame''), l)
      | Some f \<Rightarrow> link_send ''phy: Send: encode'' (tcpTXQueueDepth c) (map_sum id (KISSEncode 0 0) (Frame_Encode U f)) l)"

text \<open>The call of \<open>OnTxKISS\<close> a send makes: it comes before the queue is tried.\<close>

definition KISSTCPClient_Send_calls ::
  "unicode \<Rightarrow> KISSTCPClientConfig \<Rightarrow> Frame option \<Rightarrow> KISSDecoder tcp_link \<Rightarrow> tcp_call list" where
  "KISSTCPClient_Send_calls U c f l =
     (case f of
        None \<Rightarrow> []
      | Some f \<Rightarrow>
          if linkUp l \<and> tcpOnTxKISS c
          then (case Frame_Encode U f of Inr raw \<Rightarrow> [CbTxKISS (KISSEncode 0 0 raw)] | Inl _ \<Rightarrow> []) else [])"

definition KISSTCPClient_IsConnected :: "KISSDecoder tcp_link \<Rightarrow> bool" where
  "KISSTCPClient_IsConnected l = linkUp l"

text \<open>The decoder's callback.\<close>

definition client_message :: "KISSTCPClientConfig \<Rightarrow> kiss_msg \<Rightarrow> tcp_call list" where
  "client_message c m =
     (case m of (port, cmd, data) \<Rightarrow>
        if cmd \<noteq> 0 then []
        else (if tcpOnRxKISS c then [CbRxKISS (KISSEncode port cmd data)] else []) @
          (case ParseFrame data of
             Inl e \<Rightarrow> if tcpOnError c then [CbError (ErrWrap ''phy: parse frame'' e)] else []
           | Inr f \<Rightarrow> [CbRxFrame f]))"

definition client_read :: "KISSTCPClientConfig \<Rightarrow> KISSDecoder \<Rightarrow> byte list \<Rightarrow> KISSDecoder \<times> tcp_call list" where
  "client_read c d buf = (let (d', ms) = KISSDecoder_Write d buf in (d', concat (map (client_message c) ms)))"

section \<open>KISS server\<close>

record KISSTCPServerConfig =
  srvAddr :: gostring
  Promiscuous :: bool
  srvTXQueueDepth :: int
  srvReadBufSize :: int
  srvOnConnected :: bool
  srvOnDisconnected :: bool
  srvOnRxFrame :: bool
  srvOnError :: bool

definition NewKISSTCPServerPHY :: "KISSTCPServerConfig \<Rightarrow> goerr + KISSTCPServerConfig" where
  "NewKISSTCPServerPHY c =
     (if srvAddr c = [] then Inl (ErrMsg ''phy: KISSTCPServerPHY: Addr must not be empty'')
      else if \<not> srvOnRxFrame c then Inl (ErrMsg ''phy: KISSTCPServerPHY: OnRxFrame must not be nil'')
      else
        let c = (if srvTXQueueDepth c = 0 then c\<lparr>srvTXQueueDepth := 8\<rparr> else c);
            c = (if srvReadBufSize c = 0 then c\<lparr>srvReadBufSize := 4096\<rparr> else c)
        in Inr c)"

text \<open>A client connection of the server: its queue. \<open>Send\<close> never looks whether the connection lives.\<close>

definition KISSTCPServerConn_Send ::
  "unicode \<Rightarrow> int \<Rightarrow> Frame option \<Rightarrow> byte list list \<Rightarrow> goerr option \<times> byte list list" where
  "KISSTCPServerConn_Send U depth f q =
     (case f of
        None \<Rightarrow> (Some (ErrMsg ''phy: KISSTCPServerConn.Send: nil frame''), q)
      | Some f \<Rightarrow>
          (case Frame_Encode U f of
             Inl e \<Rightarrow> (Some (ErrWrap ''phy: KISSTCPServerConn.Send: encode'' e), q)
           | Inr raw \<Rightarrow> if int (length q) < depth then (None, q @ [KISSEncode 0 0 raw]) else (Some ErrTXQueueFull, q)))"

definition server_message :: "KISSTCPServerConfig \<Rightarrow> kiss_msg \<Rightarrow> tcp_call list" where
  "server_message c m =
     (case m of (port, cmd, data) \<Rightarrow>
        if cmd \<noteq> 0 then []
        else case ParseFrame data of
          Inl e \<Rightarrow> if srvOnError c then [CbError (ErrWrap ''phy: server parse frame'' e)] else []
        | Inr f \<Rightarrow> [CbRxFrame f])"

definition server_read :: "KISSTCPServerConfig \<Rightarrow> KISSDecoder \<Rightarrow> byte list \<Rightarrow> KISSDecoder \<times> tcp_call list" where
  "server_read c d buf = (let (d', ms) = KISSDecoder_Write d buf in (d', concat (map (server_message c) ms)))"

section \<open>Clients that dial\<close>

text \<open>What both clients promise of their send operation: without a connection it refuses and
  changes nothing, and otherwise it changes only the queue.\<close>

locale dial_client =
  fixes send :: "'f \<Rightarrow> 'd tcp_link \<Rightarrow> goerr option \<times> 'd tcp_link"
    and recv :: "'d \<Rightarrow> byte list \<Rightarrow> 'd"
    and new :: 'd
  assumes send_down: "\<not> linkUp l \<Longrightarrow> snd (send f l) = l \<and> fst (send f l) \<noteq> None"
    and send_queue: "\<exists>q. snd (send f l) = l\<lparr>linkTx := linkTx l @ q\<rparr>"
begin

text \<open>There is a connection exactly while \<open>rxLoop\<close> reads, and \<open>rxLoop\<close> outlives its \<open>txLoop\<close>.\<close>

definition link_ok :: "'d tcp_link \<Rightarrow> bool" where
  "link_ok l \<longleftrightarrow> (linkUp l \<longleftrightarrow> rxPhase l = RxReading) \<and> (txAlive l \<longrightarrow> rxPhase l \<in> {RxReading, RxAwaitsTx})
     \<and> (rxPhase l = RxAwaitsTx \<longrightarrow> linkClosed l)"

lemma link_ok_step: "link_step send recv new l m \<Longrightarrow> link_ok l \<Longrightarrow> link_ok m"
proof (induction rule: link_step.induct)
  case (link_send l f)
  obtain q where "snd (send f l) = l\<lparr>linkTx := linkTx l @ q\<rparr>" using send_queue by blast
  with link_send show ?case by (simp add: link_ok_def)
qed (auto simp: link_ok_def link_Stop_def link_Start_def rx_dial_def rx_lost_def rx_txDone_def rx_delayed_def
    tx_write_def tx_done_def split: list.splits)

text \<open>The states in which \<open>rxLoop\<close> waits for a \<open>txLoop\<close> that waits for a packet nobody can send.\<close>

definition stuck :: "'d tcp_link \<Rightarrow> bool" where
  "stuck l \<longleftrightarrow> rxPhase l = RxAwaitsTx \<and> txAlive l \<and> linkTx l = [] \<and> \<not> linkUp l \<and> \<not> linkDone l"

lemma stuck_step: "link_step send recv new l m \<Longrightarrow> stuck l \<Longrightarrow> m = l \<or> linkDone m"
  by (induction rule: link_step.induct)
    (auto simp: stuck_def send_down link_Start_def link_Stop_def rx_txDone_def tx_write_def tx_done_def)

lemma done_step: "link_step send recv new l m \<Longrightarrow> linkDone l \<Longrightarrow> linkDone m"
proof (induction rule: link_step.induct)
  case (link_send l f)
  then show ?case using send_queue [of f l] by auto
qed (auto simp: link_Stop_def link_Start_def rx_dial_def rx_lost_def rx_txDone_def rx_delayed_def
    tx_write_def tx_done_def split: list.splits)

lemma stuck_forever: "(link_step send recv new)\<^sup>*\<^sup>* l m \<Longrightarrow> stuck l \<Longrightarrow> m = l \<or> linkDone m"
  by (induction rule: rtranclp_induct) (auto dest: stuck_step done_step)

lemma lost_idle_stuck:
  "rxPhase l = RxReading \<Longrightarrow> txAlive l \<Longrightarrow> linkTx l = [] \<Longrightarrow> \<not> linkDone l \<Longrightarrow> stuck (rx_lost l)"
  by (simp add: stuck_def rx_lost_def)

text \<open>A lost connection with packets waiting: the first of them is lost, and the client can dial
  again.\<close>

lemma lost_busy_redials:
  assumes "rxPhase l = RxReading" and "txAlive l" and "linkTx l = pkt # q" and "\<not> linkDone l"
  shows "\<exists>m. (link_step send recv new)\<^sup>*\<^sup>* (rx_lost l) m \<and> rxPhase m = RxDialing \<and> linkTx m = q"
proof -
  let ?l1 = "rx_lost l"
  let ?l2 = "tx_write True ?l1"
  let ?l3 = "rx_txDone ?l2"
  have "(link_step send recv new)\<^sup>*\<^sup>* ?l1 ?l2"
    by (rule r_into_rtranclp, rule link_step.link_write) (simp add: rx_lost_def assms)
  also have "link_step send recv new ?l2 ?l3"
    by (rule link_step.link_txDone) (simp add: rx_lost_def tx_write_def assms)
  also have "link_step send recv new ?l3 (rx_delayed ?l3)"
    by (rule link_step.link_delayed) (simp add: rx_lost_def tx_write_def rx_txDone_def assms)
  finally have "(link_step send recv new)\<^sup>*\<^sup>* ?l1 (rx_delayed ?l3)" .
  moreover have "rxPhase (rx_delayed ?l3) = RxDialing \<and> linkTx (rx_delayed ?l3) = q"
    by (simp add: rx_lost_def tx_write_def rx_txDone_def rx_delayed_def assms)
  ultimately show ?thesis by blast
qed

end

sublocale dial_client \<subseteq> link_sys: transition_system "\<lambda>l. l = new_link new" "link_step send recv new" link_ok
proof unfold_locales
  show "link_ok l" if "l = new_link new" for l using that by (simp add: link_ok_def new_link_def)
  show "link_ok l \<Longrightarrow> link_step send recv new l m \<Longrightarrow> link_ok m" for l m by (rule link_ok_step)
qed

lemma link_send_down: "\<not> linkUp l \<Longrightarrow> link_send what depth enc l = (Some ErrNotConnected, l)"
  by (simp add: link_send_def)

lemma link_send_queue: "\<exists>q. snd (link_send what depth enc l) = l\<lparr>linkTx := linkTx l @ q\<rparr>"
proof (cases "fst (link_send what depth enc l)")
  case None
  then show ?thesis by (auto simp: link_send_def split: if_splits sum.splits)
next
  case (Some e)
  then have "snd (link_send what depth enc l) = l" by (auto simp: link_send_def split: if_splits sum.splits)
  then show ?thesis by (intro exI [of _ "[]"]) simp
qed

interpretation kiss_client: dial_client "KISSTCPClient_Send U c" "\<lambda>d buf. fst (client_read c d buf)" "NewKISSDecoder True"
  for U c
proof unfold_locales
  show "\<not> linkUp l \<Longrightarrow> snd (KISSTCPClient_Send U c f l) = l \<and> fst (KISSTCPClient_Send U c f l) \<noteq> None" for f l
    by (simp add: KISSTCPClient_Send_def link_send_down split: option.splits)
  show "\<exists>q. snd (KISSTCPClient_Send U c f l) = l\<lparr>linkTx := linkTx l @ q\<rparr>" for f l
  proof (cases f)
    case None
    then show ?thesis by (intro exI [of _ "[]"]) (simp add: KISSTCPClient_Send_def)
  qed (simp add: KISSTCPClient_Send_def link_send_queue)
qed

section \<open>Properties\<close>

text \<open>A KISS client that loses an idle connection never dials again. In every reachable state
  of the client there is a connection exactly while its receive loop reads. When that loop finds
  the connection lost and no packet waits in the transmit queue, it waits from then on for a
  transmit loop that itself waits for a packet, while \<open>Send\<close> refuses every frame: until \<open>Stop\<close>
  nothing changes any more. With a packet in the queue the client gets back to dialing.\<close>

theorem idle_client_never_redials:
  assumes "(link_step (KISSTCPClient_Send U c) (\<lambda>d buf. fst (client_read c d buf)) (NewKISSDecoder True))\<^sup>*\<^sup>*
      (new_link (NewKISSDecoder True)) l"
    and "linkUp l" and "txAlive l" and "\<not> linkDone l"
  shows "rxPhase l = RxReading \<and>
    (if linkTx l = []
     then \<forall>m f. (link_step (KISSTCPClient_Send U c) (\<lambda>d buf. fst (client_read c d buf)) (NewKISSDecoder True))\<^sup>*\<^sup>* (rx_lost l) m
         \<and> \<not> linkDone m \<longrightarrow> m = rx_lost l \<and> rxPhase m \<noteq> RxDialing \<and> KISSTCPClient_Send U c (Some f) m = (Some ErrNotConnected, m)
     else \<exists>m. (link_step (KISSTCPClient_Send U c) (\<lambda>d buf. fst (client_read c d buf)) (NewKISSDecoder True))\<^sup>*\<^sup>* (rx_lost l) m
         \<and> rxPhase m = RxDialing \<and> linkTx m = tl (linkTx l))"
proof -
  have r: "rxPhase l = RxReading"
    using kiss_client.link_sys.reachable_inv [OF refl assms(1)] assms(2) by (simp add: kiss_client.link_ok_def)
  show ?thesis
  proof (cases "linkTx l")
    case Nil
    have "kiss_client.stuck (rx_lost l)" by (rule kiss_client.lost_idle_stuck [OF r assms(3) Nil assms(4)])
    then show ?thesis using r Nil kiss_client.stuck_forever
      by (fastforce simp: KISSTCPClient_Send_def link_send_down rx_lost_def)
  next
    case (Cons pkt q)
    then show ?thesis using r kiss_client.lost_busy_redials [OF r assms(3) Cons assms(4)] by simp
  qed
qed

definition demo_tcp :: KISSTCPClientConfig where
  "demo_tcp = \<lparr>tcpHost = str ''localhost'', tcpPort = 8100, ConnectTimeout = 0, ReconnectDelay = 0, tcpTXQueueDepth = 8,
     tcpReadBufSize = 0, tcpOnRxKISS = False, tcpOnTxKISS = False, tcpOnRxFrame = True, tcpOnError = False\<rparr>"

definition demo_link :: "KISSDecoder tcp_link" where
  "demo_link = rx_dial True (NewKISSDecoder True) (link_Start (new_link (NewKISSDecoder True)))"

theorem idle_client_never_redials_witness:
  "rxPhase demo_link = RxReading \<and> rxPhase (tx_write True (rx_lost demo_link)) \<noteq> RxDialing
   \<and> KISSTCPClient_Send \<lparr>upper_unicode = id, fold_unicode = (=)\<rparr> demo_tcp (Some sample_frame) (tx_write True (rx_lost demo_link))
     = (Some ErrNotConnected, tx_write True (rx_lost demo_link))"
proof -
  let ?U = "\<lparr>upper_unicode = id, fold_unicode = (=)\<rparr>" and ?n = "NewKISSDecoder True"
  let ?step = "link_step (KISSTCPClient_Send ?U demo_tcp) (\<lambda>d buf. fst (client_read demo_tcp d buf)) ?n"
  have "?step (new_link ?n) (link_Start (new_link ?n))" by (rule link_step.link_start)
  moreover have "?step (link_Start (new_link ?n)) demo_link"
    unfolding demo_link_def by (rule link_step.link_dial) (simp add: link_Start_def new_link_def)
  ultimately have "?step\<^sup>*\<^sup>* (new_link ?n) demo_link" by (meson r_into_rtranclp rtranclp_trans)
  moreover have d: "linkUp demo_link" "txAlive demo_link" "\<not> linkDone demo_link" "linkTx demo_link = []"
    by (simp_all add: demo_link_def rx_dial_def link_Start_def new_link_def)
  moreover have "?step\<^sup>*\<^sup>* (rx_lost demo_link) (tx_write True (rx_lost demo_link))"
    by (rule r_into_rtranclp, rule link_step.link_write) (simp add: rx_lost_def d)
  moreover have "\<not> linkDone (tx_write True (rx_lost demo_link))" by (simp add: tx_write_def rx_lost_def d)
  ultimately show ?thesis using idle_client_never_redials [of ?U demo_tcp demo_link] by (simp only: simp_thms if_True)
qed

text \<open>Frames through a KISS server connection. Well-formed frames that fit the queue of a server's
  client connection are accepted; read by the client in pieces of any size, they come to its
  \<open>OnRxFrame\<close> in order, each as a receiver sees it, and to nothing else unless the hook for raw
  KISS frames is set.\<close>

fun Conn_Sends :: "unicode \<Rightarrow> int \<Rightarrow> Frame list \<Rightarrow> byte list list \<Rightarrow> goerr option list \<times> byte list list" where
  "Conn_Sends U depth [] q = ([], q)"
| "Conn_Sends U depth (f # fs) q =
     (let (e, q') = KISSTCPServerConn_Send U depth (Some f) q; (es, q'') = Conn_Sends U depth fs q' in (e # es, q''))"

fun client_reads :: "KISSTCPClientConfig \<Rightarrow> KISSDecoder \<Rightarrow> byte list list \<Rightarrow> tcp_call list" where
  "client_reads c d [] = []"
| "client_reads c d (b # bs) = (let (d', out) = client_read c d b in out @ client_reads c d' bs)"

lemma client_reads_messages:
  "client_reads c d bs = concat (map (client_message c) (snd (KISSDecoder_Writes d bs)))"
  by (induction bs arbitrary: d) (simp_all add: client_read_def split: prod.splits)

lemma Conn_Sends_wf:
  "list_all wf_frame fs \<Longrightarrow> int (length q + length fs) \<le> depth \<Longrightarrow>
     Conn_Sends U depth fs q = (map (\<lambda>_. None) fs, q @ map (phy_wire U 0) fs)"
proof (induction fs arbitrary: q)
  case (Cons f fs)
  then have "KISSTCPServerConn_Send U depth (Some f) q = (None, q @ [phy_wire U 0 f])"
    using frame_wire.enc_total [of f U] by (auto simp: KISSTCPServerConn_Send_def phy_wire_def)
  with Cons show ?case by simp
qed simp

lemma client_messages_frames:
  "list_all wf_frame fs \<Longrightarrow> \<not> tcpOnRxKISS c \<Longrightarrow>
     concat (map (client_message c) (map (frame_msg U 0) fs)) = map (\<lambda>f. CbRxFrame (wire_frame U f)) fs"
proof (induction fs)
  case (Cons f fs)
  then show ?case using frame_wire.roundtrip [of f U] by (auto simp: client_message_def frame_msg_def)
qed simp

theorem tcp_delivers:
  assumes "list_all wf_frame fs" and "int (length fs) \<le> depth" and "\<not> tcpOnRxKISS c"
    and "Conn_Sends U depth fs [] = (errs, q)" and "concat reads = concat q"
  shows "errs = map (\<lambda>_. None) fs
    \<and> client_reads c (NewKISSDecoder True) reads = map (\<lambda>f. CbRxFrame (wire_frame U f)) fs"
proof -
  have q: "errs = map (\<lambda>_. None) fs" "q = map (phy_wire U 0) fs"
    using Conn_Sends_wf [OF assms(1), of "[]" depth U] assms(2,4) by auto
  obtain d where "KISSDecoder_Writes (NewKISSDecoder True) reads = (d, map (frame_msg U 0) fs)"
    using wire_decoded [OF assms(1), of 0 reads U] assms(5) q(2) by auto
  then show ?thesis using q(1) client_messages_frames [OF assms(1,3)] by (simp add: client_reads_messages)
qed

end
