(* ===== verification/Agwpe_Client.thy ===== *)
theory Agwpe_Client
  imports Agwpe_Server Phy_Tcp
begin

text \<open>
  \<open>src/agwpe/client.go\<close> and \<open>src/agwpe/tcp_server.go\<close>: the AGWPE client and the listener that
  gives each of its clients a server of their own. The client's goroutines are the machine of
  \<open>Phy_Tcp\<close> with the AGWPE decoder; the reader goroutine that hands reads to \<open>rxLoop\<close> over a
  channel keeps their order and is part of the read step. The lemmas show what a server does with
  the requests of a client, that the client too is stuck after losing an idle connection, and
  that the listener never serves more clients than it is configured for.
\<close>

section \<open>Client\<close>

record ClientConfig =
  cHost :: gostring
  cPort :: "16 word"
  cConnectTimeout :: int
  cReconnectDelay :: int
  cTXQueueDepth :: int
  cReadBufSize :: int
  cOnRxFrame :: bool
  cOnError :: bool

definition NewClient :: "ClientConfig \<Rightarrow> (goerr + ClientConfig \<times> Decoder tcp_link) outcome" where
  "NewClient c =
     (if cHost c = [] then Ret (Inl (ErrMsg ''agwpe: Client: Host must not be empty''))
      else if cPort c = 0 then Ret (Inl (ErrMsg ''agwpe: Client: Port must not be 0''))
      else if \<not> cOnRxFrame c then Ret (Inl (ErrMsg ''agwpe: Client: OnRxFrame must not be nil''))
      else
        let c = (if cConnectTimeout c = 0 then c\<lparr>cConnectTimeout := 6 * second\<rparr> else c);
            c = (if cReconnectDelay c = 0 then c\<lparr>cReconnectDelay := 5 * second\<rparr> else c);
            c = (if cTXQueueDepth c = 0 then c\<lparr>cTXQueueDepth := 8\<rparr> else c);
            c = (if cReadBufSize c = 0 then c\<lparr>cReadBufSize := int (HeaderSize + MaxDataLen)\<rparr> else c)
        in if cTXQueueDepth c < 0 then Panic else Ret (Inr (c, new_link (NewDecoder True))))"

type_synonym send_result = "goerr option \<times> Decoder tcp_link"

definition Client_SendFrame :: "ClientConfig \<Rightarrow> AgwFrame option \<Rightarrow> Decoder tcp_link \<Rightarrow> send_result" where
  "Client_SendFrame c f l =
     (case f of
        None \<Rightarrow> (Some (ErrMsg ''agwpe: Client.SendFrame: nil frame''), l)
      | Some f \<Rightarrow> link_send ''agwpe: Client.SendFrame: encode'' (cTXQueueDepth c) (AgwFrame_Encode f) l)"

definition RequestVersion :: "ClientConfig \<Rightarrow> Decoder tcp_link \<Rightarrow> send_result" where
  "RequestVersion c l = Client_SendFrame c (Some BuildVersionReq) l"

definition RequestPortInfo :: "ClientConfig \<Rightarrow> Decoder tcp_link \<Rightarrow> send_result" where
  "RequestPortInfo c l = Client_SendFrame c (Some BuildPortInfoReq) l"

definition RequestPortCap :: "ClientConfig \<Rightarrow> byte \<Rightarrow> Decoder tcp_link \<Rightarrow> send_result" where
  "RequestPortCap c port l = Client_SendFrame c (Some (BuildPortCapReq port)) l"

definition ToggleMonitor :: "ClientConfig \<Rightarrow> Decoder tcp_link \<Rightarrow> send_result" where
  "ToggleMonitor c l = Client_SendFrame c (Some BuildToggleMonitor) l"

definition ToggleRaw :: "ClientConfig \<Rightarrow> Decoder tcp_link \<Rightarrow> send_result" where
  "ToggleRaw c l = Client_SendFrame c (Some BuildToggleRaw) l"

definition EnableMonitor :: "ClientConfig \<Rightarrow> Decoder tcp_link \<Rightarrow> send_result" where
  "EnableMonitor c l = ToggleMonitor c l"

definition EnableRaw :: "ClientConfig \<Rightarrow> Decoder tcp_link \<Rightarrow> send_result" where
  "EnableRaw c l = ToggleRaw c l"

definition Login :: "ClientConfig \<Rightarrow> gostring \<Rightarrow> gostring \<Rightarrow> Decoder tcp_link \<Rightarrow> send_result" where
  "Login c user pass l = Client_SendFrame c (Some (BuildLogin user pass)) l"

definition SendUnproto :: "ClientConfig \<Rightarrow> Frame option \<Rightarrow> byte \<Rightarrow> Decoder tcp_link \<Rightarrow> send_result" where
  "SendUnproto c f port l =
     (case FromAX25Unproto f port of Inl e \<Rightarrow> (Some e, l) | Inr a \<Rightarrow> Client_SendFrame c (Some a) l)"

definition SendRaw :: "unicode \<Rightarrow> ClientConfig \<Rightarrow> Frame option \<Rightarrow> byte \<Rightarrow> Decoder tcp_link \<Rightarrow> send_result" where
  "SendRaw U c f port l =
     (case FromAX25Raw U f port of Inl e \<Rightarrow> (Some e, l) | Inr a \<Rightarrow> Client_SendFrame c (Some a) l)"

definition Client_addr :: "ClientConfig \<Rightarrow> gostring" where
  "Client_addr c = cHost c @ str '':'' @ fmt_d (unat (cPort c))"

text \<open>A read: the frames given to \<open>OnRxFrame\<close>; an error of the decoder is ignored.\<close>

definition Client_read :: "Decoder \<Rightarrow> byte list \<Rightarrow> Decoder \<times> AgwFrame list" where
  "Client_read d buf = (let (d', fs, _) = Decoder_Write d buf in (d', fs))"

text \<open>\<open>Start\<close>, \<open>Stop\<close> up to its wait, and the turns of \<open>rxLoop\<close> and \<open>txLoop\<close>.\<close>

definition Client_Start :: "Decoder tcp_link \<Rightarrow> Decoder tcp_link" where
  "Client_Start l = link_Start l"

definition Client_Stop :: "Decoder tcp_link \<Rightarrow> Decoder tcp_link" where
  "Client_Stop l = link_Stop l"

definition Client_step :: "ClientConfig \<Rightarrow> Decoder tcp_link \<Rightarrow> Decoder tcp_link \<Rightarrow> bool" where
  "Client_step c = link_step (Client_SendFrame c) (\<lambda>d buf. fst (Client_read d buf)) (NewDecoder True)"

interpretation agw_client: dial_client "Client_SendFrame c" "\<lambda>d buf. fst (Client_read d buf)" "NewDecoder True" for c
proof unfold_locales
  show "\<not> linkUp l \<Longrightarrow> snd (Client_SendFrame c f l) = l \<and> fst (Client_SendFrame c f l) \<noteq> None" for f l
    by (simp add: Client_SendFrame_def link_send_down split: option.splits)
  show "\<exists>q. snd (Client_SendFrame c f l) = l\<lparr>linkTx := linkTx l @ q\<rparr>" for f l
  proof (cases f)
    case None
    then show ?thesis by (intro exI [of _ "[]"]) (simp add: Client_SendFrame_def)
  qed (simp add: Client_SendFrame_def link_send_queue)
qed

section \<open>Listener\<close>

record TCPServerConfig =
  lAddr :: gostring
  MaxClients :: int
  lServerConfig :: ServerConfig

record TCPServer =
  tcpCfg :: TCPServerConfig
  listening :: bool
  clients :: int

definition NewTCPServer :: "TCPServerConfig \<Rightarrow> TCPServer" where
  "NewTCPServer c = \<lparr>tcpCfg = c, listening = False, clients = 0\<rparr>"

text \<open>\<open>Start\<close>, where \<open>bound\<close> is what \<open>net.Listen\<close> returns.\<close>

definition TCPServer_Start :: "goerr option \<Rightarrow> TCPServer \<Rightarrow> goerr option \<times> TCPServer" where
  "TCPServer_Start bound t =
     (if lAddr (tcpCfg t) = [] then (Some (ErrMsg ''agwpe TCPServer: Addr must not be empty''), t)
      else if MaxClients (tcpCfg t) < 0 then (Some (ErrMsg ''agwpe TCPServer: MaxClients must be >= 0 (0 = unlimited)''), t)
      else case bound of
        Some e \<Rightarrow> (Some (ErrWrap ''agwpe TCPServer: listen'' e), t)
      | None \<Rightarrow> (None, t\<lparr>listening := True\<rparr>))"

definition TCPServer_Stop :: "TCPServer \<Rightarrow> TCPServer" where
  "TCPServer_Stop t = t\<lparr>listening := False\<rparr>"

definition acquireClientSlot :: "TCPServer \<Rightarrow> bool \<times> TCPServer" where
  "acquireClientSlot t =
     (if MaxClients (tcpCfg t) > 0 \<and> clients t \<ge> MaxClients (tcpCfg t) then (False, t)
      else (True, t\<lparr>clients := clients t + 1\<rparr>))"

definition releaseClientSlot :: "TCPServer \<Rightarrow> TCPServer" where
  "releaseClientSlot t = (if clients t > 0 then t\<lparr>clients := clients t - 1\<rparr> else t)"

text \<open>The accept loop and the goroutines it starts: \<open>n\<close> of them serve a client. The router is
  shared by all of them; a connection at capacity is closed at once.\<close>

inductive accept_step :: "TCPServer \<times> nat \<Rightarrow> TCPServer \<times> nat \<Rightarrow> bool" where
  start: "accept_step (t, n) (snd (TCPServer_Start bound t), n)"
| stop: "accept_step (t, n) (TCPServer_Stop t, n)"
| accept: "listening t \<Longrightarrow> acquireClientSlot t = (True, t') \<Longrightarrow> accept_step (t, n) (t', Suc n)"
| reject: "listening t \<Longrightarrow> acquireClientSlot t = (False, t') \<Longrightarrow> accept_step (t, n) (t', n)"
| finish: "accept_step (t, Suc n) (releaseClientSlot t, n)"

definition listener_ok :: "TCPServer \<times> nat \<Rightarrow> bool" where
  "listener_ok s \<longleftrightarrow> (case s of (t, n) \<Rightarrow> clients t = int n
     \<and> (MaxClients (tcpCfg t) > 0 \<longrightarrow> clients t \<le> MaxClients (tcpCfg t)))"

interpretation listener: transition_system "\<lambda>s. \<exists>c. s = (NewTCPServer c, 0)" accept_step listener_ok
proof unfold_locales
  show "\<exists>c. s = (NewTCPServer c, 0) \<Longrightarrow> listener_ok s" for s
    by (auto simp: listener_ok_def NewTCPServer_def)
  show "listener_ok s \<Longrightarrow> accept_step s t \<Longrightarrow> listener_ok t" for s t
    by (erule accept_step.cases)
      (auto simp: listener_ok_def acquireClientSlot_def releaseClientSlot_def TCPServer_Start_def TCPServer_Stop_def
        split: if_splits option.splits)
qed

section \<open>Properties\<close>

text \<open>C36: The listener's capacity. However connections come and go, the listener's count is the
  number of clients being served, and with a limit set it never exceeds the limit; a connection
  is refused exactly when the limit is reached.\<close>

theorem clients_bounded:
  assumes "accept_step\<^sup>*\<^sup>* (NewTCPServer c, 0) (t, n)" and "MaxClients (tcpCfg t) > 0"
  shows "clients t = int n \<and> int n \<le> MaxClients (tcpCfg t)
    \<and> (fst (acquireClientSlot t) \<longleftrightarrow> int n < MaxClients (tcpCfg t))"
proof -
  have "\<exists>c'. (NewTCPServer c, 0 :: nat) = (NewTCPServer c', 0)" by blast
  from listener.reachable_inv [OF this assms(1)] show ?thesis
    using assms(2) by (auto simp: listener_ok_def acquireClientSlot_def)
qed

theorem clients_bounded_witness:
  "\<exists>t. accept_step\<^sup>*\<^sup>* (NewTCPServer \<lparr>lAddr = str '':8000'', MaxClients = 1, lServerConfig = srvCfg (srv demo_server)\<rparr>, 0) (t, 1)
     \<and> clients t = 1 \<and> \<not> fst (acquireClientSlot t)"
proof -
  let ?c = "\<lparr>lAddr = str '':8000'', MaxClients = 1, lServerConfig = srvCfg (srv demo_server)\<rparr>"
  let ?t = "\<lparr>tcpCfg = ?c, listening = True, clients = 0\<rparr>"
  have "accept_step (NewTCPServer ?c, 0) (?t, 0)"
    using accept_step.start [of "NewTCPServer ?c" 0 None] by (simp add: TCPServer_Start_def NewTCPServer_def)
  moreover have "accept_step (?t, 0) (?t\<lparr>clients := 1\<rparr>, 1)"
    using accept_step.accept [of ?t "?t\<lparr>clients := 1\<rparr>" 0] by (simp add: acquireClientSlot_def)
  ultimately have r: "accept_step\<^sup>*\<^sup>* (NewTCPServer ?c, 0) (?t\<lparr>clients := 1\<rparr>, 1)"
    by (meson r_into_rtranclp rtranclp_trans)
  then show ?thesis using clients_bounded [OF r] by auto
qed

fun Client_Sends :: "ClientConfig \<Rightarrow> AgwFrame list \<Rightarrow> Decoder tcp_link \<Rightarrow> goerr option list \<times> Decoder tcp_link" where
  "Client_Sends c [] l = ([], l)"
| "Client_Sends c (f # fs) l =
     (let (e, l') = Client_SendFrame c (Some f) l; (es, l'') = Client_Sends c fs l' in (e # es, l''))"

lemma Client_Sends_wf:
  "list_all agw_stable fs \<Longrightarrow> linkUp l \<Longrightarrow> int (length (linkTx l) + length fs) \<le> cTXQueueDepth c \<Longrightarrow>
     Client_Sends c fs l = (map (\<lambda>_. None) fs, l\<lparr>linkTx := linkTx l @ map agw_wire fs\<rparr>)"
proof (induction fs arbitrary: l)
  case (Cons f fs)
  then have "Client_SendFrame c (Some f) l = (None, l\<lparr>linkTx := linkTx l @ [agw_wire f]\<rparr>)"
    by (simp add: Client_SendFrame_def link_send_def agw_stable_def Encode_header agw_wire_def)
  with Cons show ?case by simp
qed simp

lemma Client_Sends_down: "\<not> linkUp l \<Longrightarrow> Client_Sends c fs l = (map (\<lambda>_. Some ErrNotConnected) fs, l)"
  by (induction fs) (simp_all add: Client_SendFrame_def link_send_down)

text \<open>C14: A client's requests reach the server's handlers. A connected client accepts requests with
  well-formed headers as long as they fit its queue; when the server reads what the client writes,
  in pieces of any size, it runs the handlers of exactly these requests in the order they were
  sent. Without a connection every request is refused.\<close>

theorem client_requests_served:
  assumes "\<forall>f \<in> set fs. length (Data f) \<le> MaxDataLen \<and> agw_norm f = f"
    and "linkTx l = []" and "int (length fs) \<le> cTXQueueDepth c"
    and "Client_Sends c fs l = (errs, l')" and "concat reads = concat (linkTx l')"
  shows "if linkUp l
     then errs = map (\<lambda>_. None) fs \<and> rxLoop U now (NewDecoder True) reads w = client_frames U now fs w
     else errs = map (\<lambda>_. Some ErrNotConnected) fs \<and> l' = l"
proof (cases "linkUp l")
  case True
  have v: "list_all agw_stable fs" using assms(1) by (simp add: list_all_iff agw_stable_def agw_valid_def)
  have r: "errs = map (\<lambda>_. None) fs" "linkTx l' = map agw_wire fs"
    using Client_Sends_wf [OF v True, of c] assms(2-4) by auto
  have "map agw_wire fs = map (\<lambda>f. case AgwFrame_Encode f of Inr w \<Rightarrow> w | Inl _ \<Rightarrow> []) fs"
    using v by (auto simp: list_all_iff agw_stable_def Encode_header agw_wire_def)
  then have "concat reads = concat (map (\<lambda>f. case AgwFrame_Encode f of Inr w \<Rightarrow> w | Inl _ \<Rightarrow> []) fs)"
    using assms(5) r(2) by metis
  from requests_served_in_order [OF assms(1) this] True r(1) show ?thesis by simp
next
  case False
  then show ?thesis using Client_Sends_down [OF False, of c fs] assms(4) by simp
qed

definition demo_client :: ClientConfig where
  "demo_client = \<lparr>cHost = str ''localhost'', cPort = 8000, cConnectTimeout = 0, cReconnectDelay = 0, cTXQueueDepth = 8,
     cReadBufSize = 0, cOnRxFrame = True, cOnError = False\<rparr>"

theorem client_requests_served_witness:
  "\<exists>l'. Client_Sends demo_client [BuildToggleRaw] ((new_link (NewDecoder True))\<lparr>linkUp := True\<rparr>) = ([None], l')
     \<and> rxLoop \<lparr>upper_unicode = id, fold_unicode = (=)\<rparr> (12, 0, 0) (NewDecoder True) (linkTx l') demo_server
       = client_frames \<lparr>upper_unicode = id, fold_unicode = (=)\<rparr> (12, 0, 0) [BuildToggleRaw] demo_server"
proof -
  let ?l = "(new_link (NewDecoder True))\<lparr>linkUp := True\<rparr>"
  obtain es l' where l: "Client_Sends demo_client [BuildToggleRaw] ?l = (es, l')" by fastforce
  have f: "\<forall>f \<in> set [BuildToggleRaw]. length (Data f) \<le> MaxDataLen \<and> agw_norm f = f"
    by (simp add: BuildToggleRaw_def of_kind_def agw_norm_def)
  show ?thesis
    using client_requests_served [OF f _ _ l refl, of "\<lparr>upper_unicode = id, fold_unicode = (=)\<rparr>" "(12, 0, 0)" demo_server] l
    by (simp add: new_link_def demo_client_def)
qed

text \<open>The AGWPE client, too, never dials again once it has lost an idle connection.\<close>

theorem idle_agw_client_never_redials:
  assumes "rxPhase l = RxReading" and "txAlive l" and "linkTx l = []" and "\<not> linkDone l"
    and "(link_step (Client_SendFrame c) (\<lambda>d buf. fst (Client_read d buf)) (NewDecoder True))\<^sup>*\<^sup>* (rx_lost l) m"
    and "\<not> linkDone m"
  shows "m = rx_lost l \<and> rxPhase m \<noteq> RxDialing \<and> Client_SendFrame c (Some f) m = (Some ErrNotConnected, m)"
  using agw_client.stuck_forever [OF assms(5) agw_client.lost_idle_stuck [OF assms(1-4)]] assms(6)
  by (auto simp: rx_lost_def Client_SendFrame_def link_send_down)

end
