(* ===== verification/Agwpe_Equiv.thy ===== *)
theory Agwpe_Equiv
  imports Agwpe_Frame
begin

text \<open>
  The two readers of \<open>src/agwpe/frame.go\<close> compared: \<open>ReadFrame\<close>, which pulls one frame from a
  reader, and \<open>Decoder\<close>, which is pushed bytes. On every input, well formed or not, they give the
  same frames and stop at the same place.
\<close>

section \<open>Reading a whole stream\<close>

text \<open>\<open>ReadFrame\<close> called until it fails: the frames, and the error.\<close>

lemma ReadFrame_shorter: "ReadFrame b = Inr (f, rest) \<Longrightarrow> length rest < length b"
  by (auto simp: ReadFrame_def io_ReadFull_def Let_def split: if_splits)

function ReadFrames :: "byte list \<Rightarrow> AgwFrame list \<times> goerr" where
  "ReadFrames b =
     (case ReadFrame b of
        Inl e \<Rightarrow> ([], e)
      | Inr (f, rest) \<Rightarrow> (let (fs, e) = ReadFrames rest in (f # fs, e)))"
  by pat_completeness auto
termination
  by (relation "measure length") (auto dest: ReadFrame_shorter)

declare ReadFrames.simps [simp del]

section \<open>The decoder on one frame of any content\<close>

lemma feed_oversized:
  assumes r: "agw_ready (d, None)" and w: "length w = 36" and n: "le_uint32 (go_slice 28 32 w) > of_nat MaxDataLen"
  shows "\<exists>d'. feed Decoder_step (d, None) w = ((d', Some (ErrMsg ''agwpe: decoder: data_len exceeds maximum'')), [])"
proof -
  define hs b where "hs = butlast w" and "b = last w"
  have b: "w = hs @ [b]" "length hs = 35" using w by (cases "w = []"; simp add: hs_def b_def)+
  let ?c = "d\<lparr>header := filled 0 (header d) hs, hdrN := 35\<rparr>"
  have f: "feed Decoder_step (d, None) hs = ((?c, None), [])"
    using feed_header [of d hs] r b by (simp add: agw_ready_def)
  have u: "(filled 0 (header d) hs)[35 := b] = w"
    using filled_snoc [of 0 hs "header d" b] filled_all [of w "header d"] r b w by (simp add: agw_ready_def)
  have "\<exists>d'. Decoder_byte ?c b = (d', [], Some (ErrMsg ''agwpe: decoder: data_len exceeds maximum''))"
    using r n by (simp add: Decoder_byte_def u agw_ready_def Let_def)
  then show ?thesis unfolding b(1) feed_append f by auto
qed

text \<open>What a ready decoder makes of a stream, told by what \<open>ReadFrame\<close> makes of it.\<close>

lemma Decoder_ReadFrame_Inr:
  assumes r: "agw_ready (d, None)" and f: "ReadFrame b = Inr (f, rest)"
  shows "\<exists>d' w. b = w @ rest \<and> feed Decoder_step (d, None) w = ((d', None), [f]) \<and> agw_ready (d', None)"
proof -
  define h where "h = take 36 b"
  let ?L = "le_uint32 (go_slice 28 32 h)"
  have l: "length h = 36" "b = h @ drop 36 b" and n: "?L \<le> of_nat MaxDataLen"
    using f by (auto simp: ReadFrame_def io_ReadFull_def h_def Let_def split: if_splits)
  let ?e = "d\<lparr>header := h, hdrN := 36, dataLen := ?L\<rparr>"
  note hd = feed_whole_header [OF r l(1) n]
  show ?thesis
  proof (cases "?L > 0")
    case False
    then have "f = header_frame h []" "rest = drop 36 b"
      using f n by (auto simp: ReadFrame_def io_ReadFull_def h_def Let_def split: if_splits)
    then show ?thesis
      using hd False l r
      by (intro exI [of _ "Decoder_Reset ?e"] exI [of _ h])
        (simp add: Decoder_deliver_def Decoder_Reset_def agw_ready_def Let_def)
  next
    case True
    define w where "w = take (unat ?L) (drop 36 b)"
    have "length w = unat ?L \<and> rest = drop (unat ?L) (drop 36 b) \<and> f = header_frame h w"
      using f n True by (auto simp: ReadFrame_def io_ReadFull_def h_def w_def Let_def split: if_splits)
    then have w: "length w = unat ?L" "drop 36 b = w @ rest" "f = header_frame h w"
      by (simp_all only: w_def append_take_drop_id)
    have "w \<noteq> []" using w(1) True by (auto simp: word_less_nat_alt)
    let ?c = "?e\<lparr>dataBuf := replicate (length w) 0, dataN := 0, agwState := stateData\<rparr>"
    have dt: "feed Decoder_step (?c, None) w = ((Decoder_Reset (?c\<lparr>dataBuf := w, dataN := length w\<rparr>), None), [f])"
      using feed_whole_data [of ?c w] w \<open>w \<noteq> []\<close> r by (simp add: agw_ready_def)
    have "feed Decoder_step (d, None) h = ((?c, None), [])" using hd True w(1) by simp
    then have "feed Decoder_step (d, None) (h @ w) = ((Decoder_Reset (?c\<lparr>dataBuf := w, dataN := length w\<rparr>), None), [f])"
      using dt by (simp add: feed_append)
    moreover have "agw_ready (Decoder_Reset (?c\<lparr>dataBuf := w, dataN := length w\<rparr>), None)"
      using r l(1) by (simp add: agw_ready_def Decoder_Reset_def)
    ultimately show ?thesis using l(2) w(2) by (intro exI [of _ "Decoder_Reset (?c\<lparr>dataBuf := w, dataN := length w\<rparr>)"] exI [of _ "h @ w"]) simp
  qed
qed

lemma Decoder_ReadFrame_Inl:
  assumes r: "agw_ready (d, None)" and f: "ReadFrame b = Inl e"
  shows "\<exists>d' err. feed Decoder_step (d, None) b = ((d', err), [])
    \<and> (err \<noteq> None \<longleftrightarrow> e = ErrMsg ''agwpe: data_len exceeds maximum'')"
proof (cases "length b < 36")
  case True
  then have "feed Decoder_step (d, None) b = ((d\<lparr>header := filled 0 (header d) b, hdrN := length b\<rparr>, None), [])"
    using feed_header [of d b] r by (simp add: agw_ready_def)
  moreover have "e \<noteq> ErrMsg ''agwpe: data_len exceeds maximum''"
    using f True by (auto simp: ReadFrame_def io_ReadFull_def split: if_splits)
  ultimately show ?thesis by auto
next
  case False
  define h where "h = take 36 b"
  let ?L = "le_uint32 (go_slice 28 32 h)"
  have l: "length h = 36" "b = h @ drop 36 b" using False by (simp_all add: h_def)
  show ?thesis
  proof (cases "?L > of_nat MaxDataLen")
    case True
    then have "e = ErrMsg ''agwpe: data_len exceeds maximum''"
      using f False by (auto simp: ReadFrame_def io_ReadFull_def h_def Let_def split: if_splits)
    moreover obtain d' where "feed Decoder_step (d, None) h = ((d', Some (ErrMsg ''agwpe: decoder: data_len exceeds maximum'')), [])"
      using feed_oversized [OF r l(1) True] by blast
    ultimately show ?thesis
      using feed_append [of Decoder_step "(d, None)" h "drop 36 b"] l(2) by (auto simp: feed_sticky)
  next
    case n: False
    then have n': "?L \<le> of_nat MaxDataLen" by simp
    have x: "?L > 0 \<and> length (drop 36 b) < unat ?L \<and> e \<noteq> ErrMsg ''agwpe: data_len exceeds maximum''"
      using f False n by (auto simp: ReadFrame_def io_ReadFull_def h_def Let_def split: if_splits)
    let ?c = "d\<lparr>header := h, hdrN := 36, dataLen := ?L, dataBuf := replicate (unat ?L) 0, dataN := 0, agwState := stateData\<rparr>"
    have "feed Decoder_step (d, None) h = ((?c, None), [])" using feed_whole_header [OF r l(1) n'] x by simp
    moreover have "\<exists>d'. feed Decoder_step (?c, None) (drop 36 b) = ((d', None), [])"
      using agw_feed_data [of ?c "drop 36 b"] x by auto
    ultimately show ?thesis
      using feed_append [of Decoder_step "(d, None)" h "drop 36 b"] l(2) x by auto
  qed
qed

lemma Decoder_ReadFrames:
  "agw_ready (d, None) \<Longrightarrow> ReadFrames b = (fs, e) \<Longrightarrow>
     \<exists>d' err. feed Decoder_step (d, None) b = ((d', err), fs)
       \<and> (err \<noteq> None \<longleftrightarrow> e = ErrMsg ''agwpe: data_len exceeds maximum'')"
proof (induction b arbitrary: d fs rule: ReadFrames.induct)
  case (1 b)
  show ?case
  proof (cases "ReadFrame b")
    case (Inl x)
    then show ?thesis using 1(3) Decoder_ReadFrame_Inl [OF 1(2) Inl] by (simp add: ReadFrames.simps)
  next
    case (Inr y)
    obtain f rest where y: "y = (f, rest)" by fastforce
    obtain gs where g: "ReadFrames rest = (gs, e)" "fs = f # gs"
      using 1(3) Inr y by (auto simp: ReadFrames.simps [of b] split: prod.splits)
    obtain d' w where d: "b = w @ rest" "feed Decoder_step (d, None) w = ((d', None), [f])" "agw_ready (d', None)"
      using Decoder_ReadFrame_Inr [OF 1(2)] Inr y by blast
    obtain d'' err where "feed Decoder_step (d', None) rest = ((d'', err), gs)"
      "err \<noteq> None \<longleftrightarrow> e = ErrMsg ''agwpe: data_len exceeds maximum''"
      using 1(1) [OF Inr] y d(3) g(1) by blast
    then show ?thesis using d(1,2) g(2) by (auto simp: feed_append)
  qed
qed

section \<open>Property\<close>

text \<open>C17: The streaming decoder agrees with the blocking reader. On every sequence of bytes, valid
  or not, one \<open>Write\<close> to a new decoder delivers exactly the frames that calling \<open>ReadFrame\<close> until it
  fails returns, and \<open>Write\<close> reports an error exactly when \<open>ReadFrame\<close> failed on an oversized
  length rather than on the end of the input.\<close>

theorem decoder_agrees_with_reader:
  "case ReadFrames b of (fs, e) \<Rightarrow>
     \<exists>d err. Decoder_Write (NewDecoder True) b = (d, fs, err)
       \<and> (err \<noteq> None \<longleftrightarrow> e = ErrMsg ''agwpe: data_len exceeds maximum'')"
proof -
  obtain fs e where f: "ReadFrames b = (fs, e)" by fastforce
  show ?thesis using Decoder_ReadFrames [OF NewDecoder_ready f] f by (auto simp: Decoder_Write_def)
qed

end
