(* ===== verification/Pcap.thy ===== *)
theory Pcap
  imports Ax25_Prelude
begin

text \<open>
  \<open>src/pcap/pcap.go\<close>: capture files in the classic libpcap format. A point in time is its Unix
  seconds and its nanoseconds within the second, which is what the package reads of a
  \<open>time.Time\<close>. The writer's target is a function that says whether a write succeeds; the bytes
  written are returned. The reader reads from the bytes that are left of the file. The lemmas show
  the round trip of a file, what truncation does to the time stamps, and how a file that is cut
  off is reported.
\<close>

section \<open>Format\<close>

definition LinkTypeAX25 :: "32 word" where [simp]: "LinkTypeAX25 = 3"
definition LinkTypeKISS :: "32 word" where [simp]: "LinkTypeKISS = 202"

definition magicMicrosecLE :: "32 word" where [simp]: "magicMicrosecLE = 0xa1b2c3d4"
definition magicNanosecLE :: "32 word" where [simp]: "magicNanosecLE = 0xa1b23c4d"
definition magicMicrosecBE :: "32 word" where [simp]: "magicMicrosecBE = 0xd4c3b2a1"
definition magicNanosecBE :: "32 word" where [simp]: "magicNanosecBE = 0x4d3cb2a1"

definition maxSnapLen :: nat where [simp]: "maxSnapLen = 65535"
definition globalHeaderSize :: nat where [simp]: "globalHeaderSize = 24"
definition recordHeaderSize :: nat where [simp]: "recordHeaderSize = 16"

record Record =
  unixSec :: int
  unixNano :: int
  recData :: "byte list"

section \<open>Writer\<close>

type_synonym sink = "byte list \<Rightarrow> goerr option"

text \<open>The result of \<open>Create\<close> is the link type the writer keeps and the bytes of the header.\<close>

definition Create :: "sink \<Rightarrow> 32 word \<Rightarrow> goerr + 32 word \<times> byte list" where
  "Create w linkType =
     (if linkType \<noteq> LinkTypeAX25 \<and> linkType \<noteq> LinkTypeKISS then Inl (ErrWrap '''' ErrUnsupportedLinkType)
      else
        let hdr = le32 magicMicrosecLE @ le16 2 @ le16 4 @ le32 0 @ le32 0 @ le32 (of_nat maxSnapLen) @ le32 linkType
        in case w hdr of
             Some e \<Rightarrow> Inl (ErrWrap ''pcap: write global header'' e)
           | None \<Rightarrow> Inr (linkType, hdr))"

text \<open>The error, if any, and what was written: a record whose data fails leaves its header behind.\<close>

definition WriteRecord :: "sink \<Rightarrow> Record \<Rightarrow> goerr option \<times> byte list" where
  "WriteRecord w r =
     (if length (recData r) > maxSnapLen then (Some (ErrWrap '''' ErrRecordTooLarge), [])
      else
        let n = of_nat (length (recData r)) :: 32 word;
            hdr = le32 (word_of_int (unixSec r)) @ le32 (word_of_int (unixNano r div 1000)) @ le32 n @ le32 n
        in case w hdr of
             Some e \<Rightarrow> (Some (ErrWrap ''pcap: write record header'' e), [])
           | None \<Rightarrow>
               if recData r \<noteq> [] then
                 (case w (recData r) of
                    Some e \<Rightarrow> (Some (ErrWrap ''pcap: write record data'' e), hdr)
                  | None \<Rightarrow> (None, hdr @ recData r))
               else (None, hdr))"

section \<open>Reader\<close>

record Reader =
  rdLinkType :: "32 word"
  bigEndian :: bool
  nano :: bool

definition order_Uint32 :: "bool \<Rightarrow> byte list \<Rightarrow> 32 word" where
  "order_Uint32 be b = (if be then be_uint32 b else le_uint32 b)"

definition NewReader :: "byte list \<Rightarrow> goerr + Reader \<times> byte list" where
  "NewReader b =
     (case io_ReadFull b globalHeaderSize of
        Inl _ \<Rightarrow> Inl ErrInvalidPcap
      | Inr (hdr, rest) \<Rightarrow>
          let magic = le_uint32 hdr;
              mode = (if magic = magicMicrosecLE then Some (False, False)
                else if magic = magicNanosecLE then Some (False, True)
                else if magic = magicMicrosecBE then Some (True, False)
                else if magic = magicNanosecBE then Some (True, True)
                else None)
          in case mode of
               None \<Rightarrow> Inl ErrInvalidPcap
             | Some (be, nn) \<Rightarrow>
                 let network = order_Uint32 be (drop 20 hdr)
                 in if network \<noteq> LinkTypeAX25 \<and> network \<noteq> LinkTypeKISS
                    then Inl (ErrWrap '''' ErrUnsupportedLinkType)
                    else Inr (\<lparr>rdLinkType = network, bigEndian = be, nano = nn\<rparr>, rest))"

definition Reader_LinkType :: "Reader \<Rightarrow> 32 word" where
  "Reader_LinkType rd = rdLinkType rd"

text \<open>\<open>time.Unix(sec, nsec)\<close> carries nanoseconds of a second and more into the seconds.\<close>

definition time_Unix :: "int \<Rightarrow> int \<Rightarrow> int \<times> int" where
  "time_Unix sec nsec = (sec + nsec div 1000000000, nsec mod 1000000000)"

definition ReadRecord :: "Reader \<Rightarrow> byte list \<Rightarrow> goerr + Record \<times> byte list" where
  "ReadRecord rd b =
     (case io_ReadFull b recordHeaderSize of
        Inl EOF \<Rightarrow> Inl EOF
      | Inl ErrUnexpectedEOF \<Rightarrow> Inl (ErrMsg ''pcap: truncated record header'')
      | Inl e \<Rightarrow> Inl (ErrWrap ''pcap: read record header'' e)
      | Inr (hdr, rest) \<Rightarrow>
          let u = order_Uint32 (bigEndian rd);
              tsSec = u hdr; tsSubSec = u (drop 4 hdr); inclLen = u (drop 8 hdr)
          in if inclLen > of_nat maxSnapLen then Inl (ErrWrap '''' ErrRecordTooLarge)
             else
               case (if inclLen > 0 then io_ReadFull rest (unat inclLen) else Inr ([], rest)) of
                 Inl e \<Rightarrow> Inl (ErrWrap ''pcap: read record data'' e)
               | Inr (d, rest) \<Rightarrow>
                   let ts = (if nano rd then time_Unix (uint tsSec) (uint tsSubSec)
                             else time_Unix (uint tsSec) (uint tsSubSec * 1000))
                   in Inr (\<lparr>unixSec = fst ts, unixNano = snd ts, recData = d\<rparr>, rest))"

text \<open>A whole file: the records up to the first error, and that error.\<close>

lemma ReadRecord_shorter: "ReadRecord rd b = Inr (r, rest) \<Longrightarrow> length rest < length b"
  by (auto simp: ReadRecord_def io_ReadFull_def Let_def split: if_splits sum.splits prod.splits goerr.splits)

function ReadRecords :: "Reader \<Rightarrow> byte list \<Rightarrow> Record list \<times> goerr" where
  "ReadRecords rd b =
     (case ReadRecord rd b of
        Inl e \<Rightarrow> ([], e)
      | Inr (r, rest) \<Rightarrow> (let (rs, e) = ReadRecords rd rest in (r # rs, e)))"
  by pat_completeness auto
termination
  by (relation "measure (\<lambda>(rd, b). length b)") (auto dest: ReadRecord_shorter)

declare ReadRecords.simps [simp del]

section \<open>Records on disk\<close>

text \<open>What a record keeps: microseconds, and the low 32 bits of the seconds.\<close>

definition kept :: "Record \<Rightarrow> Record" where
  "kept r = r\<lparr>unixSec := unixSec r mod 2 ^ 32, unixNano := unixNano r div 1000 * 1000\<rparr>"

definition rec_header :: "Record \<Rightarrow> byte list" where
  "rec_header r = le32 (word_of_int (unixSec r)) @ le32 (word_of_int (unixNano r div 1000))
     @ le32 (of_nat (length (recData r))) @ le32 (of_nat (length (recData r)))"

definition rec_ok :: "Record \<Rightarrow> bool" where
  "rec_ok r \<longleftrightarrow> length (recData r) \<le> 65535 \<and> 0 \<le> unixNano r \<and> unixNano r < 1000000000"

lemma io_ReadFull_append: "length a = n \<Longrightarrow> io_ReadFull (a @ b) n = Inr (a, b)"
  by (simp add: io_ReadFull_def)

lemma rec_header_length [simp]: "length (rec_header r) = 16"
  by (simp add: rec_header_def)

lemma rec_header_fields:
  "le_uint32 (rec_header r) = word_of_int (unixSec r)"
  "le_uint32 (drop 4 (rec_header r)) = word_of_int (unixNano r div 1000)"
  "le_uint32 (drop 8 (rec_header r)) = of_nat (length (recData r))"
  by (simp_all add: rec_header_def le_uint32_le32)

lemma WriteRecord_ok:
  "rec_ok r \<Longrightarrow> WriteRecord (\<lambda>_. None) r = (None, rec_header r @ recData r)"
  by (simp add: WriteRecord_def rec_header_def rec_ok_def Let_def)

lemma data_length_word: "rec_ok r \<Longrightarrow> unat (of_nat (length (recData r)) :: 32 word) = length (recData r)"
  by (simp add: rec_ok_def unat_of_nat)

lemma ReadRecord_written:
  assumes r: "rec_ok r" and rd: "\<not> bigEndian rd" "\<not> nano rd"
  shows "ReadRecord rd (rec_header r @ recData r @ rest) = Inr (kept r, rest)"
proof -
  let ?L = "of_nat (length (recData r)) :: 32 word"
  have n: "unat ?L = length (recData r)" by (rule data_length_word [OF r])
  have le: "\<not> ?L > of_nat maxSnapLen" using r n by (simp add: word_less_nat_alt rec_ok_def)
  have us: "0 \<le> unixNano r div 1000" "unixNano r div 1000 < 1000000" using r by (auto simp: rec_ok_def)
  have u: "uint (word_of_int (unixNano r div 1000) :: 32 word) = unixNano r div 1000"
    using us by (simp add: uint_word_of_int)
  have "(unixNano r div 1000 * 1000) div 1000000000 = 0 \<and> (unixNano r div 1000 * 1000) mod 1000000000 = unixNano r div 1000 * 1000"
    using us by auto
  then have t: "time_Unix (uint (word_of_int (unixSec r) :: 32 word)) (uint (word_of_int (unixNano r div 1000) :: 32 word) * 1000)
      = (unixSec r mod 2 ^ 32, unixNano r div 1000 * 1000)"
    unfolding time_Unix_def u by (simp add: uint_word_of_int)
  have k: "\<lparr>unixSec = unixSec r mod 2 ^ 32, unixNano = unixNano r div 1000 * 1000, recData = recData r\<rparr> = kept r"
    by (cases r) (simp add: kept_def)
  show ?thesis
  proof (cases "recData r = []")
    case True
    then show ?thesis
      using rd t k by (simp add: ReadRecord_def io_ReadFull_append order_Uint32_def rec_header_fields Let_def)
  next
    case False
    then have "?L > 0" using n by (simp add: word_less_nat_alt)
    moreover have "io_ReadFull (recData r @ rest) (unat ?L) = Inr (recData r, rest)"
      unfolding n by (rule io_ReadFull_append) simp
    ultimately show ?thesis
      using rd le t k by (simp add: ReadRecord_def io_ReadFull_append order_Uint32_def rec_header_fields Let_def)
  qed
qed

lemma ReadRecords_written:
  assumes "\<forall>r \<in> set rs. rec_ok r" and "\<not> bigEndian rd" and "\<not> nano rd"
  shows "ReadRecords rd (concat (map (\<lambda>r. rec_header r @ recData r) rs) @ rest)
    = (map kept rs @ fst (ReadRecords rd rest), snd (ReadRecords rd rest))"
  using assms(1)
proof (induction rs)
  case (Cons r rs)
  then show ?case
    using ReadRecord_written [OF _ assms(2,3)] by (simp add: ReadRecords.simps [of _ "rec_header r @ _"] case_prod_beta)
qed simp

lemma ReadRecords_end: "ReadRecords rd [] = ([], EOF)"
  by (simp add: ReadRecords.simps ReadRecord_def io_ReadFull_def)

text \<open>A record that is cut off after \<open>k\<close> bytes.\<close>

lemma ReadRecord_cut:
  assumes r: "rec_ok r" and rd: "\<not> bigEndian rd" and k: "0 < k" "k < 16 + length (recData r)"
  shows "ReadRecord rd (take k (rec_header r @ recData r)) =
    Inl (if k < 16 then ErrMsg ''pcap: truncated record header''
         else ErrWrap ''pcap: read record data'' (if k = 16 then EOF else ErrUnexpectedEOF))"
proof (cases "k < 16")
  case True
  have l: "length (take k (rec_header r @ recData r)) = k" using True by simp
  then have "take k (rec_header r @ recData r) \<noteq> []" using k(1) by (metis list.size(3) less_numeral_extra(3))
  with l True show ?thesis by (simp add: ReadRecord_def io_ReadFull_def del: take_append)
next
  case False
  let ?L = "of_nat (length (recData r)) :: 32 word"
  have n: "unat ?L = length (recData r)" by (rule data_length_word [OF r])
  have le: "\<not> ?L > of_nat maxSnapLen" using r n by (simp add: word_less_nat_alt rec_ok_def)
  have "length (recData r) > 0" using k False by linarith
  then have pos: "?L > 0" using n by (simp add: word_less_nat_alt)
  have t: "take k (rec_header r @ recData r) = rec_header r @ take (k - 16) (recData r)" using False by simp
  have "io_ReadFull (take (k - 16) (recData r)) (unat ?L) = Inl (if k = 16 then EOF else ErrUnexpectedEOF)"
    using k False n by (auto simp: io_ReadFull_def)
  then show ?thesis unfolding t
    using rd le pos False by (simp add: ReadRecord_def io_ReadFull_append order_Uint32_def rec_header_fields Let_def)
qed

definition global_header :: "32 word \<Rightarrow> byte list" where
  "global_header lt = le32 magicMicrosecLE @ le16 2 @ le16 4 @ le32 0 @ le32 0 @ le32 (of_nat maxSnapLen) @ le32 lt"

lemma global_header_length [simp]: "length (global_header lt) = 24"
  by (simp add: global_header_def le16_def)

lemma Create_header:
  "lt = LinkTypeAX25 \<or> lt = LinkTypeKISS \<Longrightarrow> Create (\<lambda>_. None) lt = Inr (lt, global_header lt)"
  by (auto simp: Create_def global_header_def Let_def)

lemma NewReader_header:
  assumes "lt = LinkTypeAX25 \<or> lt = LinkTypeKISS"
  shows "NewReader (global_header lt @ rest) = Inr (\<lparr>rdLinkType = lt, bigEndian = False, nano = False\<rparr>, rest)"
proof -
  have "le_uint32 (global_header lt) = magicMicrosecLE" unfolding global_header_def by (rule le_uint32_le32)
  moreover have "drop 20 (global_header lt) = le32 lt" by (simp add: global_header_def le16_def)
  then have "le_uint32 (drop 20 (global_header lt)) = lt" using le_uint32_le32 [of lt "[]"] by simp
  ultimately show ?thesis using assms by (auto simp: NewReader_def io_ReadFull_append order_Uint32_def Let_def)
qed

section \<open>Properties\<close>

text \<open>C32: Capture files round trip. A file made by \<open>Create\<close> and one \<open>WriteRecord\<close> per record, for
  records of at most 65535 bytes, is opened by \<open>NewReader\<close> with the same link type; reading it
  gives the records in order, each with its time cut to microseconds and its seconds to 32 bits,
  and then \<open>io.EOF\<close>. A longer record is refused and leaves no bytes.\<close>

theorem pcap_roundtrip:
  assumes "lt = LinkTypeAX25 \<or> lt = LinkTypeKISS"
    and "\<forall>r \<in> set rs. length (recData r) \<le> maxSnapLen \<and> 0 \<le> unixNano r \<and> unixNano r < 1000000000"
  shows "\<exists>hdr rd. Create (\<lambda>_. None) lt = Inr (lt, hdr) \<and> Reader_LinkType rd = lt
    \<and> (let file = hdr @ concat (map (\<lambda>r. snd (WriteRecord (\<lambda>_. None) r)) rs)
       in \<exists>rest. NewReader file = Inr (rd, rest) \<and> ReadRecords rd rest = (map kept rs, EOF))
    \<and> (\<forall>r. length (recData r) > maxSnapLen \<longrightarrow> WriteRecord (\<lambda>_. None) r = (Some (ErrWrap '''' ErrRecordTooLarge), []))"
proof -
  let ?rd = "\<lparr>rdLinkType = lt, bigEndian = False, nano = False\<rparr>"
  have ok: "\<forall>r \<in> set rs. rec_ok r" using assms(2) by (simp add: rec_ok_def)
  then have w: "map (\<lambda>r. snd (WriteRecord (\<lambda>_. None) r)) rs = map (\<lambda>r. rec_header r @ recData r) rs"
    by (auto simp: WriteRecord_ok)
  have "ReadRecords ?rd (concat (map (\<lambda>r. rec_header r @ recData r) rs)) = (map kept rs, EOF)"
    using ReadRecords_written [OF ok, of ?rd "[]"] by (simp add: ReadRecords_end)
  moreover have "\<forall>r. length (recData r) > maxSnapLen \<longrightarrow> WriteRecord (\<lambda>_. None) r = (Some (ErrWrap '''' ErrRecordTooLarge), [])"
    by (simp add: WriteRecord_def)
  ultimately show ?thesis
    using Create_header [OF assms(1)] NewReader_header [OF assms(1)]
    by (intro exI [of _ "global_header lt"] exI [of _ ?rd]) (simp add: w Reader_LinkType_def Let_def)
qed

theorem pcap_roundtrip_witness:
  "\<exists>hdr rd. Create (\<lambda>_. None) 3 = Inr (3, hdr) \<and> Reader_LinkType rd = 3
    \<and> (let file = hdr @ concat (map (\<lambda>r. snd (WriteRecord (\<lambda>_. None) r)) [\<lparr>unixSec = 7, unixNano = 1999, recData = [1, 2]\<rparr>])
       in \<exists>rest. NewReader file = Inr (rd, rest)
           \<and> ReadRecords rd rest = ([\<lparr>unixSec = 7, unixNano = 1000, recData = [1, 2]\<rparr>], EOF))"
proof -
  let ?r = "\<lparr>unixSec = 7, unixNano = 1999, recData = [1, 2]\<rparr>"
  have k: "map kept [?r] = [\<lparr>unixSec = 7, unixNano = 1000, recData = [1, 2]\<rparr>]" by (simp add: kept_def)
  have "\<forall>r \<in> set [?r]. length (recData r) \<le> maxSnapLen \<and> 0 \<le> unixNano r \<and> unixNano r < 1000000000" by simp
  then show ?thesis
    using pcap_roundtrip [of 3 "[?r]", unfolded k LinkTypeAX25_def] by fast
qed

text \<open>A file that is cut off is never taken for a complete one. If the last record of a file is
  cut off, the records before it are read and the error after them is not \<open>io.EOF\<close>; yet when the cut falls
  right behind the record's header, the error wraps \<open>io.EOF\<close>.\<close>

theorem pcap_cut_detected:
  assumes "\<forall>r \<in> set (rs @ [r]). length (recData r) \<le> maxSnapLen \<and> 0 \<le> unixNano r \<and> unixNano r < 1000000000"
    and "\<not> bigEndian rd" and "\<not> nano rd" and "0 < k" and "k < length (snd (WriteRecord (\<lambda>_. None) r))"
  shows "\<exists>e. ReadRecords rd (concat (map (\<lambda>r. snd (WriteRecord (\<lambda>_. None) r)) rs) @ take k (snd (WriteRecord (\<lambda>_. None) r)))
      = (map kept rs, e) \<and> e \<noteq> EOF \<and> (k = recordHeaderSize \<longrightarrow> e = ErrWrap ''pcap: read record data'' EOF)"
proof -
  have ok: "\<forall>r \<in> set rs. rec_ok r" "rec_ok r" using assms(1) by (simp_all add: rec_ok_def)
  have w: "map (\<lambda>r. snd (WriteRecord (\<lambda>_. None) r)) rs = map (\<lambda>r. rec_header r @ recData r) rs"
    "snd (WriteRecord (\<lambda>_. None) r) = rec_header r @ recData r" using ok by (auto simp: WriteRecord_ok)
  have "k < 16 + length (recData r)" using assms(5) w(2) by simp
  note cut = ReadRecord_cut [OF ok(2) assms(2,4) this]
  define e where "e = (if k < 16 then ErrMsg ''pcap: truncated record header''
    else ErrWrap ''pcap: read record data'' (if k = 16 then EOF else ErrUnexpectedEOF))"
  have p: "e \<noteq> EOF" "k = recordHeaderSize \<longrightarrow> e = ErrWrap ''pcap: read record data'' EOF" by (simp_all add: e_def)
  have "ReadRecords rd (take k (rec_header r @ recData r)) = ([], e)"
    using cut by (simp only: ReadRecords.simps [of rd "take k _"] e_def [symmetric] sum.case)
  then have "ReadRecords rd (concat (map (\<lambda>r. rec_header r @ recData r) rs) @ take k (rec_header r @ recData r)) = (map kept rs, e)"
    by (simp only: ReadRecords_written [OF ok(1) assms(2,3)] fst_conv snd_conv append_Nil2)
  then show ?thesis unfolding w using p by blast
qed

theorem pcap_cut_detected_witness:
  "\<exists>e. ReadRecords \<lparr>rdLinkType = 3, bigEndian = False, nano = False\<rparr>
       (take 16 (snd (WriteRecord (\<lambda>_. None) \<lparr>unixSec = 7, unixNano = 0, recData = [1, 2]\<rparr>))) = ([], e) \<and> e \<noteq> EOF"
proof -
  let ?r = "\<lparr>unixSec = 7, unixNano = 0, recData = [1, 2]\<rparr>"
  have "16 < length (snd (WriteRecord (\<lambda>_. None) ?r))" by (simp add: WriteRecord_def Let_def)
  then show ?thesis
    using pcap_cut_detected [of "[]" ?r "\<lparr>rdLinkType = 3, bigEndian = False, nano = False\<rparr>" 16] by auto
qed

end
