(* ===== verification/Router_Monitor.thy ===== *)
theory Router_Monitor
  imports Pcap Ax25_Frame
begin

text \<open>
  \<open>src/cmd/router/monitor.go\<close>: the router's capture log, which writes frames to pcap files named
  after the day and a two-digit index and changes to a new file at midnight and on SIGHUP. The file
  system is the map from the paths that exist to their contents; errors of the operating system
  other than that a file exists or not are a parameter (\<open>os_errors\<close>). The clock is an argument:
  a point in time is its day as \<open>yymmdd\<close> and its Unix time. Each method is one step, as its lock
  makes it. The lemmas show that the log never touches a file it has not made and that what it
  has written can be read back.
\<close>

section \<open>State\<close>

definition monitorTypeAX25 :: gostring where "monitorTypeAX25 = str ''ax25''"
definition monitorTypeKISS :: gostring where "monitorTypeKISS = str ''kiss''"

definition errMonitorVVExhausted :: goerr where
  "errMonitorVVExhausted = ErrMsg ''monitor: daily file index exhausted (vv > 99)''"

record frameMonitor =
  mTyp :: gostring
  mPrefix :: gostring
  mLinkType :: "32 word"
  mFile :: "gostring option" \<comment> \<open>the open file and its writer\<close>
  currentDay :: gostring
  currentVV :: nat

type_synonym fs = "gostring \<rightharpoonup> byte list"

record os_errors =
  statErr :: "gostring \<Rightarrow> goerr option"
  openErr :: "gostring \<Rightarrow> goerr option"

record moment =
  day :: gostring
  sec :: int
  nsec :: int

section \<open>Files\<close>

definition captureFileName :: "gostring \<Rightarrow> gostring \<Rightarrow> nat \<Rightarrow> gostring" where
  "captureFileName prefix d vv = prefix @ str ''-'' @ d @ fmt_02d vv @ str ''.pcap''"

text \<open>The loop of \<open>firstAvailableVV\<close>, over the indices it tries.\<close>

fun first_free :: "os_errors \<Rightarrow> fs \<Rightarrow> gostring \<Rightarrow> gostring \<Rightarrow> nat list \<Rightarrow> goerr + nat" where
  "first_free os F prefix d [] = Inl errMonitorVVExhausted"
| "first_free os F prefix d (i # is) =
     (let path = captureFileName prefix d i
      in case statErr os path of
           Some e \<Rightarrow> Inl (ErrWrap ''monitor: stat'' e)
         | None \<Rightarrow> if F path = None then Inr i else first_free os F prefix d is)"

definition firstAvailableVV :: "os_errors \<Rightarrow> fs \<Rightarrow> gostring \<Rightarrow> gostring \<Rightarrow> goerr + nat" where
  "firstAvailableVV os F prefix d = first_free os F prefix d [0..<100]"

text \<open>The file is created exclusively: an existing one is an error. If the header cannot be written,
  the file that was made stays behind, empty: a write that fails is taken to have written nothing of its argument.\<close>

definition swapTo ::
  "os_errors \<Rightarrow> sink \<Rightarrow> gostring \<Rightarrow> nat \<Rightarrow> fs \<times> frameMonitor \<Rightarrow> goerr option \<times> fs \<times> frameMonitor" where
  "swapTo os w d vv s =
     (case s of (F, m) \<Rightarrow>
        let path = captureFileName (mPrefix m) d vv
        in if F path \<noteq> None then (Some (ErrWrap ''monitor: open capture file'' (ErrMsg ''file exists'')), F, m)
           else case openErr os path of
             Some e \<Rightarrow> (Some (ErrWrap ''monitor: open capture file'' e), F, m)
           | None \<Rightarrow>
               (case Create w (mLinkType m) of
                  Inl e \<Rightarrow> (Some (ErrWrap ''monitor: create pcap writer'' e), F(path \<mapsto> []), m)
                | Inr (_, hdr) \<Rightarrow>
                    (None, F(path \<mapsto> hdr), m\<lparr>mFile := Some path, currentDay := d, currentVV := vv\<rparr>)))"

definition openInitial ::
  "os_errors \<Rightarrow> sink \<Rightarrow> moment \<Rightarrow> fs \<times> frameMonitor \<Rightarrow> goerr option \<times> fs \<times> frameMonitor" where
  "openInitial os w now s =
     (case s of (F, m) \<Rightarrow>
        case firstAvailableVV os F (mPrefix m) (day now) of
          Inl e \<Rightarrow> (Some e, F, m)
        | Inr vv \<Rightarrow> swapTo os w (day now) vv s)"

definition newFrameMonitor ::
  "os_errors \<Rightarrow> sink \<Rightarrow> moment \<Rightarrow> gostring \<Rightarrow> gostring \<Rightarrow> fs \<Rightarrow> (goerr + frameMonitor) \<times> fs" where
  "newFrameMonitor os w now typ prefix F =
     (if typ \<noteq> monitorTypeAX25 \<and> typ \<noteq> monitorTypeKISS
      then (Inl (ErrMsg ''config error: monitor.type must be ax25 or kiss''), F)
      else if prefix = [] then (Inl (ErrMsg ''config error: monitor.prefix must not be empty''), F)
      else
        let m = \<lparr>mTyp = typ, mPrefix = prefix, mLinkType = (if typ = monitorTypeKISS then LinkTypeKISS else LinkTypeAX25),
                 mFile = None, currentDay = [], currentVV = 0\<rparr>
        in case openInitial os w now (F, m) of
             (Some e, F', _) \<Rightarrow> (Inl e, F')
           | (None, F', m') \<Rightarrow> (Inr m', F'))"

section \<open>Operations\<close>

definition writeData :: "sink \<Rightarrow> moment \<Rightarrow> byte list \<Rightarrow> fs \<times> frameMonitor \<Rightarrow> goerr option \<times> fs" where
  "writeData w now data s =
     (case s of (F, m) \<Rightarrow>
        case mFile m of
          None \<Rightarrow> (Some (ErrMsg ''monitor: writer is not open''), F)
        | Some path \<Rightarrow>
            (case WriteRecord w \<lparr>unixSec = sec now, unixNano = nsec now, recData = data\<rparr> of
               (err, bytes) \<Rightarrow> (err, F(path := map_option (\<lambda>c. c @ bytes) (F path)))))"

definition LogAX25 :: "unicode \<Rightarrow> sink \<Rightarrow> moment \<Rightarrow> Frame option \<Rightarrow> fs \<times> frameMonitor \<Rightarrow> goerr option \<times> fs" where
  "LogAX25 U w now f s =
     (case f of
        None \<Rightarrow> (None, fst s)
      | Some f \<Rightarrow>
          (case Frame_Encode U f of
             Inl e \<Rightarrow> (Some (ErrWrap ''monitor: encode ax25 frame'' e), fst s)
           | Inr data \<Rightarrow> writeData w now data s))"

definition LogKISS :: "sink \<Rightarrow> moment \<Rightarrow> byte list \<Rightarrow> fs \<times> frameMonitor \<Rightarrow> goerr option \<times> fs" where
  "LogKISS w now data s = (if data = [] then (None, fst s) else writeData w now data s)"

definition RotateSIGHUP ::
  "os_errors \<Rightarrow> sink \<Rightarrow> moment \<Rightarrow> fs \<times> frameMonitor \<Rightarrow> goerr option \<times> fs \<times> frameMonitor" where
  "RotateSIGHUP os w now s =
     (case s of (F, m) \<Rightarrow>
        if day now \<noteq> currentDay m then
          (case firstAvailableVV os F (mPrefix m) (day now) of
             Inl e \<Rightarrow> (Some e, F, m)
           | Inr vv \<Rightarrow> swapTo os w (day now) vv s)
        else if currentVV m + 1 > 99 then (Some errMonitorVVExhausted, F, m)
        else swapTo os w (day now) (currentVV m + 1) s)"

definition rotateMidnight ::
  "os_errors \<Rightarrow> sink \<Rightarrow> moment \<Rightarrow> fs \<times> frameMonitor \<Rightarrow> goerr option \<times> fs \<times> frameMonitor" where
  "rotateMidnight os w now s =
     (case s of (F, m) \<Rightarrow>
        if day now = currentDay m then (None, F, m)
        else case firstAvailableVV os F (mPrefix m) (day now) of
          Inl e \<Rightarrow> (Some e, F, m)
        | Inr vv \<Rightarrow> swapTo os w (day now) vv s)"

definition Monitor_Close :: "frameMonitor \<Rightarrow> frameMonitor" where
  "Monitor_Close m = m\<lparr>mFile := None\<rparr>"

section \<open>The log as a transition system\<close>

text \<open>Every method with any arguments, and what the operating system says when a file is looked up or created. The
  writes to an open file succeed: after one that was cut short the file could not be read back. The last component
  collects the data logged to the open file.\<close>

type_synonym log = "fs \<times> frameMonitor \<times> Record list"

definition entry :: "moment \<Rightarrow> byte list \<Rightarrow> Record" where
  "entry now data = \<lparr>unixSec = sec now, unixNano = nsec now, recData = data\<rparr>"

inductive log_step :: "log \<Rightarrow> log \<Rightarrow> bool" where
  log: "writeData (\<lambda>_. None) now data (F, m) = (None, F') \<Longrightarrow> 0 \<le> nsec now \<Longrightarrow> nsec now < 1000000000 \<Longrightarrow>
     log_step (F, m, rs) (F', m, rs @ [entry now data])"
| log_fails: "writeData (\<lambda>_. None) now data (F, m) = (Some e, F') \<Longrightarrow> log_step (F, m, rs) (F', m, rs)"
| sighup: "RotateSIGHUP os (\<lambda>_. None) now (F, m) = (None, F', m') \<Longrightarrow> log_step (F, m, rs) (F', m', [])"
| sighup_fails: "RotateSIGHUP os (\<lambda>_. None) now (F, m) = (Some e, F', m') \<Longrightarrow> log_step (F, m, rs) (F', m', rs)"
| midnight: "rotateMidnight os (\<lambda>_. None) now (F, m) = (err, F', m') \<Longrightarrow>
     log_step (F, m, rs) (F', m', if m' = m then rs else [])"
| close: "log_step (F, m, rs) (F, Monitor_Close m, rs)"

text \<open>The index is of two digits, the link type is one of the two, and the open file, if there is one,
  holds the header and the records logged since it was made.\<close>

definition log_ok :: "log \<Rightarrow> bool" where
  "log_ok s \<longleftrightarrow> (case s of (F, m, rs) \<Rightarrow> currentVV m \<le> 99 \<and> mLinkType m \<in> {LinkTypeAX25, LinkTypeKISS}
     \<and> (\<forall>p. mFile m = Some p \<longrightarrow> (\<forall>r \<in> set rs. rec_ok r)
          \<and> F p = Some (global_header (mLinkType m) @ concat (map (\<lambda>r. rec_header r @ recData r) rs))))"

section \<open>What the operations do\<close>

lemma first_free_Inr:
  "first_free os F prefix d is = Inr vv \<Longrightarrow> vv \<in> set is \<and> F (captureFileName prefix d vv) = None"
  by (induction "is") (auto simp: Let_def split: option.splits if_splits)

lemma firstAvailableVV_Inr: "firstAvailableVV os F prefix d = Inr vv \<Longrightarrow> vv \<le> 99"
  by (auto simp: firstAvailableVV_def dest!: first_free_Inr)

text \<open>The index is the first one without a file.\<close>

lemma first_free_least:
  "first_free os F prefix d is = Inr vv \<Longrightarrow>
     \<exists>js ks. is = js @ vv # ks \<and> (\<forall>i \<in> set js. F (captureFileName prefix d i) \<noteq> None)"
proof (induction "is")
  case (Cons i "is")
  show ?case
  proof (cases "F (captureFileName prefix d i)")
    case None
    then have "vv = i" using Cons.prems by (simp add: Let_def split: option.splits)
    then show ?thesis by (intro exI [of _ "[]"] exI [of _ "is"]) auto
  next
    case (Some c)
    then have "first_free os F prefix d is = Inr vv" using Cons.prems by (simp add: Let_def split: option.splits)
    with Cons.IH obtain js ks where j: "is = js @ vv # ks" "\<forall>i \<in> set js. F (captureFileName prefix d i) \<noteq> None" by blast
    show ?thesis by (rule exI [of _ "i # js"], rule exI [of _ ks]) (use j Some in simp)
  qed
qed simp

lemma swapTo_cases:
  assumes "mLinkType m \<in> {LinkTypeAX25, LinkTypeKISS}" and "swapTo os (\<lambda>_. None) d vv (F, m) = (err, F', m')"
  shows "if err = None
     then F (captureFileName (mPrefix m) d vv) = None \<and> F' = F(captureFileName (mPrefix m) d vv \<mapsto> global_header (mLinkType m))
       \<and> m' = m\<lparr>mFile := Some (captureFileName (mPrefix m) d vv), currentDay := d, currentVV := vv\<rparr>
     else F' = F \<and> m' = m"
  using assms Create_header [of "mLinkType m"]
  by (auto simp: swapTo_def Let_def split: if_splits option.splits)

lemma writeData_cases:
  assumes "writeData (\<lambda>_. None) now data (F, m) = (err, F')"
  shows "if err = None
     then \<exists>p. mFile m = Some p \<and> length data \<le> 65535
       \<and> F' = F(p := map_option (\<lambda>c. c @ rec_header (entry now data) @ data) (F p))
     else F' = F"
proof (cases "mFile m")
  case (Some p)
  show ?thesis
  proof (cases "length data \<le> 65535")
    case True
    then have "WriteRecord (\<lambda>_. None) (entry now data) = (None, rec_header (entry now data) @ data)"
      by (simp add: WriteRecord_def rec_header_def entry_def Let_def)
    with Some True assms show ?thesis by (auto simp: writeData_def entry_def)
  next
    case False
    have "F(p := map_option (\<lambda>c. c @ []) (F p)) = F" by (simp add: option.map_ident)
    with Some False assms show ?thesis by (auto simp: writeData_def WriteRecord_def option.map_ident)
  qed
qed (use assms in \<open>auto simp: writeData_def\<close>)

text \<open>A rotation is refused and changes nothing, or it makes a file that was not there.\<close>

definition rotated :: "fs \<Rightarrow> frameMonitor \<Rightarrow> fs \<Rightarrow> frameMonitor \<Rightarrow> bool" where
  "rotated F m F' m' \<longleftrightarrow> (\<exists>p d vv. vv \<le> 99 \<and> F p = None \<and> F' = F(p \<mapsto> global_header (mLinkType m))
     \<and> m' = m\<lparr>mFile := Some p, currentDay := d, currentVV := vv\<rparr>)"

lemma swapTo_rotated:
  assumes "mLinkType m \<in> {LinkTypeAX25, LinkTypeKISS}" and "swapTo os (\<lambda>_. None) d vv (F, m) = (err, F', m')" and "vv \<le> 99"
  shows "if err = None then rotated F m F' m' else F' = F \<and> m' = m"
  using swapTo_cases [OF assms(1,2)] assms(3) by (auto simp: rotated_def split: if_splits)

lemma openInitial_rotated:
  assumes "mLinkType m \<in> {LinkTypeAX25, LinkTypeKISS}" and "openInitial os (\<lambda>_. None) now (F, m) = (None, F', m')"
  shows "rotated F m F' m'"
proof -
  obtain vv where vv: "firstAvailableVV os F (mPrefix m) (day now) = Inr vv"
    "swapTo os (\<lambda>_. None) (day now) vv (F, m) = (None, F', m')"
    using assms(2) by (auto simp: openInitial_def split: sum.splits)
  then show ?thesis using swapTo_rotated [OF assms(1) vv(2) firstAvailableVV_Inr [OF vv(1)]] by simp
qed

lemma RotateSIGHUP_rotated:
  assumes l: "mLinkType m \<in> {LinkTypeAX25, LinkTypeKISS}" and "RotateSIGHUP os (\<lambda>_. None) now (F, m) = (err, F', m')"
  shows "if err = None then rotated F m F' m' else F' = F \<and> m' = m"
proof -
  consider "err \<noteq> None" "F' = F" "m' = m"
    | vv where "swapTo os (\<lambda>_. None) (day now) vv (F, m) = (err, F', m')" "vv \<le> 99"
    using assms(2) by (auto simp: RotateSIGHUP_def dest: firstAvailableVV_Inr split: if_splits sum.splits)
  then show ?thesis using swapTo_rotated [OF l] by cases auto
qed

lemma rotateMidnight_rotated:
  assumes l: "mLinkType m \<in> {LinkTypeAX25, LinkTypeKISS}" and r: "rotateMidnight os (\<lambda>_. None) now (F, m) = (err, F', m')"
  shows "m' = m \<and> F' = F \<or> m' \<noteq> m \<and> rotated F m F' m'"
proof (cases "day now = currentDay m")
  case False
  consider "F' = F" "m' = m"
    | vv where "swapTo os (\<lambda>_. None) (day now) vv (F, m) = (err, F', m')" "vv \<le> 99"
    using r False by (auto simp: rotateMidnight_def dest: firstAvailableVV_Inr split: if_splits sum.splits)
  then show ?thesis
  proof cases
    case (2 vv)
    show ?thesis
    proof (cases err)
      case None
      have "currentDay m' = day now" using swapTo_cases [OF l 2(1)] None by simp
      then show ?thesis using swapTo_rotated [OF l 2] None False by auto
    qed (use swapTo_rotated [OF l 2] in auto)
  qed simp
qed (use r in \<open>simp add: rotateMidnight_def\<close>)

lemma rotated_ok:
  assumes "rotated F m F' m'" and "mLinkType m \<in> {LinkTypeAX25, LinkTypeKISS}"
  shows "log_ok (F', m', [])"
  using assms by (auto simp: rotated_def log_ok_def)

lemma log_ok_step: "log_step s t \<Longrightarrow> log_ok s \<Longrightarrow> log_ok t"
proof (induction rule: log_step.induct)
  case (log now data F m F' rs)
  then show ?case using writeData_cases [OF log(1)] by (auto simp: log_ok_def rec_ok_def entry_def)
next
  case (log_fails now data F m e F' rs)
  then show ?case using writeData_cases [OF log_fails(1)] by simp
next
  case (sighup os now F m F' m' rs)
  then show ?case using RotateSIGHUP_rotated [OF _ sighup(1)] by (auto simp: log_ok_def intro!: rotated_ok [unfolded log_ok_def, simplified])
next
  case (sighup_fails os now F m e F' m' rs)
  then show ?case using RotateSIGHUP_rotated [OF _ sighup_fails(1)] by (auto simp: log_ok_def)
next
  case (midnight os now F m err F' m' rs)
  then have l: "mLinkType m \<in> {LinkTypeAX25, LinkTypeKISS}" by (simp add: log_ok_def)
  show ?case using rotateMidnight_rotated [OF l midnight(1)] midnight.prems rotated_ok [OF _ l] by auto
next
  case (close F m rs)
  then show ?case by (simp add: log_ok_def Monitor_Close_def)
qed

definition log_init :: "log \<Rightarrow> bool" where
  "log_init s \<longleftrightarrow> (\<exists>os now typ prefix F F' m. newFrameMonitor os (\<lambda>_. None) now typ prefix F = (Inr m, F') \<and> s = (F', m, []))"

lemma newFrameMonitor_rotated:
  assumes "newFrameMonitor os (\<lambda>_. None) now ty pre F = (Inr m, F')"
  shows "\<exists>m0. mLinkType m0 \<in> {LinkTypeAX25, LinkTypeKISS} \<and> rotated F m0 F' m"
proof -
  let ?m = "\<lparr>mTyp = ty, mPrefix = pre, mLinkType = (if ty = monitorTypeKISS then LinkTypeKISS else LinkTypeAX25),
    mFile = None, currentDay = [], currentVV = 0\<rparr>"
  have "openInitial os (\<lambda>_. None) now (F, ?m) = (None, F', m)"
    using assms by (auto simp: newFrameMonitor_def Let_def split: if_splits prod.splits option.splits)
  then have "rotated F ?m F' m" by (rule openInitial_rotated [rotated]) simp
  then show ?thesis by (intro exI [of _ ?m]) simp
qed

lemma log_init_ok: "log_init s \<Longrightarrow> log_ok s"
  using newFrameMonitor_rotated rotated_ok unfolding log_init_def by blast

interpretation capture_log: transition_system log_init log_step log_ok
  by unfold_locales (auto intro: log_init_ok log_ok_step)

text \<open>A file that is there and not open stays as it is.\<close>

lemma untouched_step:
  "log_step s t \<Longrightarrow> log_ok s \<Longrightarrow> fst s p = Some c \<and> mFile (fst (snd s)) \<noteq> Some p \<Longrightarrow>
     fst t p = Some c \<and> mFile (fst (snd t)) \<noteq> Some p"
proof (induction rule: log_step.induct)
  case (log now data F m F' rs)
  then show ?case using writeData_cases [OF log(1)] by auto
next
  case (log_fails now data F m e F' rs)
  then show ?case using writeData_cases [OF log_fails(1)] by simp
next
  case (sighup os now F m F' m' rs)
  then show ?case using RotateSIGHUP_rotated [OF _ sighup(1)] by (auto simp: log_ok_def rotated_def)
next
  case (sighup_fails os now F m e F' m' rs)
  then show ?case using RotateSIGHUP_rotated [OF _ sighup_fails(1)] by (auto simp: log_ok_def)
next
  case (midnight os now F m err F' m' rs)
  then have l: "mLinkType m \<in> {LinkTypeAX25, LinkTypeKISS}" by (simp add: log_ok_def)
  show ?case using rotateMidnight_rotated [OF l midnight(1)] midnight.prems by (auto simp: rotated_def)
qed (auto simp: Monitor_Close_def)

lemma untouched_steps:
  assumes "log_step\<^sup>*\<^sup>* s t" and "log_ok s" and "fst s p = Some c" and "mFile (fst (snd s)) \<noteq> Some p"
  shows "fst t p = Some c \<and> mFile (fst (snd t)) \<noteq> Some p"
  using assms(1)
proof (induction rule: rtranclp_induct)
  case (step t u)
  then show ?case using untouched_step [OF step(2)] capture_log.steps_inv [OF step(1) assms(2)] by blast
qed (use assms in simp)

section \<open>Property\<close>

text \<open>C30: The capture log keeps what others wrote and what it wrote. From the start of the log on, as long as writes
  to an open file succeed, whatever is logged and however often the log rotates, every file that was there before keeps
  its contents, the file index stays at two digits, and the open capture file, read back as a
  pcap file, gives exactly the records logged since it was opened, in order, to the microsecond.\<close>

theorem capture_log_safe:
  assumes "newFrameMonitor os (\<lambda>_. None) now ty pre F0 = (Inr m0, F1)" and "log_step\<^sup>*\<^sup>* (F1, m0, []) (F, m, rs)"
  shows "(\<forall>p c. F0 p = Some c \<longrightarrow> F p = Some c) \<and> currentVV m \<le> 99
    \<and> (\<forall>p. mFile m = Some p \<longrightarrow> (\<exists>c rd rest. F p = Some c \<and> NewReader c = Inr (rd, rest)
          \<and> Reader_LinkType rd = mLinkType m \<and> ReadRecords rd rest = (map kept rs, EOF)))"
proof -
  obtain mi where mi: "mLinkType mi \<in> {LinkTypeAX25, LinkTypeKISS}" "rotated F0 mi F1 m0"
    using newFrameMonitor_rotated [OF assms(1)] by blast
  have ok0: "log_ok (F1, m0, [])" by (rule rotated_ok [OF mi(2,1)])
  then have ok: "log_ok (F, m, rs)" using capture_log.steps_inv [OF assms(2)] by blast
  have "F p = Some c" if "F0 p = Some c" for p c
  proof -
    have "F1 p = Some c" "mFile m0 \<noteq> Some p" using mi(2) that by (auto simp: rotated_def)
    then show ?thesis using untouched_steps [OF assms(2) ok0, of p c] by simp
  qed
  moreover have "\<exists>c rd rest. F p = Some c \<and> NewReader c = Inr (rd, rest)
      \<and> Reader_LinkType rd = mLinkType m \<and> ReadRecords rd rest = (map kept rs, EOF)" if "mFile m = Some p" for p
  proof -
    let ?body = "concat (map (\<lambda>r. rec_header r @ recData r) rs)"
      and ?rd = "\<lparr>rdLinkType = mLinkType m, bigEndian = False, nano = False\<rparr>"
    have f: "F p = Some (global_header (mLinkType m) @ ?body)" "\<forall>r \<in> set rs. rec_ok r"
      and l: "mLinkType m = LinkTypeAX25 \<or> mLinkType m = LinkTypeKISS"
      using ok that by (auto simp: log_ok_def)
    have "ReadRecords ?rd ?body = (map kept rs, EOF)"
      using ReadRecords_written [OF f(2), of ?rd "[]"] by (simp add: ReadRecords_end)
    then show ?thesis using f(1) NewReader_header [OF l, of ?body]
      by (intro exI [of _ "global_header (mLinkType m) @ ?body"] exI [of _ ?rd] exI [of _ ?body]) (simp add: Reader_LinkType_def)
  qed
  ultimately show ?thesis using ok by (simp add: log_ok_def)
qed

theorem capture_log_safe_witness:
  "\<exists>m0 F1 F rs. newFrameMonitor \<lparr>statErr = (\<lambda>_. None), openErr = (\<lambda>_. None)\<rparr> (\<lambda>_. None) \<lparr>day = str ''250101'', sec = 5, nsec = 0\<rparr>
       (str ''ax25'') (str ''m'') [str ''other'' \<mapsto> [9]] = (Inr m0, F1)
     \<and> log_step\<^sup>*\<^sup>* (F1, m0, []) (F, m0, rs) \<and> length rs = 1 \<and> F (str ''other'') = Some [9]"
proof -
  let ?os = "\<lparr>statErr = (\<lambda>_. None), openErr = (\<lambda>_. None)\<rparr>" and ?now = "\<lparr>day = str ''250101'', sec = 5, nsec = 0\<rparr>"
  let ?F0 = "[str ''other'' \<mapsto> [9 :: byte]]"
  let ?path = "captureFileName (str ''m'') (str ''250101'') 0"
  let ?hdr = "global_header LinkTypeAX25"
  let ?m0 = "\<lparr>mTyp = str ''ax25'', mPrefix = str ''m'', mLinkType = LinkTypeAX25, mFile = Some ?path, currentDay = str ''250101'', currentVV = 0\<rparr>"
  have p: "?path \<noteq> str ''other''" by (simp add: captureFileName_def)
  have "[0..<100] = 0 # [1..<100]" by (simp add: upt_rec)
  then have v: "firstAvailableVV ?os ?F0 (str ''m'') (str ''250101'') = Inr 0"
    using p by (simp add: firstAvailableVV_def Let_def)
  have n: "newFrameMonitor ?os (\<lambda>_. None) ?now (str ''ax25'') (str ''m'') ?F0 = (Inr ?m0, ?F0(?path \<mapsto> ?hdr))"
    using v p Create_header [of LinkTypeAX25]
    by (simp add: newFrameMonitor_def monitorTypeAX25_def monitorTypeKISS_def openInitial_def swapTo_def Let_def)
  obtain F where w: "writeData (\<lambda>_. None) ?now [1, 2] (?F0(?path \<mapsto> ?hdr), ?m0) = (None, F)"
    by (simp add: writeData_def WriteRecord_def Let_def)
  have s: "log_step\<^sup>*\<^sup>* (?F0(?path \<mapsto> ?hdr), ?m0, []) (F, ?m0, [entry ?now [1, 2]])"
    using log_step.log [OF w, of "[]"] by auto
  have "F (str ''other'') = Some [9]" using capture_log_safe [OF n s] by simp
  with n s show ?thesis by fastforce
qed

end
