(* ===== verification/Heard.thy ===== *)
theory Heard
  imports Ax25_Prelude
begin

text \<open>
  \<open>src/cmd/bbs/heard/heard.go\<close>: the list of stations a BBS has heard, the most recent first. The
  lock makes each operation one step; the time of an entry is an argument of \<open>Add\<close>. The lemmas
  show that the list refines the history of what was heard.
\<close>

section \<open>Model\<close>

record Entry =
  eCallsign :: gostring
  eTime :: int

record HeardList =
  entries :: "Entry list"
  hMax :: int

definition Heard_New :: "int \<Rightarrow> HeardList" where
  "Heard_New m = \<lparr>entries = [], hMax = (if m \<le> 0 then 20 else m)\<rparr>"

text \<open>The search loop of \<open>Add\<close>: the entries without the first one of that callsign, if there is one.\<close>

fun remove_call :: "unicode \<Rightarrow> gostring \<Rightarrow> Entry list \<Rightarrow> Entry list option" where
  "remove_call U c [] = None"
| "remove_call U c (e # es) =
     (if strings_EqualFold U (eCallsign e) c then Some es else map_option (\<lambda>r. e # r) (remove_call U c es))"

definition Heard_Add :: "unicode \<Rightarrow> int \<Rightarrow> gostring \<Rightarrow> HeardList \<Rightarrow> HeardList" where
  "Heard_Add U now call l =
     (let c = strings_ToUpper U call; e = \<lparr>eCallsign = c, eTime = now\<rparr>
      in case remove_call U c (entries l) of
           Some es \<Rightarrow> l\<lparr>entries := e # es\<rparr>
         | None \<Rightarrow>
             let es = e # entries l
             in l\<lparr>entries := (if int (length es) > hMax l then take (nat (hMax l)) es else es)\<rparr>)"

definition Heard_Entries :: "HeardList \<Rightarrow> Entry list" where
  "Heard_Entries l = entries l"

section \<open>The list as a function of the history\<close>

text \<open>Each station once, at its most recent place.\<close>

fun latest :: "(gostring \<times> int) list \<Rightarrow> Entry list" where
  "latest [] = []"
| "latest ((c, t) # h) = \<lparr>eCallsign = c, eTime = t\<rparr> # filter (\<lambda>e. eCallsign e \<noteq> c) (latest h)"

fun Heard_Adds :: "unicode \<Rightarrow> (gostring \<times> int) list \<Rightarrow> HeardList \<Rightarrow> HeardList" where
  "Heard_Adds U [] l = l"
| "Heard_Adds U ((c, t) # h) l = Heard_Adds U h (Heard_Add U t c l)"

lemma Heard_Adds_append: "Heard_Adds U (h @ h') l = Heard_Adds U h' (Heard_Adds U h l)"
  by (induction h arbitrary: l) auto

lemma distinct_latest: "distinct (map eCallsign (latest h))"
proof (induction h)
  case (Cons x h)
  obtain c t where x: "x = (c, t)" by (cases x)
  have "distinct (map eCallsign (filter (\<lambda>e. eCallsign e \<noteq> c) (latest h)))"
    using Cons.IH by (rule distinct_map_filter)
  then show ?case using x by auto
qed simp

lemma filter_other: "f x \<notin> f ` set xs \<Longrightarrow> filter (\<lambda>y. f y \<noteq> f x) xs = xs"
  by (rule filter_True) (metis imageI)

lemma take_filter_one:
  "distinct (map f xs) \<Longrightarrow> c \<in> f ` set (take n xs) \<Longrightarrow>
     filter (\<lambda>x. f x \<noteq> c) (take n xs) = take (n - 1) (filter (\<lambda>x. f x \<noteq> c) xs)"
proof (induction xs arbitrary: n)
  case (Cons x xs)
  show ?case
  proof (cases n)
    case (Suc m)
    show ?thesis
    proof (cases "f x = c")
      case True
      have "f x \<notin> f ` set (take m xs)" using Cons.prems(1) by (auto dest: in_set_takeD)
      then have "filter (\<lambda>x. f x \<noteq> c) xs = xs" "filter (\<lambda>x. f x \<noteq> c) (take m xs) = take m xs"
        using filter_other [of f x xs] filter_other [of f x "take m xs"] Cons.prems(1) True by auto
      then show ?thesis using True Suc by simp
    next
      case False
      then have c: "c \<in> f ` set (take m xs)" using Cons.prems(2) Suc by auto
      then have "m > 0" by (cases m) auto
      then show ?thesis using Cons.IH [OF _ c] Cons.prems(1) False Suc by (simp add: take_Cons')
    qed
  qed (use Cons.prems in simp)
qed simp

lemma take_filter_none:
  "c \<notin> f ` set (take n xs) \<Longrightarrow> take (n - 1) (filter (\<lambda>x. f x \<noteq> c) xs) = take (n - 1) xs"
proof (induction xs arbitrary: n)
  case (Cons x xs)
  show ?case
  proof (cases "n - 1")
    case (Suc m)
    then have "n = Suc (Suc m)" by simp
    then show ?thesis using Cons.IH [of "Suc m"] Cons.prems by auto
  qed simp
qed simp

text \<open>The search on callsigns that are equal as they stand.\<close>

lemma remove_call_filter:
  "(\<And>e. e \<in> set es \<Longrightarrow> strings_EqualFold U (eCallsign e) c \<longleftrightarrow> eCallsign e = c) \<Longrightarrow> distinct (map eCallsign es) \<Longrightarrow>
     remove_call U c es = (if c \<in> eCallsign ` set es then Some (filter (\<lambda>e. eCallsign e \<noteq> c) es) else None)"
proof (induction es)
  case (Cons e es)
  have f: "eCallsign e = c \<Longrightarrow> filter (\<lambda>e. eCallsign e \<noteq> c) es = es"
    using filter_other [of eCallsign e es] Cons.prems(2) by auto
  show ?case using Cons.IH Cons.prems f by (cases "eCallsign e = c") auto
qed simp

definition folded :: "gostring \<Rightarrow> bool" where
  "folded c \<longleftrightarrow> is_ascii c \<and> map upper_byte c = c"

lemma upper_byte_idem: "upper_byte (upper_byte b) = upper_byte b"
proof -
  have "\<not> (0x61 \<le> b - 0x20 \<and> b - 0x20 \<le> 0x7A)" if "0x61 \<le> b" "b \<le> 0x7A"
    using that by (auto simp: word_le_nat_alt unat_sub_if')
  then show ?thesis by (auto simp: upper_byte_def)
qed

lemma upper_byte_ascii: "b < 0x80 \<Longrightarrow> upper_byte b < 0x80"
  by (auto simp: upper_byte_def word_less_nat_alt word_le_nat_alt unat_sub_if')

lemma ToUpper_folded:
  assumes "is_ascii c"
  shows "folded (strings_ToUpper U c)"
  using assms
  by (auto simp: folded_def strings_ToUpper_def is_ascii_def list_all_iff upper_byte_ascii upper_byte_idem)

lemma EqualFold_folded: "folded c \<Longrightarrow> folded d \<Longrightarrow> strings_EqualFold U c d \<longleftrightarrow> c = d"
  by (simp add: folded_def strings_EqualFold_def)

lemma latest_folded: "\<forall>(c, t) \<in> set h. folded c \<Longrightarrow> e \<in> set (latest h) \<Longrightarrow> folded (eCallsign e)"
  by (induction h rule: latest.induct) auto

lemma Heard_Add_refines:
  assumes "folded (strings_ToUpper U call)" and "\<forall>(c, t) \<in> set h. folded c" and m: "hMax l > 0"
    and l: "entries l = take (nat (hMax l)) (latest h)"
  shows "entries (Heard_Add U now call l) = take (nat (hMax l)) (latest ((strings_ToUpper U call, now) # h))"
proof -
  let ?c = "strings_ToUpper U call" and ?n = "nat (hMax l)"
  have d: "distinct (map eCallsign (entries l))"
    unfolding l using distinct_latest [of h] by (simp add: take_map [symmetric])
  have "strings_EqualFold U (eCallsign e) ?c \<longleftrightarrow> eCallsign e = ?c" if "e \<in> set (entries l)" for e
    using that l latest_folded [OF assms(2)] assms(1) by (auto simp: EqualFold_folded dest: in_set_takeD)
  note r = remove_call_filter [OF this d]
  obtain k where n: "?n = Suc k" using m by (cases ?n) auto
  show ?thesis
  proof (cases "?c \<in> eCallsign ` set (entries l)")
    case True
    then show ?thesis
      using r take_filter_one [OF distinct_latest, of ?c ?n h] l n by (simp add: Heard_Add_def Let_def)
  next
    case False
    then have "take k (filter (\<lambda>e. eCallsign e \<noteq> ?c) (latest h)) = take k (latest h)"
      using take_filter_none [of ?c eCallsign ?n "latest h"] l n by simp
    moreover have "take k (entries l) = take k (latest h)" using l n by (simp add: min_def)
    moreover have "length (entries l) \<le> k \<Longrightarrow> entries l = take k (latest h)" using l n by (auto simp: min_def split: if_splits)
    ultimately show ?thesis using False r n by (auto simp: Heard_Add_def Let_def)
  qed
qed

lemma Heard_Add_max [simp]: "hMax (Heard_Add U t c l) = hMax l"
  by (simp add: Heard_Add_def Let_def split: option.splits)

lemma Heard_Adds_max: "hMax (Heard_Adds U h l) = hMax l"
  by (induction U h l rule: Heard_Adds.induct) simp_all

lemma Heard_Adds_refine:
  assumes "\<forall>(c, t) \<in> set h. is_ascii c"
  shows "entries (Heard_Adds U h (Heard_New m))
    = take (if m \<le> 0 then 20 else nat m) (latest (rev (map (\<lambda>(c, t). (strings_ToUpper U c, t)) h)))"
  using assms
proof (induction h rule: rev_induct)
  case (snoc x h)
  let ?h = "rev (map (\<lambda>(c, t). (strings_ToUpper U c, t)) h)" and ?l = "Heard_Adds U h (Heard_New m)"
  obtain c t where x: "x = (c, t)" by (cases x)
  have f: "\<forall>(c, t) \<in> set ?h. folded c" using snoc.prems ToUpper_folded by auto
  have c: "folded (strings_ToUpper U c)" using snoc.prems x ToUpper_folded by simp
  have m: "hMax ?l = (if m \<le> 0 then 20 else m)" by (simp add: Heard_Adds_max Heard_New_def)
  then have "hMax ?l > 0" "nat (hMax ?l) = (if m \<le> 0 then 20 else nat m)" by auto
  then have "entries (Heard_Add U t c ?l) = take (if m \<le> 0 then 20 else nat m) (latest ((strings_ToUpper U c, t) # ?h))"
    using Heard_Add_refines [OF c f, of ?l t] snoc by auto
  then show ?case by (simp only: x Heard_Adds_append Heard_Adds.simps map_append rev_append list.map rev.simps
      append_Nil append_Cons prod.case)
qed (simp add: Heard_New_def)

section \<open>Properties\<close>

text \<open>C33: The heard list shows the most recently heard stations. After any series of ASCII callsigns
  has been added to a new list, its entries are the stations of the series in upper case, each
  once, with the time it was last heard, the most recent first, cut to the list's size; so no
  station is listed twice and the size is never exceeded.\<close>

theorem heard_most_recent:
  assumes "\<forall>(c, t) \<in> set h. is_ascii c"
  shows "Heard_Entries (Heard_Adds U h (Heard_New m))
      = take (if m \<le> 0 then 20 else nat m) (latest (rev (map (\<lambda>(c, t). (strings_ToUpper U c, t)) h)))
    \<and> distinct (map eCallsign (Heard_Entries (Heard_Adds U h (Heard_New m))))
    \<and> length (Heard_Entries (Heard_Adds U h (Heard_New m))) \<le> (if m \<le> 0 then 20 else nat m)"
proof -
  have "distinct (map eCallsign (take n (latest h')))" for n h'
    using distinct_latest [of h'] by (simp add: take_map [symmetric])
  then show ?thesis using Heard_Adds_refine [OF assms, of U m] by (simp add: Heard_Entries_def)
qed

theorem heard_most_recent_witness:
  "map eCallsign (Heard_Entries (Heard_Adds \<lparr>upper_unicode = id, fold_unicode = (=)\<rparr>
     [(str ''a1a'', 1), (str ''b2b'', 2), (str ''A1A'', 3), (str ''c3c'', 4)] (Heard_New 2))) = [str ''C3C'', str ''A1A'']"
  using heard_most_recent [of "[(str ''a1a'', 1), (str ''b2b'', 2), (str ''A1A'', 3), (str ''c3c'', 4)]"
      "\<lparr>upper_unicode = id, fold_unicode = (=)\<rparr>" 2]
  by (simp add: strings_ToUpper_def upper_byte_def)

end
