(* ===== verification/Go_Text.thy ===== *)
theory Go_Text
  imports Ax25_Prelude
begin

text \<open>
  More of Go's standard library, for the programs that talk to a user: the parts of \<open>errors\<close>, \<open>strings\<close>,
  \<open>fmt\<close> (padding) and \<open>unicode/utf8\<close> they call, and the arithmetic of \<open>time.Duration\<close>. Package
  \<open>fmt\<close> pads a string by its number of runes, so the UTF-8 decoder is written out; \<open>Duration.Hours\<close>
  and \<open>Duration.Minutes\<close> are floating point numbers, so IEEE rounding is written out too.
\<close>

section \<open>Package errors\<close>

fun errors_Is :: "goerr \<Rightarrow> goerr \<Rightarrow> bool" where
  "errors_Is (ErrWrap w e) t \<longleftrightarrow> ErrWrap w e = t \<or> errors_Is e t"
| "errors_Is e t \<longleftrightarrow> e = t"

section \<open>Package strings\<close>

record texts =
  cases_tables :: unicode
  space_tables :: unicode_trim
  lower_unicode :: "gostring \<Rightarrow> gostring"

text \<open>Tables for the use of ASCII only, at which concrete inputs are evaluated.\<close>

definition ascii_tables :: texts where
  "ascii_tables = \<lparr>cases_tables = \<lparr>upper_unicode = id, fold_unicode = (=)\<rparr>,
     space_tables = \<lparr>trim_func = id, trim_right_func = id\<rparr>, lower_unicode = id\<rparr>"

abbreviation ToUpper :: "texts \<Rightarrow> gostring \<Rightarrow> gostring" where
  "ToUpper X \<equiv> strings_ToUpper (cases_tables X)"

abbreviation TrimSpace :: "texts \<Rightarrow> gostring \<Rightarrow> gostring" where
  "TrimSpace X \<equiv> strings_TrimSpace (space_tables X)"

abbreviation EqualFold :: "texts \<Rightarrow> gostring \<Rightarrow> gostring \<Rightarrow> bool" where
  "EqualFold X \<equiv> strings_EqualFold (cases_tables X)"

definition lower_byte :: "byte \<Rightarrow> byte" where
  "lower_byte b = (if 0x41 \<le> b \<and> b \<le> 0x5A then b + 0x20 else b)"

definition strings_ToLower :: "texts \<Rightarrow> gostring \<Rightarrow> gostring" where
  "strings_ToLower X s = (if is_ascii s then map lower_byte s else lower_unicode X s)"

text \<open>\<open>strings.SplitN(s, sep, 2)\<close> with a separator of one byte: the part before the first separator,
  and the rest if there is one.\<close>

definition strings_SplitN2 :: "gostring \<Rightarrow> byte \<Rightarrow> gostring \<times> gostring option" where
  "strings_SplitN2 s c =
     (case strings_IndexByte s c of None \<Rightarrow> (s, None) | Some i \<Rightarrow> (take i s, Some (drop (Suc i) s)))"

definition strings_HasPrefix :: "gostring \<Rightarrow> gostring \<Rightarrow> bool" where
  "strings_HasPrefix s p \<longleftrightarrow> take (length p) s = p"

definition strings_TrimSuffix1 :: "gostring \<Rightarrow> byte \<Rightarrow> gostring" where
  "strings_TrimSuffix1 s c = (if s \<noteq> [] \<and> last s = c then butlast s else s)"

text \<open>\<open>strings.ReplaceAll\<close> of a byte, and of a pair of bytes, from left to right.\<close>

definition strings_Replace1 :: "gostring \<Rightarrow> byte \<Rightarrow> gostring \<Rightarrow> gostring" where
  "strings_Replace1 s c new = concat (map (\<lambda>b. if b = c then new else [b]) s)"

fun strings_Replace2 :: "gostring \<Rightarrow> byte \<Rightarrow> byte \<Rightarrow> gostring \<Rightarrow> gostring" where
  "strings_Replace2 (a # b # s) c d new =
     (if a = c \<and> b = d then new @ strings_Replace2 s c d new else a # strings_Replace2 (b # s) c d new)"
| "strings_Replace2 s c d new = s"

section \<open>Runes and padding\<close>

text \<open>The length of an encoding that starts with the given byte, and the bounds of its second byte;
  length 1 for ASCII and for bytes no encoding starts with.\<close>

definition rune_first :: "byte \<Rightarrow> nat \<times> byte \<times> byte" where
  "rune_first b =
     (if b < 0xC2 then (1, 0, 0) else if b < 0xE0 then (2, 0x80, 0xBF)
      else if b = 0xE0 then (3, 0xA0, 0xBF) else if b = 0xED then (3, 0x80, 0x9F)
      else if b < 0xF0 then (3, 0x80, 0xBF)
      else if b = 0xF0 then (4, 0x90, 0xBF) else if b < 0xF4 then (4, 0x80, 0xBF)
      else if b = 0xF4 then (4, 0x80, 0x8F) else (1, 0, 0))"

definition rune_cont :: "byte \<Rightarrow> bool" where
  "rune_cont b \<longleftrightarrow> 0x80 \<le> b \<and> b \<le> 0xBF"

definition rune_size :: "byte \<Rightarrow> gostring \<Rightarrow> nat" where
  "rune_size b bs =
     (case rune_first b of (n, lo, hi) \<Rightarrow>
        if n \<le> 1 \<or> length bs < n - 1 \<or> bs ! 0 < lo \<or> hi < bs ! 0
          \<or> \<not> list_all rune_cont (take (n - 2) (drop 1 bs)) then 1 else n)"

fun utf8_RuneCountInString :: "gostring \<Rightarrow> nat" where
  "utf8_RuneCountInString [] = 0"
| "utf8_RuneCountInString (b # bs) = Suc (utf8_RuneCountInString (drop (rune_size b bs - 1) bs))"

text \<open>The verbs \<open>%-ns\<close>, \<open>%nd\<close> and \<open>%02d\<close>.\<close>

definition fmt_left :: "nat \<Rightarrow> gostring \<Rightarrow> gostring" where
  "fmt_left n s = s @ replicate (n - utf8_RuneCountInString s) 0x20"

definition fmt_right :: "nat \<Rightarrow> gostring \<Rightarrow> gostring" where
  "fmt_right n s = replicate (n - utf8_RuneCountInString s) 0x20 @ s"

definition fmt_02i :: "int \<Rightarrow> gostring" where
  "fmt_02i i = (if i < 0 then fmt_int i else fmt_02d (nat i))"

section \<open>Durations\<close>

text \<open>A duration is an int64 of nanoseconds. Products wrap around, differences of times saturate.\<close>

definition wrap64 :: "int \<Rightarrow> int" where
  "wrap64 x = (x + 2 ^ 63) mod 2 ^ 64 - 2 ^ 63"

definition time_Sub :: "int \<Rightarrow> int \<Rightarrow> int" where
  "time_Sub t u = max (- (2 ^ 63)) (min (2 ^ 63 - 1) (t - u))"

definition Second :: int where "Second = 1000000000"

text \<open>Go's division and remainder of integers round towards zero.\<close>

definition go_quot :: "int \<Rightarrow> int \<Rightarrow> int" where
  "go_quot a b = sgn a * sgn b * (\<bar>a\<bar> div \<bar>b\<bar>)"

definition go_rem :: "int \<Rightarrow> int \<Rightarrow> int" where
  "go_rem a b = sgn a * (\<bar>a\<bar> mod \<bar>b\<bar>)"

text \<open>The float64 nearest to a fraction \<open>n / d\<close> below \<open>2 ^ 52\<close>, again as a fraction: the significand has
  53 bits, ties go to the even neighbour.\<close>

fun ilog2 :: "nat \<Rightarrow> nat" where
  "ilog2 n = (if n < 2 then 0 else Suc (ilog2 (n div 2)))"

declare ilog2.simps [simp del]

definition round_even :: "nat \<Rightarrow> nat \<Rightarrow> nat" where
  "round_even n d =
     (let q = n div d; r = n mod d in if 2 * r < d \<or> 2 * r = d \<and> even q then q else Suc q)"

definition f64 :: "nat \<Rightarrow> nat \<Rightarrow> nat \<times> nat" where
  "f64 n d =
     (let s = 52 + ilog2 d - ilog2 n;
          s = (if n * 2 ^ s < 2 ^ 52 * d then Suc s else s)
      in if n = 0 then (0, 1) else (round_even (n * 2 ^ s) d, 2 ^ s))"

text \<open>\<open>Duration.Hours\<close> and \<open>Duration.Minutes\<close> divide by the unit and add the remainder as a fraction;
  the conversion to int drops the fraction again.\<close>

definition whole_units :: "int \<Rightarrow> int \<Rightarrow> int" where
  "whole_units unit d =
     (let n = nat \<bar>d\<bar>; u = nat unit; (a, b) = f64 (n mod u) u; (p, q) = f64 (n div u * b + a) b
      in sgn d * int (p div q))"

definition Duration_Hours :: "int \<Rightarrow> int" where
  "Duration_Hours d = whole_units (3600 * Second) d"

definition Duration_Minutes :: "int \<Rightarrow> int" where
  "Duration_Minutes d = whole_units (60 * Second) d"

section \<open>Lemmas\<close>

lemma is_ascii_str: "list_all (\<lambda>c. of_char c < (0x80 :: byte)) s \<Longrightarrow> is_ascii (str s)"
  by (induction s) auto

lemma SplitN2_plain: "c \<notin> set s \<Longrightarrow> strings_SplitN2 s c = (s, None)"
  by (simp add: strings_SplitN2_def IndexByte_None [THEN iffD2])

lemma SplitN2_append: "c \<notin> set s \<Longrightarrow> strings_SplitN2 (s @ c # t) c = (s, Some t)"
  by (simp add: strings_SplitN2_def IndexByte_append)

lemma wrap64_id: "- (2 ^ 63) \<le> x \<Longrightarrow> x < 2 ^ 63 \<Longrightarrow> wrap64 x = x"
  by (simp add: wrap64_def)

lemma TrimSpace_ends:
  assumes "s \<noteq> []" and "\<not> ascii_space (hd s)" "\<not> ascii_space (last s)" and "hd s < 0x80" "last s < 0x80"
  shows "strings_TrimSpace T s = s"
proof -
  have d: "dropWhile ascii_space s = s" using assms(1,2) by (cases s) auto
  have "dropWhile ascii_space (rev s) = rev s" using assms(1,3) by (cases s rule: rev_cases) auto
  then show ?thesis using d assms(4,5) by (simp add: strings_TrimSpace_def Let_def not_le [symmetric])
qed

end
