(* ===== verification/Bbs_Store.thy ===== *)
theory Bbs_Store
  imports Go_Text "HOL-Library.Monad_Syntax"
begin

text \<open>
  \<open>src/cmd/bbs/store\<close>: the interface of the BBS's message store (\<open>store.go\<close>) and its implementation
  over SQLite (\<open>sqlite.go\<close>). A Go interface value is a record of its methods over a state; every
  method returns the state it leaves. The locale \<open>message_store\<close> says what the comments of the
  interface promise, over the list of stored messages.

  The database driver is not part of the repository: it is the parameter \<open>sqldb\<close>, two functions that
  take the text of a statement with its arguments. What the store relies on is \<open>sqlite_documented\<close>,
  the documented meaning of the statements \<open>sqlite.go\<close> executes, including the choice of the keys of
  an AUTOINCREMENT table. The main lemma is that under it \<open>SQLiteStore\<close> is a message store. Numbers
  and paths in the texts of errors, which are only logged, are left out.
\<close>

section \<open>The interface\<close>

text \<open>A \<open>time.Time\<close> read from the database: year, month, day, hours, minutes, seconds, nanoseconds.\<close>

type_synonym timestamp = "nat \<times> nat \<times> nat \<times> nat \<times> nat \<times> nat \<times> nat"

definition zero_time :: timestamp where
  "zero_time = (1, 1, 1, 0, 0, 0, 0)"

record MessageIndex =
  ID :: "32 word"
  From :: gostring
  To :: gostring
  Subject :: gostring
  Flags :: byte
  Size :: int
  CreatedAt :: timestamp

record Message = MessageIndex +
  Body :: gostring

definition index_of :: "Message \<Rightarrow> MessageIndex" where
  "index_of m = \<lparr>ID = ID m, From = From m, To = To m, Subject = Subject m, Flags = Flags m, Size = Size m,
     CreatedAt = CreatedAt m\<rparr>"

record 's MessageStore =
  msClose :: "'s \<Rightarrow> goerr option \<times> 's"
  msStore :: "gostring \<Rightarrow> gostring \<Rightarrow> gostring \<Rightarrow> gostring \<Rightarrow> byte \<Rightarrow> 's \<Rightarrow> (goerr + 32 word) \<times> 's"
  msRead :: "32 word \<Rightarrow> 's \<Rightarrow> (goerr + Message) \<times> 's"
  msDelete :: "32 word \<Rightarrow> 's \<Rightarrow> goerr option \<times> 's"
  msFind :: "32 word \<Rightarrow> 's \<Rightarrow> (goerr + MessageIndex option) \<times> 's"
  msList :: "int \<Rightarrow> bool \<Rightarrow> gostring \<Rightarrow> bool \<Rightarrow> 's \<Rightarrow> (goerr + MessageIndex list) \<times> 's"
  msGetLastRead :: "gostring \<Rightarrow> 's \<Rightarrow> (goerr + 32 word) \<times> 's"
  msSetLastRead :: "gostring \<Rightarrow> 32 word \<Rightarrow> 's \<Rightarrow> goerr option \<times> 's"

definition flagPrivate :: byte where [simp]: "flagPrivate = 0x01"
definition flagBulletin :: byte where [simp]: "flagBulletin = 0x02"

text \<open>What \<open>List\<close> selects, and the newest \<open>limit\<close> of a list in ascending order.\<close>

definition list_selects :: "bool \<Rightarrow> gostring \<Rightarrow> bool \<Rightarrow> MessageIndex \<Rightarrow> bool" where
  "list_selects mineOnly call isSysop m \<longleftrightarrow>
     From m = call \<or> To m = call \<or> \<not> mineOnly \<and> (isSysop \<or> Flags m AND flagBulletin \<noteq> 0)"

definition newest :: "int \<Rightarrow> 'a list \<Rightarrow> 'a list" where
  "newest limit xs = (if limit > 0 then drop (length xs - nat limit) xs else xs)"

text \<open>The promises: \<open>msgs\<close> is the list of the stored messages by ascending number, \<open>marks\<close> the last-read
  number of a station (0 if it has none), \<open>ok\<close> a state in which every message number fits 32 bits.\<close>

locale message_store =
  fixes S :: "'s MessageStore"
    and msgs :: "'s \<Rightarrow> Message list"
    and marks :: "'s \<Rightarrow> gostring \<Rightarrow> 32 word"
    and ok :: "'s \<Rightarrow> bool"
  assumes msgs_ascending: "ok s \<Longrightarrow> sorted_wrt (<) (map ID (msgs s))"
    and store_appends: "ok s \<Longrightarrow> ok s' \<Longrightarrow> msStore S f t subj body fl s = (Inr i, s') \<Longrightarrow>
      (\<exists>m. msgs s' = msgs s @ [m] \<and> ID m = i \<and> From m = f \<and> To m = t \<and> Subject m = subj \<and> Body m = body
         \<and> Flags m = fl \<and> Size m = int (length body)) \<and> marks s' = marks s"
    and store_error: "ok s \<Longrightarrow> msStore S f t subj body fl s = (Inl e, s') \<Longrightarrow>
      ok s' \<and> msgs s' = msgs s \<and> marks s' = marks s"
    and read_keeps: "ok s \<Longrightarrow> msRead S i s = (r, s') \<Longrightarrow> ok s' \<and> msgs s' = msgs s \<and> marks s' = marks s"
    and read_returns: "ok s \<Longrightarrow> msRead S i s = (Inr m, s') \<Longrightarrow> m \<in> set (msgs s) \<and> ID m = i"
    and delete_removes: "ok s \<Longrightarrow> msDelete S i s = (None, s') \<Longrightarrow>
      ok s' \<and> msgs s' = filter (\<lambda>m. ID m \<noteq> i) (msgs s) \<and> marks s' = marks s \<and> i \<in> ID ` set (msgs s)"
    and delete_error: "ok s \<Longrightarrow> msDelete S i s = (Some e, s') \<Longrightarrow> ok s' \<and> msgs s' = msgs s \<and> marks s' = marks s"
    and find_keeps: "ok s \<Longrightarrow> msFind S i s = (rf, s') \<Longrightarrow> ok s' \<and> msgs s' = msgs s \<and> marks s' = marks s"
    and find_returns: "ok s \<Longrightarrow> msFind S i s = (Inr (Some x), s') \<Longrightarrow> \<exists>m \<in> set (msgs s). ID m = i \<and> x = index_of m"
    and list_keeps: "ok s \<Longrightarrow> msList S n mine call sysop s = (rl, s') \<Longrightarrow> ok s' \<and> msgs s' = msgs s \<and> marks s' = marks s"
    and list_returns: "ok s \<Longrightarrow> msList S n mine call sysop s = (Inr xs, s') \<Longrightarrow>
      xs = newest n (filter (list_selects mine call sysop) (map index_of (msgs s)))"
    and mark_keeps: "ok s \<Longrightarrow> msGetLastRead S call s = (rm, s') \<Longrightarrow> ok s' \<and> msgs s' = msgs s \<and> marks s' = marks s"
    and mark_returns: "ok s \<Longrightarrow> msGetLastRead S call s = (Inr i, s') \<Longrightarrow> i = marks s call"
    and mark_error: "ok s \<Longrightarrow> msSetLastRead S call i s = (Some e, s') \<Longrightarrow> ok s' \<and> msgs s' = msgs s \<and> marks s' = marks s"
    and mark_sets: "ok s \<Longrightarrow> msSetLastRead S call i s = (None, s') \<Longrightarrow>
      ok s' \<and> msgs s' = msgs s \<and> marks s' = (marks s)(call := i)"
begin

text \<open>A message just stored is the only one of its number, and reading it returns it.\<close>

lemma stored_number_fresh:
  assumes "ok s" "ok s'" "msStore S f t subj body fl s = (Inr i, s')"
  shows "i \<notin> ID ` set (msgs s)"
proof -
  obtain m where m: "msgs s' = msgs s @ [m]" "ID m = i" using store_appends [OF assms] by blast
  then show ?thesis using msgs_ascending [OF assms(2)] by (auto simp: sorted_wrt_append)
qed

lemma number_unique: "ok s \<Longrightarrow> m \<in> set (msgs s) \<Longrightarrow> m' \<in> set (msgs s) \<Longrightarrow> ID m = ID m' \<Longrightarrow> m = m'"
proof -
  assume s: "ok s" "m \<in> set (msgs s)" "m' \<in> set (msgs s)" "ID m = ID m'"
  have "distinct (map ID (msgs s))"
    using msgs_ascending [OF s(1)] strict_sorted_iff by blast
  then show ?thesis using s by (auto simp: distinct_map dest: inj_onD)
qed

lemma read_after_store:
  assumes "ok s" "ok s'" "msStore S f t subj body fl s = (Inr i, s')" and "msRead S i s' = (Inr m, s'')"
  shows "From m = f \<and> To m = t \<and> Subject m = subj \<and> Body m = body \<and> Flags m = fl"
proof -
  obtain m' where m': "msgs s' = msgs s @ [m']" "ID m' = i" "From m' = f" "To m' = t" "Subject m' = subj" "Body m' = body"
    "Flags m' = fl" using store_appends [OF assms(1-3)] by blast
  have "m \<in> set (msgs s')" "ID m = i" using read_returns [OF assms(2,4)] by auto
  then have "m = m'" using number_unique [OF assms(2), of m m'] m' by simp
  with m' show ?thesis by simp
qed

end

section \<open>The driver\<close>

datatype sqlval = SqlInt int | SqlText gostring | SqlTime gostring | SqlNull

record sqlResult =
  LastInsertId :: "goerr + int"
  RowsAffected :: "int \<times> goerr option"

text \<open>\<open>sqlQuery\<close> returns an error, or the rows with the error \<open>rows.Err()\<close> reports at their end.\<close>

record 'd sqldb =
  sqlExec :: "string \<Rightarrow> sqlval list \<Rightarrow> 'd \<Rightarrow> (goerr + sqlResult) \<times> 'd"
  sqlQuery :: "string \<Rightarrow> sqlval list \<Rightarrow> 'd \<Rightarrow> (goerr + sqlval list list \<times> goerr option) \<times> 'd"
  sqlClose :: "'d \<Rightarrow> goerr option \<times> 'd"

text \<open>\<open>Scan\<close> into an unsigned number, an int and a string. A value of a DATETIME column may come as a
  time, which is scanned as its RFC 3339 text.\<close>

definition scan_uint :: "nat \<Rightarrow> sqlval \<Rightarrow> nat option" where
  "scan_uint bits v =
     (case v of SqlInt i \<Rightarrow> if 0 \<le> i \<and> i < 2 ^ bits then Some (nat i) else None
      | SqlText t \<Rightarrow> strconv_ParseUint10 t bits | _ \<Rightarrow> None)"

definition scan_int :: "sqlval \<Rightarrow> int option" where
  "scan_int v = (case v of SqlInt i \<Rightarrow> Some i | SqlText t \<Rightarrow> strconv_Atoi t | _ \<Rightarrow> None)"

definition scan_string :: "sqlval \<Rightarrow> gostring option" where
  "scan_string v = (case v of SqlInt i \<Rightarrow> Some (fmt_int i) | SqlText t \<Rightarrow> Some t | SqlTime t \<Rightarrow> Some t | SqlNull \<Rightarrow> None)"

text \<open>\<open>QueryRow(...).Scan\<close>: no row is told apart from an error.\<close>

datatype 'a row_result = NoRows | RowErr goerr | RowOk 'a

definition scan_first ::
  "(sqlval list \<Rightarrow> 'a option) \<Rightarrow> goerr + sqlval list list \<times> goerr option \<Rightarrow> 'a row_result" where
  "scan_first scan r =
     (case r of
        Inl e \<Rightarrow> RowErr e
      | Inr ([], None) \<Rightarrow> NoRows
      | Inr ([], Some e) \<Rightarrow> RowErr e
      | Inr (row # _, _) \<Rightarrow> (case scan row of None \<Rightarrow> RowErr (ErrMsg ''sql: Scan error'') | Some x \<Rightarrow> RowOk x))"

section \<open>time.Parse\<close>

text \<open>\<open>time.Parse("2006-01-02 15:04:05", s)\<close>: two digits each for month, day, minute and second, one or two
  for the hour, an optional fraction of the second, any number of spaces.\<close>

definition time_digits :: "bool \<Rightarrow> gostring \<Rightarrow> (nat \<times> gostring) option" where
  "time_digits fixed s =
     (case s of [] \<Rightarrow> None
      | a # t \<Rightarrow>
          if \<not> is_digit a then None
          else case t of
            b # u \<Rightarrow> if is_digit b then Some (digits_value 0 [a, b], u) else if fixed then None else Some (digits_value 0 [a], t)
          | [] \<Rightarrow> if fixed then None else Some (digits_value 0 [a], t))"

definition time_skip :: "byte \<Rightarrow> gostring \<Rightarrow> gostring option" where
  "time_skip c s = (case s of [] \<Rightarrow> None | b # t \<Rightarrow> if b = c then Some t else None)"

definition time_spaces :: "gostring \<Rightarrow> gostring option" where
  "time_spaces s = (if s \<noteq> [] \<and> hd s \<noteq> 0x20 then None else Some (dropWhile (\<lambda>b. b = 0x20) s))"

definition time_fraction :: "gostring \<Rightarrow> nat \<times> gostring" where
  "time_fraction s =
     (if length s \<ge> 2 \<and> (hd s = 0x2E \<or> hd s = 0x2C) \<and> is_digit (s ! 1)
      then let ds = takeWhile is_digit (tl s); nine = take 9 ds
           in (digits_value 0 nine * 10 ^ (9 - length nine), dropWhile is_digit (tl s))
      else (0, s))"

definition is_leap :: "nat \<Rightarrow> bool" where
  "is_leap y \<longleftrightarrow> 4 dvd y \<and> (\<not> 100 dvd y \<or> 400 dvd y)"

definition days_in :: "nat \<Rightarrow> nat \<Rightarrow> nat" where
  "days_in m y =
     (if m = 2 then (if is_leap y then 29 else 28) else if m \<in> {4, 6, 9, 11} then 30 else 31)"

definition time_Parse :: "gostring \<Rightarrow> timestamp option" where
  "time_Parse s = do {
     (year, s) \<leftarrow> (if length s \<ge> 4 \<and> list_all is_digit (take 4 s) then Some (digits_value 0 (take 4 s), drop 4 s) else None);
     s \<leftarrow> time_skip 0x2D s;
     (month, s) \<leftarrow> time_digits True s;
     (if 1 \<le> month \<and> month \<le> 12 then Some () else None);
     s \<leftarrow> time_skip 0x2D s;
     (day, s) \<leftarrow> time_digits True s;
     s \<leftarrow> time_spaces s;
     (hour, s) \<leftarrow> time_digits False s;
     s \<leftarrow> (if hour < 24 then time_skip 0x3A s else None);
     (minute, s) \<leftarrow> time_digits True s;
     s \<leftarrow> (if minute < 60 then time_skip 0x3A s else None);
     (sec, s) \<leftarrow> time_digits True s;
     let (nsec, s) = time_fraction s;
     if sec < 60 \<and> s = [] \<and> 1 \<le> day \<and> day \<le> days_in month year
     then Some (year, month, day, hour, minute, sec, nsec) else None
   }"

definition created :: "gostring \<Rightarrow> timestamp" where
  "created s = (case time_Parse s of None \<Rightarrow> zero_time | Some t \<Rightarrow> t)"

section \<open>SQLiteStore\<close>

text \<open>The schema with its white space folded; \<open>quotes\<close> is the empty SQL string.\<close>

definition quotes :: string where
  "quotes = [CHR 0x27, CHR 0x27]"

definition createTables_schema :: string where
  "createTables_schema =
     ''CREATE TABLE IF NOT EXISTS messages (id INTEGER PRIMARY KEY AUTOINCREMENT, from_call TEXT NOT NULL, ''
     @ ''to_call TEXT NOT NULL, subject TEXT NOT NULL DEFAULT '' @ quotes @ '', body TEXT NOT NULL DEFAULT '' @ quotes
     @ '', flags INTEGER NOT NULL DEFAULT 0, size INTEGER NOT NULL DEFAULT 0, ''
     @ ''created_at DATETIME NOT NULL DEFAULT CURRENT_TIMESTAMP); ''
     @ ''CREATE TABLE IF NOT EXISTS last_read (callsign TEXT PRIMARY KEY, message_id INTEGER NOT NULL DEFAULT 0); ''
     @ ''CREATE INDEX IF NOT EXISTS idx_messages_to ON messages(to_call); ''
     @ ''CREATE INDEX IF NOT EXISTS idx_messages_from ON messages(from_call);''"

definition createTables :: "'d sqldb \<Rightarrow> 'd \<Rightarrow> goerr option \<times> 'd" where
  "createTables D d =
     (case sqlExec D createTables_schema [] d of
        (Inl e, d) \<Rightarrow> (Some (ErrWrap ''sqlite: create tables'' e), d)
      | (Inr _, d) \<Rightarrow> (None, d))"

text \<open>\<open>NewSQLiteStore\<close>, given what \<open>sql.Open\<close> returns. On an error the database is closed again.\<close>

definition NewSQLiteStore :: "'d sqldb \<Rightarrow> goerr + 'd \<Rightarrow> goerr + 'd" where
  "NewSQLiteStore D opened =
     (case opened of
        Inl e \<Rightarrow> Inl (ErrWrap ''sqlite: open'' e)
      | Inr d \<Rightarrow>
          (case sqlExec D ''PRAGMA journal_mode=WAL'' [] d of
             (Inl e, d) \<Rightarrow> Inl (ErrWrap ''sqlite: set WAL'' e)
           | (Inr _, d) \<Rightarrow>
               (case createTables D d of (Some e, d) \<Rightarrow> Inl e | (None, d) \<Rightarrow> Inr d)))"

definition SQLite_Close :: "'d sqldb \<Rightarrow> 'd \<Rightarrow> goerr option \<times> 'd" where
  "SQLite_Close D d = sqlClose D d"

definition insert_sql :: string where
  "insert_sql = ''INSERT INTO messages (from_call, to_call, subject, body, flags, size) VALUES (?, ?, ?, ?, ?, ?)''"

definition SQLite_Store ::
  "'d sqldb \<Rightarrow> gostring \<Rightarrow> gostring \<Rightarrow> gostring \<Rightarrow> gostring \<Rightarrow> byte \<Rightarrow> 'd \<Rightarrow> (goerr + 32 word) \<times> 'd" where
  "SQLite_Store D fromCall toCall subject body flags d =
     (case sqlExec D insert_sql
             [SqlText fromCall, SqlText toCall, SqlText subject, SqlText body, SqlInt (uint flags), SqlInt (int (length body))] d of
        (Inl e, d) \<Rightarrow> (Inl (ErrWrap ''sqlite: store'' e), d)
      | (Inr res, d) \<Rightarrow>
          (case LastInsertId res of
             Inl e \<Rightarrow> (Inl (ErrWrap ''sqlite: last insert id'' e), d)
           | Inr i \<Rightarrow> (Inr (word_of_int i), d)))"

definition read_sql :: string where
  "read_sql = ''SELECT id, from_call, to_call, subject, body, flags, size, created_at FROM messages WHERE id = ?''"

definition scan_message :: "sqlval list \<Rightarrow> Message option" where
  "scan_message row =
     (case row of [i, f, t, s, b, fl, sz, c] \<Rightarrow> do {
        i \<leftarrow> scan_uint 32 i; f \<leftarrow> scan_string f; t \<leftarrow> scan_string t; s \<leftarrow> scan_string s; b \<leftarrow> scan_string b;
        fl \<leftarrow> scan_uint 8 fl; sz \<leftarrow> scan_int sz; c \<leftarrow> scan_string c;
        Some \<lparr>ID = of_nat i, From = f, To = t, Subject = s, Flags = of_nat fl, Size = sz, CreatedAt = created c, Body = b\<rparr>
      } | _ \<Rightarrow> None)"

definition SQLite_Read :: "'d sqldb \<Rightarrow> 32 word \<Rightarrow> 'd \<Rightarrow> (goerr + Message) \<times> 'd" where
  "SQLite_Read D i d =
     (let (r, d) = sqlQuery D read_sql [SqlInt (uint i)] d
      in case scan_first scan_message r of
           RowOk m \<Rightarrow> (Inr m, d)
         | NoRows \<Rightarrow> (Inl (ErrMsg ''message not found''), d)
         | RowErr e \<Rightarrow> (Inl (ErrWrap ''sqlite: read'' e), d))"

definition delete_sql :: string where
  "delete_sql = ''DELETE FROM messages WHERE id = ?''"

definition SQLite_Delete :: "'d sqldb \<Rightarrow> 32 word \<Rightarrow> 'd \<Rightarrow> goerr option \<times> 'd" where
  "SQLite_Delete D i d =
     (case sqlExec D delete_sql [SqlInt (uint i)] d of
        (Inl e, d) \<Rightarrow> (Some (ErrWrap ''sqlite: delete'' e), d)
      | (Inr res, d) \<Rightarrow>
          if fst (RowsAffected res) = 0 then (Some (ErrMsg ''message not found''), d) else (None, d))"

definition index_cols :: string where
  "index_cols = ''id, from_call, to_call, subject, flags, size, created_at''"

definition find_sql :: string where
  "find_sql = ''SELECT id, from_call, to_call, subject, flags, size, created_at FROM messages WHERE id = ?''"

definition scan_index :: "sqlval list \<Rightarrow> MessageIndex option" where
  "scan_index row =
     (case row of [i, f, t, s, fl, sz, c] \<Rightarrow> do {
        i \<leftarrow> scan_uint 32 i; f \<leftarrow> scan_string f; t \<leftarrow> scan_string t; s \<leftarrow> scan_string s;
        fl \<leftarrow> scan_uint 8 fl; sz \<leftarrow> scan_int sz; c \<leftarrow> scan_string c;
        Some \<lparr>ID = of_nat i, From = f, To = t, Subject = s, Flags = of_nat fl, Size = sz, CreatedAt = created c\<rparr>
      } | _ \<Rightarrow> None)"

definition SQLite_Find :: "'d sqldb \<Rightarrow> 32 word \<Rightarrow> 'd \<Rightarrow> (goerr + MessageIndex option) \<times> 'd" where
  "SQLite_Find D i d =
     (let (r, d) = sqlQuery D find_sql [SqlInt (uint i)] d
      in case scan_first scan_index r of
           RowOk x \<Rightarrow> (Inr (Some x), d)
         | NoRows \<Rightarrow> (Inr None, d)
         | RowErr e \<Rightarrow> (Inl (ErrWrap ''sqlite: find'' e), d))"

definition where_mine :: string where "where_mine = '' WHERE from_call = ? OR to_call = ?''"
definition where_visible :: string where "where_visible = '' WHERE (flags & ?) != 0 OR to_call = ? OR from_call = ?''"

definition list_inner :: "string \<Rightarrow> string" where
  "list_inner w = ''SELECT '' @ index_cols @ '' FROM messages'' @ w"

definition list_limited :: "string \<Rightarrow> string" where
  "list_limited w = ''SELECT '' @ index_cols @ '' FROM ('' @ list_inner w @ '' ORDER BY id DESC LIMIT ?) ORDER BY id ASC''"

definition list_unlimited :: "string \<Rightarrow> string" where
  "list_unlimited w = list_inner w @ '' ORDER BY id ASC''"

definition list_where :: "bool \<Rightarrow> gostring \<Rightarrow> bool \<Rightarrow> string \<times> sqlval list" where
  "list_where mineOnly callsign isSysop =
     (if mineOnly then (where_mine, [SqlText callsign, SqlText callsign])
      else if \<not> isSysop then (where_visible, [SqlInt (uint flagBulletin), SqlText callsign, SqlText callsign])
      else ([], []))"

fun scan_rows :: "sqlval list list \<Rightarrow> MessageIndex list option" where
  "scan_rows [] = Some []"
| "scan_rows (row # rows) = (case scan_index row of None \<Rightarrow> None | Some x \<Rightarrow> map_option ((#) x) (scan_rows rows))"

definition SQLite_List :: "'d sqldb \<Rightarrow> int \<Rightarrow> bool \<Rightarrow> gostring \<Rightarrow> bool \<Rightarrow> 'd \<Rightarrow> (goerr + MessageIndex list) \<times> 'd" where
  "SQLite_List D limit mineOnly callsign isSysop d =
     (let (w, args) = list_where mineOnly callsign isSysop;
          (query, args) = (if limit > 0 then (list_limited w, args @ [SqlInt limit]) else (list_unlimited w, args))
      in case sqlQuery D query args d of
           (Inl e, d) \<Rightarrow> (Inl (ErrWrap ''sqlite: list'' e), d)
         | (Inr (rows, err), d) \<Rightarrow>
             (case scan_rows rows of
                None \<Rightarrow> (Inl (ErrWrap ''sqlite: list scan'' (ErrMsg ''sql: Scan error'')), d)
              | Some xs \<Rightarrow> (case err of Some e \<Rightarrow> (Inl e, d) | None \<Rightarrow> (Inr xs, d))))"

definition mark_sql :: string where
  "mark_sql = ''SELECT message_id FROM last_read WHERE callsign = ?''"

definition SQLite_GetLastRead :: "'d sqldb \<Rightarrow> gostring \<Rightarrow> 'd \<Rightarrow> (goerr + 32 word) \<times> 'd" where
  "SQLite_GetLastRead D callsign d =
     (let (r, d) = sqlQuery D mark_sql [SqlText callsign] d
      in case scan_first (\<lambda>row. case row of [i] \<Rightarrow> scan_uint 32 i | _ \<Rightarrow> None) r of
           RowOk i \<Rightarrow> (Inr (of_nat i), d)
         | NoRows \<Rightarrow> (Inr 0, d)
         | RowErr e \<Rightarrow> (Inl (ErrWrap ''sqlite: get last read'' e), d))"

definition set_mark_sql :: string where
  "set_mark_sql =
     ''INSERT INTO last_read (callsign, message_id) VALUES (?, ?) ON CONFLICT(callsign) DO UPDATE SET message_id = ?''"

definition SQLite_SetLastRead :: "'d sqldb \<Rightarrow> gostring \<Rightarrow> 32 word \<Rightarrow> 'd \<Rightarrow> goerr option \<times> 'd" where
  "SQLite_SetLastRead D callsign i d =
     (case sqlExec D set_mark_sql [SqlText callsign, SqlInt (uint i), SqlInt (uint i)] d of
        (Inl e, d) \<Rightarrow> (Some (ErrWrap ''sqlite: set last read'' e), d)
      | (Inr _, d) \<Rightarrow> (None, d))"

definition SQLiteStore :: "'d sqldb \<Rightarrow> 'd MessageStore" where
  "SQLiteStore D = \<lparr>msClose = SQLite_Close D, msStore = SQLite_Store D, msRead = SQLite_Read D,
     msDelete = SQLite_Delete D, msFind = SQLite_Find D, msList = SQLite_List D,
     msGetLastRead = SQLite_GetLastRead D, msSetLastRead = SQLite_SetLastRead D\<rparr>"

section \<open>What the store relies on\<close>

record msg_row =
  rId :: int
  rFrom :: gostring
  rTo :: gostring
  rSubject :: gostring
  rBody :: gostring
  rFlags :: int
  rSize :: int
  rCreated :: sqlval

definition row_message :: "msg_row \<Rightarrow> sqlval list" where
  "row_message r = [SqlInt (rId r), SqlText (rFrom r), SqlText (rTo r), SqlText (rSubject r), SqlText (rBody r),
     SqlInt (rFlags r), SqlInt (rSize r), rCreated r]"

definition row_index :: "msg_row \<Rightarrow> sqlval list" where
  "row_index r = [SqlInt (rId r), SqlText (rFrom r), SqlText (rTo r), SqlText (rSubject r),
     SqlInt (rFlags r), SqlInt (rSize r), rCreated r]"

text \<open>The rows a WHERE clause selects.\<close>

definition where_rows :: "string \<Rightarrow> sqlval list \<Rightarrow> (msg_row \<Rightarrow> bool) option" where
  "where_rows w args =
     (case args of
        [] \<Rightarrow> if w = [] then Some (\<lambda>_. True) else None
      | [SqlText a, SqlText b] \<Rightarrow> if w = where_mine then Some (\<lambda>r. rFrom r = a \<or> rTo r = b) else None
      | [SqlInt f, SqlText a, SqlText b] \<Rightarrow>
          if w = where_visible then Some (\<lambda>r. rFlags r AND f \<noteq> 0 \<or> rTo r = a \<or> rFrom r = b) else None
      | _ \<Rightarrow> None)"

text \<open>A query that should return the given rows: they come in order, all of them unless an error is
  reported, and the tables stay as they are.\<close>

definition returns_rows ::
  "('d \<Rightarrow> 'x) \<Rightarrow> (goerr + sqlval list list \<times> goerr option) \<times> 'd \<Rightarrow> sqlval list list \<Rightarrow> 'd \<Rightarrow> bool" where
  "returns_rows view q rows d \<longleftrightarrow>
     (case q of (r, d') \<Rightarrow> view d' = view d
        \<and> (case r of Inl e \<Rightarrow> True | Inr (got, err) \<Rightarrow> (\<exists>k. got = take k rows) \<and> (err = None \<longrightarrow> got = rows)))"

text \<open>The documented meaning of the statements of \<open>sqlite.go\<close>, over the rows of table \<open>messages\<close> in order of
  their key and the entries of table \<open>last_read\<close>. A statement that fails changes nothing; the key
  of an inserted row is positive and larger than every key of the table.\<close>

definition sqlite_documented ::
  "'d sqldb \<Rightarrow> ('d \<Rightarrow> msg_row list) \<Rightarrow> ('d \<Rightarrow> gostring \<rightharpoonup> int) \<Rightarrow> bool" where
  "sqlite_documented D table lastread \<longleftrightarrow>
     (\<forall>f t s b fl n d r d'. sqlExec D insert_sql [SqlText f, SqlText t, SqlText s, SqlText b, SqlInt fl, SqlInt n] d = (r, d') \<longrightarrow>
        (case r of
           Inl e \<Rightarrow> table d' = table d \<and> lastread d' = lastread d
         | Inr res \<Rightarrow> \<exists>i c. LastInsertId res = Inr i \<and> 0 < i \<and> (\<forall>x \<in> set (table d). rId x < i)
             \<and> table d' = table d @ [\<lparr>rId = i, rFrom = f, rTo = t, rSubject = s, rBody = b, rFlags = fl, rSize = n, rCreated = c\<rparr>]
             \<and> lastread d' = lastread d))
   \<and> (\<forall>i d r d'. sqlExec D delete_sql [SqlInt i] d = (r, d') \<longrightarrow>
        (case r of
           Inl e \<Rightarrow> table d' = table d \<and> lastread d' = lastread d
         | Inr res \<Rightarrow> table d' = filter (\<lambda>x. rId x \<noteq> i) (table d) \<and> lastread d' = lastread d
             \<and> fst (RowsAffected res) = int (length (filter (\<lambda>x. rId x = i) (table d)))))
   \<and> (\<forall>c i d r d'. sqlExec D set_mark_sql [SqlText c, SqlInt i, SqlInt i] d = (r, d') \<longrightarrow>
        table d' = table d \<and> lastread d' = (case r of Inl e \<Rightarrow> lastread d | Inr _ \<Rightarrow> (lastread d)(c \<mapsto> i)))
   \<and> (\<forall>i d. returns_rows (\<lambda>d. (table d, lastread d)) (sqlQuery D read_sql [SqlInt i] d)
        (map row_message (filter (\<lambda>x. rId x = i) (table d))) d)
   \<and> (\<forall>i d. returns_rows (\<lambda>d. (table d, lastread d)) (sqlQuery D find_sql [SqlInt i] d)
        (map row_index (filter (\<lambda>x. rId x = i) (table d))) d)
   \<and> (\<forall>c d. returns_rows (\<lambda>d. (table d, lastread d)) (sqlQuery D mark_sql [SqlText c] d)
        (case lastread d c of None \<Rightarrow> [] | Some i \<Rightarrow> [[SqlInt i]]) d)
   \<and> (\<forall>w args P d. where_rows w args = Some P \<longrightarrow>
        returns_rows (\<lambda>d. (table d, lastread d)) (sqlQuery D (list_unlimited w) args d) (map row_index (filter P (table d))) d)
   \<and> (\<forall>w args P n d. where_rows w args = Some P \<longrightarrow> 0 < n \<longrightarrow>
        returns_rows (\<lambda>d. (table d, lastread d)) (sqlQuery D (list_limited w) (args @ [SqlInt n]) d)
          (map row_index (newest n (filter P (table d)))) d)"

text \<open>A database as the BBS leaves it: its rows are in order of their keys and fit the types they are
  scanned into.\<close>

definition db_ok :: "('d \<Rightarrow> msg_row list) \<Rightarrow> ('d \<Rightarrow> gostring \<rightharpoonup> int) \<Rightarrow> 'd \<Rightarrow> bool" where
  "db_ok table lastread d \<longleftrightarrow>
     sorted_wrt (<) (map rId (table d))
   \<and> (\<forall>r \<in> set (table d). 0 < rId r \<and> rId r < 2 ^ 32 \<and> 0 \<le> rFlags r \<and> rFlags r < 2 ^ 8 \<and> scan_string (rCreated r) \<noteq> None)
   \<and> (\<forall>c i. lastread d c = Some i \<longrightarrow> 0 \<le> i \<and> i < 2 ^ 32)"

definition row_to_message :: "msg_row \<Rightarrow> Message" where
  "row_to_message r = \<lparr>ID = word_of_int (rId r), From = rFrom r, To = rTo r, Subject = rSubject r,
     Flags = word_of_int (rFlags r), Size = rSize r,
     CreatedAt = created (case scan_string (rCreated r) of None \<Rightarrow> [] | Some c \<Rightarrow> c), Body = rBody r\<rparr>"

definition mark_of :: "int option \<Rightarrow> 32 word" where
  "mark_of i = (case i of None \<Rightarrow> 0 | Some i \<Rightarrow> word_of_int i)"

section \<open>SQLiteStore is a message store\<close>

definition row_ok :: "msg_row \<Rightarrow> bool" where
  "row_ok r \<longleftrightarrow> 0 < rId r \<and> rId r < 2 ^ 32 \<and> 0 \<le> rFlags r \<and> rFlags r < 2 ^ 8 \<and> scan_string (rCreated r) \<noteq> None"

lemma db_ok_rows: "db_ok table lastread d \<Longrightarrow> r \<in> set (table d) \<Longrightarrow> row_ok r"
  by (simp add: db_ok_def row_ok_def)

lemma scan_row_message: "row_ok r \<Longrightarrow> scan_message (row_message r) = Some (row_to_message r)"
  by (auto simp: row_ok_def scan_message_def row_message_def row_to_message_def scan_uint_def scan_int_def
      scan_string_def [of "SqlText s" for s] split: option.splits)

lemma scan_row_index: "row_ok r \<Longrightarrow> scan_index (row_index r) = Some (index_of (row_to_message r))"
  by (auto simp: row_ok_def scan_index_def row_index_def row_to_message_def index_of_def scan_uint_def scan_int_def
      scan_string_def [of "SqlText s" for s] split: option.splits)

lemma scan_rows_index:
  "\<forall>r \<in> set rs. row_ok r \<Longrightarrow> scan_rows (map row_index rs) = Some (map (index_of \<circ> row_to_message) rs)"
  by (induction rs) (simp_all add: scan_row_index)

lemma row_id_inject: "row_ok r \<Longrightarrow> word_of_int (rId r) = (i :: 32 word) \<longleftrightarrow> rId r = uint i"
  by (auto simp: row_ok_def uint_word_of_int_eq take_bit_eq_mod)

lemma ID_row [simp]: "ID (row_to_message r) = word_of_int (rId r)"
  by (simp add: row_to_message_def)

lemma filter_row_id:
  assumes "\<forall>r \<in> set rs. row_ok r"
  shows "filter (\<lambda>m. ID m \<noteq> i) (map row_to_message rs) = map row_to_message (filter (\<lambda>r. rId r \<noteq> uint i) rs)"
  unfolding filter_map using assms row_id_inject by (intro arg_cong [where f = "map row_to_message"] filter_cong) auto

lemma list_where_rows:
  assumes "list_where mine call sysop = (w, args)"
  obtains P where "where_rows w args = Some P"
    and "\<And>r. row_ok r \<Longrightarrow> P r \<longleftrightarrow> list_selects mine call sysop (index_of (row_to_message r))"
proof
  show "where_rows w args = Some (\<lambda>r. rFrom r = call \<or> rTo r = call \<or> \<not> mine \<and> (sysop \<or> rFlags r AND 2 \<noteq> 0))"
    using assms by (auto simp: list_where_def where_rows_def fun_eq_iff split: if_splits)
  fix r
  assume r: "row_ok r"
  have f: "uint (word_of_int (rFlags r) :: byte) = rFlags r"
    using r by (simp add: row_ok_def uint_word_of_int_eq take_bit_int_eq_self)
  have "(word_of_int (rFlags r) :: byte) AND 2 = 0 \<longleftrightarrow> rFlags r AND 2 = 0"
    by (simp add: word_uint_eq_iff uint_and f)
  then show "(rFrom r = call \<or> rTo r = call \<or> \<not> mine \<and> (sysop \<or> rFlags r AND 2 \<noteq> 0))
      \<longleftrightarrow> list_selects mine call sysop (index_of (row_to_message r))"
    by (auto simp: list_selects_def index_of_def row_to_message_def)
qed

lemma newest_map: "newest n (map f xs) = map f (newest n xs)"
  by (simp add: newest_def drop_map)

lemma newest_subset: "set (newest n xs) \<subseteq> set xs"
  by (simp add: newest_def set_drop_subset)

lemma documented_insert:
  assumes "sqlite_documented D table lastread"
    and "sqlExec D insert_sql [SqlText f, SqlText t, SqlText s, SqlText b, SqlInt fl, SqlInt n] d = (r, d')"
  shows "case r of Inl e \<Rightarrow> table d' = table d \<and> lastread d' = lastread d
     | Inr res \<Rightarrow> \<exists>i c. LastInsertId res = Inr i \<and> 0 < i \<and> (\<forall>x \<in> set (table d). rId x < i)
         \<and> table d' = table d @ [\<lparr>rId = i, rFrom = f, rTo = t, rSubject = s, rBody = b, rFlags = fl, rSize = n, rCreated = c\<rparr>]
         \<and> lastread d' = lastread d"
  using assms(1) [unfolded sqlite_documented_def, THEN conjunct1] assms(2) by blast

lemma documented_delete:
  assumes "sqlite_documented D table lastread" and "sqlExec D delete_sql [SqlInt i] d = (r, d')"
  shows "case r of Inl e \<Rightarrow> table d' = table d \<and> lastread d' = lastread d
     | Inr res \<Rightarrow> table d' = filter (\<lambda>x. rId x \<noteq> i) (table d) \<and> lastread d' = lastread d
         \<and> fst (RowsAffected res) = int (length (filter (\<lambda>x. rId x = i) (table d)))"
  using assms(1) [unfolded sqlite_documented_def, THEN conjunct2, THEN conjunct1] assms(2) by blast

lemma documented_mark:
  assumes "sqlite_documented D table lastread" and "sqlExec D set_mark_sql [SqlText c, SqlInt i, SqlInt i] d = (r, d')"
  shows "table d' = table d \<and> lastread d' = (case r of Inl e \<Rightarrow> lastread d | Inr _ \<Rightarrow> (lastread d)(c \<mapsto> i))"
  using assms(1) [unfolded sqlite_documented_def, THEN conjunct2, THEN conjunct2, THEN conjunct1] assms(2) by blast

lemma documented_queries:
  assumes "sqlite_documented D table lastread"
  shows "returns_rows (\<lambda>d. (table d, lastread d)) (sqlQuery D read_sql [SqlInt i] d)
      (map row_message (filter (\<lambda>x. rId x = i) (table d))) d"
    and "returns_rows (\<lambda>d. (table d, lastread d)) (sqlQuery D find_sql [SqlInt i] d)
      (map row_index (filter (\<lambda>x. rId x = i) (table d))) d"
    and "returns_rows (\<lambda>d. (table d, lastread d)) (sqlQuery D mark_sql [SqlText c] d)
      (case lastread d c of None \<Rightarrow> [] | Some i \<Rightarrow> [[SqlInt i]]) d"
    and "where_rows w args = Some P \<Longrightarrow>
      returns_rows (\<lambda>d. (table d, lastread d)) (sqlQuery D (list_unlimited w) args d) (map row_index (filter P (table d))) d"
    and "where_rows w args = Some P \<Longrightarrow> 0 < n \<Longrightarrow>
      returns_rows (\<lambda>d. (table d, lastread d)) (sqlQuery D (list_limited w) (args @ [SqlInt n]) d)
        (map row_index (newest n (filter P (table d)))) d"
  using assms unfolding sqlite_documented_def by blast+

lemma returns_rows_keeps: "returns_rows view q rows d \<Longrightarrow> q = (r, d') \<Longrightarrow> view d' = view d"
  by (simp add: returns_rows_def)

text \<open>What the first row of such a query is.\<close>

lemma scan_first_row:
  assumes "returns_rows view q rows d" and "q = (r, d')"
  shows "scan_first scan r = RowOk x \<Longrightarrow> \<exists>row \<in> set rows. scan row = Some x \<and> row = hd rows"
    and "scan_first scan r = NoRows \<Longrightarrow> rows = []"
proof -
  have k: "got \<noteq> [] \<Longrightarrow> got = take k rows \<Longrightarrow> hd got = hd rows \<and> hd rows \<in> set rows" for got k
    by (cases rows; cases k) auto
  show "\<exists>row \<in> set rows. scan row = Some x \<and> row = hd rows" if ok: "scan_first scan r = RowOk x"
  proof -
    obtain got err where r: "r = Inr (got, err)" "got \<noteq> []" "scan (hd got) = Some x"
      using ok by (auto simp: scan_first_def split: sum.splits list.splits option.splits prod.splits)
    then obtain j where "got = take j rows" using assms by (auto simp: returns_rows_def)
    from k [OF r(2) this] r(3) show ?thesis by auto
  qed
  show "rows = []" if "scan_first scan r = NoRows"
    using that assms
    by (auto simp: scan_first_def returns_rows_def split: sum.splits list.splits option.splits prod.splits)
qed

lemma SQLite_List_returns:
  assumes D: "sqlite_documented D table lastread" and d: "db_ok table lastread d"
    and l: "SQLite_List D n mine call sysop d = (r, d')"
  shows "table d' = table d \<and> lastread d' = lastread d"
    and "r = Inr xs \<Longrightarrow> xs = newest n (filter (list_selects mine call sysop) (map index_of (map row_to_message (table d))))"
proof -
  obtain w args where w: "list_where mine call sysop = (w, args)" by fastforce
  then obtain P where P: "where_rows w args = Some P"
    "\<And>r. row_ok r \<Longrightarrow> P r \<longleftrightarrow> list_selects mine call sysop (index_of (row_to_message r))"
    using list_where_rows by blast
  let ?rows = "newest n (filter P (table d))"
  define q where "q = (if n > 0 then sqlQuery D (list_limited w) (args @ [SqlInt n]) d else sqlQuery D (list_unlimited w) args d)"
  have rr: "returns_rows (\<lambda>d. (table d, lastread d)) q (map row_index ?rows) d"
    using documented_queries(4,5) [OF D P(1)] by (simp add: q_def newest_def)
  have q: "SQLite_List D n mine call sysop d =
      (case q of (Inl e, d) \<Rightarrow> (Inl (ErrWrap ''sqlite: list'' e), d)
       | (Inr (rows, err), d) \<Rightarrow>
          (case scan_rows rows of None \<Rightarrow> (Inl (ErrWrap ''sqlite: list scan'' (ErrMsg ''sql: Scan error'')), d)
           | Some xs \<Rightarrow> (case err of Some e \<Rightarrow> (Inl e, d) | None \<Rightarrow> (Inr xs, d))))"
    by (simp add: SQLite_List_def w q_def)
  obtain r' where qr: "q = (r', d')"
    using l q by (cases q) (auto split: sum.splits prod.splits option.splits)
  then show "table d' = table d \<and> lastread d' = lastread d" using returns_rows_keeps [OF rr] by simp
  have ok: "\<forall>r \<in> set ?rows. row_ok r" using newest_subset [of n "filter P (table d)"] db_ok_rows [OF d] by auto
  have sel: "map (index_of \<circ> row_to_message) ?rows
      = newest n (filter (list_selects mine call sysop) (map index_of (map row_to_message (table d))))"
  proof -
    have "filter P (table d) = filter (\<lambda>r. list_selects mine call sysop (index_of (row_to_message r))) (table d)"
      using P(2) db_ok_rows [OF d] by (intro filter_cong) auto
    then show ?thesis by (simp add: newest_map [symmetric] filter_map comp_def)
  qed
  show "xs = newest n (filter (list_selects mine call sysop) (map index_of (map row_to_message (table d))))" if x: "r = Inr xs"
  proof -
    obtain rows where "q = (Inr (rows, None), d')" "scan_rows rows = Some xs"
      using l q qr x by (auto split: sum.splits prod.splits option.splits)
    then show ?thesis using rr scan_rows_index [OF ok] sel by (simp add: returns_rows_def)
  qed
qed

lemma sorted_ids:
  assumes "db_ok table lastread d"
  shows "sorted_wrt (<) (map ID (map row_to_message (table d)))"
proof -
  have "word_of_int (rId x) < (word_of_int (rId y) :: 32 word)" if "rId x < rId y" "row_ok x" "row_ok y" for x y
    using that by (simp add: row_ok_def word_less_def uint_word_of_int_eq take_bit_int_eq_self)
  moreover have "sorted_wrt (\<lambda>x y. rId x < rId y) (table d)" using assms by (simp add: db_ok_def sorted_wrt_map)
  ultimately have "sorted_wrt (\<lambda>x y. word_of_int (rId x) < (word_of_int (rId y) :: 32 word)) (table d)"
    using db_ok_rows [OF assms] by (rule_tac sorted_wrt_mono_rel) auto
  then show ?thesis by (simp add: sorted_wrt_map)
qed

lemma same_tables_ok: "db_ok table lastread d \<Longrightarrow> table d' = table d \<Longrightarrow> lastread d' = lastread d \<Longrightarrow> db_ok table lastread d'"
  by (simp add: db_ok_def)

text \<open>The laws one by one; \<open>kept\<close> says that the abstraction of the database is the same.\<close>

definition kept :: "('d \<Rightarrow> msg_row list) \<Rightarrow> ('d \<Rightarrow> gostring \<rightharpoonup> int) \<Rightarrow> 'd \<Rightarrow> 'd \<Rightarrow> bool" where
  "kept table lastread d d' \<longleftrightarrow> table d' = table d \<and> lastread d' = lastread d"

lemma kept_ok: "kept table lastread d d' \<Longrightarrow> db_ok table lastread d \<Longrightarrow>
    db_ok table lastread d' \<and> map row_to_message (table d') = map row_to_message (table d)
    \<and> (\<lambda>c. mark_of (lastread d' c)) = (\<lambda>c. mark_of (lastread d c))"
  by (simp add: kept_def db_ok_def)

lemma SQLite_Store_law:
  assumes "sqlite_documented D table lastread" and "SQLite_Store D f t s b fl d = (r, d')"
  shows "case r of Inl e \<Rightarrow> kept table lastread d d'
    | Inr i \<Rightarrow> lastread d' = lastread d \<and> (\<exists>x. table d' = table d @ [x] \<and> word_of_int (rId x) = i \<and> rFrom x = f \<and> rTo x = t
        \<and> rSubject x = s \<and> rBody x = b \<and> rFlags x = uint fl \<and> rSize x = int (length b))"
proof -
  obtain q e' where q: "sqlExec D insert_sql [SqlText f, SqlText t, SqlText s, SqlText b, SqlInt (uint fl), SqlInt (int (length b))] d = (q, e')"
    by fastforce
  show ?thesis using documented_insert [OF assms(1) q] assms(2) q
    by (cases q) (auto simp: SQLite_Store_def kept_def)
qed

lemma SQLite_Read_law:
  assumes "sqlite_documented D table lastread" and "db_ok table lastread d" and "SQLite_Read D i d = (r, d')"
  shows "kept table lastread d d'" and "r = Inr m \<Longrightarrow> \<exists>x \<in> set (table d). rId x = uint i \<and> m = row_to_message x"
proof -
  obtain q e' where q: "sqlQuery D read_sql [SqlInt (uint i)] d = (q, e')" by fastforce
  note rr = documented_queries(1) [OF assms(1), of "uint i" d]
  have d': "d' = e'" using assms(3) q by (auto simp: SQLite_Read_def split: row_result.splits)
  then show "kept table lastread d d'" using returns_rows_keeps [OF rr q] by (simp add: kept_def)
  show "\<exists>x \<in> set (table d). rId x = uint i \<and> m = row_to_message x" if "r = Inr m"
  proof -
    have "scan_first scan_message q = RowOk m" using assms(3) q that by (auto simp: SQLite_Read_def split: row_result.splits)
    with scan_first_row(1) [OF rr q] obtain x where "x \<in> set (table d)" "rId x = uint i" "scan_message (row_message x) = Some m"
      by fastforce
    with scan_row_message db_ok_rows [OF assms(2)] show ?thesis by fastforce
  qed
qed

lemma SQLite_Find_law:
  assumes "sqlite_documented D table lastread" and "db_ok table lastread d" and "SQLite_Find D i d = (r, d')"
  shows "kept table lastread d d'"
    and "r = Inr (Some m) \<Longrightarrow> \<exists>x \<in> set (table d). rId x = uint i \<and> m = index_of (row_to_message x)"
proof -
  obtain q e' where q: "sqlQuery D find_sql [SqlInt (uint i)] d = (q, e')" by fastforce
  note rr = documented_queries(2) [OF assms(1), of "uint i" d]
  have d': "d' = e'" using assms(3) q by (auto simp: SQLite_Find_def split: row_result.splits)
  then show "kept table lastread d d'" using returns_rows_keeps [OF rr q] by (simp add: kept_def)
  show "\<exists>x \<in> set (table d). rId x = uint i \<and> m = index_of (row_to_message x)" if "r = Inr (Some m)"
  proof -
    have "scan_first scan_index q = RowOk m" using assms(3) q that by (auto simp: SQLite_Find_def split: row_result.splits)
    with scan_first_row(1) [OF rr q] obtain x where "x \<in> set (table d)" "rId x = uint i" "scan_index (row_index x) = Some m"
      by fastforce
    with scan_row_index db_ok_rows [OF assms(2)] show ?thesis by fastforce
  qed
qed

lemma SQLite_Delete_law:
  assumes "sqlite_documented D table lastread" and "db_ok table lastread d" and "SQLite_Delete D i d = (r, d')"
  shows "case r of Some e \<Rightarrow> kept table lastread d d'
    | None \<Rightarrow> table d' = filter (\<lambda>x. rId x \<noteq> uint i) (table d) \<and> lastread d' = lastread d \<and> (\<exists>x \<in> set (table d). rId x = uint i)"
proof -
  obtain q e' where q: "sqlExec D delete_sql [SqlInt (uint i)] d = (q, e')" by fastforce
  note doc = documented_delete [OF assms(1) q]
  show ?thesis
  proof (cases q)
    case (Inr res)
    have "filter (\<lambda>x. rId x \<noteq> uint i) (table d) = table d" if "filter (\<lambda>x. rId x = uint i) (table d) = []"
      using that by (simp add: filter_empty_conv)
    with Inr q doc assms(3) show ?thesis
      by (auto simp: SQLite_Delete_def kept_def filter_empty_conv split: if_splits)
  qed (use q doc assms(3) in \<open>auto simp: SQLite_Delete_def kept_def\<close>)
qed

lemma SQLite_GetLastRead_law:
  assumes "sqlite_documented D table lastread" and "db_ok table lastread d" and "SQLite_GetLastRead D c d = (r, d')"
  shows "kept table lastread d d'" and "r = Inr i \<Longrightarrow> i = mark_of (lastread d c)"
proof -
  let ?scan = "\<lambda>row. case row of [i] \<Rightarrow> scan_uint 32 i | _ \<Rightarrow> None"
  obtain q e' where q: "sqlQuery D mark_sql [SqlText c] d = (q, e')" by fastforce
  note rr = documented_queries(3) [OF assms(1), of c d]
  have d': "d' = e'" using assms(3) q by (auto simp: SQLite_GetLastRead_def split: row_result.splits)
  then show "kept table lastread d d'" using returns_rows_keeps [OF rr q] by (simp add: kept_def)
  show "i = mark_of (lastread d c)" if "r = Inr i"
  proof (cases "scan_first ?scan q")
    case NoRows
    with scan_first_row(2) [OF rr q NoRows] assms(3) q that show ?thesis
      by (auto simp: SQLite_GetLastRead_def mark_of_def split: option.splits)
  next
    case (RowOk n)
    then have "i = of_nat n" using assms(3) q that by (simp add: SQLite_GetLastRead_def)
    then show ?thesis using scan_first_row(1) [OF rr q RowOk]
      by (auto simp: mark_of_def scan_uint_def split: option.splits if_splits)
  qed (use assms(3) q that in \<open>auto simp: SQLite_GetLastRead_def\<close>)
qed

lemma SQLite_SetLastRead_law:
  assumes "sqlite_documented D table lastread" and "SQLite_SetLastRead D c i d = (r, d')"
  shows "table d' = table d \<and> lastread d' = (if r = None then (lastread d)(c \<mapsto> uint i) else lastread d)"
proof -
  obtain q e' where q: "sqlExec D set_mark_sql [SqlText c, SqlInt (uint i), SqlInt (uint i)] d = (q, e')" by fastforce
  show ?thesis using documented_mark [OF assms(1) q] assms(2) q
    by (cases q) (auto simp: SQLite_SetLastRead_def)
qed

lemma SQLiteStore_is_store:
  assumes D: "sqlite_documented D table lastread"
  shows "message_store (SQLiteStore D) (\<lambda>d. map row_to_message (table d)) (\<lambda>d c. mark_of (lastread d c)) (db_ok table lastread)"
proof
  fix s s' f t subj body fl i e r m rf x n mine call sysop rl xs rm
  assume ok: "db_ok table lastread s"
  note k = kept_ok [OF _ ok]
  show "sorted_wrt (<) (map ID (map row_to_message (table s)))" by (rule sorted_ids [OF ok])
  show "(\<exists>m. map row_to_message (table s') = map row_to_message (table s) @ [m] \<and> ID m = i \<and> From m = f \<and> To m = t
      \<and> Subject m = subj \<and> Body m = body \<and> Flags m = fl \<and> Size m = int (length body))
      \<and> (\<lambda>c. mark_of (lastread s' c)) = (\<lambda>c. mark_of (lastread s c))"
    if "msStore (SQLiteStore D) f t subj body fl s = (Inr i, s')"
    using SQLite_Store_law [OF D, of f t subj body fl s "Inr i" s'] that
    by (auto simp: SQLiteStore_def row_to_message_def)
  show "db_ok table lastread s' \<and> map row_to_message (table s') = map row_to_message (table s)
      \<and> (\<lambda>c. mark_of (lastread s' c)) = (\<lambda>c. mark_of (lastread s c))"
    if "msStore (SQLiteStore D) f t subj body fl s = (Inl e, s')"
    using SQLite_Store_law [OF D, of f t subj body fl s "Inl e" s'] that k by (simp add: SQLiteStore_def)
  show "db_ok table lastread s' \<and> map row_to_message (table s') = map row_to_message (table s)
      \<and> (\<lambda>c. mark_of (lastread s' c)) = (\<lambda>c. mark_of (lastread s c))" if "msRead (SQLiteStore D) i s = (r, s')"
    using SQLite_Read_law(1) [OF D ok, of i r s'] that k by (simp add: SQLiteStore_def)
  show "m \<in> set (map row_to_message (table s)) \<and> ID m = i" if "msRead (SQLiteStore D) i s = (Inr m, s')"
    using SQLite_Read_law(2) [OF D ok, of i "Inr m" s' m] that by (auto simp: SQLiteStore_def)
  show "db_ok table lastread s' \<and> map row_to_message (table s') = filter (\<lambda>m. ID m \<noteq> i) (map row_to_message (table s))
      \<and> (\<lambda>c. mark_of (lastread s' c)) = (\<lambda>c. mark_of (lastread s c)) \<and> i \<in> ID ` set (map row_to_message (table s))"
    if "msDelete (SQLiteStore D) i s = (None, s')"
  proof -
    have l: "table s' = filter (\<lambda>x. rId x \<noteq> uint i) (table s)" "lastread s' = lastread s" "\<exists>x \<in> set (table s). rId x = uint i"
      using SQLite_Delete_law [OF D ok, of i None s'] that by (simp_all add: SQLiteStore_def)
    have "db_ok table lastread s'" using ok l(1,2) by (auto simp: db_ok_def sorted_wrt_map intro: sorted_wrt_filter)
    moreover have "filter (\<lambda>m. ID m \<noteq> i) (map row_to_message (table s)) = map row_to_message (table s')"
      using filter_row_id [of "table s" i] db_ok_rows [OF ok] l(1) by simp
    moreover obtain x where "x \<in> set (table s)" "rId x = uint i" using l(3) by blast
    then have "i \<in> ID ` set (map row_to_message (table s))" by (auto simp: image_iff intro!: bexI [of _ x])
    ultimately show ?thesis using l(2) by simp
  qed
  show "db_ok table lastread s' \<and> map row_to_message (table s') = map row_to_message (table s)
      \<and> (\<lambda>c. mark_of (lastread s' c)) = (\<lambda>c. mark_of (lastread s c))" if "msDelete (SQLiteStore D) i s = (Some e, s')"
    using SQLite_Delete_law [OF D ok, of i "Some e" s'] that k by (simp add: SQLiteStore_def)
  show "db_ok table lastread s' \<and> map row_to_message (table s') = map row_to_message (table s)
      \<and> (\<lambda>c. mark_of (lastread s' c)) = (\<lambda>c. mark_of (lastread s c))" if "msFind (SQLiteStore D) i s = (rf, s')"
    using SQLite_Find_law(1) [OF D ok, of i rf s'] that k by (simp add: SQLiteStore_def)
  show "\<exists>m \<in> set (map row_to_message (table s)). ID m = i \<and> x = index_of m" if fx: "msFind (SQLiteStore D) i s = (Inr (Some x), s')"
  proof -
    obtain y where "y \<in> set (table s)" "rId y = uint i" "x = index_of (row_to_message y)"
      using SQLite_Find_law(2) [OF D ok, of i "Inr (Some x)" s' x] fx by (auto simp: SQLiteStore_def)
    then show ?thesis by (intro bexI [of _ "row_to_message y"]) auto
  qed
  show "db_ok table lastread s' \<and> map row_to_message (table s') = map row_to_message (table s)
      \<and> (\<lambda>c. mark_of (lastread s' c)) = (\<lambda>c. mark_of (lastread s c))" if "msList (SQLiteStore D) n mine call sysop s = (rl, s')"
    using SQLite_List_returns(1) [OF D ok, of n mine call sysop rl s'] that k by (simp add: SQLiteStore_def kept_def)
  show "xs = newest n (filter (list_selects mine call sysop) (map index_of (map row_to_message (table s))))"
    if "msList (SQLiteStore D) n mine call sysop s = (Inr xs, s')"
    using SQLite_List_returns(2) [OF D ok, of n mine call sysop "Inr xs" s' xs] that by (simp add: SQLiteStore_def)
  show "db_ok table lastread s' \<and> map row_to_message (table s') = map row_to_message (table s)
      \<and> (\<lambda>c. mark_of (lastread s' c)) = (\<lambda>c. mark_of (lastread s c))" if "msGetLastRead (SQLiteStore D) call s = (rm, s')"
    using SQLite_GetLastRead_law(1) [OF D ok, of call rm s'] that k by (simp add: SQLiteStore_def)
  show "i = mark_of (lastread s call)" if "msGetLastRead (SQLiteStore D) call s = (Inr i, s')"
    using SQLite_GetLastRead_law(2) [OF D ok, of call "Inr i" s' i] that by (simp add: SQLiteStore_def)
  show "db_ok table lastread s' \<and> map row_to_message (table s') = map row_to_message (table s)
      \<and> (\<lambda>c. mark_of (lastread s' c)) = (\<lambda>c. mark_of (lastread s c))" if "msSetLastRead (SQLiteStore D) call i s = (Some e, s')"
    using SQLite_SetLastRead_law [OF D, of call i s "Some e" s'] that k by (simp add: SQLiteStore_def kept_def)
  show "db_ok table lastread s' \<and> map row_to_message (table s') = map row_to_message (table s)
      \<and> (\<lambda>c. mark_of (lastread s' c)) = (\<lambda>c. mark_of (lastread s c))(call := i)"
    if "msSetLastRead (SQLiteStore D) call i s = (None, s')"
    using SQLite_SetLastRead_law [OF D, of call i s None s'] that ok uint_bounded [of i]
    by (auto simp: SQLiteStore_def db_ok_def mark_of_def fun_eq_iff)
qed

section \<open>A database in memory\<close>

text \<open>The smallest database that behaves as documented: it knows the statements of \<open>sqlite.go\<close> and refuses
  all others.\<close>

record memdb =
  mRows :: "msg_row list"
  mMarks :: "(gostring \<times> int) list"

definition mem_key :: "memdb \<Rightarrow> int" where
  "mem_key d = foldl max 0 (map rId (mRows d)) + 1"

definition mem_exec :: "string \<Rightarrow> sqlval list \<Rightarrow> memdb \<Rightarrow> (goerr + sqlResult) \<times> memdb" where
  "mem_exec q args d =
     (case args of
        [SqlText f, SqlText t, SqlText s, SqlText b, SqlInt fl, SqlInt n] \<Rightarrow>
          if q = insert_sql then
            (Inr \<lparr>LastInsertId = Inr (mem_key d), RowsAffected = (1, None)\<rparr>,
             d\<lparr>mRows := mRows d @ [\<lparr>rId = mem_key d, rFrom = f, rTo = t, rSubject = s, rBody = b, rFlags = fl, rSize = n,
               rCreated = SqlText []\<rparr>]\<rparr>)
          else (Inl (ErrMsg ''near''), d)
      | [SqlInt i] \<Rightarrow>
          if q = delete_sql then
            (Inr \<lparr>LastInsertId = Inr 0, RowsAffected = (int (length (filter (\<lambda>x. rId x = i) (mRows d))), None)\<rparr>,
             d\<lparr>mRows := filter (\<lambda>x. rId x \<noteq> i) (mRows d)\<rparr>)
          else (Inl (ErrMsg ''near''), d)
      | [SqlText c, SqlInt i, SqlInt j] \<Rightarrow>
          if q = set_mark_sql then (Inr \<lparr>LastInsertId = Inr 0, RowsAffected = (1, None)\<rparr>, d\<lparr>mMarks := (c, i) # mMarks d\<rparr>)
          else (Inl (ErrMsg ''near''), d)
      | _ \<Rightarrow> (Inl (ErrMsg ''near''), d))"

definition mem_select :: "string \<Rightarrow> sqlval list \<Rightarrow> memdb \<Rightarrow> sqlval list list option" where
  "mem_select q args d =
     (let lists = concat (map (\<lambda>w.
         (if q = list_unlimited w then (case where_rows w args of Some P \<Rightarrow> [map row_index (filter P (mRows d))] | None \<Rightarrow> []) else [])
       @ (if q = list_limited w \<and> args \<noteq> [] then
            (case (where_rows w (butlast args), last args) of
               (Some P, SqlInt n) \<Rightarrow> [map row_index (newest n (filter P (mRows d)))] | _ \<Rightarrow> []) else []))
         [[], where_mine, where_visible])
      in case lists of
           rows # _ \<Rightarrow> Some rows
         | [] \<Rightarrow>
             (case args of
                [SqlInt i] \<Rightarrow>
                  if q = read_sql then Some (map row_message (filter (\<lambda>x. rId x = i) (mRows d)))
                  else if q = find_sql then Some (map row_index (filter (\<lambda>x. rId x = i) (mRows d))) else None
              | [SqlText c] \<Rightarrow>
                  if q = mark_sql then Some (case map_of (mMarks d) c of None \<Rightarrow> [] | Some i \<Rightarrow> [[SqlInt i]]) else None
              | _ \<Rightarrow> None))"

definition mem_db :: "memdb sqldb" where
  "mem_db = \<lparr>sqlExec = mem_exec,
     sqlQuery = (\<lambda>q args d. (case mem_select q args d of None \<Rightarrow> Inl (ErrMsg ''near'') | Some rows \<Rightarrow> Inr (rows, None), d)),
     sqlClose = (\<lambda>d. (None, d))\<rparr>"

lemma foldl_max_bound: "(x :: int) \<in> set xs \<Longrightarrow> x \<le> foldl max a xs" "a \<le> foldl max a xs"
proof -
  have a: "a \<le> foldl max a xs" for a :: int and xs
    by (induction xs arbitrary: a) (auto intro: order_trans [OF max.cobounded1])
  show "a \<le> foldl max a xs" by (rule a)
  show "x \<in> set xs \<Longrightarrow> x \<le> foldl max a xs"
    by (induction xs arbitrary: a) (auto intro: order_trans [OF max.cobounded2 a])
qed

lemma where_rows_clause:
  "where_rows w args = Some P \<Longrightarrow> w \<in> {[], where_mine, where_visible}"
  by (auto simp: where_rows_def split: list.splits sqlval.splits if_splits)

text \<open>The texts of the queries are different from each other.\<close>

lemma list_limited_unlimited: "w \<in> {[], where_mine, where_visible} \<Longrightarrow> list_limited v \<noteq> list_unlimited w"
  by (auto simp: list_limited_def list_unlimited_def list_inner_def index_cols_def where_mine_def where_visible_def)

lemma list_texts_inject:
  assumes "v \<in> {[], where_mine, where_visible}" "w \<in> {[], where_mine, where_visible}"
  shows "list_limited v = list_limited w \<longleftrightarrow> v = w" "list_unlimited v = list_unlimited w \<longleftrightarrow> v = w"
  using assms by (auto simp: list_limited_def list_unlimited_def list_inner_def)

lemma list_texts_other:
  assumes "w \<in> {[], where_mine, where_visible}"
  shows "list_limited w \<notin> {read_sql, find_sql, mark_sql}" "list_unlimited w \<notin> {read_sql, find_sql, mark_sql}"
  using assms by (auto simp: list_limited_def list_unlimited_def list_inner_def index_cols_def read_sql_def find_sql_def
      mark_sql_def where_mine_def where_visible_def)

lemma clause_texts:
  "where_mine \<noteq> []" "[] \<noteq> where_mine" "where_visible \<noteq> []" "[] \<noteq> where_visible"
  "where_mine \<noteq> where_visible" "where_visible \<noteq> where_mine" "read_sql \<noteq> find_sql" "find_sql \<noteq> read_sql"
  by (simp_all add: where_mine_def where_visible_def read_sql_def find_sql_def)

lemma mem_select_list:
  assumes "where_rows w args = Some P"
  shows "mem_select (list_unlimited w) args d = Some (map row_index (filter P (mRows d)))"
    and "mem_select (list_limited w) (args @ [SqlInt n]) d = Some (map row_index (newest n (filter P (mRows d))))"
proof -
  let ?W = "{[], where_mine, where_visible}"
  have e: "list_unlimited u = list_unlimited v \<longleftrightarrow> u = v" "list_limited u = list_limited v \<longleftrightarrow> u = v"
    "list_unlimited u \<noteq> list_limited v" "list_limited u \<noteq> list_unlimited v" if "u \<in> ?W" "v \<in> ?W" for u v
    using list_texts_inject [OF that] list_limited_unlimited [OF that(1), of v] list_limited_unlimited [OF that(2), of u] by auto
  have w: "w = [] \<or> w = where_mine \<or> w = where_visible" using where_rows_clause [OF assms] by blast
  then show "mem_select (list_unlimited w) args d = Some (map row_index (filter P (mRows d)))"
    using assms by (elim disjE) (simp_all add: mem_select_def e clause_texts)
  from w show "mem_select (list_limited w) (args @ [SqlInt n]) d = Some (map row_index (newest n (filter P (mRows d))))"
    using assms by (elim disjE) (simp_all add: mem_select_def e clause_texts)
qed

lemma mem_select_row:
  "mem_select read_sql [SqlInt i] d = Some (map row_message (filter (\<lambda>x. rId x = i) (mRows d)))"
  "mem_select find_sql [SqlInt i] d = Some (map row_index (filter (\<lambda>x. rId x = i) (mRows d)))"
  "mem_select mark_sql [SqlText c] d = Some (case map_of (mMarks d) c of None \<Rightarrow> [] | Some i \<Rightarrow> [[SqlInt i]])"
proof -
  have "q \<noteq> list_unlimited w" "q \<noteq> list_limited w"
    if "q \<in> {read_sql, find_sql, mark_sql}" "w \<in> {[], where_mine, where_visible}" for q w
    using list_texts_other [OF that(2)] that(1) by blast+
  note ne = this [of read_sql] this [of find_sql] this [of mark_sql]
  show "mem_select read_sql [SqlInt i] d = Some (map row_message (filter (\<lambda>x. rId x = i) (mRows d)))"
    "mem_select find_sql [SqlInt i] d = Some (map row_index (filter (\<lambda>x. rId x = i) (mRows d)))"
    "mem_select mark_sql [SqlText c] d = Some (case map_of (mMarks d) c of None \<Rightarrow> [] | Some i \<Rightarrow> [[SqlInt i]])"
    by (simp_all add: mem_select_def ne clause_texts)
qed

lemma mem_key_bound: "x \<in> set (mRows d) \<Longrightarrow> rId x < mem_key d" "0 < mem_key d"
  using foldl_max_bound(1) [of "rId x" "map rId (mRows d)" 0] foldl_max_bound(2) [of 0 "map rId (mRows d)"]
  by (auto simp: mem_key_def)

lemma mem_db_documented: "sqlite_documented mem_db mRows (\<lambda>d. map_of (mMarks d))"
proof -
  have ex: "\<exists>k. xs = take k xs" for xs :: "'a list" by (rule exI [of _ "length xs"]) simp
  have "insert_sql \<noteq> delete_sql" "delete_sql \<noteq> set_mark_sql" "insert_sql \<noteq> set_mark_sql"
    by (simp_all add: insert_sql_def delete_sql_def set_mark_sql_def)
  then show ?thesis
    unfolding sqlite_documented_def returns_rows_def
    by (intro conjI allI impI)
      (auto simp: mem_db_def mem_exec_def mem_key_bound mem_select_row mem_select_list ex)
qed

interpretation sqlite_mem: message_store "SQLiteStore mem_db" "\<lambda>d. map row_to_message (mRows d)"
    "\<lambda>d c. mark_of (map_of (mMarks d) c)" "db_ok mRows (\<lambda>d. map_of (mMarks d))"
  by (rule SQLiteStore_is_store [OF mem_db_documented])

end
