(* ===== verification/Bbs_Sysop.thy ===== *)
theory Bbs_Sysop
  imports Go_Text "HOL-Library.Multiset"
begin

text \<open>
  The first half of \<open>src/cmd/bbs/bbs/sysop.go\<close>: the state machine of the SYSOP login. A challenge asks
  for four characters of the shared secret, a response holds them among six characters in any
  order. The clock is an argument of every operation that reads it. The random source is the list
  of the results of its next calls, each an error or a number below the bound asked for;
  \<open>IssueChallenge\<close> draws until it has four different numbers, so on a list that ends too early it has
  not returned yet, which is \<open>None\<close>. The lemmas say what a response must hold, that a
  challenge is well formed, and that the loop ends as soon as four different numbers were drawn.
\<close>

section \<open>State\<close>

definition challengeIndexCount :: nat where [simp]: "challengeIndexCount = 4"
definition responseLen :: nat where [simp]: "responseLen = 6"

datatype SysopAuthMode = SysopAuthIdle | SysopAuthAwaitingResponse | SysopAuthAuthenticated | SysopAuthLockedOut

record SysopState =
  sMode :: SysopAuthMode
  Secret :: gostring
  ChallengeIndices :: "int list"
  ChallengeExpires :: int
  LastActivity :: int
  LockoutUntil :: int
  FailedAttempts :: int
  ChallengeTimeout :: int
  SessionTimeout :: int
  LockoutDuration :: int
  MaxAttempts :: int

definition NewSysopState :: "gostring \<Rightarrow> int \<Rightarrow> int \<Rightarrow> int \<Rightarrow> int \<Rightarrow> SysopState" where
  "NewSysopState secret challengeTimeout sessionTimeout lockout maxAttempts =
     \<lparr>sMode = SysopAuthIdle, Secret = secret, ChallengeIndices = replicate challengeIndexCount 0,
      ChallengeExpires = 0, LastActivity = 0, LockoutUntil = 0, FailedAttempts = 0,
      ChallengeTimeout = challengeTimeout, SessionTimeout = sessionTimeout, LockoutDuration = lockout,
      MaxAttempts = maxAttempts\<rparr>"

section \<open>Operations\<close>

definition IsAuthenticated :: "SysopState \<Rightarrow> bool" where
  "IsAuthenticated s \<longleftrightarrow> sMode s = SysopAuthAuthenticated"

definition IsAwaitingResponse :: "SysopState \<Rightarrow> bool" where
  "IsAwaitingResponse s \<longleftrightarrow> sMode s = SysopAuthAwaitingResponse"

definition IsLockedOut :: "int \<Rightarrow> SysopState \<Rightarrow> bool \<times> SysopState" where
  "IsLockedOut now s =
     (if sMode s \<noteq> SysopAuthLockedOut then (False, s)
      else if now > LockoutUntil s then (False, s\<lparr>sMode := SysopAuthIdle, FailedAttempts := 0\<rparr>)
      else (True, s))"

definition NoteActivity :: "int \<Rightarrow> SysopState \<Rightarrow> SysopState" where
  "NoteActivity now s = (if sMode s = SysopAuthAuthenticated then s\<lparr>LastActivity := now\<rparr> else s)"

definition ExpireIfIdle :: "int \<Rightarrow> SysopState \<Rightarrow> bool \<times> SysopState" where
  "ExpireIfIdle now s =
     (if sMode s \<noteq> SysopAuthAuthenticated then (False, s)
      else if time_Sub now (LastActivity s) > SessionTimeout s then (True, s\<lparr>sMode := SysopAuthIdle\<rparr>)
      else (False, s))"

definition LockoutMinutes :: "SysopState \<Rightarrow> int" where
  "LockoutMinutes s = (let mins = Duration_Minutes (LockoutDuration s) in if mins < 1 then 1 else mins)"

text \<open>The two loops of \<open>IssueChallenge\<close>: \<open>used\<close> are the indices chosen so far, in order. The result has
  the error, the indices and the rest of the random source.\<close>

type_synonym random = "(goerr + int) list"

fun pick_indices :: "nat \<Rightarrow> int list \<Rightarrow> random \<Rightarrow> (goerr option \<times> int list \<times> random) option" where
  "pick_indices 0 used rnd = Some (None, used, rnd)"
| "pick_indices (Suc k) used [] = None"
| "pick_indices (Suc k) used (Inl e # rnd) = Some (Some (ErrWrap ''random generation failed'' e), used, rnd)"
| "pick_indices (Suc k) used (Inr n # rnd) =
     (if n + 1 \<in> set used then pick_indices (Suc k) used rnd else pick_indices k (used @ [n + 1]) rnd)"

definition challenge_text :: "int list \<Rightarrow> gostring" where
  "challenge_text ids = str ''CHAL '' @ strings_Join (map fmt_int ids) (str '' '') @ [0x0D]"

definition IssueChallenge ::
  "int \<Rightarrow> random \<Rightarrow> SysopState \<Rightarrow> ((goerr + gostring) \<times> random \<times> SysopState) option" where
  "IssueChallenge now rnd s =
     (if length (Secret s) < challengeIndexCount then Some (Inl (ErrMsg ''sysop secret too short''), rnd, s)
      else case pick_indices challengeIndexCount [] rnd of
        None \<Rightarrow> None
      | Some (err, ids, rnd) \<Rightarrow>
          let s = s\<lparr>ChallengeIndices := ids @ drop (length ids) (ChallengeIndices s)\<rparr>
          in case err of
               Some e \<Rightarrow> Some (Inl e, rnd, s)
             | None \<Rightarrow>
                 Some (Inr (challenge_text (take 4 (ChallengeIndices s))), rnd,
                   s\<lparr>sMode := SysopAuthAwaitingResponse, ChallengeExpires := now + ChallengeTimeout s\<rparr>))"

datatype VerifyResult = VerifySuccess | VerifyFailed | VerifyLockedOut | VerifyExpired | VerifyNoActive

text \<open>\<open>required[i] = s.Secret[idx-1]\<close> for the four indices, \<open>None\<close> if one is out of range.\<close>

fun required_chars :: "gostring \<Rightarrow> int list \<Rightarrow> gostring option" where
  "required_chars secret [] = Some []"
| "required_chars secret (i # ids) =
     (if i < 1 \<or> i > int (length secret) then None
      else map_option ((#) (secret ! nat (i - 1))) (required_chars secret ids))"

text \<open>The inner loop of \<open>verifyResponse\<close>: the first unused place of the response that holds \<open>c\<close> is marked as
  used.\<close>

fun use_char :: "byte \<Rightarrow> (bool \<times> byte) list \<Rightarrow> (bool \<times> byte) list option" where
  "use_char c [] = None"
| "use_char c ((u, b) # rs) =
     (if \<not> u \<and> b = c then Some ((True, b) # rs) else map_option ((#) (u, b)) (use_char c rs))"

fun use_chars :: "gostring \<Rightarrow> (bool \<times> byte) list \<Rightarrow> bool" where
  "use_chars [] rs = True"
| "use_chars (c # cs) rs = (case use_char c rs of None \<Rightarrow> False | Some rs \<Rightarrow> use_chars cs rs)"

definition verifyResponse :: "SysopState \<Rightarrow> gostring \<Rightarrow> bool" where
  "verifyResponse s response =
     (if length response \<noteq> responseLen then False
      else case required_chars (Secret s) (ChallengeIndices s) of
        None \<Rightarrow> False
      | Some req \<Rightarrow> use_chars req (map (\<lambda>b. (False, b)) response))"

definition SubmitResponse :: "int \<Rightarrow> gostring \<Rightarrow> SysopState \<Rightarrow> VerifyResult \<times> SysopState" where
  "SubmitResponse now response s =
     (if sMode s \<noteq> SysopAuthAwaitingResponse then (VerifyNoActive, s)
      else if now > ChallengeExpires s then (VerifyExpired, s\<lparr>sMode := SysopAuthIdle\<rparr>)
      else if verifyResponse s response then
        (VerifySuccess, s\<lparr>FailedAttempts := 0, sMode := SysopAuthAuthenticated, LastActivity := now\<rparr>)
      else
        let s = s\<lparr>sMode := SysopAuthIdle, FailedAttempts := FailedAttempts s + 1\<rparr>
        in if FailedAttempts s \<ge> MaxAttempts s
           then (VerifyLockedOut, s\<lparr>sMode := SysopAuthLockedOut, LockoutUntil := now + LockoutDuration s\<rparr>)
           else (VerifyFailed, s))"

section \<open>Responses\<close>

text \<open>The places not used yet, as a multiset.\<close>

definition free_chars :: "(bool \<times> byte) list \<Rightarrow> byte multiset" where
  "free_chars rs = image_mset snd (filter_mset (\<lambda>r. \<not> fst r) (mset rs))"

lemma free_chars_Cons: "free_chars ((u, b) # rs) = (if u then {#} else {#b#}) + free_chars rs"
  by (simp add: free_chars_def)

lemma use_char_free:
  "case use_char c rs of
     None \<Rightarrow> c \<notin># free_chars rs
   | Some rs' \<Rightarrow> c \<in># free_chars rs \<and> free_chars rs' = free_chars rs - {#c#}"
  by (induction c rs rule: use_char.induct)
    (auto simp: free_chars_Cons free_chars_def [of "[]"] split: option.splits if_splits)

lemma use_chars_free: "use_chars cs rs \<longleftrightarrow> mset cs \<subseteq># free_chars rs"
proof (induction cs arbitrary: rs)
  case (Cons c cs)
  then show ?case using use_char_free [of c rs]
    by (auto simp: insert_subset_eq_iff split: option.splits)
qed simp

lemma free_chars_fresh: "free_chars (map (\<lambda>b. (False, b)) bs) = mset bs"
  by (induction bs) (simp_all add: free_chars_Cons free_chars_def [of "[]"])

lemma required_chars_Some:
  "required_chars secret ids = Some req \<longleftrightarrow>
     (\<forall>i \<in> set ids. 1 \<le> i \<and> i \<le> int (length secret)) \<and> req = map (\<lambda>i. secret ! nat (i - 1)) ids"
  by (induction ids arbitrary: req) auto

lemma verifyResponse_iff:
  "verifyResponse s r \<longleftrightarrow> length r = 6 \<and> (\<forall>i \<in> set (ChallengeIndices s). 1 \<le> i \<and> i \<le> int (length (Secret s)))
     \<and> mset (map (\<lambda>i. Secret s ! nat (i - 1)) (ChallengeIndices s)) \<subseteq># mset r"
proof (cases "required_chars (Secret s) (ChallengeIndices s)")
  case None
  then have "\<not> (\<forall>i \<in> set (ChallengeIndices s). 1 \<le> i \<and> i \<le> int (length (Secret s)))"
    using required_chars_Some [of "Secret s" "ChallengeIndices s"] by auto
  with None show ?thesis by (auto simp: verifyResponse_def)
next
  case (Some req)
  then have "verifyResponse s r \<longleftrightarrow> length r = 6 \<and> mset req \<subseteq># mset r"
    by (simp add: verifyResponse_def use_chars_free free_chars_fresh)
  then show ?thesis using Some [unfolded required_chars_Some] by auto
qed

section \<open>Challenges\<close>

lemma pick_indices_ok:
  "pick_indices k used rnd = Some (None, ids, rnd') \<Longrightarrow> distinct used \<Longrightarrow>
     distinct ids \<and> length ids = length used + k
     \<and> set ids \<subseteq> set used \<union> {n + 1 |n. Inr n \<in> set rnd} \<and> (\<exists>xs. rnd = xs @ rnd')"
proof (induction k used rnd rule: pick_indices.induct)
  case (4 k used n rnd)
  show ?case
  proof (cases "n + 1 \<in> set used")
    case True
    then show ?thesis using 4 by (auto intro: exI [of _ "Inr n # xs" for xs])
  next
    case False
    then have "distinct (used @ [n + 1])" using 4(4) by simp
    from 4(2) [OF False _ this] 4(3) False show ?thesis by (auto intro: exI [of _ "Inr n # xs" for xs])
  qed
qed auto

text \<open>The loop ends once enough different numbers have come.\<close>

lemma pick_indices_ends:
  "list_all (\<lambda>x. \<not> isl x) rnd \<Longrightarrow> card ((\<lambda>n. n + 1) ` projr ` set rnd - set used) \<ge> k \<Longrightarrow>
     \<exists>ids rnd'. pick_indices k used rnd = Some (None, ids, rnd')"
proof (induction k used rnd rule: pick_indices.induct)
  case (4 k used n rnd)
  let ?A = "(\<lambda>n. n + 1) ` projr ` set rnd"
  show ?case
  proof (cases "n + 1 \<in> set used")
    case True
    then have "insert (n + 1) ?A - set used = ?A - set used" by auto
    with 4 True show ?thesis by (auto simp: insert_commute)
  next
    case False
    have "insert (n + 1) ?A - set used = insert (n + 1) (?A - set (used @ [n + 1]))" using False by auto
    moreover have "card (insert (n + 1) (?A - set (used @ [n + 1]))) \<le> Suc (card (?A - set (used @ [n + 1])))"
      by (rule card_insert_le_m1) auto
    ultimately have "k \<le> card (?A - set (used @ [n + 1]))" using 4(4) by simp
    with 4(2) [OF False] 4(3) False show ?thesis by simp
  qed
qed (auto simp: isl_def)

end
