(* ===== verification/Bbs_Session.thy ===== *)
theory Bbs_Session
  imports Agwpe_Client Bbs_Store Bbs_Sysop Heard
begin

text \<open>
  The BBS: \<open>src/cmd/bbs/bbs\<close> (\<open>session.go\<close>, \<open>commands.go\<close>, \<open>bbs.go\<close>, the second half of \<open>sysop.go\<close>, the
  configuration values of \<open>config.go\<close>) and \<open>handleAGWPEFrame\<close> of \<open>src/cmd/bbs/main.go\<close>. A handler takes
  the session and the manager and returns both; the AGWPE client's receive goroutine is the only
  one that runs handlers, so they do not interleave. The manager's record holds the message store
  (the parameter \<open>S\<close> has its methods), the heard list, the AGWPE client with its link, and the random
  source. \<open>now\<close> is the time at which an input is handled. The value \<open>None\<close> of a handler means that it still
  waits for the random source; log messages are left out.
\<close>

section \<open>State\<close>

datatype InputMode = InputModeCommand | InputModeSubject | InputModeBody | InputModeSysopResponse | InputModeConfig

record Session =
  RemoteCall :: gostring
  BaseCall :: gostring
  LocalCall :: gostring
  sessPort :: byte
  inputMode :: InputMode
  IsSysop :: bool
  PendingTo :: gostring
  PendingSubject :: gostring
  PendingBody :: gostring
  PendingFlags :: byte
  lineBuf :: gostring
  lastWasCR :: bool
  Sysop :: SysopState
  pendingConfigEntry :: bool

record BBSConfig =
  bbsCallsign :: gostring
  Greeting :: gostring
  Prompt :: gostring
  SysopName :: gostring
  Version :: gostring
  MaxMessages :: int
  MaxBodyLen :: int
  SysopSecret :: gostring
  SysopChallengeTimeout :: int
  SysopSessionTimeout :: int
  SysopLockout :: int
  SysopMaxAttempts :: int
  DBPath :: gostring
  AGWPEHost :: gostring
  AGWPEPort :: "16 word"

record 's SessionManager =
  sessions :: "gostring \<rightharpoonup> Session"
  mcfg :: BBSConfig
  mstore :: 's
  mheard :: HeardList
  mclient :: "(ClientConfig \<times> Decoder tcp_link) option"
  mrandom :: random

definition NewSessionManager :: "BBSConfig \<Rightarrow> 's \<Rightarrow> HeardList \<Rightarrow> random \<Rightarrow> 's SessionManager" where
  "NewSessionManager conf st hl rnd =
     \<lparr>sessions = Map.empty, mcfg = conf, mstore = st, mheard = hl, mclient = None, mrandom = rnd\<rparr>"

definition SetAGWPEClient :: "ClientConfig \<Rightarrow> Decoder tcp_link \<Rightarrow> 's SessionManager \<Rightarrow> 's SessionManager" where
  "SetAGWPEClient c l m = m\<lparr>mclient := Some (c, l)\<rparr>"

definition sessionKey :: "gostring \<Rightarrow> gostring \<Rightarrow> gostring" where
  "sessionKey remote loc = remote @ str '':'' @ loc"

section \<open>Callsigns\<close>

definition BaseCallsign :: "texts \<Rightarrow> gostring \<Rightarrow> gostring" where
  "BaseCallsign X call =
     ToUpper X (case strings_IndexByte call 0x2D of Some i \<Rightarrow> take i call | None \<Rightarrow> call)"

definition is_letter :: "byte \<Rightarrow> bool" where
  "is_letter b \<longleftrightarrow> 0x41 \<le> b \<and> b \<le> 0x5A"

text \<open>The two counting loops are \<open>takeWhile\<close>.\<close>

definition IsValidCallsign :: "texts \<Rightarrow> gostring \<Rightarrow> bool" where
  "IsValidCallsign X s =
     (let base = BaseCallsign X s; i = length (takeWhile is_letter base)
      in if length base < 3 \<or> length base > 6 then False
         else if i < 1 \<or> i > 2 then False
         else if i \<ge> length base \<or> \<not> is_digit (base ! i) then False
         else let i = Suc i; suffix = length (takeWhile is_letter (drop i base))
              in 1 \<le> suffix \<and> suffix \<le> 3 \<and> i + suffix = length base)"

section \<open>Sending\<close>

definition sendBytes :: "Session \<Rightarrow> byte list \<Rightarrow> 's SessionManager \<Rightarrow> 's SessionManager" where
  "sendBytes sess d m =
     (case mclient m of
        None \<Rightarrow> m
      | Some (c, l) \<Rightarrow>
          m\<lparr>mclient := Some (c, snd (Client_SendFrame c
            (Some (BuildSendData (sessPort sess) (LocalCall sess) (RemoteCall sess) 0xF0 d)) l))\<rparr>)"

definition sendText :: "Session \<Rightarrow> gostring \<Rightarrow> 's SessionManager \<Rightarrow> 's SessionManager" where
  "sendText sess text m = sendBytes sess text m"

definition sendDisconnect :: "Session \<Rightarrow> 's SessionManager \<Rightarrow> 's SessionManager" where
  "sendDisconnect sess m =
     (case mclient m of
        None \<Rightarrow> m
      | Some (c, l) \<Rightarrow>
          m\<lparr>mclient := Some (c, snd (Client_SendFrame c
            (Some (BuildDisconnectReq (sessPort sess) (LocalCall sess) (RemoteCall sess))) l))\<rparr>)"

definition sendPrompt :: "Session \<Rightarrow> 's SessionManager \<Rightarrow> 's SessionManager" where
  "sendPrompt sess m = sendText sess (Prompt (mcfg m) @ [0x0D]) m"

text \<open>A series of texts, as the handlers send them.\<close>

definition say :: "Session \<Rightarrow> gostring list \<Rightarrow> 's SessionManager \<Rightarrow> 's SessionManager" where
  "say sess ts m = fold (sendText sess) ts m"

section \<open>Commands\<close>

definition FlagPrivate :: byte where [simp]: "FlagPrivate = 0x01"
definition FlagBulletin :: byte where [simp]: "FlagBulletin = 0x02"

definition readSeparator :: gostring where
  "readSeparator = replicate 40 0x2D @ [0x0D]"

type_synonym 's handler = "Session \<times> 's SessionManager"

definition bannerSummary ::
  "'s MessageStore \<Rightarrow> Session \<Rightarrow> 's SessionManager \<Rightarrow> gostring \<times> 's SessionManager" where
  "bannerSummary S sess m =
     (let (r, st) = msList S 0 False (BaseCall sess) (IsSysop sess) (mstore m); m = m\<lparr>mstore := st\<rparr>;
          none = str ''*** No messages for '' @ BaseCall sess @ [0x0D]
      in case r of
           Inl e \<Rightarrow> (none, m)
         | Inr msgs \<Rightarrow>
             if msgs = [] then (none, m)
             else
               let (r, st) = msGetLastRead S (BaseCall sess) (mstore m); m = m\<lparr>mstore := st\<rparr>;
                   lastRead = (case r of Inl e \<Rightarrow> 0 | Inr i \<Rightarrow> i);
                   newCount = length (filter (\<lambda>x. ID x > lastRead) msgs)
               in (str ''*** You have '' @ fmt_d (length msgs) @ str '' messages ('' @ fmt_d newCount @ str '' new)'' @ [0x0D], m))"

definition help_lines :: "string list" where
  "help_lines =
     [''Commands:'',
      ''  B           Disconnect'',
      ''  H           Show this help text'',
      ''  I           Show BBS station information'',
      ''  J           Show heard list'',
      ''  K <n>       Delete message n'',
      ''  L           List readable messages'',
      ''  LL [n]      List newest n readable messages'',
      ''  LM          List only my sent/received messages'',
      ''  R <n>       Read message n'',
      ''  S <to>      Send message (auto private/bulletin)'',
      ''  SB <topic>  Send bulletin message'',
      ''  SP <call>   Send private message'',
      ''  SYSOP       Start SYSOP challenge login'',
      ''  SYSOP NEW   Refresh active SYSOP challenge'']"

definition help_text :: gostring where
  "help_text = concat (map (\<lambda>l. str l @ [0x0D]) help_lines)"

definition cmdHelp :: "Session \<Rightarrow> 's SessionManager \<Rightarrow> 's SessionManager" where
  "cmdHelp sess m = sendText sess help_text m"

definition cmdInfo :: "Session \<Rightarrow> 's SessionManager \<Rightarrow> 's SessionManager" where
  "cmdInfo sess m =
     sendText sess (str ''Call:    '' @ bbsCallsign (mcfg m) @ [0x0D] @ str ''Sysop:   '' @ SysopName (mcfg m) @ [0x0D]
       @ str ''Version: '' @ Version (mcfg m) @ [0x0D]) m"

definition heard_line :: "int \<Rightarrow> Entry \<Rightarrow> gostring" where
  "heard_line now e =
     (let elapsed = time_Sub now (eTime e);
          days = go_quot (Duration_Hours elapsed) 24;
          hours = go_rem (Duration_Hours elapsed) 24;
          mins = go_rem (Duration_Minutes elapsed) 60
      in str ''  '' @ fmt_left 10 (eCallsign e) @ str '' '' @ fmt_int days @ str ''d '' @ fmt_02i hours @ str '':''
         @ fmt_02i mins @ str '' ago'' @ [0x0D])"

definition cmdHeard :: "int \<Rightarrow> Session \<Rightarrow> 's SessionManager \<Rightarrow> 's SessionManager" where
  "cmdHeard now sess m =
     (let es = Heard_Entries (mheard m)
      in if es = [] then sendText sess (str ''*** No stations heard'' @ [0x0D]) m
         else sendText sess (str ''Heard:'' @ [0x0D] @ concat (map (heard_line now) es)) m)"

definition isReadableForUser :: "Session \<Rightarrow> MessageIndex \<Rightarrow> bool" where
  "isReadableForUser sess msg =
     (if Flags msg AND FlagBulletin \<noteq> 0 then True
      else if IsSysop sess then True
      else if Flags msg AND FlagPrivate \<noteq> 0 then To msg = BaseCall sess \<or> From msg = BaseCall sess
      else False)"

definition list_line :: "MessageIndex \<Rightarrow> gostring" where
  "list_line msg =
     fmt_right 4 (fmt_d (unat (ID msg))) @ str '' '' @ fmt_left 15 (From msg) @ str '' '' @ fmt_left 15 (To msg) @ str '' ''
     @ [if Flags msg AND FlagPrivate \<noteq> 0 then 0x50 else 0x2D, if Flags msg AND FlagBulletin \<noteq> 0 then 0x42 else 0x2D]
     @ str ''    '' @ Subject msg @ [0x0D]"

definition list_header :: gostring where
  "list_header = str ''   # From            To              Flags Subject'' @ [0x0D]"

definition cmdList :: "'s MessageStore \<Rightarrow> int \<Rightarrow> bool \<Rightarrow> Session \<Rightarrow> 's SessionManager \<Rightarrow> 's SessionManager" where
  "cmdList S limit mineOnly sess m =
     (let (r, st) = msList S limit mineOnly (BaseCall sess) (IsSysop sess) (mstore m); m = m\<lparr>mstore := st\<rparr>
      in case r of
           Inl e \<Rightarrow> sendText sess (str ''*** List failed'' @ [0x0D]) m
         | Inr msgs \<Rightarrow>
             if msgs = [] then
               sendText sess ((if mineOnly then str ''*** No messages for you'' else str ''*** No readable messages'') @ [0x0D]) m
             else sendText sess (list_header
               @ concat (map list_line (filter (\<lambda>x. mineOnly \<or> isReadableForUser sess x) msgs))) m)"

definition cmdListLast :: "'s MessageStore \<Rightarrow> gostring \<Rightarrow> Session \<Rightarrow> 's SessionManager \<Rightarrow> 's SessionManager" where
  "cmdListLast S arg sess m =
     (let n = (if arg \<noteq> [] then (case strconv_Atoi arg of Some v \<Rightarrow> if v > 0 then v else 10 | None \<Rightarrow> 10) else 10)
      in cmdList S n False sess m)"

text \<open>The message number of the commands R and K.\<close>

definition message_arg :: "texts \<Rightarrow> gostring \<Rightarrow> 32 word option" where
  "message_arg X arg =
     (case strconv_ParseUint10 (TrimSpace X arg) 32 of None \<Rightarrow> None | Some n \<Rightarrow> if n = 0 then None else Some (of_nat n))"

definition read_header :: "Message \<Rightarrow> gostring" where
  "read_header msg = str ''Msg '' @ fmt_d (unat (ID msg)) @ str '' From:'' @ From msg @ str '' To:'' @ To msg
     @ str '' Subj:'' @ Subject msg @ [0x0D]"

definition cmdRead :: "'s MessageStore \<Rightarrow> texts \<Rightarrow> gostring \<Rightarrow> Session \<Rightarrow> 's SessionManager \<Rightarrow> 's SessionManager" where
  "cmdRead S X arg sess m =
     (case message_arg X arg of
        None \<Rightarrow> sendText sess (str ''*** Usage: R <message number>'' @ [0x0D]) m
      | Some i \<Rightarrow>
          let (r, st) = msRead S i (mstore m); m = m\<lparr>mstore := st\<rparr>
          in case r of
               Inl e \<Rightarrow> sendText sess (str ''*** Message not found'' @ [0x0D]) m
             | Inr msg \<Rightarrow>
                 if \<not> isReadableForUser sess \<lparr>ID = ID msg, From = From msg, To = To msg, Subject = [], Flags = Flags msg,
                        Size = 0, CreatedAt = zero_time\<rparr>
                 then sendText sess (str ''*** Access denied'' @ [0x0D]) m
                 else
                   let m = say sess [read_header msg, readSeparator, Body msg, readSeparator] m;
                       (r, st) = msGetLastRead S (BaseCall sess) (mstore m); m = m\<lparr>mstore := st\<rparr>;
                       lastRead = (case r of Inl e \<Rightarrow> 0 | Inr j \<Rightarrow> j)
                   in if i > lastRead
                      then m\<lparr>mstore := snd (msSetLastRead S (BaseCall sess) i (mstore m))\<rparr>
                      else m)"

definition cmdSend :: "texts \<Rightarrow> gostring \<Rightarrow> byte \<Rightarrow> Session \<Rightarrow> 's SessionManager \<Rightarrow> 's handler" where
  "cmdSend X arg forceFlags sess m =
     (let to = TrimSpace X arg
      in if to = [] then (sess, sendText sess (str ''*** Usage: S <callsign or topic>'' @ [0x0D]) m)
         else
           let to = ToUpper X to;
               flags = (if forceFlags = 0 then (if IsValidCallsign X to then FlagPrivate else FlagBulletin) else forceFlags);
               sess = sess\<lparr>PendingTo := BaseCallsign X to, PendingFlags := flags, PendingBody := [], PendingSubject := [],
                 inputMode := InputModeSubject\<rparr>
           in (sess, sendText sess (str ''Subject: '' @ [0x0D]) m))"

definition processSubject :: "texts \<Rightarrow> gostring \<Rightarrow> Session \<Rightarrow> 's SessionManager \<Rightarrow> 's handler" where
  "processSubject X line sess m =
     (let subject = TrimSpace X line
      in if subject = [] then
           (let m = sendText sess (str ''*** Aborted'' @ [0x0D]) m; sess = sess\<lparr>inputMode := InputModeCommand\<rparr>
            in (sess, sendPrompt sess m))
         else
           let subject = (if length subject > 48 then take 48 subject else subject);
               sess = sess\<lparr>PendingSubject := subject, inputMode := InputModeBody\<rparr>
           in (sess, sendText sess (str ''Enter body, use /EX to finish:'' @ [0x0D]) m))"

definition finishPost :: "'s MessageStore \<Rightarrow> Session \<Rightarrow> 's SessionManager \<Rightarrow> 's handler" where
  "finishPost S sess m =
     (let (r, st) = msStore S (BaseCall sess) (PendingTo sess) (PendingSubject sess) (PendingBody sess) (PendingFlags sess) (mstore m);
          m = m\<lparr>mstore := st\<rparr>;
          m = (case r of
                 Inl e \<Rightarrow> sendText sess (str ''*** Store failed'' @ [0x0D]) m
               | Inr i \<Rightarrow> sendText sess (str ''*** Stored as message '' @ fmt_d (unat i) @ [0x0D]) m);
          sess = sess\<lparr>inputMode := InputModeCommand, PendingBody := [], PendingSubject := [], PendingTo := [], PendingFlags := 0\<rparr>
      in (sess, sendPrompt sess m))"

definition processBody :: "'s MessageStore \<Rightarrow> texts \<Rightarrow> gostring \<Rightarrow> Session \<Rightarrow> 's SessionManager \<Rightarrow> 's handler" where
  "processBody S X line sess m =
     (if EqualFold X (TrimSpace X line) (str ''/EX'') then finishPost S sess m
      else if int (length (PendingBody sess) + (length line + 1)) > MaxBodyLen (mcfg m) then
        finishPost S sess (sendText sess (str ''*** Message too large, truncated. Sending now.'' @ [0x0D]) m)
      else (sess\<lparr>PendingBody := PendingBody sess @ line @ [0x0D]\<rparr>, m))"

definition cmdKill :: "'s MessageStore \<Rightarrow> texts \<Rightarrow> gostring \<Rightarrow> Session \<Rightarrow> 's SessionManager \<Rightarrow> 's SessionManager" where
  "cmdKill S X arg sess m =
     (case message_arg X arg of
        None \<Rightarrow> sendText sess (str ''*** Usage: K <message number>'' @ [0x0D]) m
      | Some i \<Rightarrow>
          let (r, st) = msFind S i (mstore m); m = m\<lparr>mstore := st\<rparr>
          in case r of
               Inr (Some idx) \<Rightarrow>
                 if \<not> IsSysop sess \<and> From idx \<noteq> BaseCall sess \<and> To idx \<noteq> BaseCall sess
                 then sendText sess (str ''*** Kill denied'' @ [0x0D]) m
                 else
                   let (r, st) = msDelete S i (mstore m); m = m\<lparr>mstore := st\<rparr>
                   in (case r of
                         Some e \<Rightarrow> sendText sess (str ''*** Delete failed'' @ [0x0D]) m
                       | None \<Rightarrow> sendText sess (str ''*** Message deleted'' @ [0x0D]) m)
             | _ \<Rightarrow> sendText sess (str ''*** Message not found'' @ [0x0D]) m)"

definition cmdBye :: "Session \<Rightarrow> 's SessionManager \<Rightarrow> 's SessionManager" where
  "cmdBye sess m = sendDisconnect sess (sendText sess (str ''*** Goodbye'' @ [0x0D]) m)"

section \<open>SYSOP login\<close>

definition locked_out_text :: "Session \<Rightarrow> gostring" where
  "locked_out_text sess =
     str ''*** SYSOP locked out for '' @ fmt_int (LockoutMinutes (Sysop sess)) @ str '' minutes'' @ [0x0D]"

definition issueSysopChallenge :: "int \<Rightarrow> Session \<Rightarrow> 's SessionManager \<Rightarrow> 's handler option" where
  "issueSysopChallenge now sess m =
     (case IssueChallenge now (mrandom m) (Sysop sess) of
        None \<Rightarrow> None
      | Some (r, rnd, sy) \<Rightarrow>
          let sess = sess\<lparr>Sysop := sy\<rparr>; m = m\<lparr>mrandom := rnd\<rparr>
          in case r of
               Inl e \<Rightarrow> Some (sess, sendText sess (str ''*** SYSOP challenge unavailable'' @ [0x0D]) m)
             | Inr challenge \<Rightarrow>
                 let sess = sess\<lparr>inputMode := InputModeSysopResponse\<rparr> in Some (sess, sendText sess challenge m))"

definition cmdSysop :: "texts \<Rightarrow> int \<Rightarrow> gostring \<Rightarrow> Session \<Rightarrow> 's SessionManager \<Rightarrow> 's handler option" where
  "cmdSysop X now arg sess m =
     (if SysopSecret (mcfg m) = [] then Some (sess, sendText sess (str ''*** SYSOP not configured'' @ [0x0D]) m)
      else if ToUpper X (TrimSpace X arg) = str ''NEW'' then
        (if IsAwaitingResponse (Sysop sess) then issueSysopChallenge now sess m
         else Some (sess, sendText sess (str ''*** No active SYSOP challenge'' @ [0x0D]) m))
      else
        let (locked, sy) = IsLockedOut now (Sysop sess); sess = sess\<lparr>Sysop := sy\<rparr>
        in if locked then Some (sess, sendText sess (locked_out_text sess) m)
           else issueSysopChallenge now sess m)"

definition sendConfigPrompt :: "Session \<Rightarrow> 's SessionManager \<Rightarrow> 's SessionManager" where
  "sendConfigPrompt sess m = sendText sess (str ''CONFIG READY>'' @ [0x0D]) m"

definition enterConfigMode :: "Session \<Rightarrow> 's SessionManager \<Rightarrow> 's handler" where
  "enterConfigMode sess m =
     (let sess = sess\<lparr>inputMode := InputModeConfig\<rparr>
      in (sess, sendConfigPrompt sess (sendText sess (str ''*** Entering config mode'' @ [0x0D]) m)))"

definition cmdConfig :: "int \<Rightarrow> Session \<Rightarrow> 's SessionManager \<Rightarrow> 's handler option" where
  "cmdConfig now sess m =
     (if SysopSecret (mcfg m) \<noteq> [] \<and> \<not> IsSysop sess then
        let (locked, sy) = IsLockedOut now (Sysop sess); sess = sess\<lparr>Sysop := sy\<rparr>
        in if locked then Some (sess, sendPrompt sess (sendText sess (locked_out_text sess) m))
           else issueSysopChallenge now (sess\<lparr>pendingConfigEntry := True\<rparr>) m
      else Some (enterConfigMode sess m))"

definition processSysopResponse :: "texts \<Rightarrow> int \<Rightarrow> gostring \<Rightarrow> Session \<Rightarrow> 's SessionManager \<Rightarrow> 's handler option" where
  "processSysopResponse X now line sess m =
     (let line = TrimSpace X line
      in if EqualFold X line (str ''SYSOP NEW'') then
           (if IsAwaitingResponse (Sysop sess) then issueSysopChallenge now sess m
            else Some (sess, sendPrompt sess (sendText sess (str ''*** No active SYSOP challenge'' @ [0x0D]) m)))
         else
           let (result, sy) = SubmitResponse now line (Sysop sess);
               sess = sess\<lparr>Sysop := sy, inputMode := InputModeCommand, pendingConfigEntry := False\<rparr>
           in case result of
                VerifySuccess \<Rightarrow>
                  let sess = sess\<lparr>IsSysop := True\<rparr>; m = sendText sess (str ''*** SYSOP authenticated'' @ [0x0D]) m
                  in if pendingConfigEntry sess then Some (enterConfigMode (sess\<lparr>pendingConfigEntry := False\<rparr>) m)
                     else Some (sess, sendPrompt sess m)
              | VerifyLockedOut \<Rightarrow>
                  let sess = sess\<lparr>IsSysop := False\<rparr> in Some (sess, sendPrompt sess (sendText sess (locked_out_text sess) m))
              | VerifyExpired \<Rightarrow>
                  let sess = sess\<lparr>IsSysop := False\<rparr>
                  in Some (sess, sendPrompt sess (sendText sess (str ''*** SYSOP challenge expired'' @ [0x0D]) m))
              | VerifyNoActive \<Rightarrow> Some (sess, sendPrompt sess (sendText sess (str ''*** No active SYSOP challenge'' @ [0x0D]) m))
              | VerifyFailed \<Rightarrow>
                  Some (sess, sendPrompt sess (sendText sess (str ''*** SYSOP auth failed ('' @ fmt_int (FailedAttempts (Sysop sess))
                    @ str ''/'' @ fmt_int (MaxAttempts (Sysop sess)) @ str '')'' @ [0x0D]) m)))"

definition sysopExpireIfIdle :: "int \<Rightarrow> Session \<Rightarrow> 's SessionManager \<Rightarrow> 's handler" where
  "sysopExpireIfIdle now sess m =
     (let (expired, sy) = ExpireIfIdle now (Sysop sess); sess = sess\<lparr>Sysop := sy\<rparr>
      in if expired then
           (let sess = sess\<lparr>IsSysop := False\<rparr> in (sess, sendText sess (str ''*** SYSOP session expired'' @ [0x0D]) m))
         else (sess, m))"

section \<open>Config mode\<close>

definition configValues :: "BBSConfig \<Rightarrow> (gostring \<times> gostring) list" where
  "configValues c =
     [(str ''bbs.callsign'', bbsCallsign c),
      (str ''bbs.greeting'', Greeting c),
      (str ''bbs.prompt'', Prompt c),
      (str ''bbs.sysop_name'', SysopName c),
      (str ''bbs.version'', Version c),
      (str ''bbs.max_messages'', fmt_int (MaxMessages c)),
      (str ''bbs.max_body_len'', fmt_int (MaxBodyLen c)),
      (str ''bbs.sysop_challenge_timeout_s'', fmt_int (SysopChallengeTimeout c)),
      (str ''bbs.sysop_session_timeout_s'', fmt_int (SysopSessionTimeout c)),
      (str ''bbs.sysop_lockout_s'', fmt_int (SysopLockout c)),
      (str ''bbs.sysop_max_attempts'', fmt_int (SysopMaxAttempts c)),
      (str ''bbs.db_path'', DBPath c),
      (str ''bbs.host'', AGWPEHost c),
      (str ''bbs.port'', fmt_d (unat (AGWPEPort c)))]"

text \<open>The first word of a line in the case the caller folds to, and the rest.\<close>

definition split_command :: "texts \<Rightarrow> gostring \<Rightarrow> gostring \<times> gostring" where
  "split_command X line =
     (case strings_SplitN2 line 0x20 of (c, None) \<Rightarrow> (c, []) | (c, Some rest) \<Rightarrow> (c, TrimSpace X rest))"

definition processConfigCommand :: "texts \<Rightarrow> gostring \<Rightarrow> Session \<Rightarrow> 's SessionManager \<Rightarrow> 's handler" where
  "processConfigCommand X line sess m =
     (let line = TrimSpace X line
      in if line = [] then (sess, sendConfigPrompt sess m)
         else
           let (c, arg) = split_command X line; c = strings_ToLower X c
           in if c = str ''get'' then
                (sess, sendConfigPrompt sess (sendText sess
                  (case map_of (configValues (mcfg m)) arg of
                     Some val \<Rightarrow> arg @ str ''='' @ val @ [0x0D]
                   | None \<Rightarrow> str ''*** Unknown key: '' @ arg @ [0x0D]) m))
              else if c = str ''exit'' then
                (let sess = sess\<lparr>inputMode := InputModeCommand\<rparr>
                 in (sess, sendPrompt sess (sendText sess (str ''*** Exiting config mode'' @ [0x0D]) m)))
              else (sess, sendConfigPrompt sess (sendText sess (str ''*** Unknown config command'' @ [0x0D]) m)))"

section \<open>Lines\<close>

text \<open>The switch of \<open>processCommand\<close> on the commands that are followed by a prompt.\<close>

definition run_command ::
  "'s MessageStore \<Rightarrow> texts \<Rightarrow> int \<Rightarrow> gostring \<Rightarrow> gostring \<Rightarrow> Session \<Rightarrow> 's SessionManager \<Rightarrow> 's handler option" where
  "run_command S X now c arg sess m =
     (if c = str ''H'' \<or> c = str ''?'' then Some (sess, cmdHelp sess m)
      else if c = str ''I'' then Some (sess, cmdInfo sess m)
      else if c = str ''J'' then Some (sess, cmdHeard now sess m)
      else if c = str ''L'' then Some (sess, cmdList S 0 False sess m)
      else if c = str ''LL'' then Some (sess, cmdListLast S arg sess m)
      else if c = str ''LM'' then Some (sess, cmdList S 0 True sess m)
      else if c = str ''R'' then Some (sess, cmdRead S X arg sess m)
      else if c = str ''S'' then Some (cmdSend X arg 0 sess m)
      else if c = str ''SP'' then Some (cmdSend X arg FlagPrivate sess m)
      else if c = str ''SB'' then Some (cmdSend X arg FlagBulletin sess m)
      else if c = str ''K'' then Some (sess, cmdKill S X arg sess m)
      else if c = str ''SYSOP'' then cmdSysop X now arg sess m
      else Some (sess, sendText sess (str ''*** Unknown command. Type H for help.'' @ [0x0D]) m))"

text \<open>The start of every command: an idle SYSOP session expires, an active one is noted.\<close>

definition noteCommand :: "int \<Rightarrow> Session \<Rightarrow> 's SessionManager \<Rightarrow> 's handler" where
  "noteCommand now sess m =
     (let (sess, m) = sysopExpireIfIdle now sess m
      in (if IsAuthenticated (Sysop sess) then sess\<lparr>Sysop := NoteActivity now (Sysop sess)\<rparr> else sess, m))"

definition processCommand ::
  "'s MessageStore \<Rightarrow> texts \<Rightarrow> int \<Rightarrow> gostring \<Rightarrow> Session \<Rightarrow> 's SessionManager \<Rightarrow> 's handler option" where
  "processCommand S X now line sess m =
     (let line = TrimSpace X line
      in if line = [] then Some (sess, sendPrompt sess m)
         else
           let (c, arg) = split_command X line; c = ToUpper X c;
               (sess, m) = noteCommand now sess m
           in if c = str ''CONFIG'' then cmdConfig now sess m
              else if c = str ''B'' then Some (sess, cmdBye sess m)
              else map_option (\<lambda>(sess, m). (sess, sendPrompt sess m)) (run_command S X now c arg sess m))"

definition processLine ::
  "'s MessageStore \<Rightarrow> texts \<Rightarrow> int \<Rightarrow> gostring \<Rightarrow> Session \<Rightarrow> 's SessionManager \<Rightarrow> 's handler option" where
  "processLine S X now line sess m =
     (case inputMode sess of
        InputModeCommand \<Rightarrow> processCommand S X now line sess m
      | InputModeSubject \<Rightarrow> Some (processSubject X line sess m)
      | InputModeBody \<Rightarrow> Some (processBody S X line sess m)
      | InputModeSysopResponse \<Rightarrow> processSysopResponse X now line sess m
      | InputModeConfig \<Rightarrow> Some (processConfigCommand X line sess m))"

section \<open>Connections\<close>

definition newSession :: "texts \<Rightarrow> BBSConfig \<Rightarrow> gostring \<Rightarrow> gostring \<Rightarrow> byte \<Rightarrow> Session" where
  "newSession X c remote loc port =
     \<lparr>RemoteCall = remote, BaseCall = BaseCallsign X remote, LocalCall = loc, sessPort = port,
      inputMode = InputModeCommand, IsSysop = False, PendingTo = [], PendingSubject = [], PendingBody = [],
      PendingFlags = 0, lineBuf = [], lastWasCR = False,
      Sysop = NewSysopState (SysopSecret c) (wrap64 (SysopChallengeTimeout c * Second))
        (wrap64 (SysopSessionTimeout c * Second)) (wrap64 (SysopLockout c * Second)) (SysopMaxAttempts c),
      pendingConfigEntry = False\<rparr>"

definition BBS_OnConnect ::
  "'s MessageStore \<Rightarrow> texts \<Rightarrow> gostring \<Rightarrow> gostring \<Rightarrow> byte \<Rightarrow> 's SessionManager \<Rightarrow> 's SessionManager" where
  "BBS_OnConnect S X remote loc port m =
     (let key = sessionKey remote loc
      in if sessions m key \<noteq> None then m
         else
           let sess = newSession X (mcfg m) remote loc port;
               m = m\<lparr>sessions := (sessions m)(key \<mapsto> sess)\<rparr>;
               m = sendText sess (Greeting (mcfg m) @ [0x0D]) m;
               (banner, m) = bannerSummary S sess m;
               m = sendText sess banner m
           in sendText sess (Prompt (mcfg m) @ [0x0D]) m)"

text \<open>One byte of \<open>OnData\<close>.\<close>

definition data_byte ::
  "'s MessageStore \<Rightarrow> texts \<Rightarrow> int \<Rightarrow> byte \<Rightarrow> Session \<Rightarrow> 's SessionManager \<Rightarrow> 's handler option" where
  "data_byte S X now b sess m =
     (if b = 0x0D then processLine S X now (lineBuf sess) (sess\<lparr>lineBuf := [], lastWasCR := True\<rparr>) m
      else if b = 0x0A then
        (if lastWasCR sess then Some (sess\<lparr>lastWasCR := False\<rparr>, m)
         else processLine S X now (lineBuf sess) (sess\<lparr>lineBuf := []\<rparr>) m)
      else Some (sess\<lparr>lastWasCR := False, lineBuf := lineBuf sess @ [b]\<rparr>, m))"

fun data_bytes ::
  "'s MessageStore \<Rightarrow> texts \<Rightarrow> int \<Rightarrow> byte list \<Rightarrow> Session \<Rightarrow> 's SessionManager \<Rightarrow> 's handler option" where
  "data_bytes S X now [] sess m = Some (sess, m)"
| "data_bytes S X now (b # bs) sess m =
     (case data_byte S X now b sess m of None \<Rightarrow> None | Some (sess, m) \<Rightarrow> data_bytes S X now bs sess m)"

definition BBS_OnData ::
  "'s MessageStore \<Rightarrow> texts \<Rightarrow> int \<Rightarrow> gostring \<Rightarrow> gostring \<Rightarrow> byte list \<Rightarrow> 's SessionManager \<Rightarrow> 's SessionManager option" where
  "BBS_OnData S X now remote loc d m =
     (let key = sessionKey remote loc
      in case sessions m key of
           None \<Rightarrow> Some m
         | Some sess \<Rightarrow>
             (case data_bytes S X now d sess m of
                None \<Rightarrow> None
              | Some (sess, m) \<Rightarrow> Some (m\<lparr>sessions := (sessions m)(key \<mapsto> sess)\<rparr>)))"

definition BBS_OnDisconnect :: "gostring \<Rightarrow> gostring \<Rightarrow> 's SessionManager \<Rightarrow> 's SessionManager" where
  "BBS_OnDisconnect remote loc m = m\<lparr>sessions := (sessions m)(sessionKey remote loc := None)\<rparr>"

text \<open>\<open>DisconnectAll\<close>, given the order in which the runtime iterates over the map.\<close>

definition DisconnectAll :: "gostring list \<Rightarrow> 's SessionManager \<Rightarrow> 's SessionManager" where
  "DisconnectAll order m =
     (let ss = map (\<lambda>k. the (sessions m k)) (filter (\<lambda>k. sessions m k \<noteq> None) order)
      in fold sendDisconnect ss (m\<lparr>sessions := Map.empty\<rparr>))"

section \<open>The program\<close>

definition handleAGWPEFrame ::
  "'s MessageStore \<Rightarrow> texts \<Rightarrow> int \<Rightarrow> gostring \<Rightarrow> AgwFrame option \<Rightarrow> 's SessionManager \<Rightarrow> 's SessionManager option" where
  "handleAGWPEFrame S X now myCall f m =
     (case f of
        None \<Rightarrow> Some m
      | Some f \<Rightarrow>
          if Kind f = KindConnectResp then Some (BBS_OnConnect S X (CallFrom f) (CallTo f) (agwPort f) m)
          else if Kind f = KindRecvData then BBS_OnData S X now (CallFrom f) (CallTo f) (Data f) m
          else if Kind f = KindDisconnectResp then Some (BBS_OnDisconnect (CallFrom f) (CallTo f) m)
          else if Kind f = KindRecvUnproto \<or> Kind f = KindRecvIFrame \<or> Kind f = KindRecvSupervisory then
            Some (if CallFrom f \<noteq> [] \<and> CallFrom f \<noteq> myCall
                  then m\<lparr>mheard := Heard_Add (cases_tables X) now (CallFrom f) (mheard m)\<rparr> else m)
          else Some m)"

fun handle_frames ::
  "'s MessageStore \<Rightarrow> texts \<Rightarrow> gostring \<Rightarrow> (int \<times> AgwFrame) list \<Rightarrow> 's SessionManager \<Rightarrow> 's SessionManager option" where
  "handle_frames S X myCall [] m = Some m"
| "handle_frames S X myCall ((now, f) # fs) m =
     (case handleAGWPEFrame S X now myCall (Some f) m of None \<Rightarrow> None | Some m \<Rightarrow> handle_frames S X myCall fs m)"

end
