(* ===== verification/Bbs_Props.thy ===== *)
theory Bbs_Props
  imports Bbs_Session
begin

text \<open>
  What makes the BBS correct. The first part has the frame lemmas: what a handler leaves alone. Then
  come the line discipline (any cut of the input into pieces, any convention for line ends), posting,
  reading, listing and killing of messages over a message store, the SYSOP login, and the bounds on
  what a session collects. The properties are stated for the store over SQLite.
\<close>

declare str_simps [simp del]

section \<open>What the handlers leave alone\<close>

lemma sendBytes_view [simp]:
  "sessions (sendBytes sess d m) = sessions m" "mcfg (sendBytes sess d m) = mcfg m" "mstore (sendBytes sess d m) = mstore m"
  "mheard (sendBytes sess d m) = mheard m" "mrandom (sendBytes sess d m) = mrandom m"
  by (simp_all add: sendBytes_def split: option.splits prod.splits)

lemma sendText_view [simp]:
  "sessions (sendText sess t m) = sessions m" "mcfg (sendText sess t m) = mcfg m" "mstore (sendText sess t m) = mstore m"
  "mheard (sendText sess t m) = mheard m" "mrandom (sendText sess t m) = mrandom m"
  by (simp_all add: sendText_def)

lemma sendPrompt_view [simp]:
  "sessions (sendPrompt sess m) = sessions m" "mcfg (sendPrompt sess m) = mcfg m" "mstore (sendPrompt sess m) = mstore m"
  "mheard (sendPrompt sess m) = mheard m" "mrandom (sendPrompt sess m) = mrandom m"
  by (simp_all add: sendPrompt_def)

lemma sendConfigPrompt_view [simp]:
  "sessions (sendConfigPrompt sess m) = sessions m" "mcfg (sendConfigPrompt sess m) = mcfg m"
  "mstore (sendConfigPrompt sess m) = mstore m" "mheard (sendConfigPrompt sess m) = mheard m"
  by (simp_all add: sendConfigPrompt_def)

lemma sendDisconnect_view [simp]:
  "sessions (sendDisconnect sess m) = sessions m" "mcfg (sendDisconnect sess m) = mcfg m"
  "mstore (sendDisconnect sess m) = mstore m" "mheard (sendDisconnect sess m) = mheard m"
  by (simp_all add: sendDisconnect_def split: option.splits prod.splits)

lemma say_simps [simp]: "say sess [] m = m" "say sess (t # ts) m = say sess ts (sendText sess t m)"
  by (simp_all add: say_def)

lemma say_view [simp]:
  "sessions (say sess ts m) = sessions m" "mcfg (say sess ts m) = mcfg m" "mstore (say sess ts m) = mstore m"
  "mheard (say sess ts m) = mheard m"
  by (induction ts arbitrary: m) simp_all

text \<open>What is sent depends on the connection only.\<close>

definition same_peer :: "Session \<Rightarrow> Session \<Rightarrow> bool" where
  "same_peer s t \<longleftrightarrow> sessPort s = sessPort t \<and> LocalCall s = LocalCall t \<and> RemoteCall s = RemoteCall t"

lemma same_peer_sends:
  assumes "same_peer s t"
  shows "sendText s = sendText t" "sendPrompt s = sendPrompt t" "sendConfigPrompt s = sendConfigPrompt t"
    "sendDisconnect s = sendDisconnect t"
  using assms
  by (auto simp: fun_eq_iff same_peer_def sendText_def sendBytes_def sendPrompt_def sendConfigPrompt_def sendDisconnect_def
      split: option.splits)

lemma same_peer_updates [simp]:
  "same_peer (s\<lparr>inputMode := a\<rparr>) s" "same_peer (s\<lparr>IsSysop := b\<rparr>) s" "same_peer (s\<lparr>PendingTo := c\<rparr>) s"
  "same_peer (s\<lparr>PendingSubject := d\<rparr>) s" "same_peer (s\<lparr>PendingBody := e\<rparr>) s" "same_peer (s\<lparr>PendingFlags := f\<rparr>) s"
  "same_peer (s\<lparr>lineBuf := g\<rparr>) s" "same_peer (s\<lparr>lastWasCR := h\<rparr>) s" "same_peer (s\<lparr>Sysop := i\<rparr>) s"
  "same_peer (s\<lparr>pendingConfigEntry := j\<rparr>) s"
  by (simp_all add: same_peer_def)

lemmas send_updates [simp] = same_peer_updates [THEN same_peer_sends(1)] same_peer_updates [THEN same_peer_sends(2)]
  same_peer_updates [THEN same_peer_sends(3)] same_peer_updates [THEN same_peer_sends(4)]

lemma sendText_store [simp]: "sendText sess t (m\<lparr>mstore := st\<rparr>) = (sendText sess t m)\<lparr>mstore := st\<rparr>"
  by (simp add: sendText_def sendBytes_def split: option.splits prod.splits)

lemma say_store [simp]: "say sess ts (m\<lparr>mstore := st\<rparr>) = (say sess ts m)\<lparr>mstore := st\<rparr>"
  by (induction ts arbitrary: m) simp_all

lemma sendPrompt_store [simp]: "sendPrompt sess (m\<lparr>mstore := st\<rparr>) = (sendPrompt sess m)\<lparr>mstore := st\<rparr>"
  by (simp add: sendPrompt_def)

text \<open>The buffer of the line discipline is not touched by the processing of a line.\<close>

definition with_cr :: "bool \<Rightarrow> 's handler option \<Rightarrow> 's handler option" where
  "with_cr b = map_option (\<lambda>(sess, m). (sess\<lparr>lastWasCR := b\<rparr>, m))"

lemma with_cr_simps [simp]: "with_cr b None = None" "with_cr b (Some (sess, m)) = Some (sess\<lparr>lastWasCR := b\<rparr>, m)"
  by (simp_all add: with_cr_def)

lemma with_cr_twice [simp]: "with_cr a (with_cr b r) = with_cr a r"
  by (cases r) auto

lemmas text_handlers = cmdHelp_def cmdInfo_def cmdHeard_def cmdList_def cmdListLast_def cmdRead_def cmdKill_def cmdBye_def
lemmas mode_handlers = cmdSend_def processSubject_def finishPost_def processBody_def enterConfigMode_def
  processConfigCommand_def
lemmas sysop_handlers = issueSysopChallenge_def cmdSysop_def cmdConfig_def processSysopResponse_def sysopExpireIfIdle_def
  locked_out_text_def

lemma isReadable_cr [simp]: "isReadableForUser (s\<lparr>lastWasCR := b\<rparr>) = isReadableForUser s"
  by (simp add: isReadableForUser_def fun_eq_iff)

lemma say_cr [simp]: "say (s\<lparr>lastWasCR := b\<rparr>) = say s"
  by (simp add: say_def fun_eq_iff)

lemma text_handlers_cr:
  "cmdHelp (s\<lparr>lastWasCR := b\<rparr>) = cmdHelp s" "cmdInfo (s\<lparr>lastWasCR := b\<rparr>) = cmdInfo s"
  "cmdHeard now (s\<lparr>lastWasCR := b\<rparr>) = cmdHeard now s" "cmdList S n mine (s\<lparr>lastWasCR := b\<rparr>) = cmdList S n mine s"
  "cmdListLast S arg (s\<lparr>lastWasCR := b\<rparr>) = cmdListLast S arg s" "cmdRead S X arg (s\<lparr>lastWasCR := b\<rparr>) = cmdRead S X arg s"
  "cmdKill S X arg (s\<lparr>lastWasCR := b\<rparr>) = cmdKill S X arg s" "cmdBye (s\<lparr>lastWasCR := b\<rparr>) = cmdBye s"
  by (rule ext, simp add: text_handlers Let_def cong: if_cong option.case_cong sum.case_cong prod.case_cong)+

lemma issueSysopChallenge_cr: "issueSysopChallenge now (s\<lparr>lastWasCR := b\<rparr>) m = with_cr b (issueSysopChallenge now s m)"
  by (simp add: issueSysopChallenge_def Let_def split: option.splits prod.splits sum.splits)

lemmas deep_cong = if_cong option.case_cong sum.case_cong prod.case_cong VerifyResult.case_cong InputMode.case_cong

lemma mode_handlers_cr:
  "Some (cmdSend X arg fl (s\<lparr>lastWasCR := b\<rparr>) m) = with_cr b (Some (cmdSend X arg fl s m))"
  "Some (processSubject X line (s\<lparr>lastWasCR := b\<rparr>) m) = with_cr b (Some (processSubject X line s m))"
  "Some (finishPost S (s\<lparr>lastWasCR := b\<rparr>) m) = with_cr b (Some (finishPost S s m))"
  "Some (enterConfigMode (s\<lparr>lastWasCR := b\<rparr>) m) = with_cr b (Some (enterConfigMode s m))"
  "Some (processConfigCommand X line (s\<lparr>lastWasCR := b\<rparr>) m) = with_cr b (Some (processConfigCommand X line s m))"
  by (simp_all add: mode_handlers Let_def split: prod.splits sum.splits)

lemma processBody_cr:
  "Some (processBody S X line (s\<lparr>lastWasCR := b\<rparr>) m) = with_cr b (Some (processBody S X line s m))"
  using mode_handlers_cr(3) [where b = b] by (auto simp: processBody_def)

lemma sysop_handlers_cr:
  "cmdSysop X now arg (s\<lparr>lastWasCR := b\<rparr>) m = with_cr b (cmdSysop X now arg s m)"
  "cmdConfig now (s\<lparr>lastWasCR := b\<rparr>) m = with_cr b (cmdConfig now s m)"
  "processSysopResponse X now line (s\<lparr>lastWasCR := b\<rparr>) m = with_cr b (processSysopResponse X now line s m)"
proof -
  have u: "s\<lparr>lastWasCR := b, Sysop := sy\<rparr> = s\<lparr>Sysop := sy, lastWasCR := b\<rparr>"
    "s\<lparr>lastWasCR := b, Sysop := sy, pendingConfigEntry := True\<rparr> = s\<lparr>Sysop := sy, pendingConfigEntry := True, lastWasCR := b\<rparr>" for sy
    by simp_all
  have c: "issueSysopChallenge now (s\<lparr>lastWasCR := b, Sysop := sy\<rparr>) m = with_cr b (issueSysopChallenge now (s\<lparr>Sysop := sy\<rparr>) m)"
    "issueSysopChallenge now (s\<lparr>lastWasCR := b, Sysop := sy, pendingConfigEntry := True\<rparr>) m
      = with_cr b (issueSysopChallenge now (s\<lparr>Sysop := sy, pendingConfigEntry := True\<rparr>) m)" for sy
    by (subst u(1), rule issueSysopChallenge_cr) (subst u(2), rule issueSysopChallenge_cr)
  show "cmdSysop X now arg (s\<lparr>lastWasCR := b\<rparr>) m = with_cr b (cmdSysop X now arg s m)"
    by (simp add: cmdSysop_def Let_def issueSysopChallenge_cr c locked_out_text_def split: prod.splits)
  show "cmdConfig now (s\<lparr>lastWasCR := b\<rparr>) m = with_cr b (cmdConfig now s m)"
    by (simp add: cmdConfig_def Let_def c locked_out_text_def mode_handlers_cr split: prod.splits)
  show "processSysopResponse X now line (s\<lparr>lastWasCR := b\<rparr>) m = with_cr b (processSysopResponse X now line s m)"
    by (simp add: processSysopResponse_def Let_def issueSysopChallenge_cr locked_out_text_def
        split: prod.splits VerifyResult.splits)
qed

lemma run_command_cr: "run_command S X now c arg (s\<lparr>lastWasCR := b\<rparr>) m = with_cr b (run_command S X now c arg s m)"
  by (simp add: run_command_def text_handlers_cr mode_handlers_cr sysop_handlers_cr)

lemma noteCommand_cr:
  "noteCommand now (s\<lparr>lastWasCR := b\<rparr>) m = (case noteCommand now s m of (s', m') \<Rightarrow> (s'\<lparr>lastWasCR := b\<rparr>, m'))"
  by (cases "ExpireIfIdle now (Sysop s)") (auto simp: noteCommand_def sysopExpireIfIdle_def Let_def)

lemma processCommand_cr: "processCommand S X now line (s\<lparr>lastWasCR := b\<rparr>) m = with_cr b (processCommand S X now line s m)"
proof -
  have p: "map_option (\<lambda>(sess, m). (sess, sendPrompt sess m)) (with_cr b r) = with_cr b (map_option (\<lambda>(sess, m). (sess, sendPrompt sess m)) r)" for r
    by (auto simp: with_cr_def map_option_case split: option.splits)
  show ?thesis
    by (cases "noteCommand now s m")
      (simp add: processCommand_def Let_def noteCommand_cr sysop_handlers_cr text_handlers_cr run_command_cr p
        split: prod.splits)
qed

lemma processLine_cr: "processLine S X now line (s\<lparr>lastWasCR := b\<rparr>) m = with_cr b (processLine S X now line s m)"
  by (simp add: processLine_def processCommand_cr mode_handlers_cr processBody_cr sysop_handlers_cr split: InputMode.splits)

text \<open>Who the station is, the line buffer and the configuration stay.\<close>

definition keeps :: "Session \<Rightarrow> 's SessionManager \<Rightarrow> 's handler \<Rightarrow> bool" where
  "keeps s m h \<longleftrightarrow> (case h of (s', m') \<Rightarrow> same_peer s' s \<and> BaseCall s' = BaseCall s \<and> lineBuf s' = lineBuf s
     \<and> Secret (Sysop s') = Secret (Sysop s) \<and> sessions m' = sessions m \<and> mcfg m' = mcfg m \<and> mheard m' = mheard m)"

lemma text_handlers_keep [simp]:
  "sessions (cmdHelp s m) = sessions m" "mcfg (cmdHelp s m) = mcfg m" "mheard (cmdHelp s m) = mheard m"
  "sessions (cmdInfo s m) = sessions m" "mcfg (cmdInfo s m) = mcfg m" "mheard (cmdInfo s m) = mheard m"
  "sessions (cmdHeard now s m) = sessions m" "mcfg (cmdHeard now s m) = mcfg m" "mheard (cmdHeard now s m) = mheard m"
  "sessions (cmdBye s m) = sessions m" "mcfg (cmdBye s m) = mcfg m" "mheard (cmdBye s m) = mheard m"
  "sessions (cmdList S n mine s m) = sessions m" "mcfg (cmdList S n mine s m) = mcfg m" "mheard (cmdList S n mine s m) = mheard m"
  "sessions (cmdRead S X arg s m) = sessions m" "mcfg (cmdRead S X arg s m) = mcfg m" "mheard (cmdRead S X arg s m) = mheard m"
  "sessions (cmdKill S X arg s m) = sessions m" "mcfg (cmdKill S X arg s m) = mcfg m" "mheard (cmdKill S X arg s m) = mheard m"
  by (simp_all add: text_handlers Let_def split: option.splits sum.splits prod.splits)

lemma IssueChallenge_Secret: "IssueChallenge now rnd y = Some (r, rnd', y') \<Longrightarrow> Secret y' = Secret y"
  by (auto simp: IssueChallenge_def Let_def split: if_splits option.splits prod.splits)

lemma SubmitResponse_Secret: "SubmitResponse now l y = (r, y') \<Longrightarrow> Secret y' = Secret y"
  by (auto simp: SubmitResponse_def Let_def split: if_splits)

lemma IsLockedOut_Secret: "IsLockedOut now y = (b, y') \<Longrightarrow> Secret y' = Secret y"
  by (auto simp: IsLockedOut_def split: if_splits)

lemma issueSysopChallenge_keeps: "issueSysopChallenge now s m = Some h \<Longrightarrow> keeps s m h"
  by (auto simp: issueSysopChallenge_def keeps_def same_peer_def Let_def IssueChallenge_Secret
      split: option.splits prod.splits sum.splits)

lemma keeps_update: "keeps (s\<lparr>Sysop := y\<rparr>) m h \<Longrightarrow> Secret y = Secret (Sysop s) \<Longrightarrow> keeps s m h"
  "keeps (s\<lparr>Sysop := y, pendingConfigEntry := b\<rparr>) m h \<Longrightarrow> Secret y = Secret (Sysop s) \<Longrightarrow> keeps s m h"
  by (auto simp: keeps_def same_peer_def split: prod.splits)

lemma cmdSysop_keeps: "cmdSysop X now arg s m = Some h \<Longrightarrow> keeps s m h"
  by (auto simp: cmdSysop_def Let_def intro: issueSysopChallenge_keeps keeps_update(1) [OF issueSysopChallenge_keeps]
      dest: IsLockedOut_Secret split: if_splits prod.splits) (auto simp: keeps_def same_peer_def dest: IsLockedOut_Secret)

lemma cmdConfig_keeps: "cmdConfig now s m = Some h \<Longrightarrow> keeps s m h"
  by (auto simp: cmdConfig_def Let_def intro: keeps_update(2) [OF issueSysopChallenge_keeps]
      dest: IsLockedOut_Secret split: if_splits prod.splits)
    (auto simp: keeps_def same_peer_def enterConfigMode_def dest: IsLockedOut_Secret)

lemma processSysopResponse_keeps: "processSysopResponse X now line s m = Some h \<Longrightarrow> keeps s m h"
  by (auto simp: processSysopResponse_def Let_def intro: issueSysopChallenge_keeps
      split: if_splits prod.splits VerifyResult.splits) (auto simp: keeps_def same_peer_def dest: SubmitResponse_Secret)

lemma mode_handlers_keep:
  "keeps s m (cmdSend X arg fl s m)" "keeps s m (processSubject X line s m)" "keeps s m (finishPost S s m)"
  "keeps s m (processConfigCommand X line s m)" "keeps s m (processBody S X line s m)"
  by (auto simp: mode_handlers keeps_def same_peer_def Let_def split: prod.splits sum.splits option.splits)

lemma run_command_keeps: "run_command S X now c arg s m = Some h \<Longrightarrow> keeps s m h"
proof -
  assume r: "run_command S X now c arg s m = Some h"
  have "keeps s m (s, m')" if "sessions m' = sessions m" "mcfg m' = mcfg m" "mheard m' = mheard m" for m' :: "'a SessionManager"
    using that by (simp add: keeps_def same_peer_def)
  then show ?thesis using r
    by (auto simp: run_command_def mode_handlers_keep cmdListLast_def Let_def intro: cmdSysop_keeps split: if_splits)
qed

lemma noteCommand_keeps: "keeps s m (noteCommand now s m)"
  by (auto simp: noteCommand_def sysopExpireIfIdle_def ExpireIfIdle_def NoteActivity_def keeps_def same_peer_def Let_def)

lemma keeps_trans: "keeps s m (s', m') \<Longrightarrow> keeps s' m' h \<Longrightarrow> keeps s m h"
  by (auto simp: keeps_def same_peer_def)

lemma processCommand_keeps:
  assumes "processCommand S X now line s m = Some h"
  shows "keeps s m h"
proof (cases "TrimSpace X line = []")
  case True
  then show ?thesis using assms by (auto simp: processCommand_def keeps_def same_peer_def)
next
  case False
  obtain s1 m1 where n: "noteCommand now s m = (s1, m1)" by fastforce
  obtain c arg where c: "split_command X (TrimSpace X line) = (c, arg)" by fastforce
  have "keeps s1 m1 h"
  proof -
    consider "cmdConfig now s1 m1 = Some h" | "h = (s1, cmdBye s1 m1)"
      | s2 m2 where "run_command S X now (ToUpper X c) arg s1 m1 = Some (s2, m2)" "h = (s2, sendPrompt s2 m2)"
      using assms False
      by (cases "ToUpper X c = str ''CONFIG''"; cases "ToUpper X c = str ''B''") (auto simp: processCommand_def Let_def n c)
    then show ?thesis
    proof cases
      case 3
      then have "keeps s1 m1 (s2, m2)" by (intro run_command_keeps)
      with 3 show ?thesis by (simp add: keeps_def)
    qed (auto simp: cmdConfig_keeps, simp add: keeps_def same_peer_def)
  qed
  with noteCommand_keeps [of s m now] n show ?thesis using keeps_trans by simp
qed

lemma processLine_keeps: "processLine S X now line s m = Some h \<Longrightarrow> keeps s m h"
  by (auto simp: processLine_def processCommand_keeps processSysopResponse_keeps mode_handlers_keep split: InputMode.splits)

section \<open>Lines\<close>

lemma data_bytes_append:
  "data_bytes S X now (a @ b) s m = (case data_bytes S X now a s m of None \<Rightarrow> None | Some (s, m) \<Rightarrow> data_bytes S X now b s m)"
  by (induction a arbitrary: s m) (auto split: option.splits)

lemma data_bytes_text:
  "0x0D \<notin> set l \<Longrightarrow> 0x0A \<notin> set l \<Longrightarrow>
     data_bytes S X now l s m = Some (s\<lparr>lineBuf := lineBuf s @ l, lastWasCR := (lastWasCR s \<and> l = [])\<rparr>, m)"
  by (induction l arbitrary: s) (auto simp: data_byte_def)

fun process_lines ::
  "'s MessageStore \<Rightarrow> texts \<Rightarrow> int \<Rightarrow> gostring list \<Rightarrow> Session \<Rightarrow> 's SessionManager \<Rightarrow> 's handler option" where
  "process_lines S X now [] sess m = Some (sess, m)"
| "process_lines S X now (l # ls) sess m =
     (case processLine S X now l sess m of None \<Rightarrow> None | Some (sess, m) \<Rightarrow> process_lines S X now ls sess m)"

lemma process_lines_cr: "process_lines S X now ls (s\<lparr>lastWasCR := b\<rparr>) m = with_cr b (process_lines S X now ls s m)"
proof (induction ls arbitrary: s m)
  case (Cons l ls)
  show ?case
  proof (cases "processLine S X now l s m")
    case None
    then show ?thesis by (simp add: processLine_cr)
  next
    case (Some h)
    then show ?thesis using Cons.IH by (cases h) (simp add: processLine_cr)
  qed
qed simp

text \<open>The three conventions for the end of a line.\<close>

definition line_end :: "byte list \<Rightarrow> bool" where
  "line_end e \<longleftrightarrow> e = [0x0D] \<or> e = [0x0A] \<or> e = [0x0D, 0x0A]"

lemma data_bytes_line:
  assumes "line_end e" and "0x0D \<notin> set l" "0x0A \<notin> set l" and "lineBuf s = []" and "lastWasCR s \<longrightarrow> e = [0x0D]"
  shows "data_bytes S X now (l @ e) s m = with_cr (e = [0x0D]) (processLine S X now l s m)"
proof -
  have u: "s\<lparr>lineBuf := []\<rparr> = s" "s\<lparr>lastWasCR := b, lineBuf := []\<rparr> = s\<lparr>lastWasCR := b\<rparr>" for b using assms(4) by simp_all
  have p: "processLine S X now l s m = Some (s', m') \<Longrightarrow> lineBuf s' = []" for s' m'
    using processLine_keeps [of S X now l s m] assms(4) by (auto simp: keeps_def)
  from assms(1) consider "e = [0x0D]" | "e = [0x0A]" "\<not> lastWasCR s" | "e = [0x0D, 0x0A]" "\<not> lastWasCR s"
    using assms(5) by (auto simp: line_end_def)
  then show ?thesis
  proof cases
    case 1
    then show ?thesis using assms(2,3,4)
      by (auto simp: data_bytes_append data_bytes_text data_byte_def u processLine_cr split: option.splits)
  next
    case 2
    then show ?thesis using assms(2,3,4)
      by (auto simp: data_bytes_append data_bytes_text data_byte_def u processLine_cr split: option.splits)
  next
    case 3
    then show ?thesis using assms(2,3,4)
      by (cases "processLine S X now l s m")
        (auto simp: data_bytes_append data_bytes_text data_byte_def u processLine_cr split: option.splits)
  qed
qed

lemma data_bytes_lines:
  assumes "line_end e" and "\<forall>l \<in> set ls. 0x0D \<notin> set l \<and> 0x0A \<notin> set l" and "lineBuf s = []" and "lastWasCR s \<longrightarrow> e = [0x0D]"
  shows "data_bytes S X now (concat (map (\<lambda>l. l @ e) ls)) s m
    = (if ls = [] then Some (s, m) else with_cr (e = [0x0D]) (process_lines S X now ls s m))"
  using assms(2-4)
proof (induction ls arbitrary: s m)
  case (Cons l ls)
  have l: "data_bytes S X now (l @ e) s m = with_cr (e = [0x0D]) (processLine S X now l s m)"
    by (rule data_bytes_line [OF assms(1)]) (use Cons.prems in auto)
  show ?case
  proof (cases "processLine S X now l s m")
    case None
    then show ?thesis using l by (simp add: data_bytes_append [of _ _ _ "l @ e", simplified])
  next
    case (Some h)
    obtain s' m' where h: "h = (s', m')" by (cases h)
    have "lineBuf s' = []" using processLine_keeps [OF Some] Cons.prems(2) by (simp add: keeps_def h)
    then show ?thesis
      using l Some h Cons.IH [of "s'\<lparr>lastWasCR := (e = [0x0D])\<rparr>" m'] Cons.prems(1)
      by (auto simp: data_bytes_append [of _ _ _ "l @ e", simplified] process_lines_cr)
  qed
qed simp

section \<open>Commands on a message store\<close>

text \<open>The lines \<open>S to\<close>, the subject, the body and \<open>/EX\<close> of a post.\<close>

definition readable :: "Session \<Rightarrow> Message \<Rightarrow> bool" where
  "readable sess msg \<longleftrightarrow> isReadableForUser sess (index_of msg)"

lemma readable_iff:
  "readable sess msg \<longleftrightarrow> Flags msg AND 2 \<noteq> 0 \<or> IsSysop sess
     \<or> Flags msg AND 1 \<noteq> 0 \<and> (To msg = BaseCall sess \<or> From msg = BaseCall sess)"
  by (auto simp: readable_def isReadableForUser_def index_of_def)

context message_store
begin

text \<open>Reading: either one text that refuses, or the message, and then it is readable.\<close>

lemma cmdRead_cases:
  assumes "ok (mstore m)"
  shows "msgs (mstore (cmdRead S X arg sess m)) = msgs (mstore m) \<and> ok (mstore (cmdRead S X arg sess m))
    \<and> (\<forall>c. c \<noteq> BaseCall sess \<longrightarrow> marks (mstore (cmdRead S X arg sess m)) c = marks (mstore m) c)
    \<and> ((\<exists>t \<in> {str ''*** Usage: R <message number>'', str ''*** Message not found'', str ''*** Access denied''}.
           mclient (cmdRead S X arg sess m) = mclient (sendText sess (t @ [0x0D]) m) \<and> marks (mstore (cmdRead S X arg sess m)) = marks (mstore m))
     \<or> (\<exists>msg \<in> set (msgs (mstore m)). message_arg X arg = Some (ID msg) \<and> readable sess msg
          \<and> mclient (cmdRead S X arg sess m) = mclient (say sess [read_header msg, readSeparator, Body msg, readSeparator] m)))"
proof (cases "message_arg X arg")
  case (Some i)
  obtain r st where r: "msRead S i (mstore m) = (r, st)" by fastforce
  note k = read_keeps [OF assms r]
  show ?thesis
  proof (cases r)
    case (Inr msg)
    note msg = read_returns [OF assms r [unfolded Inr]]
    have rd: "isReadableForUser sess \<lparr>ID = ID msg, From = From msg, To = To msg, Subject = [], Flags = Flags msg, Size = 0, CreatedAt = zero_time\<rparr>
        \<longleftrightarrow> readable sess msg" by (simp add: readable_def isReadableForUser_def index_of_def)
    obtain g st' where g: "msGetLastRead S (BaseCall sess) st = (g, st')" by fastforce
    note k' = mark_keeps [OF k [THEN conjunct1] g]
    obtain e st'' where e: "msSetLastRead S (BaseCall sess) i st' = (e, st'')" by fastforce
    have k'': "ok st'' \<and> msgs st'' = msgs st' \<and> (\<forall>c. c \<noteq> BaseCall sess \<longrightarrow> marks st'' c = marks st' c)"
      using mark_sets [of st' "BaseCall sess" i st''] mark_error [of st' "BaseCall sess" i _ st''] k' e by (cases e) auto
    show ?thesis
    proof (cases "readable sess msg")
      case True
      have c: "mclient (cmdRead S X arg sess m) = mclient (say sess [read_header msg, readSeparator, Body msg, readSeparator] m)"
        using Some r Inr rd True g e by (simp add: cmdRead_def Let_def)
      have s: "mstore (cmdRead S X arg sess m) \<in> {st', st''}"
        using Some r Inr rd True g e by (auto simp: cmdRead_def Let_def)
      then show ?thesis using k k' k'' msg True c Some by auto
    next
      case False
      then show ?thesis using k Some r Inr rd by (simp add: cmdRead_def)
    qed
  qed (use k Some r in \<open>simp add: cmdRead_def\<close>)
qed (use assms in \<open>simp add: cmdRead_def\<close>)

text \<open>Killing: nothing changes, or the message goes that a station may kill.\<close>

lemma cmdKill_cases:
  assumes "ok (mstore m)"
  shows "ok (mstore (cmdKill S X arg sess m)) \<and> marks (mstore (cmdKill S X arg sess m)) = marks (mstore m)
    \<and> (msgs (mstore (cmdKill S X arg sess m)) = msgs (mstore m)
     \<or> (\<exists>msg \<in> set (msgs (mstore m)). message_arg X arg = Some (ID msg)
          \<and> (IsSysop sess \<or> From msg = BaseCall sess \<or> To msg = BaseCall sess)
          \<and> msgs (mstore (cmdKill S X arg sess m)) = filter (\<lambda>x. ID x \<noteq> ID msg) (msgs (mstore m))))"
proof (cases "message_arg X arg")
  case (Some i)
  obtain r st where r: "msFind S i (mstore m) = (r, st)" by fastforce
  note k = find_keeps [OF assms r]
  show ?thesis
  proof (cases "\<exists>idx. r = Inr (Some idx) \<and> (IsSysop sess \<or> From idx = BaseCall sess \<or> To idx = BaseCall sess)")
    case True
    then obtain idx where idx: "r = Inr (Some idx)" "IsSysop sess \<or> From idx = BaseCall sess \<or> To idx = BaseCall sess" by blast
    obtain msg where msg: "msg \<in> set (msgs (mstore m))" "ID msg = i" "idx = index_of msg"
      using find_returns [OF assms, of i idx st] r idx(1) by auto
    obtain d st' where d: "msDelete S i st = (d, st')" by fastforce
    have s: "mstore (cmdKill S X arg sess m) = st'"
      using Some r idx d by (auto simp: cmdKill_def Let_def split: option.splits)
    have "IsSysop sess \<or> From msg = BaseCall sess \<or> To msg = BaseCall sess" using idx(2) msg(3) by (simp add: index_of_def)
    then show ?thesis using k s msg Some delete_removes [of st i st'] delete_error [of st i _ st'] d by (cases d) auto
  next
    case False
    then have "mstore (cmdKill S X arg sess m) = st"
      using Some r by (auto simp: cmdKill_def Let_def split: option.splits sum.splits prod.splits)
    then show ?thesis using k by simp
  qed
qed (use assms in \<open>simp add: cmdKill_def\<close>)

text \<open>Listing: the readable messages, newest last.\<close>

lemma cmdList_sends:
  assumes "ok (mstore m)" and "msList S n mine (BaseCall sess) (IsSysop sess) (mstore m) = (Inr xs, st)"
  shows "cmdList S n mine sess m = (sendText sess
      (let sel = newest n (filter (list_selects mine (BaseCall sess) (IsSysop sess)) (map index_of (msgs (mstore m))))
       in if sel = [] then (if mine then str ''*** No messages for you'' else str ''*** No readable messages'') @ [0x0D]
          else list_header @ concat (map list_line (filter (\<lambda>x. mine \<or> isReadableForUser sess x) sel))) m)\<lparr>mstore := st\<rparr>
    \<and> msgs st = msgs (mstore m) \<and> marks st = marks (mstore m)"
  using list_returns [OF assms] list_keeps [OF assms] assms(2) by (simp add: cmdList_def Let_def)

end

section \<open>Posting\<close>

text \<open>What is typed at the ends of a line is not white space and ASCII, so \<open>TrimSpace\<close> leaves it.\<close>

definition trimmed :: "gostring \<Rightarrow> bool" where
  "trimmed s \<longleftrightarrow> s \<noteq> [] \<and> \<not> ascii_space (hd s) \<and> \<not> ascii_space (last s) \<and> hd s < 0x80 \<and> last s < 0x80"

lemma TrimSpace_trimmed: "trimmed s \<Longrightarrow> strings_TrimSpace T s = s"
  by (simp add: trimmed_def TrimSpace_ends)

definition body_text :: "gostring list \<Rightarrow> gostring" where
  "body_text ls = concat (map (\<lambda>l. l @ [0x0D]) ls)"

lemma body_text_simps [simp]: "body_text [] = []" "body_text (l # ls) = l @ [0x0D] @ body_text ls"
  by (simp_all add: body_text_def)

lemma process_lines_append:
  "process_lines S X now (a @ b) s m
     = (case process_lines S X now a s m of None \<Rightarrow> None | Some (s, m) \<Rightarrow> process_lines S X now b s m)"
  by (induction a arbitrary: s m) (auto split: option.splits)

lemma process_body_lines:
  "inputMode s = InputModeBody \<Longrightarrow> \<forall>l \<in> set ls. \<not> EqualFold X (TrimSpace X l) (str ''/EX'') \<Longrightarrow>
     int (length (PendingBody s) + length (body_text ls)) \<le> MaxBodyLen (mcfg m) \<Longrightarrow>
     process_lines S X now ls s m = Some (s\<lparr>PendingBody := PendingBody s @ body_text ls\<rparr>, m)"
  by (induction ls arbitrary: s) (simp_all add: processLine_def processBody_def)

text \<open>The flags of a message that is not forced to be private or a bulletin.\<close>

definition post_flags :: "texts \<Rightarrow> gostring \<Rightarrow> byte" where
  "post_flags X to = (if IsValidCallsign X (ToUpper X to) then FlagPrivate else FlagBulletin)"

lemma noteCommand_view:
  assumes "noteCommand now s m = (s1, m1)"
  shows "mstore m1 = mstore m \<and> inputMode s1 = inputMode s \<and> BaseCall s1 = BaseCall s \<and> mcfg m1 = mcfg m"
  using assms by (auto simp: noteCommand_def sysopExpireIfIdle_def Let_def split: prod.splits if_splits)

lemma split_command_S: "trimmed to \<Longrightarrow> split_command X (str ''S '' @ to) = (str ''S'', to)"
  using SplitN2_append [of "0x20" "str ''S''" to] by (simp add: split_command_def TrimSpace_trimmed str_simps)

lemma EX_folds: "EqualFold X (TrimSpace X (str ''/EX'')) (str ''/EX'')"
  by (simp add: strings_TrimSpace_def ascii_space_def strings_EqualFold_def str_simps)

lemma run_S: "run_command S X now (str ''S'') arg s m = Some (cmdSend X arg 0 s m)"
  by (simp add: run_command_def str_simps)

lemma processLine_S:
  assumes "inputMode s = InputModeCommand" and "trimmed to"
  shows "\<exists>s1 m1. processLine S X now (str ''S '' @ to) s m = Some (s1\<lparr>PendingTo := BaseCallsign X (ToUpper X to),
      PendingFlags := post_flags X to, PendingBody := [], PendingSubject := [], inputMode := InputModeSubject\<rparr>, m1)
    \<and> mstore m1 = mstore m \<and> BaseCall s1 = BaseCall s \<and> mcfg m1 = mcfg m"
proof -
  obtain s1 m1 where n: "noteCommand now s m = (s1, m1)" by fastforce
  have t: "trimmed (str ''S '' @ to)" using assms(2) by (simp add: trimmed_def ascii_space_def str_simps)
  have u: "ToUpper X (str ''S'') = str ''S''" "str ''S'' \<noteq> str ''CONFIG''" "str ''S'' \<noteq> str ''B''"
    by (simp_all add: strings_ToUpper_def upper_byte_def str_simps)
  have "str ''S '' @ to \<noteq> []" "to \<noteq> []" using assms(2) by (simp_all add: str_simps trimmed_def)
  then show ?thesis
    using assms TrimSpace_trimmed [OF t] noteCommand_view [OF n]
    by (auto simp: processLine_def processCommand_def Let_def split_command_S n u run_S cmdSend_def
        TrimSpace_trimmed post_flags_def)
qed

lemma post_lines:
  assumes "inputMode s = InputModeCommand" and "trimmed to" and "trimmed subj"
    and "\<forall>l \<in> set body. \<not> EqualFold X (TrimSpace X l) (str ''/EX'')" and "int (length (body_text body)) \<le> MaxBodyLen (mcfg m)"
  shows "\<exists>s' m'. process_lines S X now ((str ''S '' @ to) # subj # body @ [str ''/EX'']) s m = Some (s', m')
    \<and> inputMode s' = InputModeCommand
    \<and> mstore m' = snd (msStore S (BaseCall s) (BaseCallsign X (ToUpper X to)) (take 48 subj) (body_text body) (post_flags X to) (mstore m))"
proof -
  obtain s1 m1 where s1: "processLine S X now (str ''S '' @ to) s m = Some (s1\<lparr>PendingTo := BaseCallsign X (ToUpper X to),
      PendingFlags := post_flags X to, PendingBody := [], PendingSubject := [], inputMode := InputModeSubject\<rparr>, m1)"
    "mstore m1 = mstore m" "BaseCall s1 = BaseCall s" "mcfg m1 = mcfg m" using processLine_S [OF assms(1,2), of S X now m] by blast
  let ?s = "s1\<lparr>PendingTo := BaseCallsign X (ToUpper X to), PendingFlags := post_flags X to, PendingBody := [],
    PendingSubject := take 48 subj, inputMode := InputModeBody\<rparr>"
  let ?m = "sendText s1 (str ''Enter body, use /EX to finish:'' @ [0x0D]) m1"
  have "subj \<noteq> []" using assms(3) by (simp add: trimmed_def)
  then have s2: "processLine S X now subj (s1\<lparr>PendingTo := BaseCallsign X (ToUpper X to),
      PendingFlags := post_flags X to, PendingBody := [], PendingSubject := [], inputMode := InputModeSubject\<rparr>) m1 = Some (?s, ?m)"
    using assms(3) by (simp add: processLine_def processSubject_def TrimSpace_trimmed)
  have s3: "process_lines S X now body ?s ?m = Some (?s\<lparr>PendingBody := body_text body\<rparr>, ?m)"
    using process_body_lines [of ?s body X ?m S now] assms(4,5) s1(4) by simp
  have s4: "processLine S X now (str ''/EX'') t m = Some (finishPost S t m)" if "inputMode t = InputModeBody" for t and m :: "'a SessionManager"
    using that by (simp add: processLine_def processBody_def EX_folds)
  show ?thesis
    using s1(2,3)
    by (simp add: s1(1) s2 s3 s4 process_lines_append finishPost_def Let_def split: prod.splits sum.splits)
qed

section \<open>Bounds\<close>

text \<open>A case distinction on the command.\<close>

lemma run_command_rule:
  assumes "\<And>m'. m' \<in> {cmdHelp s m, cmdInfo s m, cmdHeard now s m, sendText s (str ''*** Unknown command. Type H for help.'' @ [0x0D]) m}
      \<Longrightarrow> P (Some (s, m'))"
    and "\<And>n mine. P (Some (s, cmdList S n mine s m))" and "P (Some (s, cmdRead S X arg s m))" and "P (Some (s, cmdKill S X arg s m))"
    and "\<And>fl. fl \<in> {0, 1, 2} \<Longrightarrow> P (Some (cmdSend X arg fl s m))" and "P (cmdSysop X now arg s m)"
  shows "P (run_command S X now c arg s m)"
  unfolding run_command_def cmdListLast_def Let_def by (simp add: assms)

text \<open>What a session collects: a subject of at most 48 bytes, a body within the configured size, and
  flags that make it private or a bulletin while a message is composed.\<close>

definition sess_ok :: "BBSConfig \<Rightarrow> Session \<Rightarrow> bool" where
  "sess_ok c s \<longleftrightarrow> length (PendingSubject s) \<le> 48 \<and> (PendingBody s = [] \<or> int (length (PendingBody s)) \<le> MaxBodyLen c)
     \<and> (inputMode s = InputModeSubject \<or> inputMode s = InputModeBody \<longrightarrow> PendingFlags s = FlagPrivate \<or> PendingFlags s = FlagBulletin)"

lemma sess_ok_updates [simp]:
  "sess_ok c (s\<lparr>Sysop := y\<rparr>) = sess_ok c s" "sess_ok c (s\<lparr>IsSysop := b\<rparr>) = sess_ok c s"
  "sess_ok c (s\<lparr>pendingConfigEntry := b\<rparr>) = sess_ok c s" "sess_ok c (s\<lparr>lastWasCR := b\<rparr>) = sess_ok c s"
  "sess_ok c (s\<lparr>lineBuf := l\<rparr>) = sess_ok c s"
  by (simp_all add: sess_ok_def)

lemma sess_ok_mode:
  "sess_ok c s \<Longrightarrow> md \<notin> {InputModeSubject, InputModeBody} \<Longrightarrow> sess_ok c (s\<lparr>inputMode := md\<rparr>)"
  by (auto simp: sess_ok_def)

lemma issueSysopChallenge_ok: "issueSysopChallenge now s m = Some (s', m') \<Longrightarrow> sess_ok c s \<Longrightarrow> sess_ok c s'"
  by (auto simp: issueSysopChallenge_def Let_def sess_ok_def split: option.splits prod.splits sum.splits)

lemma sysop_handlers_ok:
  "cmdSysop X now arg s m = Some (s', m') \<Longrightarrow> sess_ok c s \<Longrightarrow> sess_ok c s'"
  "cmdConfig now s m = Some (s', m') \<Longrightarrow> sess_ok c s \<Longrightarrow> sess_ok c s'"
  "processSysopResponse X now line s m = Some (s', m') \<Longrightarrow> sess_ok c s \<Longrightarrow> sess_ok c s'"
proof -
  show "cmdSysop X now arg s m = Some (s', m') \<Longrightarrow> sess_ok c s \<Longrightarrow> sess_ok c s'"
    by (auto simp: cmdSysop_def Let_def dest: issueSysopChallenge_ok split: if_splits prod.splits)
  show "cmdConfig now s m = Some (s', m') \<Longrightarrow> sess_ok c s \<Longrightarrow> sess_ok c s'"
    by (auto simp: cmdConfig_def enterConfigMode_def Let_def sess_ok_mode dest: issueSysopChallenge_ok split: if_splits prod.splits)
  show "processSysopResponse X now line s m = Some (s', m') \<Longrightarrow> sess_ok c s \<Longrightarrow> sess_ok c s'"
    by (auto simp: processSysopResponse_def Let_def sess_ok_mode dest: issueSysopChallenge_ok
        split: if_splits prod.splits VerifyResult.splits)
qed

lemma noteCommand_ok: "sess_ok c s \<Longrightarrow> sess_ok c (fst (noteCommand now s m))"
  by (simp add: noteCommand_def sysopExpireIfIdle_def Let_def split: prod.splits)

lemma mode_handlers_ok:
  "sess_ok c s \<Longrightarrow> fl \<in> {0, 1, 2} \<Longrightarrow> sess_ok c (fst (cmdSend X arg fl s m))"
  "sess_ok c s \<Longrightarrow> inputMode s = InputModeSubject \<Longrightarrow> sess_ok c (fst (processSubject X line s m))"
  "sess_ok c s \<Longrightarrow> sess_ok c (fst (finishPost S s m))"
  "sess_ok c s \<Longrightarrow> sess_ok c (fst (processConfigCommand X line s m))"
  "sess_ok (mcfg m) s \<Longrightarrow> inputMode s = InputModeBody \<Longrightarrow> sess_ok (mcfg m) (fst (processBody S X line s m))"
  by (auto simp: mode_handlers sess_ok_def Let_def split: prod.splits sum.splits)

lemma processLine_ok:
  assumes p: "processLine S X now line s m = Some (s', m')" and ok: "sess_ok (mcfg m) s"
  shows "sess_ok (mcfg m) s'"
proof (cases "inputMode s")
  case InputModeCommand
  obtain s1 m1 where n: "noteCommand now s m = (s1, m1)" by fastforce
  have s1: "sess_ok (mcfg m) s1" using noteCommand_ok [OF ok, of now m] n by simp
  obtain c arg where c: "split_command X (TrimSpace X line) = (c, arg)" by fastforce
  consider "s' = s" | "cmdConfig now s1 m1 = Some (s', m')" | "s' = s1"
    | m2 where "run_command S X now (ToUpper X c) arg s1 m1 = Some (s', m2)"
    using p InputModeCommand
    by (cases "TrimSpace X line = []"; cases "ToUpper X c = str ''CONFIG''"; cases "ToUpper X c = str ''B''")
      (auto simp: processLine_def processCommand_def Let_def n c)
  then show ?thesis
  proof cases
    case 4
    let ?P = "\<lambda>r. \<forall>s' m'. r = Some (s', m') \<longrightarrow> sess_ok (mcfg m) s'"
    have "?P (run_command S X now (ToUpper X c) arg s1 m1)"
    proof (rule run_command_rule)
      show "?P (Some (cmdSend X arg fl s1 m1))" if "fl \<in> {0, 1, 2}" for fl using mode_handlers_ok(1) [OF s1 that, of X arg m1] by auto
      show "?P (cmdSysop X now arg s1 m1)" using s1 sysop_handlers_ok(1) by blast
    qed (use s1 in auto)
    with 4 show ?thesis by blast
  qed (use ok s1 sysop_handlers_ok(2) in blast)+
next
  case InputModeSubject
  then show ?thesis using p mode_handlers_ok(2) [OF ok, of X line m] by (simp add: processLine_def)
next
  case InputModeBody
  then show ?thesis using p mode_handlers_ok(5) [OF ok, of S X line] by (simp add: processLine_def)
next
  case InputModeConfig
  then show ?thesis using p mode_handlers_ok(4) [OF ok, of X line m] by (simp add: processLine_def)
next
  case InputModeSysopResponse
  then show ?thesis using p ok sysop_handlers_ok(3) by (simp add: processLine_def)
qed

section \<open>What a line may do to the messages\<close>

definition message_ok :: "BBSConfig \<Rightarrow> Message \<Rightarrow> bool" where
  "message_ok c x \<longleftrightarrow> length (Subject x) \<le> 48 \<and> (Body x = [] \<or> int (length (Body x)) \<le> MaxBodyLen c)
     \<and> (Flags x = FlagPrivate \<or> Flags x = FlagBulletin)"

definition authorised :: "BBSConfig \<Rightarrow> Session \<Rightarrow> Message list \<Rightarrow> Message list \<Rightarrow> bool" where
  "authorised c sess old_ms now_ms \<longleftrightarrow>
     now_ms = old_ms
   \<or> (\<exists>x. now_ms = old_ms @ [x] \<and> From x = BaseCall sess \<and> message_ok c x)
   \<or> (\<exists>x \<in> set old_ms. (IsSysop sess \<or> From x = BaseCall sess \<or> To x = BaseCall sess)
        \<and> now_ms = filter (\<lambda>y. ID y \<noteq> ID x) old_ms)"

lemma authorised_refl [simp]: "authorised c sess ms ms"
  by (simp add: authorised_def)

lemma plain_handlers_store [simp]:
  "mstore (cmdHelp s m) = mstore m" "mstore (cmdInfo s m) = mstore m" "mstore (cmdHeard now s m) = mstore m"
  "mstore (cmdBye s m) = mstore m"
  "mstore (snd (processSubject X line s m)) = mstore m" "mstore (snd (processConfigCommand X line s m)) = mstore m"
  by (simp_all add: text_handlers mode_handlers Let_def split: prod.splits)

lemma cmdSend_store: "cmdSend X arg fl s m = (s', m') \<Longrightarrow> mstore m' = mstore m"
  by (auto simp: cmdSend_def Let_def split: if_splits)

lemma issueSysopChallenge_store: "issueSysopChallenge now s m = Some (s', m') \<Longrightarrow> mstore m' = mstore m"
  by (auto simp: issueSysopChallenge_def Let_def split: option.splits prod.splits sum.splits)

lemma sysop_handlers_store:
  "cmdSysop X now arg s m = Some (s', m') \<Longrightarrow> mstore m' = mstore m"
  "cmdConfig now s m = Some (s', m') \<Longrightarrow> mstore m' = mstore m"
  "processSysopResponse X now line s m = Some (s', m') \<Longrightarrow> mstore m' = mstore m"
  by (auto simp: cmdSysop_def cmdConfig_def processSysopResponse_def enterConfigMode_def Let_def
      dest: issueSysopChallenge_store split: if_splits prod.splits VerifyResult.splits)

context message_store
begin

lemma cmdList_store:
  assumes "ok (mstore m)"
  shows "msgs (mstore (cmdList S n mine s m)) = msgs (mstore m)"
proof -
  obtain r st where "msList S n mine (BaseCall s) (IsSysop s) (mstore m) = (r, st)" by fastforce
  then show ?thesis using list_keeps [OF assms, of n mine "BaseCall s" "IsSysop s"]
    by (auto simp: cmdList_def Let_def split: sum.splits)
qed

lemma run_command_authorised:
  assumes r: "run_command S X now c arg s m = Some (s', m')" and ok: "ok (mstore m)"
  shows "authorised cf s' (msgs (mstore m)) (msgs (mstore m'))"
proof -
  let ?P = "\<lambda>r. \<forall>s' m'. r = Some (s', m') \<longrightarrow> authorised cf s' (msgs (mstore m)) (msgs (mstore m'))"
  have "?P (run_command S X now c arg s m)"
  proof (rule run_command_rule)
    show "?P (Some (s, cmdKill S X arg s m))" using cmdKill_cases [OF ok, of X arg s] by (auto simp: authorised_def)
    show "?P (Some (cmdSend X arg fl s m))" for fl by (auto dest: cmdSend_store)
    show "?P (cmdSysop X now arg s m)" by (auto dest: sysop_handlers_store)
  qed (use cmdList_store [OF ok] cmdRead_cases [OF ok, of X arg s] in auto)
  then show ?thesis using r by blast
qed

lemma finishPost_authorised:
  assumes "finishPost S s m = (s', m')" and "ok (mstore m)" and "ok (mstore m')"
    and "sess_ok cf s" and "inputMode s = InputModeBody"
  shows "authorised cf s' (msgs (mstore m)) (msgs (mstore m'))"
proof -
  obtain r st where r: "msStore S (BaseCall s) (PendingTo s) (PendingSubject s) (PendingBody s) (PendingFlags s) (mstore m) = (r, st)"
    by fastforce
  then have "mstore m' = st" "BaseCall s' = BaseCall s"
    using assms(1) by (auto simp: finishPost_def Let_def split: sum.splits)
  then show ?thesis
    using r store_appends [OF assms(2), of st "BaseCall s"] store_error [OF assms(2)] assms(3-5)
    by (cases r) (fastforce simp: authorised_def message_ok_def sess_ok_def)+
qed

lemma processLine_authorised:
  assumes p: "processLine S X now line s m = Some (s', m')" and ok: "ok (mstore m)" "ok (mstore m')"
    and s: "sess_ok cf s"
  shows "authorised cf s' (msgs (mstore m)) (msgs (mstore m'))"
proof (cases "inputMode s")
  case InputModeCommand
  obtain s1 m1 where n: "noteCommand now s m = (s1, m1)" by fastforce
  obtain c arg where c: "split_command X (TrimSpace X line) = (c, arg)" by fastforce
  consider "mstore m' = mstore m" | "cmdConfig now s1 m1 = Some (s', m')" | "m' = cmdBye s1 m1"
    | m2 where "run_command S X now (ToUpper X c) arg s1 m1 = Some (s', m2)" "m' = sendPrompt s' m2"
    using p InputModeCommand
    by (cases "TrimSpace X line = []"; cases "ToUpper X c = str ''CONFIG''"; cases "ToUpper X c = str ''B''")
      (auto simp: processLine_def processCommand_def Let_def n c)
  then show ?thesis
    using noteCommand_view [OF n] run_command_authorised [of X now "ToUpper X c" arg s1 m1 s' _ cf] ok(1)
    by cases (auto dest: sysop_handlers_store)
next
  case InputModeBody
  then show ?thesis
    using p ok s finishPost_authorised [of s m s' m'] finishPost_authorised [of s "sendText s t m" s' m' for t]
    by (auto simp: processLine_def processBody_def split: if_splits)
next
  case InputModeSubject
  then have "m' = snd (processSubject X line s m)" using p by (simp add: processLine_def split: prod.splits)
  then show ?thesis by simp
next
  case InputModeConfig
  then have "m' = snd (processConfigCommand X line s m)" using p by (simp add: processLine_def split: prod.splits)
  then show ?thesis by simp
qed (use p in \<open>auto simp: processLine_def dest: sysop_handlers_store\<close>)

end

end
