(* ===== verification/Bbs_Messages.thy ===== *)
theory Bbs_Messages
  imports Bbs_Props
begin

text \<open>
  The properties of the BBS's messages, over the store in SQLite: a post is stored as it was typed,
  whatever the convention for line ends; nothing but a post of the station or a kill it is entitled
  to changes the messages; reading and listing show readable messages only. The last
  section shows what does not work: texts beyond the size of an AGWPE frame are dropped.
\<close>

section \<open>A BBS to evaluate on\<close>

definition demo_bbs_config :: BBSConfig where
  "demo_bbs_config = \<lparr>bbsCallsign = str ''N0CALL-2'', Greeting = str ''Hi'', Prompt = str ''BBS> '', SysopName = str ''SYSOP'',
     Version = str ''1'', MaxMessages = 500, MaxBodyLen = 102400, SysopSecret = str ''secret'', SysopChallengeTimeout = 300,
     SysopSessionTimeout = 600, SysopLockout = 900, SysopMaxAttempts = 3, DBPath = str ''bbs.db'', AGWPEHost = str ''localhost'',
     AGWPEPort = 8000\<rparr>"

definition demo_session :: Session where
  "demo_session = newSession ascii_tables demo_bbs_config (str ''N7GET-3'') (str ''N0CALL-2'') 0"

definition demo_rows :: "msg_row list" where
  "demo_rows = [\<lparr>rId = 1, rFrom = str ''A1A'', rTo = str ''B2B'', rSubject = str ''hi'', rBody = [0x41, 0x0D], rFlags = 1,
     rSize = 2, rCreated = SqlText []\<rparr>]"

definition demo_bbs :: "memdb SessionManager" where
  "demo_bbs = (NewSessionManager demo_bbs_config \<lparr>mRows = demo_rows, mMarks = []\<rparr> (Heard_New 20) [])
     \<lparr>sessions := [sessionKey (str ''N7GET-3'') (str ''N0CALL-2'') \<mapsto> demo_session]\<rparr>"

lemma demo_bbs_simps [simp]:
  "mstore demo_bbs = \<lparr>mRows = demo_rows, mMarks = []\<rparr>" "mcfg demo_bbs = demo_bbs_config" "MaxBodyLen demo_bbs_config = 102400"
  "inputMode demo_session = InputModeCommand" "lineBuf demo_session = []" "\<not> lastWasCR demo_session" "\<not> IsSysop demo_session"
  "mclient demo_bbs = None"
  by (simp_all add: demo_bbs_def NewSessionManager_def demo_session_def newSession_def demo_bbs_config_def)

lemma demo_base [simp]: "BaseCall demo_session = str ''N7GET''"
  by (simp add: demo_session_def newSession_def BaseCallsign_def strings_ToUpper_def upper_byte_def str_simps)

lemma demo_db_ok: "db_ok mRows (\<lambda>d. map_of (mMarks d)) (mstore demo_bbs)"
  by (simp add: db_ok_def demo_rows_def scan_string_def)

lemma demo_sess_ok: "sess_ok demo_bbs_config demo_session"
  by (simp add: sess_ok_def demo_session_def newSession_def)

section \<open>Posting\<close>

text \<open>C18: A message is stored as it was typed. A station in command mode sends \<open>S to\<close>, a subject, the lines
  of the body and \<open>/EX\<close>, each ended by CR, LF or CR LF. The BBS processes the input completely and is in
  command mode again. If SQLite accepts the INSERT, exactly one row was added: from the station's
  base callsign, to the base callsign of the addressee in upper case, the subject cut to 48 bytes,
  the body's lines each ended by CR, private if the addressee is a valid callsign and a bulletin
  otherwise, under the number that is reported to the station. If it fails, the table is as before.\<close>

theorem bbs_post_stored:
  assumes "sqlite_documented D table lastread"
    and "sessions m (sessionKey remote loc) = Some s" and "inputMode s = InputModeCommand" and "lineBuf s = []"
    and "line_end e" and "lastWasCR s \<longrightarrow> e = [0x0D]"
    and "trimmed to" and "trimmed subj" and "\<forall>l \<in> set (to # subj # body). 0x0D \<notin> set l \<and> 0x0A \<notin> set l"
    and "\<forall>l \<in> set body. \<not> EqualFold X (TrimSpace X l) (str ''/EX'')" and "int (length (body_text body)) \<le> MaxBodyLen (mcfg m)"
    and "SQLite_Store D (BaseCall s) (BaseCallsign X (ToUpper X to)) (take 48 subj) (body_text body) (post_flags X to) (mstore m) = (r, d)"
  shows "\<exists>m' s'. BBS_OnData (SQLiteStore D) X now remote loc
        (concat (map (\<lambda>l. l @ e) ((str ''S '' @ to) # subj # body @ [str ''/EX'']))) m = Some m'
    \<and> sessions m' (sessionKey remote loc) = Some s' \<and> inputMode s' = InputModeCommand
    \<and> (case r of
         Inl err \<Rightarrow> table (mstore m') = table (mstore m)
       | Inr i \<Rightarrow> \<exists>x. table (mstore m') = table (mstore m) @ [x] \<and> word_of_int (rId x) = i \<and> rFrom x = BaseCall s
           \<and> rTo x = BaseCallsign X (ToUpper X to) \<and> rSubject x = take 48 subj \<and> rBody x = body_text body
           \<and> rFlags x = uint (post_flags X to))"
proof -
  let ?ls = "(str ''S '' @ to) # subj # body @ [str ''/EX'']"
  have nl: "\<forall>l \<in> set ?ls. 0x0D \<notin> set l \<and> 0x0A \<notin> set l" using assms(9) by (auto simp: str_simps)
  obtain s' m' where p: "process_lines (SQLiteStore D) X now ?ls s m = Some (s', m')" "inputMode s' = InputModeCommand"
    "mstore m' = snd (msStore (SQLiteStore D) (BaseCall s) (BaseCallsign X (ToUpper X to)) (take 48 subj) (body_text body)
       (post_flags X to) (mstore m))"
    using post_lines [OF assms(3,7,8,10,11), of "SQLiteStore D" now] by blast
  have d: "mstore m' = d" using p(3) assms(12) by (simp add: SQLiteStore_def)
  have "data_bytes (SQLiteStore D) X now (concat (map (\<lambda>l. l @ e) ?ls)) s m = Some (s'\<lparr>lastWasCR := (e = [0x0D])\<rparr>, m')"
    using data_bytes_lines [OF assms(5) nl assms(4,6), of "SQLiteStore D" X now m] p(1) by simp
  then have "BBS_OnData (SQLiteStore D) X now remote loc (concat (map (\<lambda>l. l @ e) ?ls)) m
      = Some (m'\<lparr>sessions := (sessions m')(sessionKey remote loc \<mapsto> s'\<lparr>lastWasCR := (e = [0x0D])\<rparr>)\<rparr>)"
    using assms(2) by (simp add: BBS_OnData_def)
  then show ?thesis
    using SQLite_Store_law [OF assms(1,12)] p(2) d by (auto simp: kept_def split: sum.splits)
qed

theorem bbs_post_stored_witness:
  "\<exists>m'. BBS_OnData (SQLiteStore mem_db) ascii_tables 0 (str ''N7GET-3'') (str ''N0CALL-2'')
       (str ''S w1aw'' @ [0x0D] @ str ''test'' @ [0x0D] @ str ''hello'' @ [0x0D] @ str ''/EX'' @ [0x0D]) demo_bbs = Some m'
     \<and> (\<exists>x. mRows (mstore m') = demo_rows @ [x] \<and> rTo x = str ''W1AW'' \<and> rBody x = str ''hello'' @ [0x0D] \<and> rFlags x = 1)"
proof -
  let ?to = "str ''w1aw''" and ?subj = "str ''test''" and ?body = "[str ''hello'']"
  have up: "ToUpper ascii_tables ?to = str ''W1AW''" "BaseCallsign ascii_tables (str ''W1AW'') = str ''W1AW''"
    by (simp_all add: strings_ToUpper_def BaseCallsign_def upper_byte_def str_simps)
  have fl: "post_flags ascii_tables ?to = 1"
    by (simp add: post_flags_def up IsValidCallsign_def Let_def) (simp add: is_letter_def is_digit_def str_simps)
  have h: "line_end [0x0D]" "trimmed ?to" "trimmed ?subj" "\<forall>l \<in> set (?to # ?subj # ?body). 0x0D \<notin> set l \<and> 0x0A \<notin> set l"
    "\<forall>l \<in> set ?body. \<not> EqualFold ascii_tables (TrimSpace ascii_tables l) (str ''/EX'')"
    "int (length (body_text ?body)) \<le> MaxBodyLen (mcfg demo_bbs)"
    by (simp_all add: line_end_def trimmed_def ascii_space_def str_simps strings_TrimSpace_def strings_EqualFold_def upper_byte_def)
  have k: "sessions demo_bbs (sessionKey (str ''N7GET-3'') (str ''N0CALL-2'')) = Some demo_session" by (simp add: demo_bbs_def)
  obtain r d where r: "SQLite_Store mem_db (BaseCall demo_session) (BaseCallsign ascii_tables (ToUpper ascii_tables ?to)) (take 48 ?subj)
      (body_text ?body) (post_flags ascii_tables ?to) (mstore demo_bbs) = (r, d)" by fastforce
  then have "\<exists>i. r = Inr i" by (auto simp: SQLite_Store_def mem_db_def mem_exec_def)
  then show ?thesis
    using bbs_post_stored [OF mem_db_documented k _ _ h(1) _ h(2-6) r, where now = 0] up fl
    by (auto simp: str_simps)
qed

section \<open>Who may change and see what\<close>

text \<open>C19: Only entitled stations change the messages. Whatever line a station sends in whatever mode, the
  stored messages stay the same, or one message is added that has the station's own base callsign
  as sender, a subject of at most 48 bytes, a body within the configured size and is either private
  or a bulletin, or one message is removed of which the station is sender or recipient or whose
  removal the station asks for as SYSOP. The session keeps its callsign and its bounds.\<close>

theorem store_changes_authorised:
  assumes "sqlite_documented D table lastread"
    and "db_ok table lastread (mstore m)" and "db_ok table lastread (mstore m')" and "sess_ok (mcfg m) s"
    and "processLine (SQLiteStore D) X now line s m = Some (s', m')"
  shows "(let old_ms = map row_to_message (table (mstore m)); new_ms = map row_to_message (table (mstore m'))
      in new_ms = old_ms
       \<or> (\<exists>x. new_ms = old_ms @ [x] \<and> From x = BaseCall s \<and> length (Subject x) \<le> 48
            \<and> (Body x = [] \<or> int (length (Body x)) \<le> MaxBodyLen (mcfg m)) \<and> Flags x \<in> {FlagPrivate, FlagBulletin})
       \<or> (\<exists>x \<in> set old_ms. (IsSysop s' \<or> From x = BaseCall s \<or> To x = BaseCall s)
            \<and> new_ms = filter (\<lambda>y. ID y \<noteq> ID x) old_ms))
    \<and> sess_ok (mcfg m') s' \<and> BaseCall s' = BaseCall s"
proof -
  note line = message_store.processLine_authorised [OF SQLiteStore_is_store [OF assms(1)]]
  have k: "BaseCall s' = BaseCall s" "mcfg m' = mcfg m" using processLine_keeps [OF assms(5)] by (simp_all add: keeps_def)
  have "authorised (mcfg m) s' (map row_to_message (table (mstore m))) (map row_to_message (table (mstore m')))"
    by (rule line [where s = s and m = m]) (fact assms)+
  moreover have "sess_ok (mcfg m') s'" using processLine_ok [OF assms(5,4)] k(2) by simp
  ultimately show ?thesis unfolding authorised_def message_ok_def Let_def using k(1) by simp
qed

lemma run_K: "run_command S X now (str ''K'') arg s m = Some (s, cmdKill S X arg s m)"
  by (simp add: run_command_def str_simps)

lemma demo_kill_refused:
  "processLine (SQLiteStore mem_db) ascii_tables 0 (str ''K 1'') demo_session demo_bbs = Some (demo_session, demo_bbs)"
proof -
  have c: "TrimSpace ascii_tables (str ''K 1'') = str ''K 1''" "split_command ascii_tables (str ''K 1'') = (str ''K'', str ''1'')"
    "ToUpper ascii_tables (str ''K'') = str ''K''" "message_arg ascii_tables (str ''1'') = Some 1"
    by (simp_all add: strings_TrimSpace_def ascii_space_def split_command_def strings_SplitN2_def strings_ToUpper_def upper_byte_def
        message_arg_def strconv_ParseUint10_def is_digit_def str_simps)
  have n: "noteCommand 0 demo_session demo_bbs = (demo_session, demo_bbs)"
    by (simp add: noteCommand_def sysopExpireIfIdle_def ExpireIfIdle_def IsAuthenticated_def)
      (simp add: demo_session_def newSession_def NewSysopState_def)
  have f: "msFind (SQLiteStore mem_db) 1 (mstore demo_bbs)
      = (Inr (Some \<lparr>ID = 1, From = str ''A1A'', To = str ''B2B'', Subject = str ''hi'', Flags = 1, Size = 2, CreatedAt = zero_time\<rparr>), mstore demo_bbs)"
    by (simp add: SQLiteStore_def SQLite_Find_def mem_db_def mem_select_row scan_first_def)
      (simp add: demo_rows_def row_index_def scan_index_def scan_uint_def scan_int_def scan_string_def created_def time_Parse_def)
  have "str ''A1A'' \<noteq> str ''N7GET''" "str ''B2B'' \<noteq> str ''N7GET''" by (simp_all add: str_simps)
  then have "cmdKill (SQLiteStore mem_db) ascii_tables (str ''1'') demo_session demo_bbs = demo_bbs"
    using f by (simp add: cmdKill_def c sendText_def sendBytes_def)
  then have r: "run_command (SQLiteStore mem_db) ascii_tables 0 (str ''K'') (str ''1'') demo_session demo_bbs = Some (demo_session, demo_bbs)"
    by (simp add: run_K)
  have "str ''K'' \<noteq> str ''CONFIG''" "str ''K'' \<noteq> str ''B''" "str ''K 1'' \<noteq> []" by (simp_all add: str_simps)
  then show ?thesis by (simp add: processLine_def processCommand_def c n r sendPrompt_def sendText_def sendBytes_def)
qed

theorem store_changes_authorised_witness:
  "\<exists>m'. processLine (SQLiteStore mem_db) ascii_tables 0 (str ''K 1'') demo_session demo_bbs = Some (demo_session, m')
     \<and> map row_to_message (mRows (mstore m')) = map row_to_message demo_rows"
  using store_changes_authorised [OF mem_db_documented demo_db_ok demo_db_ok _ demo_kill_refused] demo_sess_ok demo_kill_refused
  by auto

text \<open>C20: Reading. \<open>R n\<close> never changes a message. It sends either one of its three refusals and leaves every
  last-read mark alone, or the header, the body and the separators of the message with that
  number; and then the message is a bulletin, or the reader is its sender or recipient or SYSOP.
  No other station's last-read mark changes.\<close>

theorem read_access:
  assumes "sqlite_documented D table lastread" and "db_ok table lastread (mstore m)" and "cmdRead (SQLiteStore D) X arg s m = m'"
  shows "map row_to_message (table (mstore m')) = map row_to_message (table (mstore m))
    \<and> (\<forall>c. c \<noteq> BaseCall s \<longrightarrow> mark_of (lastread (mstore m') c) = mark_of (lastread (mstore m) c))
    \<and> ((\<exists>t \<in> {str ''*** Usage: R <message number>'', str ''*** Message not found'', str ''*** Access denied''}.
          mclient m' = mclient (sendText s (t @ [0x0D]) m)
          \<and> (\<forall>c. mark_of (lastread (mstore m') c) = mark_of (lastread (mstore m) c)))
     \<or> (\<exists>msg \<in> set (map row_to_message (table (mstore m))). message_arg X arg = Some (ID msg)
          \<and> (Flags msg AND 2 \<noteq> 0 \<or> IsSysop s \<or> Flags msg AND 1 \<noteq> 0 \<and> (To msg = BaseCall s \<or> From msg = BaseCall s))
          \<and> mclient m' = mclient (say s [read_header msg, readSeparator, Body msg, readSeparator] m)))"
  using message_store.cmdRead_cases [OF SQLiteStore_is_store [OF assms(1)] assms(2), of X arg s]
  unfolding assms(3) readable_iff [symmetric] by (auto simp: fun_eq_iff)

theorem read_access_witness:
  "map row_to_message (mRows (mstore (cmdRead (SQLiteStore mem_db) ascii_tables (str ''1'') demo_session demo_bbs)))
     = map row_to_message demo_rows"
  using read_access [OF mem_db_documented demo_db_ok refl, of ascii_tables "str ''1''" demo_session] by simp

text \<open>Listing. When SQLite answers the query, \<open>L\<close> shows the readable messages in ascending order of their
  number, and no others: if each stored message is private or a bulletin, the text lists exactly the
  messages the station may read, or says that there are none.\<close>

theorem list_shows_readable:
  assumes "sqlite_documented D table lastread" and "db_ok table lastread (mstore m)"
    and "\<forall>x \<in> set (table (mstore m)). rFlags x = 1 \<or> rFlags x = 2"
    and "SQLite_List D 0 False (BaseCall s) (IsSysop s) (mstore m) = (Inr xs, d)"
  shows "(let shown = filter (isReadableForUser s) (map index_of (map row_to_message (table (mstore m))))
      in cmdList (SQLiteStore D) 0 False s m = (sendText s
           (if shown = [] then str ''*** No readable messages'' @ [0x0D] else list_header @ concat (map list_line shown)) m)\<lparr>mstore := d\<rparr>)
    \<and> table d = table (mstore m)"
proof -
  let ?ms = "map index_of (map row_to_message (table (mstore m)))"
  have sel: "list_selects False (BaseCall s) (IsSysop s) x \<longleftrightarrow> isReadableForUser s x" if "x \<in> set ?ms" for x
    using that assms(3) by (auto simp: list_selects_def isReadableForUser_def index_of_def row_to_message_def)
  then have "filter (list_selects False (BaseCall s) (IsSysop s)) ?ms = filter (isReadableForUser s) ?ms"
    by (intro filter_cong) auto
  moreover have "msList (SQLiteStore D) 0 False (BaseCall s) (IsSysop s) (mstore m) = (Inr xs, d)"
    using assms(4) by (simp add: SQLiteStore_def)
  ultimately show ?thesis
    using message_store.cmdList_sends [OF SQLiteStore_is_store [OF assms(1)] assms(2), of 0 False s xs d]
      SQLite_List_returns(1) [OF assms(1,2,4)]
    by (simp add: newest_def Let_def)
qed

theorem list_shows_readable_witness:
  "\<exists>d. cmdList (SQLiteStore mem_db) 0 False demo_session demo_bbs
     = (sendText demo_session (str ''*** No readable messages'' @ [0x0D]) demo_bbs)\<lparr>mstore := d\<rparr>"
proof -
  let ?c = "str ''N7GET''"
  have w: "where_rows where_visible [SqlInt 2, SqlText ?c, SqlText ?c] = Some (\<lambda>r. rFlags r AND 2 \<noteq> 0 \<or> rTo r = ?c \<or> rFrom r = ?c)"
    by (simp add: where_rows_def)
  have "\<forall>r \<in> set (filter (\<lambda>r. rFlags r AND 2 \<noteq> 0 \<or> rTo r = ?c \<or> rFrom r = ?c) (mRows (mstore demo_bbs))). row_ok r"
    using db_ok_rows [OF demo_db_ok] by simp
  from scan_rows_index [OF this]
  have "\<exists>xs. SQLite_List mem_db 0 False ?c False (mstore demo_bbs) = (Inr xs, mstore demo_bbs)"
    using mem_select_list(1) [OF w, of "mstore demo_bbs"] by (simp add: SQLite_List_def list_where_def mem_db_def)
  then obtain xs d where l: "SQLite_List mem_db 0 False (BaseCall demo_session) (IsSysop demo_session) (mstore demo_bbs) = (Inr xs, d)"
    by auto
  have fl: "\<forall>x \<in> set (mRows (mstore demo_bbs)). rFlags x = 1 \<or> rFlags x = 2" by (simp add: demo_rows_def)
  have "filter (isReadableForUser demo_session) (map index_of (map row_to_message demo_rows)) = []"
    by (simp add: demo_rows_def isReadableForUser_def index_of_def row_to_message_def str_simps)
  then show ?thesis using list_shows_readable [OF mem_db_documented demo_db_ok fl l] by auto
qed

section \<open>What a station does not get\<close>

lemma sendText_long:
  assumes "length t > MaxDataLen"
  shows "sendText s t m = m"
proof -
  have "AgwFrame_Encode (BuildSendData p a b pid t) = Inl (ErrMsg ''agwpe: data length exceeds maximum'')
    \<or> (\<exists>e. AgwFrame_Encode (BuildSendData p a b pid t) = Inl e)" for p a b pid
    using assms by (auto simp: AgwFrame_Encode_def BuildSendData_def of_kind_def)
  then have "snd (Client_SendFrame c (Some (BuildSendData p a b pid t)) l) = l" for c p a b pid l
    by (auto simp: Client_SendFrame_def link_send_def split: sum.splits) (metis Inl_Inr_False)
  then show ?thesis by (simp add: sendText_def sendBytes_def split: option.splits)
qed

text \<open>A long message cannot be read. The BBS sends the body of a message as one AGWPE data frame, which
  holds 4096 bytes; a message with a longer body, which the default size limit of 102400 bytes
  lets in, is shown without its body: its reader gets the header and the two separators.\<close>

theorem long_message_not_shown:
  assumes "message_arg X arg = Some i" and "SQLite_Read D i (mstore m) = (Inr msg, d)" and "readable s msg"
    and "length (Body msg) > 4096"
  shows "mclient (cmdRead (SQLiteStore D) X arg s m) = mclient (say s [read_header msg, readSeparator, readSeparator] m)"
proof -
  have "isReadableForUser s \<lparr>ID = ID msg, From = From msg, To = To msg, Subject = [], Flags = Flags msg, Size = 0, CreatedAt = zero_time\<rparr>"
    using assms(3) unfolding readable_iff by (auto simp: isReadableForUser_def)
  moreover have "sendText s (Body msg) m' = m'" for m' :: "'a SessionManager" using assms(4) by (intro sendText_long) simp
  ultimately show ?thesis using assms(1,2) by (simp add: cmdRead_def SQLiteStore_def Let_def split: prod.splits)
qed

definition long_rows :: "msg_row list" where
  "long_rows = [\<lparr>rId = 7, rFrom = str ''A1A'', rTo = str ''ALL'', rSubject = str ''hi'', rBody = replicate 5000 0x41, rFlags = 2,
     rSize = 5000, rCreated = SqlText []\<rparr>]"

theorem long_message_not_shown_witness:
  "\<exists>msg. length (Body msg) = 5000
     \<and> mclient (cmdRead (SQLiteStore mem_db) ascii_tables (str ''7'') demo_session (demo_bbs\<lparr>mstore := \<lparr>mRows = long_rows, mMarks = []\<rparr>\<rparr>))
       = mclient (say demo_session [read_header msg, readSeparator, readSeparator] (demo_bbs\<lparr>mstore := \<lparr>mRows = long_rows, mMarks = []\<rparr>\<rparr>))"
proof -
  let ?m = "demo_bbs\<lparr>mstore := \<lparr>mRows = long_rows, mMarks = []\<rparr>\<rparr>" and ?msg = "row_to_message (hd long_rows)"
  have a: "message_arg ascii_tables (str ''7'') = Some 7"
    by (simp add: message_arg_def strings_TrimSpace_def ascii_space_def strconv_ParseUint10_def is_digit_def str_simps)
  have ok: "row_ok (hd long_rows)" by (simp add: long_rows_def row_ok_def scan_string_def)
  have "filter (\<lambda>x. rId x = 7) long_rows = [hd long_rows]" by (simp add: long_rows_def)
  then have r: "SQLite_Read mem_db 7 (mstore ?m) = (Inr ?msg, mstore ?m)"
    by (simp add: SQLite_Read_def mem_db_def mem_select_row scan_first_def scan_row_message [OF ok])
  have b: "readable demo_session ?msg" "length (Body ?msg) = 5000" by (simp_all add: readable_iff long_rows_def row_to_message_def)
  then have "length (Body ?msg) > 4096" by simp
  with long_message_not_shown [OF a r b(1)] b(2) show ?thesis by blast
qed

end
