(* ===== verification/Bbs_Login.thy ===== *)
theory Bbs_Login
  imports Bbs_Props
begin

text \<open>
  The properties of the BBS's SYSOP login (\<open>src/cmd/bbs/bbs/sysop.go\<close> and the commands that use it): what
  a response must hold, that a challenge is issued, that only a right answer makes a station SYSOP,
  the lockout, and three behaviours the code does not mean: CONFIG mode is not entered after the
  login it asks for, a failed second login keeps SYSOP rights without a time limit, and a
  reconnect ends a lockout.
\<close>

section \<open>Challenges and responses\<close>

text \<open>Responses. The loops of \<open>verifyResponse\<close> accept exactly the responses of six characters that
  contain the four characters of the secret the challenge asks for, each as often as it is asked
  for, in any order.\<close>

theorem response_verified_iff:
  "verifyResponse s r \<longleftrightarrow> length r = responseLen \<and> (\<forall>i \<in> set (ChallengeIndices s). 1 \<le> i \<and> i \<le> int (length (Secret s)))
     \<and> mset (map (\<lambda>i. Secret s ! nat (i - 1)) (ChallengeIndices s)) \<subseteq># mset r"
  by (simp add: verifyResponse_iff)

theorem response_verified_iff_witness:
  "verifyResponse ((NewSysopState (str ''secret'') 0 0 0 3)\<lparr>ChallengeIndices := [1, 2, 3, 5]\<rparr>) (str ''xecesy'')"
  using response_verified_iff [of "(NewSysopState (str ''secret'') 0 0 0 3)\<lparr>ChallengeIndices := [1, 2, 3, 5]\<rparr>" "str ''xecesy''"]
  by (simp add: NewSysopState_def str_simps add_mset_commute)

text \<open>C23: Challenges. If the secret has at least four characters and the random source, which yields numbers
  below the length of the secret, gives at least four different ones, \<open>IssueChallenge\<close> returns: the challenge asks for
  four different places of the secret, it awaits the response until the timeout, and the right
  characters, padded with any two others, are accepted.\<close>

theorem challenge_issued:
  assumes "4 \<le> length (Secret s)" and "length (ChallengeIndices s) = 4" and "list_all (\<lambda>x. \<not> isl x) rnd"
    and "\<forall>n \<in> projr ` set rnd. 0 \<le> n \<and> n < int (length (Secret s))" and "4 \<le> card (projr ` set rnd)"
  shows "\<exists>ids rnd'. IssueChallenge now rnd s = Some (Inr (challenge_text ids), rnd',
        s\<lparr>ChallengeIndices := ids, sMode := SysopAuthAwaitingResponse, ChallengeExpires := now + ChallengeTimeout s\<rparr>)
    \<and> distinct ids \<and> length ids = 4 \<and> (\<forall>i \<in> set ids. 1 \<le> i \<and> i \<le> int (length (Secret s)))
    \<and> (\<forall>a b. verifyResponse (s\<lparr>ChallengeIndices := ids\<rparr>) (map (\<lambda>i. Secret s ! nat (i - 1)) ids @ [a, b]))"
proof -
  have "card ((\<lambda>n. n + 1) ` projr ` set rnd) = card (projr ` set rnd)" by (rule card_image) (simp add: inj_on_def)
  then obtain ids rnd' where p: "pick_indices 4 [] rnd = Some (None, ids, rnd')"
    using pick_indices_ends [OF assms(3), of 4 "[]"] assms(5) by auto
  have ids: "distinct ids" "length ids = 4" "set ids \<subseteq> {n + 1 |n. Inr n \<in> set rnd}"
    using pick_indices_ok [OF p] by auto
  have "1 \<le> i \<and> i \<le> int (length (Secret s))" if "i \<in> set ids" for i
  proof -
    obtain n where "i = n + 1" "Inr n \<in> set rnd" using ids(3) \<open>i \<in> set ids\<close> by auto
    then show ?thesis using assms(4) by force
  qed
  moreover have "IssueChallenge now rnd s = Some (Inr (challenge_text ids), rnd',
        s\<lparr>ChallengeIndices := ids, sMode := SysopAuthAwaitingResponse, ChallengeExpires := now + ChallengeTimeout s\<rparr>)"
    using assms(1,2) p ids(2) by (simp add: IssueChallenge_def Let_def)
  ultimately show ?thesis using ids(1,2)
    by (intro exI [of _ ids] exI [of _ rnd']) (simp add: verifyResponse_iff)
qed

theorem challenge_issued_witness:
  "\<exists>ids rnd' s'. IssueChallenge 0 [Inr 0, Inr 0, Inr 1, Inr 2, Inr 1, Inr 4] (NewSysopState (str ''secret'') 60 60 60 3)
     = Some (Inr (challenge_text ids), rnd', s') \<and> distinct ids \<and> length ids = 4"
proof -
  have "card {0, 1, 2, 4 :: int} = 4" by simp
  then show ?thesis
    using challenge_issued [of "NewSysopState (str ''secret'') 60 60 60 3" "[Inr 0, Inr 0, Inr 1, Inr 2, Inr 1, Inr 4]" 0]
    by (fastforce simp: NewSysopState_def str_simps insert_commute)
qed

section \<open>Rights\<close>

text \<open>Only the response to a challenge can make a station SYSOP.\<close>

lemma cmdSysop_IsSysop: "cmdSysop X now arg s m = Some (s', m') \<Longrightarrow> IsSysop s' = IsSysop s"
  by (auto simp: cmdSysop_def issueSysopChallenge_def Let_def split: if_splits prod.splits option.splits sum.splits)

lemma cmdConfig_IsSysop: "cmdConfig now s m = Some (s', m') \<Longrightarrow> IsSysop s' = IsSysop s"
  by (auto simp: cmdConfig_def issueSysopChallenge_def enterConfigMode_def Let_def split: if_splits prod.splits option.splits sum.splits)

lemma mode_handlers_IsSysop:
  "IsSysop (fst (cmdSend X arg fl s m)) = IsSysop s" "IsSysop (fst (processSubject X line s m)) = IsSysop s"
  "IsSysop (fst (processBody S X line s m)) = IsSysop s" "IsSysop (fst (processConfigCommand X line s m)) = IsSysop s"
  by (simp_all add: mode_handlers Let_def split: prod.splits sum.splits)

lemma run_command_IsSysop:
  assumes "run_command S X now c arg s m = Some (s', m')"
  shows "IsSysop s' = IsSysop s"
proof -
  let ?P = "\<lambda>r. \<forall>s' m'. r = Some (s', m') \<longrightarrow> IsSysop s' = IsSysop s"
  have "?P (run_command S X now c arg s m)"
  proof (rule run_command_rule)
    show "?P (Some (cmdSend X arg fl s m))" for fl using mode_handlers_IsSysop(1) [of X arg fl s m] by auto
  qed (auto dest: cmdSysop_IsSysop)
  then show ?thesis using assms by blast
qed

lemma noteCommand_IsSysop:
  assumes "noteCommand now s m = (s1, m1)"
  shows "IsSysop s1 \<longrightarrow> IsSysop s" and "sMode (Sysop s) \<noteq> SysopAuthAuthenticated \<Longrightarrow> s1 = s \<and> m1 = m"
  using assms by (auto simp: noteCommand_def sysopExpireIfIdle_def ExpireIfIdle_def IsAuthenticated_def Let_def
      split: if_splits prod.splits)

lemma processCommand_IsSysop:
  assumes "processCommand S X now line s m = Some (s', m')"
  shows "IsSysop s' \<longrightarrow> IsSysop s" and "sMode (Sysop s) \<noteq> SysopAuthAuthenticated \<Longrightarrow> IsSysop s' = IsSysop s"
proof -
  obtain s1 m1 where n: "noteCommand now s m = (s1, m1)" by fastforce
  obtain c arg where c: "split_command X (TrimSpace X line) = (c, arg)" by fastforce
  consider "s' = s" | "cmdConfig now s1 m1 = Some (s', m')" | "s' = s1"
    | m2 where "run_command S X now (ToUpper X c) arg s1 m1 = Some (s', m2)"
    using assms
    by (cases "TrimSpace X line = []"; cases "ToUpper X c = str ''CONFIG''"; cases "ToUpper X c = str ''B''")
      (auto simp: processCommand_def Let_def n c)
  then have "s' = s \<or> IsSysop s' = IsSysop s1" by cases (auto dest: cmdConfig_IsSysop run_command_IsSysop)
  then show "IsSysop s' \<longrightarrow> IsSysop s" and "sMode (Sysop s) \<noteq> SysopAuthAuthenticated \<Longrightarrow> IsSysop s' = IsSysop s"
    using noteCommand_IsSysop [OF n] by auto
qed

text \<open>C21: SYSOP rights come from the secret. If a line makes a station SYSOP that was not, the station was answering
  a challenge that had been issued and had not expired, and its answer holds the characters of the
  secret the challenge asked for.\<close>

theorem sysop_only_by_secret:
  assumes "processLine S X now line s m = Some (s', m')" and "\<not> IsSysop s" and "IsSysop s'"
  shows "inputMode s = InputModeSysopResponse \<and> sMode (Sysop s) = SysopAuthAwaitingResponse \<and> now \<le> ChallengeExpires (Sysop s)
    \<and> length (TrimSpace X line) = 6
    \<and> mset (map (\<lambda>i. Secret (Sysop s) ! nat (i - 1)) (ChallengeIndices (Sysop s))) \<subseteq># mset (TrimSpace X line)"
proof (cases "inputMode s")
  case InputModeSysopResponse
  then have p: "processSysopResponse X now line s m = Some (s', m')" using assms(1) by (simp add: processLine_def)
  have i: "issueSysopChallenge now s m = Some (s', m') \<Longrightarrow> IsSysop s' = IsSysop s"
    by (auto simp: issueSysopChallenge_def Let_def split: option.splits prod.splits sum.splits)
  obtain res sy where r: "SubmitResponse now (TrimSpace X line) (Sysop s) = (res, sy)" by fastforce
  have "res = VerifySuccess"
    using p assms(2,3) i by (auto simp: processSysopResponse_def Let_def r split: if_splits VerifyResult.splits)
  then show ?thesis
    using r InputModeSysopResponse by (auto simp: SubmitResponse_def Let_def verifyResponse_iff split: if_splits)
next
  case InputModeCommand
  then show ?thesis using assms processCommand_IsSysop(1) [of S X now line s m s' m'] by (simp add: processLine_def)
qed (use assms mode_handlers_IsSysop(2) [of X line s m] mode_handlers_IsSysop(3) [of S X line s m]
      mode_handlers_IsSysop(4) [of X line s m] in \<open>auto simp: processLine_def\<close>)

section \<open>Lockout\<close>

text \<open>Lines with the time at which each is handled.\<close>

fun timed_lines ::
  "'s MessageStore \<Rightarrow> texts \<Rightarrow> (int \<times> gostring) list \<Rightarrow> Session \<Rightarrow> 's SessionManager \<Rightarrow> 's handler option" where
  "timed_lines S X [] sess m = Some (sess, m)"
| "timed_lines S X ((now, l) # ls) sess m =
     (case processLine S X now l sess m of None \<Rightarrow> None | Some (sess, m) \<Rightarrow> timed_lines S X ls sess m)"

definition locked :: "int \<Rightarrow> Session \<Rightarrow> bool" where
  "locked now s \<longleftrightarrow> sMode (Sysop s) = SysopAuthLockedOut \<and> now \<le> LockoutUntil (Sysop s)"

definition same_rights :: "Session \<Rightarrow> 's handler option \<Rightarrow> bool" where
  "same_rights s r \<longleftrightarrow> (\<exists>s' m'. r = Some (s', m') \<and> Sysop s' = Sysop s \<and> IsSysop s' = IsSysop s)"

lemma same_rights_Some [simp]: "same_rights s (Some (s', m')) \<longleftrightarrow> Sysop s' = Sysop s \<and> IsSysop s' = IsSysop s"
  by (simp add: same_rights_def)

lemma mode_handlers_same:
  "same_rights s (Some (cmdSend X arg fl s m))" "same_rights s (Some (processSubject X line s m))"
  "same_rights s (Some (processBody S X line s m))" "same_rights s (Some (processConfigCommand X line s m))"
  by (simp_all add: mode_handlers Let_def split: prod.splits sum.splits)

lemma locked_sysop_handlers:
  assumes "locked now s"
  shows "same_rights s (cmdSysop X now arg s m)" "same_rights s (cmdConfig now s m)" "same_rights s (processSysopResponse X now line s m)"
proof -
  have l: "IsLockedOut now (Sysop s) = (True, Sysop s)" "\<not> IsAwaitingResponse (Sysop s)"
    "SubmitResponse now r (Sysop s) = (VerifyNoActive, Sysop s)" for r
    using assms by (auto simp: locked_def IsLockedOut_def IsAwaitingResponse_def SubmitResponse_def)
  show "same_rights s (cmdSysop X now arg s m)" "same_rights s (cmdConfig now s m)" "same_rights s (processSysopResponse X now line s m)"
    by (simp_all add: cmdSysop_def cmdConfig_def processSysopResponse_def enterConfigMode_def Let_def l)
qed

lemma locked_run_command: "locked now s \<Longrightarrow> same_rights s (run_command S X now c arg s m)"
  by (rule run_command_rule) (auto simp: mode_handlers_same locked_sysop_handlers)

lemma locked_line:
  assumes "locked now s"
  shows "same_rights s (processLine S X now line s m)"
proof (cases "inputMode s")
  case InputModeCommand
  have n: "noteCommand now s m = (s, m)"
    using assms by (simp add: locked_def noteCommand_def sysopExpireIfIdle_def ExpireIfIdle_def IsAuthenticated_def)
  obtain c arg where c: "split_command X (TrimSpace X line) = (c, arg)" by fastforce
  have "same_rights s (map_option (\<lambda>(sess, m). (sess, sendPrompt sess m)) r)" if "same_rights s r" for r :: "'a handler option"
    using that by (auto simp: same_rights_def)
  then show ?thesis
    using InputModeCommand locked_sysop_handlers(2) [OF assms, of m] locked_run_command [OF assms, of S X "ToUpper X c" arg m]
    by (simp add: processLine_def processCommand_def Let_def n c)
qed (simp_all add: processLine_def mode_handlers_same locked_sysop_handlers [OF assms])

lemma locked_lines:
  "sMode (Sysop s) = SysopAuthLockedOut \<Longrightarrow> \<forall>(u, l) \<in> set ls. u \<le> LockoutUntil (Sysop s) \<Longrightarrow> same_rights s (timed_lines S X ls s m)"
proof (induction S X ls s m rule: timed_lines.induct)
  case (2 S X now l ls s m)
  then have "same_rights s (processLine S X now l s m)" by (intro locked_line) (auto simp: locked_def)
  then obtain s' m' where p: "processLine S X now l s m = Some (s', m')" "Sysop s' = Sysop s" "IsSysop s' = IsSysop s"
    by (auto simp: same_rights_def)
  from 2(1) [OF p(1) refl] 2(2,3) p show ?case by (simp add: same_rights_def)
qed simp

text \<open>A station that is locked out only has to connect again: the new session has no failed attempts.\<close>

lemma reconnect_ends_lockout:
  "sessions (BBS_OnConnect S X remote loc port (BBS_OnDisconnect remote loc m)) (sessionKey remote loc)
     = Some (newSession X (mcfg m) remote loc port)
   \<and> FailedAttempts (Sysop (newSession X (mcfg m) remote loc port)) = 0
   \<and> sMode (Sysop (newSession X (mcfg m) remote loc port)) = SysopAuthIdle"
  by (simp add: BBS_OnConnect_def BBS_OnDisconnect_def bannerSummary_def newSession_def NewSysopState_def Let_def
      split: prod.splits sum.splits)

text \<open>C22: The lockout of a session. Once a station has given its last permitted wrong answer, no line it sends in the same session until the
  lockout is over makes it SYSOP: every line is handled without waiting for a new challenge and the
  session stays locked out. The lockout ends with the session: if the station disconnects and connects again, however soon,
  its new session is not locked out and has no failed attempts.\<close>

theorem lockout_holds:
  assumes "inputMode s = InputModeSysopResponse" and "sMode (Sysop s) = SysopAuthAwaitingResponse" and "t \<le> ChallengeExpires (Sysop s)"
    and "\<not> EqualFold X (TrimSpace X line) (str ''SYSOP NEW'')" and "\<not> verifyResponse (Sysop s) (TrimSpace X line)"
    and "FailedAttempts (Sysop s) + 1 \<ge> MaxAttempts (Sysop s)"
    and "\<forall>(u, l) \<in> set ls. u \<le> t + LockoutDuration (Sysop s)"
  shows "\<exists>s' m'. timed_lines S X ((t, line) # ls) s m = Some (s', m') \<and> \<not> IsSysop s' \<and> sMode (Sysop s') = SysopAuthLockedOut
    \<and> (\<forall>remote loc port. \<exists>n. sessions (BBS_OnConnect S X remote loc port (BBS_OnDisconnect remote loc m')) (sessionKey remote loc) = Some n
         \<and> FailedAttempts (Sysop n) = 0 \<and> sMode (Sysop n) = SysopAuthIdle)"
proof -
  let ?y = "(Sysop s)\<lparr>FailedAttempts := FailedAttempts (Sysop s) + 1, sMode := SysopAuthLockedOut, LockoutUntil := t + LockoutDuration (Sysop s)\<rparr>"
  have "SubmitResponse t (TrimSpace X line) (Sysop s) = (VerifyLockedOut, ?y)"
    using assms(2,3,5,6) by (simp add: SubmitResponse_def Let_def)
  then obtain s1 m1 where p: "processLine S X t line s m = Some (s1, m1)" "\<not> IsSysop s1" "Sysop s1 = ?y"
    using assms(1,4) by (simp add: processLine_def processSysopResponse_def Let_def)
  have "same_rights s1 (timed_lines S X ls s1 m1)" using locked_lines [of s1 ls S X m1] p(3) assms(7) by simp
  then show ?thesis using p reconnect_ends_lockout by (fastforce simp: same_rights_def)
qed

definition answering :: Session where
  "answering = (newSession ascii_tables \<lparr>bbsCallsign = [], Greeting = [], Prompt = [], SysopName = [], Version = [], MaxMessages = 0,
       MaxBodyLen = 0, SysopSecret = str ''secret'', SysopChallengeTimeout = 300, SysopSessionTimeout = 600, SysopLockout = 900,
       SysopMaxAttempts = 3, DBPath = [], AGWPEHost = [], AGWPEPort = 0\<rparr> (str ''N7GET'') (str ''N0CALL'') 0)
     \<lparr>inputMode := InputModeSysopResponse, Sysop := \<lparr>sMode = SysopAuthAwaitingResponse, Secret = str ''secret'',
        ChallengeIndices = [1, 2, 3, 5], ChallengeExpires = 1000, LastActivity = 0, LockoutUntil = 0, FailedAttempts = 2,
        ChallengeTimeout = 300, SessionTimeout = 600, LockoutDuration = 900, MaxAttempts = 3\<rparr>\<rparr>"

definition no_client :: "memdb SessionManager" where
  "no_client = NewSessionManager \<lparr>bbsCallsign = [], Greeting = [], Prompt = [], SysopName = [], Version = [], MaxMessages = 0,
       MaxBodyLen = 0, SysopSecret = str ''secret'', SysopChallengeTimeout = 300, SysopSessionTimeout = 600, SysopLockout = 900,
       SysopMaxAttempts = 3, DBPath = [], AGWPEHost = [], AGWPEPort = 0\<rparr> \<lparr>mRows = [], mMarks = []\<rparr> (Heard_New 20) []"

lemma guess: "\<not> EqualFold ascii_tables (TrimSpace ascii_tables (str ''guess'')) (str ''SYSOP NEW'')"
  "\<not> verifyResponse (Sysop answering) (TrimSpace ascii_tables (str ''guess''))"
  by (simp_all add: verifyResponse_def strings_TrimSpace_def ascii_space_def strings_EqualFold_def upper_byte_def str_simps)

theorem lockout_holds_witness:
  "\<exists>s' m'. timed_lines (SQLiteStore mem_db) ascii_tables [(100, str ''guess''), (500, str ''SYSOP''), (999, str ''CONFIG'')] answering no_client
     = Some (s', m') \<and> \<not> IsSysop s'"
proof -
  have h: "inputMode answering = InputModeSysopResponse" "sMode (Sysop answering) = SysopAuthAwaitingResponse"
    "100 \<le> ChallengeExpires (Sysop answering)" "FailedAttempts (Sysop answering) + 1 \<ge> MaxAttempts (Sysop answering)"
    "\<forall>(u, l) \<in> set [(500, str ''SYSOP''), (999, str ''CONFIG'')]. u \<le> 100 + LockoutDuration (Sysop answering)"
    by (simp_all add: answering_def)
  show ?thesis using lockout_holds [OF h(1-3) guess h(4,5), of "SQLiteStore mem_db" no_client] by auto
qed

lemma good_answer:
  "verifyResponse (Sysop (answering\<lparr>pendingConfigEntry := b\<rparr>)) (TrimSpace ascii_tables (str ''xecesy''))"
  "\<not> EqualFold ascii_tables (TrimSpace ascii_tables (str ''xecesy'')) (str ''SYSOP NEW'')"
  by (simp_all add: answering_def verifyResponse_def strings_TrimSpace_def ascii_space_def strings_EqualFold_def upper_byte_def str_simps)

theorem sysop_only_by_secret_witness:
  "length (TrimSpace ascii_tables (str ''xecesy'')) = 6
   \<and> (\<exists>s' m'. processLine (SQLiteStore mem_db) ascii_tables 100 (str ''xecesy'') answering no_client = Some (s', m') \<and> IsSysop s')"
proof -
  have h: "inputMode answering = InputModeSysopResponse" "sMode (Sysop answering) = SysopAuthAwaitingResponse"
    "100 \<le> ChallengeExpires (Sysop answering)" "\<not> IsSysop answering" "\<not> pendingConfigEntry answering"
    by (simp_all add: answering_def newSession_def)
  have v: "verifyResponse (Sysop answering) (TrimSpace ascii_tables (str ''xecesy''))"
    using good_answer(1) [of False] by (simp add: answering_def newSession_def)
  obtain s' m' where p: "processLine (SQLiteStore mem_db) ascii_tables 100 (str ''xecesy'') answering no_client = Some (s', m')"
    and "IsSysop s'"
    using h v good_answer(2) by (simp add: processLine_def processSysopResponse_def SubmitResponse_def Let_def)
  then show ?thesis using sysop_only_by_secret [OF p h(4)] by blast
qed

section \<open>What the login does not mean to do\<close>

text \<open>CONFIG needs two logins. A station that asks for CONFIG mode without being SYSOP is challenged, and
  the session remembers the request; but the right answer clears it before it is looked at, so the
  station is SYSOP, gets the command prompt and is in command mode.\<close>

theorem config_request_lost:
  assumes "inputMode s = InputModeSysopResponse" and "pendingConfigEntry s" and "sMode (Sysop s) = SysopAuthAwaitingResponse"
    and "now \<le> ChallengeExpires (Sysop s)" and "verifyResponse (Sysop s) (TrimSpace X line)"
    and "\<not> EqualFold X (TrimSpace X line) (str ''SYSOP NEW'')"
  shows "\<exists>s' m'. processLine S X now line s m = Some (s', m') \<and> IsSysop s' \<and> inputMode s' = InputModeCommand \<and> \<not> pendingConfigEntry s'
    \<and> m' = sendPrompt s (sendText s (str ''*** SYSOP authenticated'' @ [0x0D]) m)"
  using assms by (simp add: processLine_def processSysopResponse_def SubmitResponse_def Let_def)

theorem config_request_lost_witness:
  "\<exists>s' m'. processLine (SQLiteStore mem_db) ascii_tables 100 (str ''xecesy'') (answering\<lparr>pendingConfigEntry := True\<rparr>) no_client = Some (s', m')
     \<and> inputMode s' = InputModeCommand"
proof -
  let ?s = "answering\<lparr>pendingConfigEntry := True\<rparr>"
  have h: "inputMode ?s = InputModeSysopResponse" "pendingConfigEntry ?s" "sMode (Sysop ?s) = SysopAuthAwaitingResponse"
    "100 \<le> ChallengeExpires (Sysop ?s)" by (simp_all add: answering_def)
  show ?thesis using config_request_lost [OF h good_answer, of "SQLiteStore mem_db" no_client] by auto
qed

text \<open>Rights without a time limit. A SYSOP who starts a second login and answers it wrong, with attempts
  left, stays SYSOP in the idle state of the login, in which the idle timeout is not looked at: a
  command at any later time, however long the station was idle, leaves it SYSOP.\<close>

theorem failed_relogin_keeps_sysop:
  assumes "inputMode s = InputModeSysopResponse" and "IsSysop s" and "sMode (Sysop s) = SysopAuthAwaitingResponse"
    and "t \<le> ChallengeExpires (Sysop s)" and "\<not> verifyResponse (Sysop s) (TrimSpace X line)"
    and "\<not> EqualFold X (TrimSpace X line) (str ''SYSOP NEW'')" and "FailedAttempts (Sysop s) + 1 < MaxAttempts (Sysop s)"
  shows "\<exists>s1 m1. processLine S X t line s m = Some (s1, m1) \<and> IsSysop s1 \<and> sMode (Sysop s1) = SysopAuthIdle
    \<and> (\<forall>u l s2 m2. processLine S X u l s1 m1 = Some (s2, m2) \<longrightarrow> IsSysop s2)"
proof -
  let ?y = "(Sysop s)\<lparr>sMode := SysopAuthIdle, FailedAttempts := FailedAttempts (Sysop s) + 1\<rparr>"
  have "SubmitResponse t (TrimSpace X line) (Sysop s) = (VerifyFailed, ?y)"
    using assms(3-5,7) by (simp add: SubmitResponse_def Let_def)
  then obtain s1 m1 where p: "processLine S X t line s m = Some (s1, m1)" "IsSysop s1" "Sysop s1 = ?y" "inputMode s1 = InputModeCommand"
    using assms(1,2,6) by (simp add: processLine_def processSysopResponse_def Let_def)
  then show ?thesis using processCommand_IsSysop(2) [of S X _ _ s1 m1] by (auto simp: processLine_def)
qed

theorem failed_relogin_keeps_sysop_witness:
  "\<exists>s1 m1. processLine (SQLiteStore mem_db) ascii_tables 100 (str ''guess'')
      (answering\<lparr>IsSysop := True, Sysop := (Sysop answering)\<lparr>FailedAttempts := 0\<rparr>\<rparr>) no_client = Some (s1, m1) \<and> IsSysop s1"
proof -
  let ?s = "answering\<lparr>IsSysop := True, Sysop := (Sysop answering)\<lparr>FailedAttempts := 0\<rparr>\<rparr>"
  have v: "\<not> verifyResponse (Sysop ?s) (TrimSpace ascii_tables (str ''guess''))"
    by (simp add: verifyResponse_def strings_TrimSpace_def ascii_space_def str_simps)
  have h: "inputMode ?s = InputModeSysopResponse" "IsSysop ?s" "sMode (Sysop ?s) = SysopAuthAwaitingResponse"
    "100 \<le> ChallengeExpires (Sysop ?s)" "FailedAttempts (Sysop ?s) + 1 < MaxAttempts (Sysop ?s)" by (simp_all add: answering_def)
  show ?thesis using failed_relogin_keeps_sysop [OF h(1-4) v guess(1) h(5), of "SQLiteStore mem_db" no_client] by auto
qed

end
