(* ===== verification/Ax25_Config.thy ===== *)
theory Ax25_Config
  imports Agwpe_Client Ax25_Beacon Bbs_Session "HOL-Library.AList"
begin

text \<open>
  The configuration: \<open>src/ax25/config.go\<close> with its key table and schema, the BBS's part of it
  (\<open>src/cmd/bbs/bbs/config.go\<close>), and the functions of every package that fill a component's
  configuration from it. The libraries viper and ini are the parameters \<open>viper\<close> and \<open>ini_load\<close>;
  \<open>viper_documented\<close> states what viper's documentation promises of the calls the code makes: the
  priority of the sources of a value, and what each call adds to its source. A getter that panics has the
  outcome \<open>Panic\<close>.
\<close>

section \<open>Keys\<close>

type_synonym ConfigKey = gostring

definition KeyAgwpeClientHost :: ConfigKey where "KeyAgwpeClientHost = str ''agwpe.client.host''"
definition KeyAgwpeClientPort :: ConfigKey where "KeyAgwpeClientPort = str ''agwpe.client.port''"
definition KeyAgwpeClientReadBuf :: ConfigKey where "KeyAgwpeClientReadBuf = str ''agwpe.client.read_buf''"
definition KeyAgwpeClientTxQueueDepth :: ConfigKey where "KeyAgwpeClientTxQueueDepth = str ''agwpe.client.tx_queue_depth''"
definition KeyAgwpeServerAddr :: ConfigKey where "KeyAgwpeServerAddr = str ''agwpe.server.addr''"
definition KeyAgwpeServerEnabled :: ConfigKey where "KeyAgwpeServerEnabled = str ''agwpe.server.enabled''"
definition KeyAgwpeServerMaxClients :: ConfigKey where "KeyAgwpeServerMaxClients = str ''agwpe.server.max_clients''"
definition KeyAgwpeServerMaxConns :: ConfigKey where "KeyAgwpeServerMaxConns = str ''agwpe.server.max_conns''"
definition KeyAgwpeServerReadBuf :: ConfigKey where "KeyAgwpeServerReadBuf = str ''agwpe.server.read_buf''"
definition KeyAgwpeServerTxQueueDepth :: ConfigKey where "KeyAgwpeServerTxQueueDepth = str ''agwpe.server.tx_queue_depth''"
definition KeyBeaconDestination :: ConfigKey where "KeyBeaconDestination = str ''beacon.destination''"
definition KeyBeaconAddr :: ConfigKey where "KeyBeaconAddr = str ''beacon.addr''"
definition KeyBeaconEvery :: ConfigKey where "KeyBeaconEvery = str ''beacon.every''"
definition KeyBeaconSource :: ConfigKey where "KeyBeaconSource = str ''beacon.source''"
definition KeyBeaconText :: ConfigKey where "KeyBeaconText = str ''beacon.text''"
definition KeyBeaconVia :: ConfigKey where "KeyBeaconVia = str ''beacon.via''"
definition KeyConnN2Retries :: ConfigKey where "KeyConnN2Retries = str ''conn.n2_retries''"
definition KeyConnT1Ms :: ConfigKey where "KeyConnT1Ms = str ''conn.t1_ms''"
definition KeyConnT2Ms :: ConfigKey where "KeyConnT2Ms = str ''conn.t2_ms''"
definition KeyConnT3Ms :: ConfigKey where "KeyConnT3Ms = str ''conn.t3_ms''"
definition KeyConnWindowSize :: ConfigKey where "KeyConnWindowSize = str ''conn.window_size''"
definition KeyDigiCallsign :: ConfigKey where "KeyDigiCallsign = str ''digi.callsign''"
definition KeyKissClientEnabled :: ConfigKey where "KeyKissClientEnabled = str ''kiss.client.enabled''"
definition KeyKissClientHost :: ConfigKey where "KeyKissClientHost = str ''kiss.client.host''"
definition KeyKissClientLogFrames :: ConfigKey where "KeyKissClientLogFrames = str ''kiss.client.log_frames''"
definition KeyKissClientPort :: ConfigKey where "KeyKissClientPort = str ''kiss.client.port''"
definition KeyKissClientReadBuf :: ConfigKey where "KeyKissClientReadBuf = str ''kiss.client.read_buf''"
definition KeyKissClientTxQueueDepth :: ConfigKey where "KeyKissClientTxQueueDepth = str ''kiss.client.tx_queue_depth''"
definition KeyKissSerialEnabled :: ConfigKey where "KeyKissSerialEnabled = str ''kiss.serial.enabled''"
definition KeyKissSerialBaud :: ConfigKey where "KeyKissSerialBaud = str ''kiss.serial.baud''"
definition KeyKissSerialDevice :: ConfigKey where "KeyKissSerialDevice = str ''kiss.serial.device''"
definition KeyKissSerialLogFrames :: ConfigKey where "KeyKissSerialLogFrames = str ''kiss.serial.log_frames''"
definition KeyKissSerialReadBuf :: ConfigKey where "KeyKissSerialReadBuf = str ''kiss.serial.read_buf''"
definition KeyKissSerialRxQueueDepth :: ConfigKey where "KeyKissSerialRxQueueDepth = str ''kiss.serial.rx_queue_depth''"
definition KeyKissSerialTxQueueDepth :: ConfigKey where "KeyKissSerialTxQueueDepth = str ''kiss.serial.tx_queue_depth''"
definition KeyKissServerAddr :: ConfigKey where "KeyKissServerAddr = str ''kiss.server.addr''"
definition KeyKissServerEnabled :: ConfigKey where "KeyKissServerEnabled = str ''kiss.server.enabled''"
definition KeyKissServerLogFrames :: ConfigKey where "KeyKissServerLogFrames = str ''kiss.server.log_frames''"
definition KeyKissServerMaxClients :: ConfigKey where "KeyKissServerMaxClients = str ''kiss.server.max_clients''"
definition KeyKissServerPromiscuous :: ConfigKey where "KeyKissServerPromiscuous = str ''kiss.server.promiscuous''"
definition KeyKissServerReadBuf :: ConfigKey where "KeyKissServerReadBuf = str ''kiss.server.read_buf''"
definition KeyKissServerTxQueueDepth :: ConfigKey where "KeyKissServerTxQueueDepth = str ''kiss.server.tx_queue_depth''"
definition KeyMonitorEnabled :: ConfigKey where "KeyMonitorEnabled = str ''monitor.enabled''"
definition KeyMonitorPrefix :: ConfigKey where "KeyMonitorPrefix = str ''monitor.prefix''"
definition KeyMonitorType :: ConfigKey where "KeyMonitorType = str ''monitor.type''"
definition KeyRouterMode :: ConfigKey where "KeyRouterMode = str ''router.mode''"
definition KeyRouterPortQueueDepth :: ConfigKey where "KeyRouterPortQueueDepth = str ''router.port_queue_depth''"
definition KeyTerminalCallsign :: ConfigKey where "KeyTerminalCallsign = str ''terminal.callsign''"

definition allConfigKeys :: "ConfigKey list" where
  "allConfigKeys =
     [KeyAgwpeClientHost, KeyAgwpeClientPort, KeyAgwpeClientReadBuf, KeyAgwpeClientTxQueueDepth,
      KeyAgwpeServerEnabled, KeyAgwpeServerAddr, KeyAgwpeServerMaxClients, KeyAgwpeServerMaxConns,
      KeyAgwpeServerReadBuf, KeyAgwpeServerTxQueueDepth, KeyBeaconDestination, KeyBeaconAddr,
      KeyBeaconEvery, KeyBeaconSource, KeyBeaconText, KeyBeaconVia,
      KeyConnN2Retries, KeyConnT1Ms, KeyConnT2Ms, KeyConnT3Ms,
      KeyConnWindowSize, KeyDigiCallsign, KeyKissClientEnabled, KeyKissClientHost,
      KeyKissClientLogFrames, KeyKissClientPort, KeyKissClientReadBuf, KeyKissClientTxQueueDepth,
      KeyKissSerialEnabled, KeyKissSerialBaud, KeyKissSerialDevice, KeyKissSerialLogFrames,
      KeyKissSerialReadBuf, KeyKissSerialRxQueueDepth, KeyKissSerialTxQueueDepth, KeyKissServerAddr,
      KeyKissServerEnabled, KeyKissServerLogFrames, KeyKissServerMaxClients, KeyKissServerPromiscuous,
      KeyKissServerReadBuf, KeyKissServerTxQueueDepth, KeyMonitorEnabled, KeyMonitorPrefix,
      KeyMonitorType, KeyRouterMode, KeyRouterPortQueueDepth, KeyTerminalCallsign]"

text \<open>The set is the Go map from keys to \<open>true\<close>.\<close>

definition AllSchemaKeys :: "ConfigKey set" where
  "AllSchemaKeys = set allConfigKeys"

section \<open>The schema\<close>

record ConfigParam =
  Key :: ConfigKey
  DefaultValue :: gostring
  Description :: gostring

abbreviation param :: "ConfigKey \<Rightarrow> string \<Rightarrow> string \<Rightarrow> ConfigParam" where
  "param k d t \<equiv> \<lparr>Key = k, DefaultValue = str d, Description = str t\<rparr>"

definition DefaultSchema :: "ConfigParam list" where
  "DefaultSchema =
     [param KeyTerminalCallsign ''N0CALL'' ''Terminal local callsign'',
      param KeyBeaconSource '''' ''Beacon source callsign (empty = disabled)'',
      param KeyBeaconDestination ''BEACON'' ''Beacon destination callsign'',
      param KeyBeaconAddr '''' ''Beacon KISS TCP target address host:port (overrides kiss.client host/port)'',
      param KeyBeaconVia '''' ''Comma-separated digipeater path'',
      param KeyBeaconText ''go-ax25'' (''Beacon text (supports '' @ CHR 0x5C # ''r '' @ CHR 0x5C # ''n '' @ CHR 0x5C # ''xHH escapes)''),
      param KeyBeaconEvery ''0'' ''Beacon interval in minutes (0 = disabled)'',
      param KeyDigiCallsign '''' ''Digipeater callsign (empty = disabled)'',
      param KeyConnT1Ms ''10000'' ''T1 acknowledgement timeout (ms)'',
      param KeyConnT2Ms ''1000'' ''T2 response delay timeout (ms)'',
      param KeyConnT3Ms ''180000'' ''T3 inactive link timeout (ms)'',
      param KeyConnN2Retries ''10'' ''N2 maximum retry count'',
      param KeyConnWindowSize ''4'' ''k: maximum outstanding I-frames (1-7)'',
      param KeyRouterMode ''switch'' ''Router dispatch mode: switch, bridge, or hub'',
      param KeyRouterPortQueueDepth ''32'' ''Default per-port frame queue depth'',
      param KeyAgwpeClientHost ''localhost'' ''AGWPE client host'',
      param KeyAgwpeClientPort ''8000'' ''AGWPE client port'',
      param KeyAgwpeClientReadBuf ''4132'' ''AGWPE client rx read buffer size (bytes)'',
      param KeyAgwpeClientTxQueueDepth ''8'' ''AGWPE client TX channel depth'',
      param KeyAgwpeServerEnabled ''true'' ''Enable AGWPE TCP server'',
      param KeyAgwpeServerAddr '':8000'' ''AGWPE TCP listen address'',
      param KeyAgwpeServerMaxClients ''16'' ''AGWPE TCP server max simultaneous clients (0 = unlimited)'',
      param KeyAgwpeServerReadBuf ''4132'' ''AGWPE server rx read buffer size (bytes)'',
      param KeyAgwpeServerTxQueueDepth ''64'' ''AGWPE server TX channel depth'',
      param KeyAgwpeServerMaxConns ''4'' ''AGWPE server max simultaneous AX.25 connections'',
      param KeyKissSerialEnabled ''false'' ''Enable serial KISS PHY (mutually exclusive with KISS TCP client)'',
      param KeyKissSerialDevice ''/dev/ttyUSB0'' ''Serial device for KISS TNC'',
      param KeyKissSerialBaud ''9600'' ''Serial baud rate'',
      param KeyKissSerialLogFrames ''false'' ''Log KISS boundary frames for serial KISS PHY when monitor.type=kiss'',
      param KeyKissSerialReadBuf ''1024'' ''KISS serial rx read buffer size (bytes)'',
      param KeyKissSerialRxQueueDepth ''64'' ''KISS serial rx frame queue depth'',
      param KeyKissSerialTxQueueDepth ''32'' ''KISS serial tx frame queue depth'',
      param KeyKissClientEnabled ''false'' ''Enable KISS TCP client PHY (mutually exclusive with serial PHY)'',
      param KeyKissClientHost ''localhost'' ''KISS TCP client host'',
      param KeyKissClientLogFrames ''false'' ''Log KISS boundary frames for KISS TCP client PHY when monitor.type=kiss'',
      param KeyKissClientPort ''8100'' ''KISS TCP client port'',
      param KeyKissClientReadBuf ''4096'' ''KISS TCP client rx read buffer size (bytes)'',
      param KeyKissClientTxQueueDepth ''8'' ''KISS TCP client TX channel depth'',
      param KeyKissServerAddr '':8100'' ''KISS TCP server listen address'',
      param KeyKissServerEnabled ''true'' ''Enable KISS TCP server'',
      param KeyKissServerLogFrames ''false'' ''Log KISS boundary frames for KISS TCP server client PHYs when monitor.type=kiss'',
      param KeyKissServerMaxClients ''16'' ''KISS TCP server max simultaneous clients (0 = unlimited)'',
      param KeyKissServerPromiscuous ''false'' ''Register KISS TCP server client ports as promiscuous (unsupported in bridge mode)'',
      param KeyKissServerReadBuf ''4096'' ''KISS TCP server rx read buffer size per client (bytes)'',
      param KeyKissServerTxQueueDepth ''8'' ''KISS TCP server TX channel depth per client'',
      param KeyMonitorEnabled ''false'' ''Enable router capture logging to pcap'',
      param KeyMonitorPrefix ''monitor'' ''Capture file prefix; files are written as <prefix>-yymmddvv.pcap'',
      param KeyMonitorType ''ax25'' ''Capture data type: ax25 or kiss'']"
section \<open>Values of an INI file\<close>

text \<open>A Go value of type \<open>map[string]any\<close> as the code fills it: strings and nested maps.\<close>

datatype ini_value = IniString gostring | IniMap "(gostring \<times> ini_value) list"

type_synonym ini_map = "(gostring \<times> ini_value) list"

text \<open>\<open>m[path[0]].(map[string]any)\<close>, or a new map.\<close>

definition next_map :: "ini_map \<Rightarrow> gostring \<Rightarrow> ini_map" where
  "next_map m k = (case map_of m k of Some (IniMap n) \<Rightarrow> n | _ \<Rightarrow> [])"

fun iniDeepSet :: "ini_map \<Rightarrow> gostring list \<Rightarrow> gostring \<Rightarrow> ini_map outcome" where
  "iniDeepSet m [] v = Panic"
| "iniDeepSet m [k] v = Ret (AList.update k (IniString v) m)"
| "iniDeepSet m (k # ks) v =
     (case iniDeepSet (next_map m k) ks v of Panic \<Rightarrow> Panic | Ret n \<Rightarrow> Ret (AList.update k (IniMap n) m))"

text \<open>What \<open>ini.LoadSources\<close> returns: the sections with their keys and values.\<close>

type_synonym ini_file = "(gostring \<times> (gostring \<times> gostring) list) list"

definition ini_DefaultSection :: gostring where
  "ini_DefaultSection = str ''DEFAULT''"

definition full_key :: "gostring \<Rightarrow> gostring \<Rightarrow> gostring" where
  "full_key sec k = (if sec = ini_DefaultSection then k else sec @ str ''.'' @ k)"

fun set_keys :: "gostring \<Rightarrow> (gostring \<times> gostring) list \<Rightarrow> ini_map \<Rightarrow> ini_map outcome" where
  "set_keys sec [] m = Ret m"
| "set_keys sec ((k, v) # ks) m =
     (case iniDeepSet m (strings_Split (full_key sec k) 0x2E) v of Panic \<Rightarrow> Panic | Ret m \<Rightarrow> set_keys sec ks m)"

fun set_sections :: "ini_file \<Rightarrow> ini_map \<Rightarrow> ini_map outcome" where
  "set_sections [] m = Ret m"
| "set_sections ((sec, ks) # f) m = (case set_keys sec ks m of Panic \<Rightarrow> Panic | Ret m \<Rightarrow> set_sections f m)"

type_synonym codec = "byte list \<Rightarrow> ini_map \<Rightarrow> (goerr + ini_map) outcome"

definition iniCodec_Decode :: "(byte list \<Rightarrow> goerr + ini_file) \<Rightarrow> codec" where
  "iniCodec_Decode load b m =
     (case load b of
        Inl e \<Rightarrow> Ret (Inl e)
      | Inr f \<Rightarrow> (case set_sections f m of Panic \<Rightarrow> Panic | Ret m \<Rightarrow> Ret (Inr m)))"

definition iniCodec_Encode :: "ini_map \<Rightarrow> goerr + byte list" where
  "iniCodec_Encode m = Inl (ErrMsg ''ax25: ini encoding not supported'')"

section \<open>The configuration\<close>

text \<open>The calls on viper. \<open>vRead\<close> is \<open>ReadInConfig\<close> after \<open>SetConfigFile\<close> and \<open>SetConfigType\<close>; it calls the
  registered codec, so it panics if the codec does.\<close>

record 'v viper =
  vNew :: "codec \<Rightarrow> 'v"
  vSetEnvPrefix :: "gostring \<Rightarrow> 'v \<Rightarrow> 'v"
  vSetEnvKeyReplacer :: "byte \<Rightarrow> byte \<Rightarrow> 'v \<Rightarrow> 'v"
  vAutomaticEnv :: "'v \<Rightarrow> 'v"
  vSetDefault :: "gostring \<Rightarrow> gostring \<Rightarrow> 'v \<Rightarrow> 'v"
  vSetConfigFile :: "gostring \<Rightarrow> 'v \<Rightarrow> 'v"
  vSetConfigType :: "gostring \<Rightarrow> 'v \<Rightarrow> 'v"
  vReadInConfig :: "'v \<Rightarrow> (goerr option \<times> 'v) outcome"
  vSet :: "gostring \<Rightarrow> gostring \<Rightarrow> 'v \<Rightarrow> 'v"
  vGetString :: "'v \<Rightarrow> gostring \<Rightarrow> gostring"

record 'v Config =
  cfgV :: 'v
  knownKeys :: "ConfigKey set"
  cfgSchema :: "ConfigParam list"

definition NewConfig :: "'v viper \<Rightarrow> (byte list \<Rightarrow> goerr + ini_file) \<Rightarrow> ConfigParam list \<Rightarrow> 'v Config" where
  "NewConfig V load extra =
     (let v = vNew V (iniCodec_Decode load);
          v = vSetEnvPrefix V (str ''GOAX25'') v;
          v = vSetEnvKeyReplacer V 0x2E 0x5F v;
          v = vAutomaticEnv V v;
          schema = DefaultSchema @ extra
      in \<lparr>cfgV = fold (\<lambda>p. vSetDefault V (Key p) (DefaultValue p)) schema v,
          knownKeys = set (map Key schema), cfgSchema = schema\<rparr>)"

text \<open>What \<open>os.Stat\<close> returns: no error, one that is \<open>os.ErrNotExist\<close>, or another.\<close>

datatype stat_result = StatOk | StatNotExist | StatErr goerr

definition LoadINI :: "'v viper \<Rightarrow> (gostring \<Rightarrow> stat_result) \<Rightarrow> gostring \<Rightarrow> 'v Config \<Rightarrow> (goerr option \<times> 'v Config) outcome" where
  "LoadINI V stat file c =
     (case stat file of
        StatNotExist \<Rightarrow> Ret (None, c)
      | StatErr e \<Rightarrow> Ret (Some (ErrWrap ''ax25: config: stat'' e), c)
      | StatOk \<Rightarrow>
          (case vReadInConfig V (vSetConfigType V (str ''ini'') (vSetConfigFile V file (cfgV c))) of
             Panic \<Rightarrow> Panic
           | Ret (e, v) \<Rightarrow> Ret (map_option (ErrWrap ''ax25: config: parse'') e, c\<lparr>cfgV := v\<rparr>)))"

definition Config_Get :: "'v viper \<Rightarrow> 'v Config \<Rightarrow> ConfigKey \<Rightarrow> gostring outcome" where
  "Config_Get V c k = (if k \<notin> knownKeys c then Panic else Ret (vGetString V (cfgV c) k))"

definition GetStr :: "'v viper \<Rightarrow> 'v Config \<Rightarrow> ConfigKey \<Rightarrow> gostring outcome" where
  "GetStr V c k = Config_Get V c k"

definition GetInt :: "'v viper \<Rightarrow> 'v Config \<Rightarrow> ConfigKey \<Rightarrow> int outcome" where
  "GetInt V c k =
     (case Config_Get V c k of
        Panic \<Rightarrow> Panic
      | Ret v \<Rightarrow> (case strconv_Atoi v of None \<Rightarrow> Panic | Some n \<Rightarrow> Ret n))"

definition GetBool :: "'v viper \<Rightarrow> 'v Config \<Rightarrow> ConfigKey \<Rightarrow> bool outcome" where
  "GetBool V c k =
     (case Config_Get V c k of
        Panic \<Rightarrow> Panic
      | Ret v \<Rightarrow> (case strconv_ParseBool v of None \<Rightarrow> Panic | Some b \<Rightarrow> Ret b))"

definition Config_Set :: "'v viper \<Rightarrow> ConfigKey \<Rightarrow> gostring \<Rightarrow> 'v Config \<Rightarrow> 'v Config" where
  "Config_Set V k v c = c\<lparr>cfgV := vSet V k v (cfgV c)\<rparr>"

section \<open>Configurations of the components\<close>

text \<open>A call, and what comes after it unless it panics.\<close>

fun and_then :: "'a outcome \<Rightarrow> ('a \<Rightarrow> 'b outcome) \<Rightarrow> 'b outcome" where
  "and_then (Ret x) f = f x"
| "and_then Panic f = Panic"

lemma and_then_Ret: "and_then x f = Ret y \<longleftrightarrow> (\<exists>a. x = Ret a \<and> f a = Ret y)"
  by (cases x) auto

definition BeaconConfigFromConfig :: "'v viper \<Rightarrow> 'v Config \<Rightarrow> BeaconConfig outcome" where
  "BeaconConfigFromConfig V c =
     and_then (GetInt V c KeyBeaconEvery) (\<lambda>minutes.
     let every = (if minutes > 0 then wrap64 (minutes * (60 * Second)) else 0) in
     and_then (GetStr V c KeyBeaconSource) (\<lambda>src.
     and_then (GetStr V c KeyBeaconDestination) (\<lambda>dst.
     and_then (GetStr V c KeyBeaconVia) (\<lambda>via.
     and_then (GetStr V c KeyBeaconText) (\<lambda>text.
     Ret \<lparr>bSource = src, bDestination = dst, bVia = via, bText = text, bEvery = every\<rparr>)))))"

definition KISSSerialConfigFromConfig :: "'v viper \<Rightarrow> 'v Config \<Rightarrow> KISSSerialPHYConfig outcome" where
  "KISSSerialConfigFromConfig V c =
     and_then (GetInt V c KeyKissSerialRxQueueDepth) (\<lambda>rx.
     and_then (GetInt V c KeyKissSerialTxQueueDepth) (\<lambda>tx.
     and_then (GetInt V c KeyKissSerialReadBuf) (\<lambda>buf.
     Ret \<lparr>phyPort = 0, rxQueueDepth = rx, txQueueDepth = tx, readBufSize = buf, hasOnRxKISS = False, hasOnTxKISS = False\<rparr>)))"

definition NewKISSSerialConfigFromConfig :: "'v viper \<Rightarrow> 'v Config \<Rightarrow> KISSSerialConfig outcome" where
  "NewKISSSerialConfigFromConfig V c =
     and_then (GetInt V c KeyKissSerialTxQueueDepth) (\<lambda>tx.
     and_then (GetInt V c KeyKissSerialReadBuf) (\<lambda>buf.
     Ret \<lparr>serialPort = False, serialTXQueueDepth = tx, serialReadBufSize = buf, serialOnRxKISS = False,
          serialOnTxKISS = False, serialOnRxFrame = False, serialOnError = False\<rparr>))"

definition NewKISSTCPClientConfigFromConfig :: "'v viper \<Rightarrow> 'v Config \<Rightarrow> KISSTCPClientConfig outcome" where
  "NewKISSTCPClientConfigFromConfig V c =
     and_then (GetStr V c KeyKissClientHost) (\<lambda>host.
     and_then (GetInt V c KeyKissClientPort) (\<lambda>port.
     and_then (GetInt V c KeyKissClientTxQueueDepth) (\<lambda>tx.
     and_then (GetInt V c KeyKissClientReadBuf) (\<lambda>buf.
     Ret \<lparr>tcpHost = host, tcpPort = of_int port, ConnectTimeout = 6 * Second, ReconnectDelay = 5 * Second,
          tcpTXQueueDepth = tx, tcpReadBufSize = buf, tcpOnRxKISS = False, tcpOnTxKISS = False,
          tcpOnRxFrame = False, tcpOnError = False\<rparr>))))"

definition NewKISSTCPServerConfigFromConfig :: "'v viper \<Rightarrow> 'v Config \<Rightarrow> KISSTCPServerConfig outcome" where
  "NewKISSTCPServerConfigFromConfig V c =
     and_then (GetStr V c KeyKissServerAddr) (\<lambda>addr.
     and_then (GetBool V c KeyKissServerPromiscuous) (\<lambda>prom.
     and_then (GetInt V c KeyKissServerTxQueueDepth) (\<lambda>tx.
     and_then (GetInt V c KeyKissServerReadBuf) (\<lambda>buf.
     Ret \<lparr>srvAddr = addr, Promiscuous = prom, srvTXQueueDepth = tx, srvReadBufSize = buf,
          srvOnConnected = False, srvOnDisconnected = False, srvOnRxFrame = False, srvOnError = False\<rparr>))))"

definition NewClientConfigFromConfig :: "'v viper \<Rightarrow> 'v Config \<Rightarrow> ClientConfig outcome" where
  "NewClientConfigFromConfig V c =
     and_then (GetStr V c KeyAgwpeClientHost) (\<lambda>host.
     and_then (GetInt V c KeyAgwpeClientPort) (\<lambda>port.
     and_then (GetInt V c KeyAgwpeClientTxQueueDepth) (\<lambda>tx.
     and_then (GetInt V c KeyAgwpeClientReadBuf) (\<lambda>buf.
     Ret \<lparr>cHost = host, cPort = of_int port, cConnectTimeout = 6 * Second, cReconnectDelay = 5 * Second,
          cTXQueueDepth = tx, cReadBufSize = buf, cOnRxFrame = False, cOnError = False\<rparr>))))"

definition NewServerConfigFromConfig :: "'v viper \<Rightarrow> 'v Config \<Rightarrow> ServerConfig outcome" where
  "NewServerConfigFromConfig V c =
     and_then (GetInt V c KeyAgwpeServerTxQueueDepth) (\<lambda>tx.
     and_then (GetInt V c KeyAgwpeServerMaxConns) (\<lambda>conns.
     and_then (GetInt V c KeyAgwpeServerReadBuf) (\<lambda>buf.
     Ret \<lparr>RadioPort = 0, PortDescription = [], TXQueueDepth = tx, MaxConns = conns, ReadBufSize = buf\<rparr>)))"

text \<open>The callsign is the only field of \<open>DigiConfig\<close>.\<close>

definition DigiConfigFromConfig :: "'v viper \<Rightarrow> 'v Config \<Rightarrow> gostring outcome" where
  "DigiConfigFromConfig V c = GetStr V c KeyDigiCallsign"

text \<open>\<open>time.Millisecond\<close> is \<open>10 ^ 6\<close> nanoseconds.\<close>

definition connConfigFromCfg :: "'v viper \<Rightarrow> 'v Config \<Rightarrow> ConnConfig outcome" where
  "connConfigFromCfg V c =
     and_then (GetInt V c KeyConnT1Ms) (\<lambda>t1.
     and_then (GetInt V c KeyConnT2Ms) (\<lambda>t2.
     and_then (GetInt V c KeyConnT3Ms) (\<lambda>t3.
     and_then (GetInt V c KeyConnN2Retries) (\<lambda>n2.
     and_then (GetInt V c KeyConnWindowSize) (\<lambda>win.
     Ret \<lparr>T1 = wrap64 (t1 * 10 ^ 6), T2 = wrap64 (t2 * 10 ^ 6), T3 = wrap64 (t3 * 10 ^ 6), N2 = n2, Window = win\<rparr>)))))"

section \<open>The BBS\<close>

definition KeyBbsCallsign :: ConfigKey where "KeyBbsCallsign = str ''bbs.callsign''"
definition KeyBbsGreeting :: ConfigKey where "KeyBbsGreeting = str ''bbs.greeting''"
definition KeyBbsPrompt :: ConfigKey where "KeyBbsPrompt = str ''bbs.prompt''"
definition KeyBbsSysopName :: ConfigKey where "KeyBbsSysopName = str ''bbs.sysop_name''"
definition KeyBbsVersion :: ConfigKey where "KeyBbsVersion = str ''bbs.version''"
definition KeyBbsMaxMessages :: ConfigKey where "KeyBbsMaxMessages = str ''bbs.max_messages''"
definition KeyBbsMaxBodyLen :: ConfigKey where "KeyBbsMaxBodyLen = str ''bbs.max_body_len''"
definition KeyBbsSysopSecret :: ConfigKey where "KeyBbsSysopSecret = str ''bbs.sysop_secret''"
definition KeyBbsSysopChallengeTimeoutS :: ConfigKey where "KeyBbsSysopChallengeTimeoutS = str ''bbs.sysop_challenge_timeout_s''"
definition KeyBbsSysopSessionTimeoutS :: ConfigKey where "KeyBbsSysopSessionTimeoutS = str ''bbs.sysop_session_timeout_s''"
definition KeyBbsSysopLockoutS :: ConfigKey where "KeyBbsSysopLockoutS = str ''bbs.sysop_lockout_s''"
definition KeyBbsSysopMaxAttempts :: ConfigKey where "KeyBbsSysopMaxAttempts = str ''bbs.sysop_max_attempts''"
definition KeyBbsDbPath :: ConfigKey where "KeyBbsDbPath = str ''bbs.db_path''"
definition KeyBbsHost :: ConfigKey where "KeyBbsHost = str ''bbs.host''"
definition KeyBbsPort :: ConfigKey where "KeyBbsPort = str ''bbs.port''"

definition allBBSConfigKeys :: "ConfigKey list" where
  "allBBSConfigKeys =
     [KeyBbsCallsign, KeyBbsGreeting, KeyBbsPrompt,
      KeyBbsSysopName, KeyBbsVersion, KeyBbsMaxMessages,
      KeyBbsMaxBodyLen, KeyBbsSysopSecret, KeyBbsSysopChallengeTimeoutS,
      KeyBbsSysopSessionTimeoutS, KeyBbsSysopLockoutS, KeyBbsSysopMaxAttempts,
      KeyBbsDbPath, KeyBbsHost, KeyBbsPort]"

definition BBSConfigSchema :: "ConfigParam list" where
  "BBSConfigSchema =
     [param KeyBbsCallsign ''N0CALL-2'' ''BBS station callsign'',
      param KeyBbsGreeting ''Welcome to Go AX.25 BBS'' ''Banner text on connect'',
      param KeyBbsPrompt ''BBS> '' ''Command prompt'',
      param KeyBbsSysopName ''SYSOP'' ''Sysop display name'',
      param KeyBbsVersion ''go-ax25-bbs 0.1'' ''Version string'',
      param KeyBbsMaxMessages ''500'' ''Max stored messages'',
      param KeyBbsMaxBodyLen ''102400'' ''Max message body size in bytes'',
      param KeyBbsSysopSecret '''' ''SYSOP challenge-response secret'',
      param KeyBbsSysopChallengeTimeoutS ''300'' ''SYSOP challenge timeout seconds'',
      param KeyBbsSysopSessionTimeoutS ''600'' ''SYSOP session idle timeout seconds'',
      param KeyBbsSysopLockoutS ''900'' ''SYSOP lockout duration seconds'',
      param KeyBbsSysopMaxAttempts ''3'' ''SYSOP max failed attempts before lockout'',
      param KeyBbsDbPath ''bbs.db'' ''SQLite database path'',
      param KeyBbsHost ''localhost'' ''AGWPE server host'',
      param KeyBbsPort ''8000'' ''AGWPE server port'']"
definition LoadBBSConfig :: "'v viper \<Rightarrow> 'v Config \<Rightarrow> BBSConfig outcome" where
  "LoadBBSConfig V c =
     and_then (GetStr V c KeyBbsCallsign) (\<lambda>call.
     and_then (GetStr V c KeyBbsGreeting) (\<lambda>greeting.
     and_then (GetStr V c KeyBbsPrompt) (\<lambda>prompt.
     and_then (GetStr V c KeyBbsSysopName) (\<lambda>name.
     and_then (GetStr V c KeyBbsVersion) (\<lambda>version.
     and_then (GetInt V c KeyBbsMaxMessages) (\<lambda>msgs.
     and_then (GetInt V c KeyBbsMaxBodyLen) (\<lambda>len.
     and_then (GetStr V c KeyBbsSysopSecret) (\<lambda>secret.
     and_then (GetInt V c KeyBbsSysopChallengeTimeoutS) (\<lambda>challenge.
     and_then (GetInt V c KeyBbsSysopSessionTimeoutS) (\<lambda>session.
     and_then (GetInt V c KeyBbsSysopLockoutS) (\<lambda>lockout.
     and_then (GetInt V c KeyBbsSysopMaxAttempts) (\<lambda>attempts.
     and_then (GetStr V c KeyBbsDbPath) (\<lambda>db.
     and_then (GetStr V c KeyBbsHost) (\<lambda>host.
     and_then (GetInt V c KeyBbsPort) (\<lambda>port.
     Ret \<lparr>bbsCallsign = call, Greeting = greeting, Prompt = prompt, SysopName = name, Version = version,
          MaxMessages = msgs, MaxBodyLen = len, SysopSecret = secret, SysopChallengeTimeout = challenge,
          SysopSessionTimeout = session, SysopLockout = lockout, SysopMaxAttempts = attempts, DBPath = db,
          AGWPEHost = host, AGWPEPort = of_int port\<rparr>)))))))))))))))"

end
