(* ===== verification/Ax25_Config_Props.thy ===== *)
theory Ax25_Config_Props
  imports Ax25_Config "HOL-Library.Sublist"
begin

text \<open>
  The properties of the configuration: what viper documents of the calls the code makes, what the
  INI codec puts into the nested map, from which source a key gets its value, that the schemas are
  complete, and what the components get from the defaults.
\<close>

declare str_simps [simp del]

section \<open>Strings\<close>

lemma str_inj [simp]: "str a = str b \<longleftrightarrow> a = b"
proof -
  have "inj (of_char :: char \<Rightarrow> byte)"
  proof (rule injI)
    fix c d :: char
    assume "(of_char c :: byte) = of_char d"
    then have "(of_nat (of_char c) :: byte) = of_nat (of_char d)" by (simp add: of_nat_of_char)
    then have "(of_char c :: nat) mod 256 = of_char d mod 256" by (simp add: word_of_nat_eq_iff take_bit_eq_mod)
    then show "c = d" by (simp add: of_char_mod_256)
  qed
  then show ?thesis by (simp add: str_def inj_map_eq_map)
qed
section \<open>What viper documents\<close>

text \<open>The sources of a value: values set by the program, the environment, the file, the defaults. The file
  is the nested map the codec returns.\<close>

record layers =
  lSet :: "gostring \<rightharpoonup> gostring"
  lConf :: ini_map
  lDefault :: "gostring \<rightharpoonup> gostring"
  lPrefix :: gostring
  lReplace :: "byte \<Rightarrow> byte"
  lAuto :: bool
  lFile :: gostring
  lCodec :: codec

definition no_layers :: "codec \<Rightarrow> layers" where
  "no_layers d = \<lparr>lSet = Map.empty, lConf = [], lDefault = Map.empty, lPrefix = [], lReplace = id, lAuto = False, lFile = [], lCodec = d\<rparr>"

fun ini_get :: "gostring list \<Rightarrow> ini_map \<Rightarrow> ini_value option" where
  "ini_get [] m = None"
| "ini_get [k] m = map_of m k"
| "ini_get (k # ks) m = (case map_of m k of Some (IniMap n) \<Rightarrow> ini_get ks n | _ \<Rightarrow> None)"

abbreviation dotted :: "gostring \<Rightarrow> gostring list" where
  "dotted k \<equiv> strings_Split k 0x2E"

definition is_lower :: "gostring \<Rightarrow> bool" where
  "is_lower k \<longleftrightarrow> is_ascii k \<and> map lower_byte k = k"

fun lower_value :: "ini_value \<Rightarrow> bool" where
  "lower_value (IniString s) = True"
| "lower_value (IniMap m) = list_all (\<lambda>(k, v). is_lower k \<and> lower_value v) m"

definition env_name :: "layers \<Rightarrow> gostring \<Rightarrow> gostring" where
  "env_name L k = map (lReplace L) (map upper_byte (lPrefix L @ str ''_'' @ k))"

text \<open>A variable that is set to the empty string counts as not set.\<close>

definition env_value :: "(gostring \<rightharpoonup> gostring) \<Rightarrow> layers \<Rightarrow> gostring \<Rightarrow> gostring option" where
  "env_value env L k = (if lAuto L \<and> env (env_name L k) \<noteq> Some [] then env (env_name L k) else None)"

definition dot_above :: "gostring \<Rightarrow> gostring \<Rightarrow> bool" where
  "dot_above p k \<longleftrightarrow> (\<exists>r. k = p @ 0x2E # r)"

text \<open>No source has a value for a part of the path to \<open>k\<close>, and \<open>k\<close> is not itself a part of the path to another key.\<close>

definition unshadowed :: "(gostring \<rightharpoonup> gostring) \<Rightarrow> layers \<Rightarrow> gostring \<Rightarrow> bool" where
  "unshadowed env L k \<longleftrightarrow>
     (\<forall>p. dot_above p k \<longrightarrow> p \<notin> dom (lSet L) \<and> p \<notin> dom (lDefault L) \<and> env_value env L p = None
        \<and> (\<forall>x. ini_get (dotted p) (lConf L) \<noteq> Some (IniString x)))
     \<and> (\<forall>q. dot_above k q \<longrightarrow> q \<notin> dom (lSet L) \<and> q \<notin> dom (lDefault L))
     \<and> (\<forall>n. ini_get (dotted k) (lConf L) \<noteq> Some (IniMap n))"

definition viper_value :: "(gostring \<rightharpoonup> gostring) \<Rightarrow> layers \<Rightarrow> gostring \<Rightarrow> gostring" where
  "viper_value env L k =
     (case lSet L k of
        Some x \<Rightarrow> x
      | None \<Rightarrow>
          (case env_value env L k of
             Some x \<Rightarrow> x
           | None \<Rightarrow>
               (case ini_get (dotted k) (lConf L) of
                  Some (IniString x) \<Rightarrow> x
                | _ \<Rightarrow> (case lDefault L k of Some x \<Rightarrow> x | None \<Rightarrow> []))))"

text \<open>\<open>env\<close> is the environment, \<open>files\<close> the file system, and \<open>lay\<close> the sources a viper holds.\<close>

definition viper_documented ::
  "'v viper \<Rightarrow> (gostring \<rightharpoonup> gostring) \<Rightarrow> (gostring \<Rightarrow> goerr + byte list) \<Rightarrow> ('v \<Rightarrow> layers) \<Rightarrow> bool" where
  "viper_documented V env files lay \<longleftrightarrow>
     (\<forall>d. lay (vNew V d) = no_layers d)
   \<and> (\<forall>p v. lay (vSetEnvPrefix V p v) = (lay v)\<lparr>lPrefix := p\<rparr>)
   \<and> (\<forall>a b v. lay (vSetEnvKeyReplacer V a b v) = (lay v)\<lparr>lReplace := (\<lambda>x. if x = a then b else x)\<rparr>)
   \<and> (\<forall>v. lay (vAutomaticEnv V v) = (lay v)\<lparr>lAuto := True\<rparr>)
   \<and> (\<forall>k x v. is_lower k \<longrightarrow> lay (vSetDefault V k x v) = (lay v)\<lparr>lDefault := (lDefault (lay v))(k \<mapsto> x)\<rparr>)
   \<and> (\<forall>k x v. is_lower k \<longrightarrow> lay (vSet V k x v) = (lay v)\<lparr>lSet := (lSet (lay v))(k \<mapsto> x)\<rparr>)
   \<and> (\<forall>f v. lay (vSetConfigFile V f v) = (lay v)\<lparr>lFile := f\<rparr>)
   \<and> (\<forall>t v. lay (vSetConfigType V t v) = lay v)
   \<and> (\<forall>v b m. files (lFile (lay v)) = Inr b \<longrightarrow> lCodec (lay v) b [] = Ret (Inr m) \<longrightarrow> lower_value (IniMap m) \<longrightarrow>
        (\<exists>v'. vReadInConfig V v = Ret (None, v') \<and> lay v' = (lay v)\<lparr>lConf := m\<rparr>))
   \<and> (\<forall>v k. is_lower k \<longrightarrow> unshadowed env (lay v) k \<longrightarrow> vGetString V v k = viper_value env (lay v) k)"

text \<open>The sources themselves are such a viper.\<close>

definition plain_viper :: "(gostring \<rightharpoonup> gostring) \<Rightarrow> (gostring \<Rightarrow> goerr + byte list) \<Rightarrow> layers viper" where
  "plain_viper env files =
     \<lparr>vNew = no_layers, vSetEnvPrefix = (\<lambda>p v. v\<lparr>lPrefix := p\<rparr>),
      vSetEnvKeyReplacer = (\<lambda>a b v. v\<lparr>lReplace := (\<lambda>x. if x = a then b else x)\<rparr>), vAutomaticEnv = (\<lambda>v. v\<lparr>lAuto := True\<rparr>),
      vSetDefault = (\<lambda>k x v. v\<lparr>lDefault := (lDefault v)(k \<mapsto> x)\<rparr>), vSetConfigFile = (\<lambda>f v. v\<lparr>lFile := f\<rparr>),
      vSetConfigType = (\<lambda>t v. v),
      vReadInConfig = (\<lambda>v. case files (lFile v) of
          Inl e \<Rightarrow> Ret (Some e, v)
        | Inr b \<Rightarrow> (case lCodec v b [] of
            Panic \<Rightarrow> Panic | Ret (Inl e) \<Rightarrow> Ret (Some e, v) | Ret (Inr m) \<Rightarrow> Ret (None, v\<lparr>lConf := m\<rparr>))),
      vSet = (\<lambda>k x v. v\<lparr>lSet := (lSet v)(k \<mapsto> x)\<rparr>), vGetString = viper_value env\<rparr>"

lemma plain_viper_documented: "viper_documented (plain_viper env files) env files id"
  by (simp add: viper_documented_def plain_viper_def)

section \<open>Nested maps\<close>

lemma Split_not_Nil [simp]: "strings_Split s c \<noteq> []"
  by (cases s) auto

lemma iniDeepSet_returns: "ks \<noteq> [] \<Longrightarrow> \<exists>m'. iniDeepSet m ks v = Ret m'"
  by (induction m ks v rule: iniDeepSet.induct) (auto split: outcome.splits)

lemma iniDeepSet_get: "iniDeepSet m ks v = Ret m' \<Longrightarrow> ini_get ks m' = Some (IniString v)"
  by (induction m ks v arbitrary: m' rule: iniDeepSet.induct)
    (auto simp: update_conv' split: outcome.splits)

lemma iniDeepSet_get_other:
  "iniDeepSet m ks v = Ret m' \<Longrightarrow> \<not> prefix ks ks' \<Longrightarrow> \<not> prefix ks' ks \<Longrightarrow> ini_get ks' m' = ini_get ks' m"
proof (induction m ks v arbitrary: m' ks' rule: iniDeepSet.induct)
  case (2 m k v)
  then show ?case by (cases "(ks', m)" rule: ini_get.cases) (auto simp: update_conv')
next
  case (3 m k k2 ks v)
  then obtain n where n: "iniDeepSet (next_map m k) (k2 # ks) v = Ret n" "m' = AList.update k (IniMap n) m"
    by (auto split: outcome.splits)
  show ?case
  proof (cases "(ks', m)" rule: ini_get.cases)
    case (3 k' k2' r m2)
    have "ini_get (k2' # r) n = ini_get (k2' # r) (next_map m k)" if "k' = k"
      using "3.IH" [OF n(1), of "k2' # r"] "3.prems"(2,3) 3 that by simp
    moreover have "ini_get (k2' # r) [] = None" by (cases r) simp_all
    ultimately show ?thesis using n(2) 3
      by (auto simp: update_conv' next_map_def split: option.splits ini_value.splits)
  qed (use n(2) "3.prems" in \<open>auto simp: update_conv'\<close>)
qed simp

text \<open>A string in the map was put there by an entry with exactly its path, a nested map by an entry below it.\<close>

lemma iniDeepSet_string:
  "iniDeepSet m ks v = Ret m' \<Longrightarrow> ini_get ks' m' = Some (IniString x) \<Longrightarrow> ks' = ks \<or> ini_get ks' m = Some (IniString x)"
proof (induction m ks v arbitrary: m' ks' rule: iniDeepSet.induct)
  case (2 m k v)
  then show ?case by (cases "(ks', m)" rule: ini_get.cases) (auto simp: update_conv' split: if_splits)
next
  case (3 m k k2 ks v)
  then obtain n where n: "iniDeepSet (next_map m k) (k2 # ks) v = Ret n" "m' = AList.update k (IniMap n) m"
    by (auto split: outcome.splits)
  show ?case
  proof (cases "(ks', m)" rule: ini_get.cases)
    case (3 k' k2' r m2)
    have "k2' # r = k2 # ks \<or> ini_get (k2' # r) (next_map m k) = Some (IniString x)" if "k' = k"
      using "3.IH" [OF n(1), of "k2' # r"] "3.prems"(2) 3 that n(2) by (simp add: update_conv')
    moreover have "ini_get (k2' # r) [] = None" by (cases r) simp_all
    ultimately show ?thesis using n(2) 3 "3.prems"(2)
      by (auto simp: update_conv' next_map_def split: option.splits ini_value.splits if_splits)
  qed (use n(2) "3.prems" in \<open>auto simp: update_conv' split: if_splits\<close>)
qed simp

lemma iniDeepSet_map:
  "iniDeepSet m ks v = Ret m' \<Longrightarrow> ini_get ks' m' = Some (IniMap n) \<Longrightarrow> strict_prefix ks' ks \<or> (\<exists>n. ini_get ks' m = Some (IniMap n))"
proof (induction m ks v arbitrary: m' ks' rule: iniDeepSet.induct)
  case (2 m k v)
  then show ?case by (cases "(ks', m)" rule: ini_get.cases) (auto simp: update_conv' split: if_splits)
next
  case (3 m k k2 ks v)
  then obtain n' where n: "iniDeepSet (next_map m k) (k2 # ks) v = Ret n'" "m' = AList.update k (IniMap n') m"
    by (auto split: outcome.splits)
  show ?case
  proof (cases "(ks', m)" rule: ini_get.cases)
    case (3 k' k2' r m2)
    have "strict_prefix (k2' # r) (k2 # ks) \<or> (\<exists>n. ini_get (k2' # r) (next_map m k) = Some (IniMap n))" if "k' = k"
      using "3.IH" [OF n(1), of "k2' # r"] "3.prems"(2) 3 that n(2) by (simp add: update_conv')
    moreover have "ini_get (k2' # r) [] = None" by (cases r) simp_all
    ultimately show ?thesis using n(2) 3 "3.prems"(2)
      by (auto simp: update_conv' next_map_def split: option.splits ini_value.splits if_splits)
  qed (use n(2) "3.prems" in \<open>auto simp: update_conv' split: if_splits\<close>)
qed simp

lemma lower_update: "list_all P m \<Longrightarrow> P (k, v) \<Longrightarrow> list_all P (AList.update k v m)"
  by (induction m) auto

lemma iniDeepSet_lower:
  "iniDeepSet m ks v = Ret m' \<Longrightarrow> lower_value (IniMap m) \<Longrightarrow> list_all is_lower ks \<Longrightarrow> lower_value (IniMap m')"
proof (induction m ks v arbitrary: m' rule: iniDeepSet.induct)
  case (3 m k k2 ks v)
  then obtain n where n: "iniDeepSet (next_map m k) (k2 # ks) v = Ret n" "m' = AList.update k (IniMap n) m"
    by (auto split: outcome.splits)
  have "lower_value (IniMap (next_map m k))"
  proof (cases "map_of m k")
    case (Some x)
    then have "lower_value x" using "3.prems"(2) by (auto simp: list_all_iff dest: map_of_SomeD)
    then show ?thesis using Some by (cases x) (auto simp: next_map_def)
  qed (simp add: next_map_def)
  then have "lower_value (IniMap n)" using "3.IH" [OF n(1)] "3.prems"(3) by simp
  then show ?case using n(2) "3.prems" by (auto intro!: lower_update)
qed (auto intro!: lower_update)

section \<open>The entries of a file\<close>

definition file_entries :: "ini_file \<Rightarrow> (gostring \<times> gostring) list" where
  "file_entries f = concat (map (\<lambda>(sec, ks). map (\<lambda>(k, v). (full_key sec k, v)) ks) f)"

fun set_all :: "(gostring \<times> gostring) list \<Rightarrow> ini_map \<Rightarrow> ini_map outcome" where
  "set_all [] m = Ret m"
| "set_all ((k, v) # es) m = (case iniDeepSet m (dotted k) v of Panic \<Rightarrow> Panic | Ret m \<Rightarrow> set_all es m)"

lemma set_all_append: "set_all (xs @ ys) m = (case set_all xs m of Panic \<Rightarrow> Panic | Ret m \<Rightarrow> set_all ys m)"
  by (induction xs m rule: set_all.induct) (auto split: outcome.splits)

lemma set_keys_all: "set_keys sec ks m = set_all (map (\<lambda>(k, v). (full_key sec k, v)) ks) m"
  by (induction sec ks m rule: set_keys.induct) (auto split: outcome.splits)

lemma set_sections_all: "set_sections f m = set_all (file_entries f) m"
  by (induction f m rule: set_sections.induct)
    (auto simp: file_entries_def set_keys_all set_all_append split: outcome.splits)

lemma set_all_returns: "\<exists>m'. set_all es m = Ret m'"
proof (induction es m rule: set_all.induct)
  case (2 k v es m)
  then show ?case using iniDeepSet_returns [of "dotted k" m v] by auto
qed simp

lemma Join_Split: "strings_Join (strings_Split s c) [c] = s"
proof (induction s)
  case (Cons b s)
  then show ?case by (cases "strings_Split s c"; cases "tl (strings_Split s c)") auto
qed simp

lemma Join_append: "xs \<noteq> [] \<Longrightarrow> ys \<noteq> [] \<Longrightarrow> strings_Join (xs @ ys) sep = strings_Join xs sep @ sep @ strings_Join ys sep"
proof (induction xs rule: list_nonempty_induct)
  case (single x)
  then show ?case by (cases ys) auto
next
  case (cons x xs)
  then show ?case by (cases xs) auto
qed

lemma Split_inj: "strings_Split s c = strings_Split t c \<longleftrightarrow> s = t"
  by (metis Join_Split)

lemma dotted_prefix: "strict_prefix (dotted p) (dotted q) \<Longrightarrow> dot_above p q"
proof -
  assume "strict_prefix (dotted p) (dotted q)"
  then obtain z zs where "dotted q = dotted p @ (z # zs)" by (auto elim: strict_prefixE')
  then have "q = p @ [0x2E] @ strings_Join (z # zs) [0x2E]"
    using Join_append [of "dotted p" "z # zs" "[0x2E]"] Join_Split [of q "0x2E"] Join_Split [of p "0x2E"] by simp
  then show "dot_above p q" by (auto simp: dot_above_def)
qed

lemma set_all_get:
  "set_all es m = Ret m' \<Longrightarrow> \<forall>(q, x) \<in> set es. \<not> dot_above q k \<and> \<not> dot_above k q \<Longrightarrow>
     ini_get (dotted k) m' = (case map_of (rev es) k of Some x \<Rightarrow> Some (IniString x) | None \<Rightarrow> ini_get (dotted k) m)"
proof (induction es m rule: set_all.induct)
  case (2 q v es m)
  then obtain m1 where m1: "iniDeepSet m (dotted q) v = Ret m1" "set_all es m1 = Ret m'" by (auto split: outcome.splits)
  have "ini_get (dotted k) m1 = (if q = k then Some (IniString v) else ini_get (dotted k) m)"
  proof (cases "q = k")
    case False
    then have "\<not> prefix (dotted q) (dotted k)" "\<not> prefix (dotted k) (dotted q)"
      using 2(3) dotted_prefix [of q k] dotted_prefix [of k q] by (auto simp: strict_prefix_def Split_inj)
    then show ?thesis using False iniDeepSet_get_other [OF m1(1)] by simp
  qed (use iniDeepSet_get [OF m1(1)] in simp)
  then show ?case using 2(1) [OF m1] 2(3) by (auto simp: map_add_def split: option.splits)
qed simp

lemma set_all_string:
  "set_all es m = Ret m' \<Longrightarrow> ini_get (dotted p) m' = Some (IniString x) \<Longrightarrow> p \<in> fst ` set es \<or> ini_get (dotted p) m = Some (IniString x)"
proof (induction es m rule: set_all.induct)
  case (2 q v es m)
  then obtain m1 where m1: "iniDeepSet m (dotted q) v = Ret m1" "set_all es m1 = Ret m'" by (auto split: outcome.splits)
  then show ?case using 2(1) [OF m1] 2(3) iniDeepSet_string [OF m1(1), of "dotted p" x] by (auto simp: Split_inj)
qed simp

lemma is_lower_bytes: "is_lower k \<longleftrightarrow> (\<forall>b \<in> set k. b < 0x80 \<and> lower_byte b = b)"
proof -
  have "map lower_byte k = k \<longleftrightarrow> (\<forall>b \<in> set k. lower_byte b = b)" by (induction k) auto
  then show ?thesis by (auto simp: is_lower_def is_ascii_def list_all_iff)
qed

lemma Split_bytes: "t \<in> set (strings_Split s c) \<Longrightarrow> set t \<subseteq> set s"
proof (induction s arbitrary: t)
  case (Cons b s)
  show ?case
    using Cons.IH [of "hd (strings_Split s c)"] Cons.IH [of t] Cons.prems
    by (cases "strings_Split s c") (auto split: if_splits)
qed simp

lemma set_all_lower:
  "set_all es m = Ret m' \<Longrightarrow> lower_value (IniMap m) \<Longrightarrow> \<forall>(q, x) \<in> set es. is_lower q \<Longrightarrow> lower_value (IniMap m')"
proof (induction es m rule: set_all.induct)
  case (2 q v es m)
  then obtain m1 where m1: "iniDeepSet m (dotted q) v = Ret m1" "set_all es m1 = Ret m'" by (auto split: outcome.splits)
  have "list_all is_lower (dotted q)" using 2(4) by (fastforce simp: is_lower_bytes list_all_iff dest!: Split_bytes)
  then show ?case using 2(1) [OF m1] iniDeepSet_lower [OF m1(1)] 2(3,4) by simp
qed simp

section \<open>Values\<close>

lemma set_defaults:
  assumes "viper_documented V env files lay" and "\<forall>p \<in> set ps. is_lower (Key p)"
  shows "lay (fold (\<lambda>p. vSetDefault V (Key p) (DefaultValue p)) ps v)
    = (lay v)\<lparr>lDefault := lDefault (lay v) ++ map_of (rev (map (\<lambda>p. (Key p, DefaultValue p)) ps))\<rparr>"
  using assms(2)
proof (induction ps arbitrary: v)
  case (Cons p ps)
  have "lay (vSetDefault V (Key p) (DefaultValue p) v) = (lay v)\<lparr>lDefault := (lDefault (lay v))(Key p \<mapsto> DefaultValue p)\<rparr>"
    using assms(1) Cons.prems by (simp add: viper_documented_def)
  then show ?case using Cons by (simp add: map_add_def fun_eq_iff split: option.splits)
qed simp

definition schema_defaults :: "ConfigParam list \<Rightarrow> gostring \<rightharpoonup> gostring" where
  "schema_defaults extra = map_of (rev (map (\<lambda>p. (Key p, DefaultValue p)) (DefaultSchema @ extra)))"

definition env_var :: "gostring \<Rightarrow> gostring" where
  "env_var k = map (\<lambda>x. if x = 0x2E then 0x5F else x) (map upper_byte (str ''GOAX25'' @ str ''_'' @ k))"

definition config_layers :: "(byte list \<Rightarrow> goerr + ini_file) \<Rightarrow> ConfigParam list \<Rightarrow> layers" where
  "config_layers load extra = (no_layers (iniCodec_Decode load))\<lparr>lPrefix := str ''GOAX25'',
     lReplace := (\<lambda>x. if x = 0x2E then 0x5F else x), lAuto := True, lDefault := schema_defaults extra\<rparr>"

definition schema_ok :: "ConfigParam list \<Rightarrow> bool" where
  "schema_ok extra \<longleftrightarrow> (\<forall>p \<in> set (DefaultSchema @ extra). is_lower (Key p))
     \<and> (\<forall>p \<in> set (DefaultSchema @ extra). \<forall>q \<in> set (DefaultSchema @ extra). \<not> dot_above (Key p) (Key q))"

lemma NewConfig_layers:
  assumes "viper_documented V env files lay" and "schema_ok extra"
  shows "lay (cfgV (NewConfig V load extra)) = config_layers load extra"
    and "knownKeys (NewConfig V load extra) = Key ` set (DefaultSchema @ extra)"
proof -
  let ?v = "vAutomaticEnv V (vSetEnvKeyReplacer V 0x2E 0x5F (vSetEnvPrefix V (str ''GOAX25'') (vNew V (iniCodec_Decode load))))"
  have "lay ?v = (no_layers (iniCodec_Decode load))\<lparr>lPrefix := str ''GOAX25'', lReplace := (\<lambda>x. if x = 0x2E then 0x5F else x), lAuto := True\<rparr>"
    using assms(1) by (simp add: viper_documented_def)
  then show "lay (cfgV (NewConfig V load extra)) = config_layers load extra"
    using set_defaults [OF assms(1), of "DefaultSchema @ extra" ?v] assms(2)
    by (simp add: NewConfig_def Let_def config_layers_def schema_ok_def no_layers_def schema_defaults_def del: fold_append)
qed (simp add: NewConfig_def Let_def image_Un)

text \<open>The value of a key of the schema, with what the program has set and what the file holds.\<close>

definition config_value ::
  "(gostring \<rightharpoonup> gostring) \<Rightarrow> (gostring \<times> gostring) list \<Rightarrow> ConfigParam list \<Rightarrow> gostring \<Rightarrow> gostring" where
  "config_value env es extra k =
     (if env (env_var k) \<noteq> None \<and> env (env_var k) \<noteq> Some [] then the (env (env_var k))
      else case map_of (rev es) k of Some x \<Rightarrow> x | None \<Rightarrow> the (schema_defaults extra k))"

lemma env_value_config: "lPrefix L = str ''GOAX25'' \<Longrightarrow> lReplace L = (\<lambda>x. if x = 0x2E then 0x5F else x) \<Longrightarrow> lAuto L \<Longrightarrow>
    env_value env L k = (if env (env_var k) \<noteq> Some [] then env (env_var k) else None)"
  by (simp add: env_value_def env_name_def env_var_def)

lemma schema_defaults_dom: "dom (schema_defaults extra) = Key ` set (DefaultSchema @ extra)"
  unfolding schema_defaults_def dom_map_of_conv_image_fst by (simp add: image_image image_Un Un_commute)

lemma ini_get_Nil [simp]: "ini_get ks [] = None"
  by (induction ks "[] :: ini_map" rule: ini_get.induct) auto

lemma layers_value:
  assumes "viper_documented V env files lay" and "schema_ok extra" and "k \<in> Key ` set (DefaultSchema @ extra)"
    and "lay v = (config_layers load extra)\<lparr>lSet := s, lFile := f, lConf := m\<rparr>" and "set_all es [] = Ret m"
    and "\<forall>(q, x) \<in> set es. \<not> dot_above q k \<and> \<not> dot_above k q" and "\<forall>q \<in> dom s. \<not> dot_above q k \<and> \<not> dot_above k q"
    and "\<forall>p. dot_above p k \<longrightarrow> env (env_var p) = None"
  shows "vGetString V v k = (case s k of Some x \<Rightarrow> x | None \<Rightarrow> config_value env es extra k)"
proof -
  have g: "ini_get (dotted k) m = (case map_of (rev es) k of Some x \<Rightarrow> Some (IniString x) | None \<Rightarrow> None)"
    using set_all_get [OF assms(5,6)] by (simp cong: option.case_cong)
  have e: "env_value env (lay v) p = (if env (env_var p) \<noteq> Some [] then env (env_var p) else None)" for p
    using assms(4) by (intro env_value_config) (simp_all add: config_layers_def)
  have str: "ini_get (dotted p) m \<noteq> Some (IniString x)" if "dot_above p k" for p x
  proof
    assume "ini_get (dotted p) m = Some (IniString x)"
    then have "p \<in> fst ` set es" using set_all_string [OF assms(5)] by fastforce
    then show False using assms(6) that by auto
  qed
  have d: "lDefault (lay v) = schema_defaults extra" "lSet (lay v) = s" "lConf (lay v) = m"
    using assms(4) by (simp_all add: config_layers_def)
  have "unshadowed env (lay v) k"
    using assms(2,3,6,7,8) g str
    by (auto simp: unshadowed_def e d schema_defaults_dom schema_ok_def split: option.splits simp del: set_append)
  moreover have "is_lower k" using assms(2,3) by (auto simp: schema_ok_def)
  ultimately have "vGetString V v k = viper_value env (lay v) k" using assms(1) by (simp add: viper_documented_def)
  moreover have "\<exists>x. schema_defaults extra k = Some x" using assms(3) schema_defaults_dom [of extra] by (metis domD)
  ultimately show ?thesis using g
    by (auto simp: viper_value_def d e config_value_def split: option.splits)
qed

lemma LoadINI_layers:
  assumes "viper_documented V env files lay" and "stat fname = StatOk" and "files fname = Inr b"
    and "load b = Inr f" and "lCodec (lay (cfgV c)) = iniCodec_Decode load" and "\<forall>(q, x) \<in> set (file_entries f). is_lower q"
  shows "\<exists>m v. set_all (file_entries f) [] = Ret m \<and> LoadINI V stat fname c = Ret (None, c\<lparr>cfgV := v\<rparr>)
    \<and> lay v = (lay (cfgV c))\<lparr>lFile := fname, lConf := m\<rparr>"
proof -
  let ?v = "vSetConfigType V (str ''ini'') (vSetConfigFile V fname (cfgV c))"
  obtain m where m: "set_all (file_entries f) [] = Ret m" using set_all_returns by blast
  have l: "lay ?v = (lay (cfgV c))\<lparr>lFile := fname\<rparr>" using assms(1) by (simp add: viper_documented_def)
  have "iniCodec_Decode load b [] = Ret (Inr m)" using m assms(4) by (simp add: iniCodec_Decode_def set_sections_all)
  moreover have "lower_value (IniMap m)" using set_all_lower [OF m] assms(6) by simp
  moreover have r: "files (lFile (lay v)) = Inr b \<Longrightarrow> lCodec (lay v) b [] = Ret (Inr m) \<Longrightarrow> lower_value (IniMap m) \<Longrightarrow>
        \<exists>v'. vReadInConfig V v = Ret (None, v') \<and> lay v' = (lay v)\<lparr>lConf := m\<rparr>" for v
    using assms(1) by (simp add: viper_documented_def)
  ultimately obtain v where "vReadInConfig V ?v = Ret (None, v)" "lay v = (lay ?v)\<lparr>lConf := m\<rparr>"
    using r [of ?v] l assms(3,5) by auto
  then show ?thesis using m l assms(2) by (intro exI [of _ m] exI [of _ v]) (simp add: LoadINI_def)
qed

lemma loaded_value:
  assumes "viper_documented V env files lay" and "schema_ok extra" and "k \<in> Key ` set (DefaultSchema @ extra)"
    and "stat fname = StatOk" and "files fname = Inr b" and "load b = Inr f"
    and "\<forall>(q, x) \<in> set (file_entries f). is_lower q \<and> \<not> dot_above q k \<and> \<not> dot_above k q"
    and "\<forall>p. dot_above p k \<longrightarrow> env (env_var p) = None"
    and "lay (cfgV c) = (config_layers load extra)\<lparr>lSet := s\<rparr>" and "knownKeys c = Key ` set (DefaultSchema @ extra)"
    and "\<forall>q \<in> dom s. \<not> dot_above q k \<and> \<not> dot_above k q"
  shows "\<exists>c'. LoadINI V stat fname c = Ret (None, c')
    \<and> Config_Get V c' k = Ret (case s k of Some x \<Rightarrow> x | None \<Rightarrow> config_value env (file_entries f) extra k)"
proof -
  have f: "\<forall>(q, x) \<in> set (file_entries f). is_lower q" "\<forall>(q, x) \<in> set (file_entries f). \<not> dot_above q k \<and> \<not> dot_above k q"
    using assms(7) by auto
  have codec: "lCodec (lay (cfgV c)) = iniCodec_Decode load" by (simp add: assms(9) config_layers_def no_layers_def)
  obtain m v where m: "set_all (file_entries f) [] = Ret m" "LoadINI V stat fname c = Ret (None, c\<lparr>cfgV := v\<rparr>)"
    "lay v = (lay (cfgV c))\<lparr>lFile := fname, lConf := m\<rparr>"
    using LoadINI_layers [where lay = lay and c = c and files = files and stat = stat and fname = fname, OF assms(1,4-6) codec f(1)] by blast
  have "lay v = (config_layers load extra)\<lparr>lSet := s, lFile := fname, lConf := m\<rparr>"
    by (simp add: m(3) assms(9) config_layers_def no_layers_def)
  from layers_value [OF assms(1-3) this m(1) f(2) assms(11,8)] m(2) assms(3,10) show ?thesis
    by (auto simp: Config_Get_def)
qed

text \<open>C24: Sources of the configuration. Let the program load an INI file that exists and can be read, with keys in
  lower case. Then every key of the schema has the value of its environment variable \<open>GOAX25_...\<close>
  if that is set, else the last value the file gives it, in a section named by the first parts of the
  key or, in full, outside the sections, else the default of the schema, provided that no source has
  a value for a part of the key's path and the file has none below it.\<close>

theorem config_sources:
  assumes "viper_documented V env files lay" and "schema_ok extra" and "k \<in> Key ` set (DefaultSchema @ extra)"
    and "stat fname = StatOk" and "files fname = Inr b" and "load b = Inr f"
    and "\<forall>(q, x) \<in> set (file_entries f). is_lower q \<and> \<not> dot_above q k \<and> \<not> dot_above k q"
    and "\<forall>p. dot_above p k \<longrightarrow> env (env_var p) = None"
  shows "\<exists>c. LoadINI V stat fname (NewConfig V load extra) = Ret (None, c)
    \<and> Config_Get V c k = Ret (config_value env (file_entries f) extra k)"
proof -
  have "lay (cfgV (NewConfig V load extra)) = (config_layers load extra)\<lparr>lSet := Map.empty\<rparr>"
    using NewConfig_layers(1) [OF assms(1,2), of load] by (simp add: config_layers_def no_layers_def)
  from loaded_value [where stat = stat and fname = fname, OF assms this NewConfig_layers(2) [OF assms(1,2)]] show ?thesis by simp
qed

text \<open>A value the program sets wins over every other source. The router program sets \<open>kiss.serial.baud\<close> before it
  loads the file, as a default of its own; whatever the file and the environment say, the value stays.\<close>

theorem set_value_stays:
  assumes "viper_documented V env files lay" and "schema_ok extra" and "k \<in> Key ` set (DefaultSchema @ extra)"
    and "stat fname = StatOk" and "files fname = Inr b" and "load b = Inr f"
    and "\<forall>(q, x) \<in> set (file_entries f). is_lower q \<and> \<not> dot_above q k \<and> \<not> dot_above k q"
    and "\<forall>p. dot_above p k \<longrightarrow> env (env_var p) = None"
  shows "\<exists>c. LoadINI V stat fname (Config_Set V k x (NewConfig V load extra)) = Ret (None, c) \<and> Config_Get V c k = Ret x"
proof -
  let ?c = "Config_Set V k x (NewConfig V load extra)"
  have "is_lower k" using assms(2,3) by (auto simp: schema_ok_def)
  then have l: "lay (cfgV ?c) = (config_layers load extra)\<lparr>lSet := [k \<mapsto> x]\<rparr>" "knownKeys ?c = Key ` set (DefaultSchema @ extra)"
    using NewConfig_layers [OF assms(1,2), of load] assms(1)
    by (simp_all add: Config_Set_def viper_documented_def config_layers_def no_layers_def)
  have "\<forall>q \<in> dom [k \<mapsto> x]. \<not> dot_above q k \<and> \<not> dot_above k q" by (auto simp: dot_above_def)
  from loaded_value [where stat = stat and fname = fname, OF assms l this] show ?thesis by simp
qed

section \<open>The schemas\<close>

lemmas core_key_defs =
  KeyAgwpeClientHost_def KeyAgwpeClientPort_def KeyAgwpeClientReadBuf_def KeyAgwpeClientTxQueueDepth_def
  KeyAgwpeServerAddr_def KeyAgwpeServerEnabled_def KeyAgwpeServerMaxClients_def KeyAgwpeServerMaxConns_def
  KeyAgwpeServerReadBuf_def KeyAgwpeServerTxQueueDepth_def KeyBeaconDestination_def KeyBeaconAddr_def
  KeyBeaconEvery_def KeyBeaconSource_def KeyBeaconText_def KeyBeaconVia_def
  KeyConnN2Retries_def KeyConnT1Ms_def KeyConnT2Ms_def KeyConnT3Ms_def
  KeyConnWindowSize_def KeyDigiCallsign_def KeyKissClientEnabled_def KeyKissClientHost_def
  KeyKissClientLogFrames_def KeyKissClientPort_def KeyKissClientReadBuf_def KeyKissClientTxQueueDepth_def
  KeyKissSerialEnabled_def KeyKissSerialBaud_def KeyKissSerialDevice_def KeyKissSerialLogFrames_def
  KeyKissSerialReadBuf_def KeyKissSerialRxQueueDepth_def KeyKissSerialTxQueueDepth_def KeyKissServerAddr_def
  KeyKissServerEnabled_def KeyKissServerLogFrames_def KeyKissServerMaxClients_def KeyKissServerPromiscuous_def
  KeyKissServerReadBuf_def KeyKissServerTxQueueDepth_def KeyMonitorEnabled_def KeyMonitorPrefix_def
  KeyMonitorType_def KeyRouterMode_def KeyRouterPortQueueDepth_def KeyTerminalCallsign_def

lemmas bbs_key_defs =
  KeyBbsCallsign_def KeyBbsGreeting_def KeyBbsPrompt_def KeyBbsSysopName_def
  KeyBbsVersion_def KeyBbsMaxMessages_def KeyBbsMaxBodyLen_def KeyBbsSysopSecret_def
  KeyBbsSysopChallengeTimeoutS_def KeyBbsSysopSessionTimeoutS_def KeyBbsSysopLockoutS_def KeyBbsSysopMaxAttempts_def
  KeyBbsDbPath_def KeyBbsHost_def KeyBbsPort_def

text \<open>The keys of the two schemas as plain strings, on which their properties are computed.\<close>

definition core_names :: "string list" where
  "core_names =
     [''terminal.callsign'', ''beacon.source'', ''beacon.destination'', ''beacon.addr'',
      ''beacon.via'', ''beacon.text'', ''beacon.every'', ''digi.callsign'',
      ''conn.t1_ms'', ''conn.t2_ms'', ''conn.t3_ms'', ''conn.n2_retries'',
      ''conn.window_size'', ''router.mode'', ''router.port_queue_depth'', ''agwpe.client.host'',
      ''agwpe.client.port'', ''agwpe.client.read_buf'', ''agwpe.client.tx_queue_depth'', ''agwpe.server.enabled'',
      ''agwpe.server.addr'', ''agwpe.server.max_clients'', ''agwpe.server.read_buf'', ''agwpe.server.tx_queue_depth'',
      ''agwpe.server.max_conns'', ''kiss.serial.enabled'', ''kiss.serial.device'', ''kiss.serial.baud'',
      ''kiss.serial.log_frames'', ''kiss.serial.read_buf'', ''kiss.serial.rx_queue_depth'', ''kiss.serial.tx_queue_depth'',
      ''kiss.client.enabled'', ''kiss.client.host'', ''kiss.client.log_frames'', ''kiss.client.port'',
      ''kiss.client.read_buf'', ''kiss.client.tx_queue_depth'', ''kiss.server.addr'', ''kiss.server.enabled'',
      ''kiss.server.log_frames'', ''kiss.server.max_clients'', ''kiss.server.promiscuous'', ''kiss.server.read_buf'',
      ''kiss.server.tx_queue_depth'', ''monitor.enabled'', ''monitor.prefix'', ''monitor.type'']"

definition bbs_names :: "string list" where
  "bbs_names =
     [''bbs.callsign'', ''bbs.greeting'', ''bbs.prompt'', ''bbs.sysop_name'',
      ''bbs.version'', ''bbs.max_messages'', ''bbs.max_body_len'', ''bbs.sysop_secret'',
      ''bbs.sysop_challenge_timeout_s'', ''bbs.sysop_session_timeout_s'', ''bbs.sysop_lockout_s'', ''bbs.sysop_max_attempts'',
      ''bbs.db_path'', ''bbs.host'', ''bbs.port'']"

lemma schema_keys: "map Key DefaultSchema = map str core_names" "map Key BBSConfigSchema = map str bbs_names"
  by (simp_all only: DefaultSchema_def BBSConfigSchema_def core_names_def bbs_names_def core_key_defs bbs_key_defs list.map ConfigParam.simps)

lemma names_ok:
  "distinct (core_names @ bbs_names)"
  "list_all (\<lambda>p. list_all (\<lambda>q. \<not> prefix (p @ ''.'') q) (core_names @ bbs_names)) (core_names @ bbs_names)"
  by code_simp+

definition lower_char :: "char \<Rightarrow> bool" where
  "lower_char c \<longleftrightarrow> (let n = of_char c :: nat in n < 65 \<or> 90 < n \<and> n < 128)"

lemma names_lower: "list_all (list_all lower_char) (core_names @ bbs_names)"
  by code_simp

lemma str_lower: "list_all lower_char s \<Longrightarrow> is_lower (str s)"
proof -
  have "b < 0x80 \<and> lower_byte b = b" if "b = of_char c" "lower_char c" for b :: byte and c
  proof -
    have "b = of_nat (of_char c)" using that(1) by (simp add: of_nat_of_char)
    then have "unat b = of_char c" by (simp add: unat_of_nat of_char_mod_256)
    then show ?thesis using that(2) by (auto simp: lower_char_def lower_byte_def word_less_nat_alt word_le_nat_alt Let_def)
  qed
  then show "list_all lower_char s \<Longrightarrow> is_lower (str s)" by (auto simp: is_lower_bytes str_def list_all_iff)
qed

lemma str_append: "str (a @ b) = str a @ str b"
  by (simp add: str_def)

lemma above_str: "dot_above (str p) (str q) \<Longrightarrow> prefix (p @ ''.'') q"
proof -
  assume "dot_above (str p) (str q)"
  then obtain r where r: "str q = (str p @ [0x2E]) @ r" by (auto simp: dot_above_def)
  have "str (take (Suc (length p)) q) = take (Suc (length p)) (str q)" by (simp add: str_def take_map)
  also have "\<dots> = str p @ [0x2E]" unfolding r by (simp add: str_def)
  also have "\<dots> = str (p @ ''.'')" by (simp add: str_append str_simps)
  finally show "prefix (p @ ''.'') q" by (metis str_inj take_is_prefix)
qed

lemma schema_ok_names:
  assumes "set (map Key (DefaultSchema @ extra)) \<subseteq> set (map str (core_names @ bbs_names))"
  shows "schema_ok extra"
proof -
  have k: "\<exists>s \<in> set (core_names @ bbs_names). Key p = str s" if "p \<in> set (DefaultSchema @ extra)" for p
    using assms that by fastforce
  show ?thesis unfolding schema_ok_def
  proof (intro conjI ballI)
    fix p assume p: "p \<in> set (DefaultSchema @ extra)"
    show "is_lower (Key p)" using k [OF p] names_lower str_lower unfolding list_all_iff [of _ "core_names @ bbs_names"] by metis
    fix q assume q: "q \<in> set (DefaultSchema @ extra)"
    show "\<not> dot_above (Key p) (Key q)" using k [OF p] k [OF q] names_ok(2) above_str unfolding list_all_iff by metis
  qed
qed

text \<open>Both schemas the programs use are as the theorems above need them.\<close>

lemma schemas_ok: "schema_ok []" "schema_ok BBSConfigSchema"
  by (intro schema_ok_names; auto simp: schema_keys)+

text \<open>The schema is complete. Every key constant of package ax25 has exactly one entry in the default schema
  and the schema has no other keys; the same holds for the keys and the schema of the BBS, and the two do not overlap.\<close>

theorem schema_complete:
  "set (map Key DefaultSchema) = AllSchemaKeys \<and> set (map Key BBSConfigSchema) = set allBBSConfigKeys
   \<and> distinct (map Key (DefaultSchema @ BBSConfigSchema)) \<and> distinct allConfigKeys"
proof -
  have "set allConfigKeys = set (map str core_names)"
    unfolding allConfigKeys_def core_names_def core_key_defs list.map list.set by blast
  moreover have "allBBSConfigKeys = map str bbs_names"
    by (simp only: allBBSConfigKeys_def bbs_names_def bbs_key_defs list.map)
  moreover have "distinct (map str (core_names @ bbs_names))"
    using names_ok(1) by (simp add: distinct_map inj_on_def del: distinct_append map_append)
  moreover have "length allConfigKeys = length (map str core_names)" by (simp add: allConfigKeys_def core_names_def)
  moreover have "distinct (map str core_names)" using calculation(3) by simp
  ultimately show ?thesis
    by (metis AllSchemaKeys_def card_distinct distinct_card map_append schema_keys)
qed

text \<open>The defaults as pairs.\<close>

lemma schema_pairs:
  "map (\<lambda>p. (Key p, DefaultValue p)) (DefaultSchema @ BBSConfigSchema) =
     [(KeyTerminalCallsign, str ''N0CALL''), (KeyBeaconSource, str ''''),
      (KeyBeaconDestination, str ''BEACON''), (KeyBeaconAddr, str ''''),
      (KeyBeaconVia, str ''''), (KeyBeaconText, str ''go-ax25''),
      (KeyBeaconEvery, str ''0''), (KeyDigiCallsign, str ''''),
      (KeyConnT1Ms, str ''10000''), (KeyConnT2Ms, str ''1000''),
      (KeyConnT3Ms, str ''180000''), (KeyConnN2Retries, str ''10''),
      (KeyConnWindowSize, str ''4''), (KeyRouterMode, str ''switch''),
      (KeyRouterPortQueueDepth, str ''32''), (KeyAgwpeClientHost, str ''localhost''),
      (KeyAgwpeClientPort, str ''8000''), (KeyAgwpeClientReadBuf, str ''4132''),
      (KeyAgwpeClientTxQueueDepth, str ''8''), (KeyAgwpeServerEnabled, str ''true''),
      (KeyAgwpeServerAddr, str '':8000''), (KeyAgwpeServerMaxClients, str ''16''),
      (KeyAgwpeServerReadBuf, str ''4132''), (KeyAgwpeServerTxQueueDepth, str ''64''),
      (KeyAgwpeServerMaxConns, str ''4''), (KeyKissSerialEnabled, str ''false''),
      (KeyKissSerialDevice, str ''/dev/ttyUSB0''), (KeyKissSerialBaud, str ''9600''),
      (KeyKissSerialLogFrames, str ''false''), (KeyKissSerialReadBuf, str ''1024''),
      (KeyKissSerialRxQueueDepth, str ''64''), (KeyKissSerialTxQueueDepth, str ''32''),
      (KeyKissClientEnabled, str ''false''), (KeyKissClientHost, str ''localhost''),
      (KeyKissClientLogFrames, str ''false''), (KeyKissClientPort, str ''8100''),
      (KeyKissClientReadBuf, str ''4096''), (KeyKissClientTxQueueDepth, str ''8''),
      (KeyKissServerAddr, str '':8100''), (KeyKissServerEnabled, str ''true''),
      (KeyKissServerLogFrames, str ''false''), (KeyKissServerMaxClients, str ''16''),
      (KeyKissServerPromiscuous, str ''false''), (KeyKissServerReadBuf, str ''4096''),
      (KeyKissServerTxQueueDepth, str ''8''), (KeyMonitorEnabled, str ''false''),
      (KeyMonitorPrefix, str ''monitor''), (KeyMonitorType, str ''ax25''),
      (KeyBbsCallsign, str ''N0CALL-2''), (KeyBbsGreeting, str ''Welcome to Go AX.25 BBS''),
      (KeyBbsPrompt, str ''BBS> ''), (KeyBbsSysopName, str ''SYSOP''),
      (KeyBbsVersion, str ''go-ax25-bbs 0.1''), (KeyBbsMaxMessages, str ''500''),
      (KeyBbsMaxBodyLen, str ''102400''), (KeyBbsSysopSecret, str ''''),
      (KeyBbsSysopChallengeTimeoutS, str ''300''), (KeyBbsSysopSessionTimeoutS, str ''600''),
      (KeyBbsSysopLockoutS, str ''900''), (KeyBbsSysopMaxAttempts, str ''3''),
      (KeyBbsDbPath, str ''bbs.db''), (KeyBbsHost, str ''localhost''),
      (KeyBbsPort, str ''8000'')]"
  by (simp add: DefaultSchema_def BBSConfigSchema_def)

lemma distinct_keys: "distinct (map Key (DefaultSchema @ BBSConfigSchema))"
proof -
  have "map Key (DefaultSchema @ BBSConfigSchema) = map str (core_names @ bbs_names)" by (simp add: schema_keys)
  then show ?thesis using names_ok(1) by (simp add: distinct_map inj_on_def del: distinct_append map_append)
qed

lemma default_value:
  assumes "viper_documented V env files lay" and "\<forall>k. env (env_var k) = None"
    and "(k, d) \<in> set (map (\<lambda>p. (Key p, DefaultValue p)) (DefaultSchema @ BBSConfigSchema))"
  shows "Config_Get V (NewConfig V load BBSConfigSchema) k = Ret d"
proof -
  let ?c = "NewConfig V load BBSConfigSchema" and ?ps = "map (\<lambda>p. (Key p, DefaultValue p)) (DefaultSchema @ BBSConfigSchema)"
  have k: "k \<in> Key ` set (DefaultSchema @ BBSConfigSchema)" using assms(3) by auto
  have l: "lay (cfgV ?c) = (config_layers load BBSConfigSchema)\<lparr>lSet := Map.empty, lFile := [], lConf := []\<rparr>"
    using NewConfig_layers(1) [OF assms(1) schemas_ok(2), of load] by (simp add: config_layers_def no_layers_def)
  have "vGetString V (cfgV ?c) k = config_value env [] BBSConfigSchema k"
    using layers_value [OF assms(1) schemas_ok(2) k l, of "[]"] assms(2) by simp
  moreover have "distinct (map fst ?ps)" using distinct_keys by (simp add: comp_def del: distinct_append map_append)
  then have "map_of (rev ?ps) k = Some d" using assms(3)
    by (subst map_of_eq_Some_iff) (simp_all add: rev_map [symmetric] del: map_append)
  ultimately show ?thesis using k NewConfig_layers(2) [OF assms(1) schemas_ok(2), of load] assms(2)
    by (simp add: Config_Get_def config_value_def schema_defaults_def)
qed

lemmas default_values = default_value [unfolded schema_pairs]

lemma Atoi_defaults:
  "strconv_Atoi (str ''0'') = Some 0" "strconv_Atoi (str ''3'') = Some 3" "strconv_Atoi (str ''4'') = Some 4"
  "strconv_Atoi (str ''8'') = Some 8" "strconv_Atoi (str ''10'') = Some 10" "strconv_Atoi (str ''16'') = Some 16"
  "strconv_Atoi (str ''32'') = Some 32" "strconv_Atoi (str ''64'') = Some 64" "strconv_Atoi (str ''300'') = Some 300"
  "strconv_Atoi (str ''500'') = Some 500" "strconv_Atoi (str ''600'') = Some 600" "strconv_Atoi (str ''900'') = Some 900"
  "strconv_Atoi (str ''1000'') = Some 1000" "strconv_Atoi (str ''1024'') = Some 1024" "strconv_Atoi (str ''4096'') = Some 4096"
  "strconv_Atoi (str ''4132'') = Some 4132" "strconv_Atoi (str ''8000'') = Some 8000" "strconv_Atoi (str ''8100'') = Some 8100"
  "strconv_Atoi (str ''10000'') = Some 10000" "strconv_Atoi (str ''102400'') = Some 102400" "strconv_Atoi (str ''180000'') = Some 180000"
  by (simp_all add: strconv_Atoi_def is_digit_def str_simps)

lemma default_gets:
  assumes "viper_documented V env files lay" and "\<forall>k. env (env_var k) = None" and "c = NewConfig V load BBSConfigSchema"
  shows "Config_Get V c KeyConnT1Ms = Ret (str ''10000'')" "Config_Get V c KeyConnT2Ms = Ret (str ''1000'')"
    "Config_Get V c KeyConnT3Ms = Ret (str ''180000'')" "Config_Get V c KeyConnN2Retries = Ret (str ''10'')"
    "Config_Get V c KeyConnWindowSize = Ret (str ''4'')" "Config_Get V c KeyAgwpeServerTxQueueDepth = Ret (str ''64'')"
    "Config_Get V c KeyAgwpeServerMaxConns = Ret (str ''4'')" "Config_Get V c KeyAgwpeServerReadBuf = Ret (str ''4132'')"
    "Config_Get V c KeyAgwpeClientHost = Ret (str ''localhost'')" "Config_Get V c KeyAgwpeClientPort = Ret (str ''8000'')"
    "Config_Get V c KeyAgwpeClientTxQueueDepth = Ret (str ''8'')" "Config_Get V c KeyAgwpeClientReadBuf = Ret (str ''4132'')"
    "Config_Get V c KeyBeaconEvery = Ret (str ''0'')" "Config_Get V c KeyBeaconSource = Ret (str '''')"
    "Config_Get V c KeyBeaconDestination = Ret (str ''BEACON'')" "Config_Get V c KeyBeaconVia = Ret (str '''')"
    "Config_Get V c KeyBeaconText = Ret (str ''go-ax25'')" "Config_Get V c KeyDigiCallsign = Ret (str '''')"
    "Config_Get V c KeyKissSerialRxQueueDepth = Ret (str ''64'')" "Config_Get V c KeyKissSerialTxQueueDepth = Ret (str ''32'')"
    "Config_Get V c KeyKissSerialReadBuf = Ret (str ''1024'')" "Config_Get V c KeyBbsCallsign = Ret (str ''N0CALL-2'')"
    "Config_Get V c KeyBbsGreeting = Ret (str ''Welcome to Go AX.25 BBS'')" "Config_Get V c KeyBbsPrompt = Ret (str ''BBS> '')"
    "Config_Get V c KeyBbsSysopName = Ret (str ''SYSOP'')" "Config_Get V c KeyBbsVersion = Ret (str ''go-ax25-bbs 0.1'')"
    "Config_Get V c KeyBbsMaxMessages = Ret (str ''500'')" "Config_Get V c KeyBbsMaxBodyLen = Ret (str ''102400'')"
    "Config_Get V c KeyBbsSysopSecret = Ret (str '''')" "Config_Get V c KeyBbsSysopChallengeTimeoutS = Ret (str ''300'')"
    "Config_Get V c KeyBbsSysopSessionTimeoutS = Ret (str ''600'')" "Config_Get V c KeyBbsSysopLockoutS = Ret (str ''900'')"
    "Config_Get V c KeyBbsSysopMaxAttempts = Ret (str ''3'')" "Config_Get V c KeyBbsDbPath = Ret (str ''bbs.db'')"
    "Config_Get V c KeyBbsHost = Ret (str ''localhost'')" "Config_Get V c KeyBbsPort = Ret (str ''8000'')"
  by (rule default_values [OF assms(1,2), of _ _ load, folded assms(3)], simp)+

text \<open>Defaults. Without a configuration file and environment variables every component gets its
  configuration from the schema without a panic: a session started by the terminal has the timers, retries and window that
  package ax25 uses by default, the AGWPE server and client fit together, the beacon and the digipeater are
  off, and the BBS has the values its schema documents and no SYSOP secret.\<close>

theorem default_config:
  assumes "viper_documented V env files lay" and "\<forall>k. env (env_var k) = None" and "stat fname = StatNotExist"
    and "c = NewConfig V load BBSConfigSchema"
  shows "LoadINI V stat fname c = Ret (None, c) \<and> connConfigFromCfg V c = Ret defaultConnConfig
    \<and> NewServerConfigFromConfig V c = Ret \<lparr>RadioPort = 0, PortDescription = [], TXQueueDepth = 64, MaxConns = 4, ReadBufSize = 4132\<rparr>
    \<and> (\<exists>cc. NewClientConfigFromConfig V c = Ret cc \<and> cHost cc = str ''localhost'' \<and> cPort cc = 8000 \<and> cTXQueueDepth cc = 8)
    \<and> BeaconConfigFromConfig V c = Ret \<lparr>bSource = [], bDestination = str ''BEACON'', bVia = [], bText = str ''go-ax25'', bEvery = 0\<rparr>
    \<and> DigiConfigFromConfig V c = Ret []
    \<and> KISSSerialConfigFromConfig V c = Ret \<lparr>phyPort = 0, rxQueueDepth = 64, txQueueDepth = 32, readBufSize = 1024,
         hasOnRxKISS = False, hasOnTxKISS = False\<rparr>
    \<and> LoadBBSConfig V c = Ret \<lparr>bbsCallsign = str ''N0CALL-2'', Greeting = str ''Welcome to Go AX.25 BBS'', Prompt = str ''BBS> '',
         SysopName = str ''SYSOP'', Version = str ''go-ax25-bbs 0.1'', MaxMessages = 500, MaxBodyLen = 102400, SysopSecret = [],
         SysopChallengeTimeout = 300, SysopSessionTimeout = 600, SysopLockout = 900, SysopMaxAttempts = 3,
         DBPath = str ''bbs.db'', AGWPEHost = str ''localhost'', AGWPEPort = 8000\<rparr>"
proof -
  note g = default_gets [OF assms(1,2,4)]
  have [simp]: "str [] = []" by (simp add: str_def)
  have "LoadINI V stat fname c = Ret (None, c)" using assms(3) by (simp add: LoadINI_def)
  moreover have "connConfigFromCfg V c = Ret defaultConnConfig"
    by (simp add: connConfigFromCfg_def GetInt_def g Atoi_defaults defaultConnConfig_def wrap64_def)
  moreover have "NewServerConfigFromConfig V c = Ret \<lparr>RadioPort = 0, PortDescription = [], TXQueueDepth = 64, MaxConns = 4, ReadBufSize = 4132\<rparr>"
    by (simp add: NewServerConfigFromConfig_def GetInt_def g Atoi_defaults)
  moreover have "\<exists>cc. NewClientConfigFromConfig V c = Ret cc \<and> cHost cc = str ''localhost'' \<and> cPort cc = 8000 \<and> cTXQueueDepth cc = 8"
    by (simp add: NewClientConfigFromConfig_def GetStr_def GetInt_def g Atoi_defaults)
  moreover have "BeaconConfigFromConfig V c = Ret \<lparr>bSource = [], bDestination = str ''BEACON'', bVia = [], bText = str ''go-ax25'', bEvery = 0\<rparr>"
    by (simp add: BeaconConfigFromConfig_def GetStr_def GetInt_def g Atoi_defaults)
  moreover have "DigiConfigFromConfig V c = Ret []" by (simp add: DigiConfigFromConfig_def GetStr_def g)
  moreover have "KISSSerialConfigFromConfig V c = Ret \<lparr>phyPort = 0, rxQueueDepth = 64, txQueueDepth = 32, readBufSize = 1024,
         hasOnRxKISS = False, hasOnTxKISS = False\<rparr>"
    by (simp add: KISSSerialConfigFromConfig_def GetInt_def g Atoi_defaults)
  ultimately show ?thesis by (simp add: LoadBBSConfig_def GetStr_def GetInt_def g Atoi_defaults)
qed

theorem config_sources_witness:
  "\<exists>c. LoadINI (plain_viper Map.empty (\<lambda>_. Inr [])) (\<lambda>_. StatOk) (str ''ax25.ini'')
      (NewConfig (plain_viper Map.empty (\<lambda>_. Inr [])) (\<lambda>_. Inr [(str ''router'', [(str ''mode'', str ''hub'')])]) []) = Ret (None, c)
    \<and> Config_Get (plain_viper Map.empty (\<lambda>_. Inr [])) c KeyRouterMode = Ret (str ''hub'')"
proof -
  let ?f = "[(str ''router'', [(str ''mode'', str ''hub'')])]"
  have e: "file_entries ?f = [(KeyRouterMode, str ''hub'')]"
    by (simp add: file_entries_def full_key_def ini_DefaultSection_def KeyRouterMode_def flip: str_append)
  have k: "KeyRouterMode \<in> Key ` set (DefaultSchema @ [])" by (simp add: DefaultSchema_def)
  have l: "\<forall>(q, x) \<in> set (file_entries ?f). is_lower q \<and> \<not> dot_above q KeyRouterMode \<and> \<not> dot_above KeyRouterMode q"
    using schemas_ok(1) k by (auto simp: e dot_above_def schema_ok_def)
  show ?thesis
    using config_sources [where stat = "\<lambda>_. StatOk" and fname = "str ''ax25.ini''" and load = "\<lambda>_. Inr ?f",
        OF plain_viper_documented [of Map.empty "\<lambda>_. Inr []"] schemas_ok(1) k refl refl refl l]
    by (simp add: e config_value_def)
qed

theorem set_value_stays_witness:
  "\<exists>c. LoadINI (plain_viper Map.empty (\<lambda>_. Inr [])) (\<lambda>_. StatOk) (str ''ax25.ini'')
      (Config_Set (plain_viper Map.empty (\<lambda>_. Inr [])) KeyKissSerialBaud (str ''57600'')
        (NewConfig (plain_viper Map.empty (\<lambda>_. Inr [])) (\<lambda>_. Inr [(str ''kiss.serial'', [(str ''baud'', str ''1200'')])]) [])) = Ret (None, c)
    \<and> Config_Get (plain_viper Map.empty (\<lambda>_. Inr [])) c KeyKissSerialBaud = Ret (str ''57600'')"
proof -
  let ?f = "[(str ''kiss.serial'', [(str ''baud'', str ''1200'')])]"
  have e: "file_entries ?f = [(KeyKissSerialBaud, str ''1200'')]"
    by (simp add: file_entries_def full_key_def ini_DefaultSection_def KeyKissSerialBaud_def flip: str_append)
  have k: "KeyKissSerialBaud \<in> Key ` set (DefaultSchema @ [])" by (simp add: DefaultSchema_def)
  have l: "\<forall>(q, x) \<in> set (file_entries ?f). is_lower q \<and> \<not> dot_above q KeyKissSerialBaud \<and> \<not> dot_above KeyKissSerialBaud q"
    using schemas_ok(1) k by (auto simp: e dot_above_def schema_ok_def)
  show ?thesis
    using set_value_stays [where stat = "\<lambda>_. StatOk" and fname = "str ''ax25.ini''" and load = "\<lambda>_. Inr ?f" and x = "str ''57600''",
        OF plain_viper_documented [of Map.empty "\<lambda>_. Inr []"] schemas_ok(1) k refl refl refl l]
    by simp
qed

theorem default_config_witness:
  "connConfigFromCfg (plain_viper Map.empty (\<lambda>_. Inr [])) (NewConfig (plain_viper Map.empty (\<lambda>_. Inr [])) (\<lambda>_. Inr []) BBSConfigSchema)
     = Ret defaultConnConfig"
  using default_config [OF plain_viper_documented, of Map.empty "\<lambda>_. StatNotExist" "[]" "NewConfig (plain_viper Map.empty (\<lambda>_. Inr [])) (\<lambda>_. Inr []) BBSConfigSchema" "\<lambda>_. Inr []" "\<lambda>_. Inr []"]
  by simp

end
