(* ===== verification/Terminal.thy ===== *)
theory Terminal
  imports Ax25_Config
begin

text \<open>
  The terminal program, \<open>src/cmd/terminal/main.go\<close>: the choice of the interface, what a typed line
  sends, the two ways of sending it (a session of package ax25, or an AGWPE client with flow
  control), and the AGWPE session's state. Where the program calls something that
  other goroutines change too (the session, the client's link), the definitions take a list with one
  function per call, which gives what the others did before the call; when the list is used up the program is
  still running, which is \<open>None\<close>. Messages to standard error are left out; standard output is part of
  the state.
\<close>

section \<open>Interfaces and addresses\<close>

datatype ifaceMode = modeAGWPE | modeKISS | modeSerial

fun ifaceMode_String :: "ifaceMode \<Rightarrow> gostring" where
  "ifaceMode_String modeAGWPE = str ''agwpe''"
| "ifaceMode_String modeKISS = str ''kiss''"
| "ifaceMode_String modeSerial = str ''serial''"

record cliArgs =
  argConfigPath :: gostring
  argDebug :: bool
  argInfo :: bool
  argHelp :: bool
  argInterfaces :: bool
  argAgwpe :: bool
  argKiss :: bool
  argSerial :: bool
  argServer :: gostring
  argPort :: int
  argDevice :: gostring
  argLocal :: gostring
  argDestination :: gostring
  argDigis :: "gostring list"

definition enabledLabel :: "bool \<Rightarrow> gostring" where
  "enabledLabel v = (if v then str ''enabled'' else str ''disabled'')"

definition printInterfaces :: "'v viper \<Rightarrow> 'v Config \<Rightarrow> gostring outcome" where
  "printInterfaces V c =
     and_then (GetBool V c KeyKissClientEnabled) (\<lambda>kiss.
     and_then (GetBool V c KeyKissSerialEnabled) (\<lambda>serial.
     Ret (str ''agwpe: enabled'' @ [0x0A] @ str ''kiss: '' @ enabledLabel kiss @ [0x0A]
       @ str ''serial: '' @ enabledLabel serial @ [0x0A])))"

definition selectInterface :: "'v viper \<Rightarrow> cliArgs \<Rightarrow> 'v Config \<Rightarrow> (goerr + ifaceMode) outcome" where
  "selectInterface V args c =
     (let chosen = (if argAgwpe args then 1 else 0) + (if argKiss args then 1 else 0) + (if argSerial args then 1 else 0 :: nat)
      in if chosen > 1 then Ret (Inl (ErrMsg ''flags -agwpe, -kiss, -serial are mutually exclusive''))
         else if argAgwpe args then Ret (Inr modeAGWPE)
         else if argKiss args then Ret (Inr modeKISS)
         else if argSerial args then Ret (Inr modeSerial)
         else and_then (GetBool V c KeyKissSerialEnabled) (\<lambda>serial.
              if serial then Ret (Inr modeSerial)
              else and_then (GetBool V c KeyKissClientEnabled) (\<lambda>kiss.
              if kiss then Ret (Inr modeKISS) else Ret (Inr modeAGWPE))))"

definition resolveLocalAddress :: "'v viper \<Rightarrow> texts \<Rightarrow> gostring \<Rightarrow> 'v Config \<Rightarrow> (goerr + Address) outcome" where
  "resolveLocalAddress V X override c =
     (if override \<noteq> [] then Ret (ParseAddress (cases_tables X) override)
      else and_then (GetStr V c KeyTerminalCallsign) (\<lambda>call.
        let call = TrimSpace X call
        in if call \<noteq> [] then Ret (ParseAddress (cases_tables X) call)
           else Ret (Inl (ErrMsg ''no local callsign configured: use -local flag or set terminal.callsign in ax25.ini''))))"

text \<open>The path of \<open>main\<close>: every digipeater has to be valid.\<close>

fun parse_via :: "unicode \<Rightarrow> gostring list \<Rightarrow> goerr + Address list" where
  "parse_via U [] = Inr []"
| "parse_via U (d # ds) =
     (case ParseAddress U d of
        Inl e \<Rightarrow> Inl e
      | Inr a \<Rightarrow> (case parse_via U ds of Inl e \<Rightarrow> Inl e | Inr as \<Rightarrow> Inr (a # as)))"

section \<open>Typed lines\<close>

text \<open>\<open>strconv.ParseInt(s, 10, 16)\<close> on a string of digits.\<close>

definition parse_digits16 :: "gostring \<Rightarrow> nat option" where
  "parse_digits16 ds = (let n = digits_value 0 ds in if n < 2 ^ 15 then Some n else None)"

function expand_from :: "gostring \<Rightarrow> gostring" where
  "expand_from [] = []"
| "expand_from [b] = [b]"
| "expand_from (b # n # rest) =
     (if b \<noteq> 0x5C then b # expand_from (n # rest)
      else if 0x61 \<le> n \<and> n \<le> 0x7A then (n - 0x61 + 1) # expand_from rest
      else if is_digit n then
        (let ds = takeWhile is_digit (n # rest); after = dropWhile is_digit (n # rest)
         in case parse_digits16 ds of
              Some v \<Rightarrow> if v > 255 then (b # ds) @ expand_from after else of_nat v # expand_from after
            | None \<Rightarrow> (b # ds) @ expand_from after)
      else if n = 0x5C then 0x5C # expand_from rest
      else 0x5C # n # expand_from rest)"
  by pat_completeness auto

termination
  by (relation "measure length") (auto simp: less_Suc_eq_le intro: le_trans [OF length_dropWhile_le])

definition expandInline :: "gostring \<Rightarrow> byte list" where
  "expandInline line = expand_from line @ [0x0D]"

text \<open>The four results of \<open>processLine\<close>. \<open>os.ReadFile\<close> is a parameter.\<close>

record line_result =
  lrPayloads :: "byte list list"
  lrDisconnect :: bool
  lrEcho :: bool
  lrErr :: "goerr option"

definition term_processLine :: "(gostring \<Rightarrow> goerr + gostring) \<Rightarrow> gostring \<Rightarrow> line_result" where
  "term_processLine readFile line =
     (if line = str ''~.'' then \<lparr>lrPayloads = [], lrDisconnect = True, lrEcho = False, lrErr = None\<rparr>
      else if line = str ''~~'' then \<lparr>lrPayloads = [str ''~'' @ [0x0D]], lrDisconnect = False, lrEcho = False, lrErr = None\<rparr>
      else if strings_HasPrefix line (str ''~!'') then
        (let filename = drop 2 line
         in if filename = [] then
              \<lparr>lrPayloads = [], lrDisconnect = False, lrEcho = False, lrErr = Some (ErrMsg ''~! requires a filename'')\<rparr>
            else case readFile filename of
              Inl e \<Rightarrow> \<lparr>lrPayloads = [], lrDisconnect = False, lrEcho = False, lrErr = Some e\<rparr>
            | Inr content \<Rightarrow>
                \<lparr>lrPayloads = map expandInline (strings_Split (strings_TrimSuffix1 content 0x0A) 0x0A),
                 lrDisconnect = False, lrEcho = True, lrErr = None\<rparr>)
      else \<lparr>lrPayloads = [expandInline line], lrDisconnect = False, lrEcho = False, lrErr = None\<rparr>)"

section \<open>Pieces and display\<close>

fun chunks :: "nat \<Rightarrow> byte list \<Rightarrow> byte list list" where
  "chunks 0 d = []"
| "chunks (Suc n) [] = []"
| "chunks (Suc n) (b # d) = take (Suc n) (b # d) # chunks (Suc n) (drop n d)"

text \<open>With \<open>maxChunk = 0\<close> the capacity of the result divides by zero.\<close>

definition splitPayload :: "byte list \<Rightarrow> nat \<Rightarrow> byte list list outcome" where
  "splitPayload d maxChunk =
     (if length d \<le> maxChunk then Ret [d] else if maxChunk = 0 then Panic else Ret (chunks maxChunk d))"

definition nativeLineEnding :: "bool \<Rightarrow> gostring" where
  "nativeLineEnding windows = (if windows then [0x0D, 0x0A] else [0x0A])"

definition normalizeInbound :: "bool \<Rightarrow> byte list \<Rightarrow> byte list" where
  "normalizeInbound windows d =
     (let s = strings_Replace2 d 0x0D 0x0A [0x0A]; s = strings_Replace1 s 0x0D [0x0A]
      in if nativeLineEnding windows \<noteq> [0x0A] then strings_Replace1 s 0x0A (nativeLineEnding windows) else s)"

definition echo_line :: "bool \<Rightarrow> byte list \<Rightarrow> byte list" where
  "echo_line windows d = (if d \<noteq> [] \<and> last d = 0x0D then butlast d else d) @ nativeLineEnding windows"

text \<open>What is written to standard output.\<close>

definition echoPayloads :: "bool \<Rightarrow> byte list list \<Rightarrow> byte list" where
  "echoPayloads windows ps = concat (map (echo_line windows) ps)"

section \<open>A session over KISS\<close>

record connSession =
  csConn :: Conn
  csDone :: bool         \<comment> \<open>\<open>doneCh\<close> is closed\<close>
  csConnectedCh :: bool  \<comment> \<open>\<open>connectedCh\<close> is closed\<close>
  csConnected :: bool
  csRemote :: gostring
  csDisconnectCh :: bool \<comment> \<open>\<open>disconnectCh\<close> is closed\<close>
  csSent :: "Frame list" \<comment> \<open>the frames given to the router\<close>
  csStdout :: "byte list"

definition session_callbacks :: ConnCallbacks where
  "session_callbacks = \<lparr>hasOnConnect = True, hasOnDisconnect = True, hasOnLinkReset = False, hasOnError = True,
     hasOnData = True, hasOnTxFrame = True, hasOnTxAck = False\<rparr>"

definition newConnSession :: "Address \<Rightarrow> ConnConfig option \<Rightarrow> goerr + connSession" where
  "newConnSession loc connCfg =
     (case NewConn loc session_callbacks connCfg of
        Inl e \<Rightarrow> Inl e
      | Inr c \<Rightarrow> Inr \<lparr>csConn = c, csDone = False, csConnectedCh = False, csConnected = False, csRemote = [],
          csDisconnectCh = False, csSent = [], csStdout = []\<rparr>)"

fun session_callback :: "bool \<Rightarrow> action \<Rightarrow> connSession \<Rightarrow> connSession" where
  "session_callback windows (OnConnect r incoming) s =
     s\<lparr>csConnected := True, csRemote := Address_String r, csConnectedCh := True\<rparr>"
| "session_callback windows OnDisconnect s = s\<lparr>csConnected := False, csDone := True\<rparr>"
| "session_callback windows (OnData d) s = s\<lparr>csStdout := csStdout s @ normalizeInbound windows d\<rparr>"
| "session_callback windows (OnTxFrame f) s = s\<lparr>csSent := csSent s @ [f]\<rparr>"
| "session_callback windows (OnError e) s = s"
| "session_callback windows OnLinkReset s = s"
| "session_callback windows (OnTxAck n) s = s"

text \<open>A method call on the session with the callbacks it runs.\<close>

definition session_call :: "bool \<Rightarrow> (Conn \<Rightarrow> conn_result) \<Rightarrow> connSession \<Rightarrow> goerr option \<times> connSession" where
  "session_call windows f s =
     (case f (csConn s) of (e, acts, c) \<Rightarrow> (e, fold (session_callback windows) acts (s\<lparr>csConn := c\<rparr>)))"

type_synonym conn_env = "(connSession \<Rightarrow> connSession) list"

text \<open>The calls of \<open>SendData\<close> for the given pieces, and the pieces that were accepted.\<close>

fun send_pieces ::
  "bool \<Rightarrow> conn_env \<Rightarrow> byte list list \<Rightarrow> connSession \<Rightarrow> (goerr option \<times> byte list list \<times> connSession \<times> conn_env) option" where
  "send_pieces windows env [] s = Some (None, [], s, env)"
| "send_pieces windows [] (d # ds) s = None"
| "send_pieces windows (g # env) (d # ds) s =
     (case session_call windows (SendData d) (g s) of
        (None, s) \<Rightarrow> map_option (\<lambda>(e, sent, s, env). (e, d # sent, s, env)) (send_pieces windows env ds s)
      | (Some e, s) \<Rightarrow>
          if \<not> errors_Is e ErrConnSendBufFull then Some (Some e, [], s, env)
          else send_pieces windows env (d # ds) s)"

definition payload_pieces :: "byte list \<Rightarrow> byte list list" where
  "payload_pieces d = (case splitPayload d MaxInfoLen of Ret cs \<Rightarrow> cs | Panic \<Rightarrow> [])"

text \<open>The first error ends the loops over the payloads and their pieces alike, so they are one loop.\<close>

definition sendConnPayloads ::
  "bool \<Rightarrow> conn_env \<Rightarrow> byte list list \<Rightarrow> connSession \<Rightarrow> (goerr option \<times> byte list list \<times> connSession \<times> conn_env) option" where
  "sendConnPayloads windows env ps s = send_pieces windows env (concat (map payload_pieces ps)) s"

text \<open>One line of \<open>runStdin\<close>; the result says whether the loop ends.\<close>

definition conn_stdin_line ::
  "(gostring \<Rightarrow> goerr + gostring) \<Rightarrow> bool \<Rightarrow> conn_env \<Rightarrow> gostring \<Rightarrow> connSession \<Rightarrow> (bool \<times> connSession \<times> conn_env) option" where
  "conn_stdin_line readFile windows env line s =
     (let r = term_processLine readFile line
      in if lrDisconnect r then
           Some (True, (snd (session_call windows Shutdown s))\<lparr>csDisconnectCh := True\<rparr>, env)
         else if lrErr r \<noteq> None then Some (False, s, env)
         else if \<not> csConnected s then Some (False, s, env)
         else
           let s = (if lrEcho r then s\<lparr>csStdout := csStdout s @ echoPayloads windows (lrPayloads r)\<rparr> else s)
           in map_option (\<lambda>(e, sent, s, env). (False, s, env)) (sendConnPayloads windows env (lrPayloads r) s))"

section \<open>A session over AGWPE\<close>

record agwSession =
  aClient :: "ClientConfig \<times> Decoder tcp_link"
  aLocal :: gostring
  aRemote :: gostring   \<comment> \<open>empty before it is stored\<close>
  aConnected :: bool
  aDone :: bool         \<comment> \<open>\<open>doneCh\<close> is closed\<close>
  aConnectedCh :: bool  \<comment> \<open>\<open>connectedCh\<close> is closed\<close>
  aOutCh :: "32 word list"
  aStdout :: "byte list"

definition new_agwSession :: "ClientConfig \<times> Decoder tcp_link \<Rightarrow> Address \<Rightarrow> agwSession" where
  "new_agwSession cl loc = \<lparr>aClient = cl, aLocal = Address_String loc, aRemote = [], aConnected = False, aDone = False,
     aConnectedCh = False, aOutCh = [], aStdout = []\<rparr>"

text \<open>\<open>SendFrame\<close> on the client of the session.\<close>

definition agw_send :: "AgwFrame \<Rightarrow> agwSession \<Rightarrow> goerr option \<times> agwSession" where
  "agw_send f s =
     (case aClient s of (c, l) \<Rightarrow> case Client_SendFrame c (Some f) l of (e, l) \<Rightarrow> (e, s\<lparr>aClient := (c, l)\<rparr>))"

definition parseOutstandingCount :: "AgwFrame option \<Rightarrow> goerr + 32 word" where
  "parseOutstandingCount f =
     (case f of None \<Rightarrow> Inl (ErrMsg ''nil outstanding frame'') | Some f \<Rightarrow>
        if Kind f \<noteq> KindOutstandingResp \<and> Kind f \<noteq> KindOutstandingReq then Inl (ErrMsg ''wrong outstanding kind'')
        else if length (Data f) < 4 then Inl (ErrMsg ''short outstanding frame'')
        else Inr (ucast (Data f ! 0) OR push_bit 8 (ucast (Data f ! 1)) OR push_bit 16 (ucast (Data f ! 2))
          OR push_bit 24 (ucast (Data f ! 3))))"

text \<open>The channel for the counts holds one; a new count replaces an old one.\<close>

definition agw_onFrame :: "bool \<Rightarrow> AgwFrame option \<Rightarrow> agwSession \<Rightarrow> agwSession" where
  "agw_onFrame windows f s =
     (case f of None \<Rightarrow> s | Some f \<Rightarrow>
        if Kind f = KindConnectResp then
          (let incoming = CallFrom f
           in if \<not> aConnected s then s\<lparr>aRemote := incoming, aConnected := True, aConnectedCh := True\<rparr>
              else if aRemote s \<noteq> [] \<and> incoming \<noteq> aRemote s
              then snd (agw_send (BuildDisconnectReq (agwPort f) (aLocal s) incoming) s) else s)
        else if Kind f = KindRecvData then
          (if \<not> aConnected s then s
           else if aRemote s \<noteq> [] \<and> CallFrom f \<noteq> aRemote s then s
           else s\<lparr>aStdout := aStdout s @ normalizeInbound windows (Data f)\<rparr>)
        else if Kind f = KindOutstandingResp \<or> Kind f = KindOutstandingReq then
          (case parseOutstandingCount (Some f) of Inl e \<Rightarrow> s | Inr n \<Rightarrow> s\<lparr>aOutCh := [n]\<rparr>)
        else if Kind f = KindDisconnectResp then s\<lparr>aConnected := False, aDone := True\<rparr>
        else s)"

definition agw_disconnect :: "agwSession \<Rightarrow> goerr option \<times> agwSession" where
  "agw_disconnect s =
     (if \<not> aConnected s then (None, s)
      else if aRemote s = [] then (None, s)
      else agw_send (BuildDisconnectReq 0 (aLocal s) (aRemote s)) s)"

text \<open>What the others did before a call, and whether the time allowed for the call is over.\<close>

type_synonym agw_env = "((agwSession \<Rightarrow> agwSession) \<times> bool) list"

fun retrySend :: "agw_env \<Rightarrow> AgwFrame \<Rightarrow> agwSession \<Rightarrow> (goerr option \<times> agwSession \<times> agw_env) option" where
  "retrySend [] f s = None"
| "retrySend ((g, late) # env) f s =
     (case agw_send f (g s) of
        (None, s) \<Rightarrow> Some (None, s, env)
      | (Some e, s) \<Rightarrow>
          if \<not> errors_Is e ErrNotConnected \<and> \<not> errors_Is e ErrTXQueueFull then Some (Some e, s, env)
          else if late then Some (Some e, s, env)
          else retrySend env f s)"

text \<open>The wait for a count.\<close>

fun await_count :: "agw_env \<Rightarrow> agwSession \<Rightarrow> ((goerr + 32 word) \<times> agwSession \<times> agw_env) option" where
  "await_count [] s = None"
| "await_count ((g, late) # env) s =
     (let s = g s
      in if late then Some (Inl (ErrMsg ''timeout waiting for agwpe outstanding response''), s, env)
         else case aOutCh s of
           n # rest \<Rightarrow> Some (Inr n, s\<lparr>aOutCh := rest\<rparr>, env)
         | [] \<Rightarrow> await_count env s)"

definition outstanding_query :: "gostring \<Rightarrow> gostring \<Rightarrow> AgwFrame" where
  "outstanding_query loc remote = (of_kind KindOutstandingReq)\<lparr>agwPort := 0, CallFrom := loc, CallTo := remote\<rparr>"

definition queryOutstanding :: "agw_env \<Rightarrow> gostring \<Rightarrow> agwSession \<Rightarrow> ((goerr + 32 word) \<times> agwSession \<times> agw_env) option" where
  "queryOutstanding env remote s =
     (case retrySend env (outstanding_query (aLocal s) remote) (s\<lparr>aOutCh := []\<rparr>) of
        None \<Rightarrow> None
      | Some (Some e, s, env) \<Rightarrow> Some (Inl e, s, env)
      | Some (None, s, env) \<Rightarrow> await_count env s)"

lemma retrySend_shrinks: "retrySend env f s = Some (e, s', env') \<Longrightarrow> length env' < length env"
  by (induction env f s rule: retrySend.induct)
    (auto simp: less_Suc_eq split: prod.splits option.splits if_splits)

lemma await_count_shrinks: "await_count env s = Some (r, s', env') \<Longrightarrow> length env' < length env"
  by (induction env s rule: await_count.induct) (auto simp: Let_def less_Suc_eq split: if_splits list.splits)

lemma queryOutstanding_shrinks:
  "queryOutstanding env remote s = Some (r, s', env') \<Longrightarrow> length env' < length env"
  by (auto simp: queryOutstanding_def dest!: retrySend_shrinks await_count_shrinks
      split: option.splits prod.splits)

text \<open>The counts are part of the result.\<close>

function wait_counts ::
  "nat \<Rightarrow> agw_env \<Rightarrow> gostring \<Rightarrow> agwSession \<Rightarrow> (goerr option \<times> 32 word list \<times> agwSession \<times> agw_env) option" where
  "wait_counts zeroCount env remote s =
     (case queryOutstanding env remote s of
        None \<Rightarrow> None
      | Some (Inl e, s, env) \<Rightarrow> Some (Some e, [], s, env)
      | Some (Inr n, s, env) \<Rightarrow>
          if n = 0 \<and> zeroCount + 1 \<ge> 2 then Some (None, [n], s, env)
          else map_option (\<lambda>(e, cs, s, env). (e, n # cs, s, env))
                 (wait_counts (if n = 0 then zeroCount + 1 else 0) env remote s))"
  by pat_completeness auto

termination
  by (relation "measure (\<lambda>(z, env, remote, s). length env)") (auto dest: queryOutstanding_shrinks)

definition waitForOutstanding ::
  "agw_env \<Rightarrow> gostring \<Rightarrow> agwSession \<Rightarrow> (goerr option \<times> 32 word list \<times> agwSession \<times> agw_env) option" where
  "waitForOutstanding env remote s = wait_counts 0 env remote s"

text \<open>The pieces of the payloads; the result has those that were sent and the counts waited for after each.\<close>

fun agw_send_pieces ::
  "agw_env \<Rightarrow> gostring \<Rightarrow> byte list list \<Rightarrow> agwSession
     \<Rightarrow> (goerr option \<times> (AgwFrame \<times> 32 word list) list \<times> agwSession \<times> agw_env) option" where
  "agw_send_pieces env remote [] s = Some (None, [], s, env)"
| "agw_send_pieces env remote (d # ds) s =
     (let f = BuildSendData 0 (aLocal s) remote 0xF0 d
      in case retrySend env f s of
           None \<Rightarrow> None
         | Some (Some e, s, env) \<Rightarrow> Some (Some e, [], s, env)
         | Some (None, s, env) \<Rightarrow>
             (case waitForOutstanding env remote s of
                None \<Rightarrow> None
              | Some (Some e, cs, s, env) \<Rightarrow> Some (Some e, [(f, cs)], s, env)
              | Some (None, cs, s, env) \<Rightarrow>
                  map_option (\<lambda>(e, sent, s, env). (e, (f, cs) # sent, s, env)) (agw_send_pieces env remote ds s)))"

definition sendPayloads ::
  "agw_env \<Rightarrow> gostring \<Rightarrow> byte list list \<Rightarrow> agwSession
     \<Rightarrow> (goerr option \<times> (AgwFrame \<times> 32 word list) list \<times> agwSession \<times> agw_env) option" where
  "sendPayloads env remote ps s = agw_send_pieces env remote (concat (map payload_pieces ps)) s"

text \<open>One line of \<open>stdinLoop\<close>; the result says whether the loop ends.\<close>

definition agw_stdin_line ::
  "(gostring \<Rightarrow> goerr + gostring) \<Rightarrow> bool \<Rightarrow> agw_env \<Rightarrow> gostring \<Rightarrow> agwSession \<Rightarrow> (bool \<times> agwSession \<times> agw_env) option" where
  "agw_stdin_line readFile windows env line s =
     (let r = term_processLine readFile line
      in if lrDisconnect r then Some (True, (snd (agw_disconnect s))\<lparr>aDone := True\<rparr>, env)
         else if lrErr r \<noteq> None then Some (False, s, env)
         else if \<not> aConnected s then Some (False, s, env)
         else if aRemote s = [] then Some (False, s, env)
         else
           let s = (if lrEcho r then s\<lparr>aStdout := aStdout s @ echoPayloads windows (lrPayloads r)\<rparr> else s)
           in map_option (\<lambda>(e, sent, s, env). (False, s, env)) (sendPayloads env (aRemote s) (lrPayloads r) s))"

end
