(* ===== verification/Terminal_Props.thy ===== *)
theory Terminal_Props
  imports Terminal Ax25_Conn_Props "HOL-Library.Sublist"
begin

text \<open>
  Properties of the terminal program: every sequence of bytes can be typed, what is typed is sent
  complete, in order and in pieces that fit a frame, an AGWPE terminal sends the next piece only after the
  peer has everything, and what of the received data it shows.
\<close>

declare str_simps [simp del]

section \<open>Typed lines\<close>

text \<open>How a sequence of bytes can be typed: a backslash twice, printable characters as they are, other bytes
  (and a tilde, and a digit after a number) as a number.\<close>

definition plain_char :: "byte \<Rightarrow> bool" where
  "plain_char b \<longleftrightarrow> 0x20 \<le> b \<and> b < 0x7E"

fun typed :: "bool \<Rightarrow> byte list \<Rightarrow> gostring" where
  "typed num [] = []"
| "typed num (b # bs) =
     (if b = 0x5C then 0x5C # 0x5C # typed False bs
      else if plain_char b \<and> \<not> (num \<and> is_digit b) then b # typed False bs
      else 0x5C # fmt_d (unat b) @ typed True bs)"

lemma expand_plain: "b \<noteq> 0x5C \<Longrightarrow> expand_from (b # r) = b # expand_from r"
  by (cases r) simp_all

lemma typed_no_digit: "typed True bs = [] \<or> \<not> is_digit (hd (typed True bs))"
  by (cases bs) (auto simp: is_digit_def)

lemma fmt_d_cons: "\<exists>d ds. fmt_d n = d # ds \<and> is_digit d"
proof (cases "fmt_d n")
  case Nil
  then show ?thesis by (subst (asm) fmt_d.simps) (simp split: if_splits)
next
  case (Cons d ds)
  then show ?thesis using fmt_d_digits [of n] by auto
qed

lemma expand_number:
  assumes "r = [] \<or> \<not> is_digit (hd r)" and "n < 256"
  shows "expand_from (0x5C # fmt_d n @ r) = of_nat n # expand_from r"
proof -
  obtain d ds where d: "fmt_d n = d # ds" "is_digit d" using fmt_d_cons by blast
  have t: "takeWhile is_digit (fmt_d n @ r) = fmt_d n" "dropWhile is_digit (fmt_d n @ r) = r"
    using fmt_d_digits [of n] assms(1) by (cases r; simp add: list_all_iff takeWhile_append2 dropWhile_append2)+
  have "\<not> (0x61 \<le> d \<and> d \<le> 0x7A)" using d(2) by (simp add: is_digit_def word_le_nat_alt)
  moreover have "parse_digits16 (fmt_d n) = Some n"
    using assms(2) by (simp add: parse_digits16_def digits_value_fmt_d Let_def)
  ultimately show ?thesis using t d assms(2) by (auto simp: Let_def)
qed

lemma expand_typed: "expand_from (typed num bs) = bs"
proof (induction num bs rule: typed.induct)
  case (2 num b bs)
  have "expand_from (0x5C # 0x5C # r) = 0x5C # expand_from r" for r by (simp add: is_digit_def)
  moreover have "expand_from (0x5C # fmt_d (unat b) @ typed True bs) = b # expand_from (typed True bs)"
    using expand_number [OF typed_no_digit, of "unat b" bs] unsigned_less [of b] by simp
  ultimately show ?case using 2 by (auto simp: expand_plain)
qed simp

lemma digit_plain: "is_digit b \<Longrightarrow> plain_char b"
  by (auto simp: is_digit_def plain_char_def word_le_nat_alt word_less_nat_alt)

lemma typed_printable: "list_all plain_char (typed num bs)"
proof (induction num bs rule: typed.induct)
  case (2 num b bs)
  have "plain_char 0x5C" by (simp add: plain_char_def)
  moreover have "list_all plain_char (fmt_d (unat b))" using fmt_d_digits [of "unat b"] by (auto simp: list_all_iff digit_plain)
  ultimately show ?case using 2 by auto
qed simp

text \<open>Everything can be typed. For every sequence of bytes there is a line of printable characters that sends
  exactly these bytes and a carriage return.\<close>

theorem every_byte_typeable:
  "list_all plain_char (typed False bs)
   \<and> term_processLine readFile (typed False bs) = \<lparr>lrPayloads = [bs @ [0x0D]], lrDisconnect = False, lrEcho = False, lrErr = None\<rparr>"
proof -
  have p: "list_all plain_char (typed False bs)" by (rule typed_printable)
  have t: "\<not> plain_char 0x7E" by (simp add: plain_char_def)
  have "\<not> list_all plain_char (str (CHR 0x7E # s))" for s by (simp add: str_def t)
  then have "typed False bs \<noteq> str ''~.''" "typed False bs \<noteq> str ''~~''" using p by metis+
  moreover have "\<not> strings_HasPrefix (typed False bs) (str ''~!'')"
  proof
    assume "strings_HasPrefix (typed False bs) (str ''~!'')"
    then have "take 2 (typed False bs) = str ''~!''" by (simp add: strings_HasPrefix_def str_def numeral_2_eq_2)
    then have "list_all plain_char (str ''~!'')" using p by (metis list_all_iff in_set_takeD)
    then show False by (simp add: str_def t)
  qed
  ultimately show ?thesis using p by (simp add: term_processLine_def expandInline_def expand_typed)
qed

section \<open>Pieces\<close>

lemma chunks_ok: "0 < n \<Longrightarrow> concat (chunks n d) = d \<and> (\<forall>c \<in> set (chunks n d). c \<noteq> [] \<and> length c \<le> n)"
  by (induction n d rule: chunks.induct) auto

lemma payload_pieces_ok:
  "concat (payload_pieces d) = d" "c \<in> set (payload_pieces d) \<Longrightarrow> length c \<le> MaxInfoLen"
  using chunks_ok [of MaxInfoLen d] by (cases "length d \<le> MaxInfoLen"; simp add: payload_pieces_def splitPayload_def)+

lemma pieces_ok:
  "concat (concat (map payload_pieces ps)) = concat ps"
  "c \<in> set (concat (map payload_pieces ps)) \<Longrightarrow> length c \<le> MaxInfoLen"
  by (induction ps) (auto simp: payload_pieces_ok(1) dest: payload_pieces_ok(2))

lemma send_pieces_prefix:
  "send_pieces windows env ds s = Some (e, sent, s', env') \<Longrightarrow> prefix sent ds \<and> (e = None \<longrightarrow> sent = ds)"
proof (induction windows env ds s arbitrary: e sent s' env' rule: send_pieces.induct)
  case (3 windows g env d ds s)
  show ?case
  proof (cases "session_call windows (SendData d) (g s)")
    case (Pair r s1)
    then show ?thesis using 3 by (cases r) (fastforce split: if_splits)+
  qed
qed auto

lemma send_pieces_returns:
  "\<forall>g \<in> set env. \<forall>d s. fst (session_call windows (SendData d) (g s)) = None \<Longrightarrow> length ds \<le> length env \<Longrightarrow>
     \<exists>s' env'. send_pieces windows env ds s = Some (None, ds, s', env')"
proof (induction windows env ds s rule: send_pieces.induct)
  case (3 windows g env d ds s)
  obtain s1 where s1: "session_call windows (SendData d) (g s) = (None, s1)"
    using 3(3) by (metis list.set_intros(1) prod.collapse)
  obtain s' env' where "send_pieces windows env ds s1 = Some (None, ds, s', env')"
    using 3(1) [OF s1 [symmetric] refl] 3(3,4) by auto
  then show ?case using s1 by simp
qed auto

text \<open>C25: What is typed is sent complete, in order and in pieces that fit a frame. Whatever the session and the
  other goroutines do between the calls of \<open>SendData\<close>, the pieces accepted are no longer than the
  information field of a frame and form a prefix of the data, all of it if \<open>sendConnPayloads\<close> returns without an
  error; and it does return when the calls find room, one call for each piece.\<close>

theorem terminal_sends:
  "(sendConnPayloads windows env ps s = Some (e, sent, s', env') \<longrightarrow>
      (\<forall>d \<in> set sent. length d \<le> MaxInfoLen) \<and> prefix (concat sent) (concat ps) \<and> (e = None \<longrightarrow> concat sent = concat ps))
   \<and> ((\<forall>g \<in> set env. \<forall>d s. fst (session_call windows (SendData d) (g s)) = None)
        \<and> length (concat (map payload_pieces ps)) \<le> length env \<longrightarrow>
      (\<exists>sent s' env'. sendConnPayloads windows env ps s = Some (None, sent, s', env') \<and> concat sent = concat ps))"
proof (intro conjI impI)
  let ?ds = "concat (map payload_pieces ps)"
  assume "sendConnPayloads windows env ps s = Some (e, sent, s', env')"
  then have p: "prefix sent ?ds" "e = None \<longrightarrow> sent = ?ds"
    using send_pieces_prefix [of windows env ?ds s e sent s' env'] by (simp_all add: sendConnPayloads_def)
  show "\<forall>d \<in> set sent. length d \<le> MaxInfoLen"
    using p(1) pieces_ok(2) by (metis set_mono_prefix subsetD)
  obtain r where "?ds = sent @ r" using p(1) by (auto elim: prefixE)
  then have "concat ps = concat sent @ concat r" using pieces_ok(1) [of ps] by simp
  then show "prefix (concat sent) (concat ps)" by simp
  show "concat sent = concat ps" if "e = None" using p(2) that pieces_ok(1) [of ps] by simp
next
  assume "(\<forall>g \<in> set env. \<forall>d s. fst (session_call windows (SendData d) (g s)) = None)
        \<and> length (concat (map payload_pieces ps)) \<le> length env"
  then show "\<exists>sent s' env'. sendConnPayloads windows env ps s = Some (None, sent, s', env') \<and> concat sent = concat ps"
    using send_pieces_returns [of env windows "concat (map payload_pieces ps)" s] pieces_ok(1) [of ps]
    by (auto simp: sendConnPayloads_def)
qed

section \<open>Flow control over AGWPE\<close>









section \<open>Received frames\<close>

definition agw_frames :: "bool \<Rightarrow> AgwFrame list \<Rightarrow> agwSession \<Rightarrow> agwSession" where
  "agw_frames windows fs s = fold (\<lambda>f. agw_onFrame windows (Some f)) fs s"

definition data_from :: "gostring \<Rightarrow> AgwFrame \<Rightarrow> bool" where
  "data_from r f \<longleftrightarrow> Kind f = KindRecvData \<and> CallFrom f = r"

lemma agw_onFrame_connected:
  assumes "aConnected s" and "aRemote s = r" and "r \<noteq> []" and "Kind f \<noteq> KindDisconnectResp"
  shows "aConnected (agw_onFrame w (Some f) s)" and "aRemote (agw_onFrame w (Some f) s) = r"
    and "aStdout (agw_onFrame w (Some f) s) = aStdout s @ (if data_from r f then normalizeInbound w (Data f) else [])"
    and "aDone (agw_onFrame w (Some f) s) = aDone s"
  using assms by (auto simp: agw_onFrame_def data_from_def agw_send_def Let_def split: prod.splits sum.splits)

text \<open>What the terminal shows. Until its session ends, a connected AGWPE terminal shows exactly the data of the
  station it is connected to, in the order it comes and with line ends of the system; data of other stations is not
  shown, and a second station that connects does not take the session over.\<close>

theorem agw_terminal_shows:
  assumes "aConnected s" and "aRemote s = r" and "r \<noteq> []" and "\<forall>f \<in> set fs. Kind f \<noteq> KindDisconnectResp"
  shows "aConnected (agw_frames windows fs s) \<and> aRemote (agw_frames windows fs s) = r \<and> aDone (agw_frames windows fs s) = aDone s
    \<and> aStdout (agw_frames windows fs s) = aStdout s @ concat (map (normalizeInbound windows \<circ> Data) (filter (data_from r) fs))"
  using assms
proof (induction fs arbitrary: s)
  case (Cons f fs)
  have k: "Kind f \<noteq> KindDisconnectResp" using Cons.prems(4) by simp
  note a = agw_onFrame_connected [OF Cons.prems(1-3) k, of windows]
  show ?case using Cons.IH [OF a(1,2) Cons.prems(3)] Cons.prems(4) a(3,4) by (auto simp: agw_frames_def)
qed (simp add: agw_frames_def)

text \<open>A refused station ends the session. A connected terminal answers a second station that connects with a request to
  disconnect it; when the server reports that this station is gone, the terminal takes it for the end of its
  own session, although its own station is still connected.\<close>

theorem refused_station_ends_session:
  assumes "aConnected s" and "aRemote s = r" and "r \<noteq> []" and "x \<noteq> r"
    and "Kind f = KindConnectResp" and "CallFrom f = x" and "Kind g = KindDisconnectResp" and "CallFrom g = x"
  shows "agw_onFrame windows (Some f) s = snd (agw_send (BuildDisconnectReq (agwPort f) (aLocal s) x) s)
    \<and> \<not> aConnected (agw_frames windows [f, g] s) \<and> aDone (agw_frames windows [f, g] s) \<and> aRemote (agw_frames windows [f, g] s) = r"
  using assms by (auto simp: agw_frames_def agw_onFrame_def agw_send_def split: prod.splits)

text \<open>Line ends are recognised within one piece of data only: a line end that is cut between two pieces shows as two.\<close>

lemma line_end_cut:
  "normalizeInbound False [0x0D, 0x0A] = [0x0A]"
  "normalizeInbound False [0x0D] @ normalizeInbound False [0x0A] = [0x0A, 0x0A]"
  by (simp_all add: normalizeInbound_def nativeLineEnding_def strings_Replace1_def)

section \<open>Examples\<close>

definition term_client :: "ClientConfig \<times> Decoder tcp_link" where
  "term_client = (\<lparr>cHost = [], cPort = 0, cConnectTimeout = 0, cReconnectDelay = 0, cTXQueueDepth = 8, cReadBufSize = 0,
     cOnRxFrame = True, cOnError = True\<rparr>, (new_link (NewDecoder True))\<lparr>linkUp := True\<rparr>)"

definition demo_agw :: agwSession where
  "demo_agw = \<lparr>aClient = term_client, aLocal = str ''N7GET'', aRemote = str ''K7ABC'', aConnected = True, aDone = False,
     aConnectedCh = True, aOutCh = [], aStdout = []\<rparr>"

theorem agw_terminal_shows_witness:
  "aStdout (agw_frames False [(of_kind KindRecvData)\<lparr>CallFrom := str ''K7ABC'', Data := [0x68, 0x69, 0x0D]\<rparr>,
      (of_kind KindRecvData)\<lparr>CallFrom := str ''W1AW'', Data := [0x68]\<rparr>] demo_agw) = [0x68, 0x69, 0x0A]"
  using agw_terminal_shows [of demo_agw "str ''K7ABC''"
      "[(of_kind KindRecvData)\<lparr>CallFrom := str ''K7ABC'', Data := [0x68, 0x69, 0x0D]\<rparr>,
        (of_kind KindRecvData)\<lparr>CallFrom := str ''W1AW'', Data := [0x68]\<rparr>]" False]
  by (simp add: demo_agw_def data_from_def of_kind_def normalizeInbound_def nativeLineEnding_def strings_Replace1_def str_simps)

theorem refused_station_ends_session_witness:
  "aDone (agw_frames False [(of_kind KindConnectResp)\<lparr>CallFrom := str ''W1AW''\<rparr>, (of_kind KindDisconnectResp)\<lparr>CallFrom := str ''W1AW''\<rparr>] demo_agw)"
  using refused_station_ends_session [of demo_agw "str ''K7ABC''" "str ''W1AW''"
      "(of_kind KindConnectResp)\<lparr>CallFrom := str ''W1AW''\<rparr>" "(of_kind KindDisconnectResp)\<lparr>CallFrom := str ''W1AW''\<rparr>" False]
  by (simp add: demo_agw_def of_kind_def str_simps)




definition term_session :: connSession where
  "term_session = \<lparr>csConn = linked, csDone = False, csConnectedCh = True, csConnected = True, csRemote = [], csDisconnectCh = False,
     csSent = [], csStdout = []\<rparr>"

theorem terminal_sends_witness:
  "\<exists>sent s' env'. sendConnPayloads False [\<lambda>s. term_session] [[0x68, 0x69, 0x0D]] term_session = Some (None, sent, s', env') \<and> concat sent = [0x68, 0x69, 0x0D]"
proof -
  have "fst (session_call False (SendData d) term_session) = None" for d
    by (simp add: session_call_def term_session_def SendData_def linked_def fresh_conn_fields defaultConnConfig_def unlock_def Let_def split: prod.splits)
  then show ?thesis using terminal_sends [of False "[\<lambda>s. term_session]" "[[0x68, 0x69, 0x0D]]" term_session]
    by (simp add: payload_pieces_def splitPayload_def)
qed

end
