(* ===== verification/Router_Main.thy ===== *)
theory Router_Main
  imports Ax25_Config_Props Ax25_Digipeater Router_Monitor
begin

text \<open>
  The router program, \<open>src/cmd/router/main.go\<close>: the checks \<open>main\<close> makes on the configuration, and the
  pool of the clients of its KISS TCP server. A connection is a number. The pool's goroutines (the accept loop, one per
  client, and the one that stops all clients) interleave at the points where \<open>add\<close> and \<open>remove\<close>
  release the lock, and with everything else that uses the router.
\<close>

section \<open>Checks of the configuration\<close>

definition clientLimitReached :: "int \<Rightarrow> int \<Rightarrow> bool" where
  "clientLimitReached active lim \<longleftrightarrow> lim > 0 \<and> active \<ge> lim"

definition validateClientLimit :: "ConfigKey \<Rightarrow> int \<Rightarrow> goerr option" where
  "validateClientLimit key lim =
     (if lim < 0 then Some (ErrMsg ''config error: limit must be >= 0 (0 = unlimited)'') else None)"

record router_settings =
  kissSerialEnabled :: bool
  kissClientEnabled :: bool
  serialDevice :: gostring
  serialBaud :: int
  kissClientHost :: gostring
  kissClientPort :: int
  kissServerEnabled :: bool
  kissListenAddr :: gostring
  kissMaxClients :: int
  kissServerPromiscuous :: bool
  routerMode :: RouterMode
  agwpeEnabled :: bool
  agwpeAddr :: gostring
  agwpeMaxClients :: int
  setDigiCallsign :: gostring
  monitorEnabled :: bool
  setMonitorType :: gostring
  monitorPrefix :: gostring
  kissSerialLogFrames :: bool
  kissClientLogFrames :: bool
  kissServerLogFrames :: bool

text \<open>The checks on the capture log; \<open>Some\<close> is the message \<open>main\<close> ends with.\<close>

definition check_monitor :: "router_settings \<Rightarrow> string option" where
  "check_monitor s =
     (if \<not> monitorEnabled s then None
      else if setMonitorType s \<noteq> monitorTypeAX25 \<and> setMonitorType s \<noteq> monitorTypeKISS then Some ''config error: monitor.type must be ax25 or kiss''
      else if monitorPrefix s = [] then Some ''config error: monitor.prefix must not be empty''
      else if setMonitorType s = monitorTypeKISS
        \<and> \<not> (kissSerialEnabled s \<and> kissSerialLogFrames s \<or> kissClientEnabled s \<and> kissClientLogFrames s
             \<or> kissServerEnabled s \<and> kissServerLogFrames s)
      then Some ''config error: monitor.type=kiss requires at least one enabled KISS transport with *.log_frames=true''
      else None)"

text \<open>Lines 201 to 263 of \<open>main\<close>: the values in the order they are read, with the checks between them.\<close>

definition read_settings :: "'v viper \<Rightarrow> 'v Config \<Rightarrow> (string + router_settings) outcome" where
  "read_settings V c =
     and_then (GetBool V c KeyKissSerialEnabled) (\<lambda>serialOn.
     and_then (GetBool V c KeyKissClientEnabled) (\<lambda>clientOn.
     if serialOn \<and> clientOn then Ret (Inl ''config error: kiss.serial.enabled and kiss.client.enabled cannot both be true'') else
     and_then (GetStr V c KeyKissSerialDevice) (\<lambda>device.
     and_then (GetInt V c KeyKissSerialBaud) (\<lambda>baud.
     and_then (GetStr V c KeyKissClientHost) (\<lambda>host.
     and_then (GetInt V c KeyKissClientPort) (\<lambda>port.
     and_then (GetBool V c KeyKissServerEnabled) (\<lambda>serverOn.
     and_then (GetStr V c KeyKissServerAddr) (\<lambda>kissAddr.
     and_then (GetInt V c KeyKissServerMaxClients) (\<lambda>kissMax.
     and_then (GetBool V c KeyKissServerPromiscuous) (\<lambda>prom.
     if validateClientLimit KeyKissServerMaxClients kissMax \<noteq> None then Ret (Inl ''config error'') else
     and_then (GetStr V c KeyRouterMode) (\<lambda>mode.
     let mode = the (RouterModeFromConfig mode) in
     if serverOn \<and> prom \<and> mode = RouterModeBridge then Ret (Inl ''config error: kiss.server.promiscuous is not supported in bridge mode'') else
     and_then (GetBool V c KeyAgwpeServerEnabled) (\<lambda>agwOn.
     and_then (GetStr V c KeyAgwpeServerAddr) (\<lambda>agwAddr.
     and_then (GetInt V c KeyAgwpeServerMaxClients) (\<lambda>agwMax.
     if validateClientLimit KeyAgwpeServerMaxClients agwMax \<noteq> None then Ret (Inl ''config error'') else
     and_then (GetStr V c KeyDigiCallsign) (\<lambda>digi.
     and_then (GetBool V c KeyMonitorEnabled) (\<lambda>monOn.
     and_then (GetStr V c KeyMonitorType) (\<lambda>monType.
     and_then (GetStr V c KeyMonitorPrefix) (\<lambda>monPrefix.
     and_then (GetBool V c KeyKissSerialLogFrames) (\<lambda>logSerial.
     and_then (GetBool V c KeyKissClientLogFrames) (\<lambda>logClient.
     and_then (GetBool V c KeyKissServerLogFrames) (\<lambda>logServer.
     let s = \<lparr>kissSerialEnabled = serialOn, kissClientEnabled = clientOn, serialDevice = device, serialBaud = baud,
              kissClientHost = host, kissClientPort = port, kissServerEnabled = serverOn, kissListenAddr = kissAddr,
              kissMaxClients = kissMax, kissServerPromiscuous = prom, routerMode = mode, agwpeEnabled = agwOn, agwpeAddr = agwAddr,
              agwpeMaxClients = agwMax, setDigiCallsign = digi, monitorEnabled = monOn, setMonitorType = monType,
              monitorPrefix = monPrefix, kissSerialLogFrames = logSerial, kissClientLogFrames = logClient,
              kissServerLogFrames = logServer\<rparr>
     in case check_monitor s of Some msg \<Rightarrow> Ret (Inl msg) | None \<Rightarrow> Ret (Inr s))))))))))))))))))))))"

section \<open>The pool of KISS TCP clients\<close>

type_synonym conn_id = nat

record tcpClient =
  tcPort :: port_id

text \<open>Where the accept loop is: in \<open>Accept\<close>, in \<open>add\<close> after the check of the limit, or after the port was
  registered.\<close>

datatype serve_state = ServeIdle | Checked conn_id | Registered conn_id port_id

record tcpPool =
  poolNet :: net
  poolClients :: "(conn_id \<times> tcpClient) list"
  poolMax :: int
  poolMode :: PortMode
  poolLog :: bool \<comment> \<open>\<open>logKISS\<close>, and there is a monitor\<close>
  poolPhy :: "conn_id \<Rightarrow> KISSSerialPHY"
  connClosed :: "conn_id set"
  poolServe :: serve_state
  poolRemoving :: "(conn_id \<times> tcpClient) list" \<comment> \<open>calls of \<open>remove\<close> after the lock was released\<close>

definition newTCPPool :: "net \<Rightarrow> int \<Rightarrow> PortMode \<Rightarrow> bool \<Rightarrow> (conn_id \<Rightarrow> KISSSerialPHY) \<Rightarrow> tcpPool" where
  "newTCPPool n maxConn mode logKISS ph = \<lparr>poolNet = n, poolClients = [], poolMax = maxConn, poolMode = mode, poolLog = logKISS,
     poolPhy = ph, connClosed = {}, poolServe = ServeIdle, poolRemoving = []\<rparr>"

text \<open>The port literal of \<open>add\<close>.\<close>

definition pool_port :: "PortMode \<Rightarrow> Port" where
  "pool_port mode = \<lparr>pMode = mode, pDestination = zero_address, hasOnRx = True, QueueDepth = 0,
     stats = \<lparr>PortStats.RxFrames = 0, TxFrames = 0, Dropped = 0\<rparr>, txCh = None, txCap = 0,
     quitClosed = False, running = False, started = False\<rparr>"

definition pool_phy :: "bool \<Rightarrow> KISSSerialPHY" where
  "pool_phy log = NewKISSSerialPHY \<lparr>phyPort = 0, rxQueueDepth = 0, txQueueDepth = 0, readBufSize = 0, hasOnRxKISS = log, hasOnTxKISS = log\<rparr>"

text \<open>\<open>add\<close> up to the first unlock.\<close>

definition add_check :: "conn_id \<Rightarrow> tcpPool \<Rightarrow> goerr option \<times> tcpPool" where
  "add_check c w =
     (if clientLimitReached (int (length (poolClients w))) (poolMax w)
      then (Some (ErrMsg ''max TCP clients reached''), w\<lparr>connClosed := insert c (connClosed w), poolServe := ServeIdle\<rparr>)
      else (None, w\<lparr>poolServe := Checked c\<rparr>))"

text \<open>Its driver and its port, which is the object \<open>p\<close>, and their registration.\<close>

definition add_register :: "conn_id \<Rightarrow> port_id \<Rightarrow> tcpPool \<Rightarrow> goerr option \<times> tcpPool" where
  "add_register c p w =
     (case poolNet w of (r, h) \<Rightarrow>
        let w = w\<lparr>poolPhy := (poolPhy w)(c := pool_phy (poolLog w))\<rparr>; h = h(p := pool_port (poolMode w))
        in case RegisterPort p r h of
             (Some e, r, h) \<Rightarrow> (Some (ErrWrap ''register KISS TCP server port'' e),
               w\<lparr>poolNet := (r, h), connClosed := insert c (connClosed w), poolServe := ServeIdle\<rparr>)
           | (None, r, h) \<Rightarrow> (None, w\<lparr>poolNet := (r, h), poolServe := Registered c p\<rparr>))"

text \<open>The second locked part, and the start of the driver and of the client's goroutine.\<close>

definition add_insert :: "conn_id \<Rightarrow> port_id \<Rightarrow> tcpPool \<Rightarrow> tcpPool" where
  "add_insert c p w = w\<lparr>poolClients := AList.update c \<lparr>tcPort = p\<rparr> (poolClients w), poolServe := ServeIdle,
     poolPhy := (poolPhy w)(c := Phy_Start (poolPhy w c))\<rparr>"

text \<open>The locked part of \<open>remove\<close>.\<close>

definition remove_take :: "conn_id \<Rightarrow> tcpPool \<Rightarrow> tcpPool" where
  "remove_take c w =
     (case map_of (poolClients w) c of
        None \<Rightarrow> w
      | Some t \<Rightarrow> w\<lparr>poolClients := AList.delete c (poolClients w), poolRemoving := (c, t) # poolRemoving w\<rparr>)"

text \<open>The rest of it: the driver is told to stop, and when its goroutines have ended the port is removed and the connection closed.\<close>

definition remove_stop :: "conn_id \<Rightarrow> tcpPool \<Rightarrow> tcpPool" where
  "remove_stop c w = w\<lparr>poolPhy := (poolPhy w)(c := snd (Stop_drain (snd (Stop_begin True (poolPhy w c)))))\<rparr>"

definition remove_finish :: "conn_id \<times> tcpClient \<Rightarrow> tcpPool \<Rightarrow> tcpPool outcome option" where
  "remove_finish ct w =
     (case ct of (c, t) \<Rightarrow> case Stop_end (poolPhy w c) of
        None \<Rightarrow> None
      | Some ph \<Rightarrow>
          Some (case poolNet w of (r, h) \<Rightarrow>
            (case UnregisterPort (tcPort t) r h of
               Panic \<Rightarrow> Panic
             | Ret (e, r, h) \<Rightarrow> Ret (w\<lparr>poolPhy := (poolPhy w)(c := ph), poolNet := (r, h), connClosed := insert c (connClosed w),
                 poolRemoving := remove1 ct (poolRemoving w)\<rparr>))))"

text \<open>The connections \<open>stopAll\<close> removes one after the other.\<close>

definition stopAll_conns :: "tcpPool \<Rightarrow> conn_id list" where
  "stopAll_conns w = map fst (poolClients w)"

text \<open>One turn of the client's goroutine: a frame from the driver goes to the router.\<close>

definition client_rx :: "unicode \<Rightarrow> conn_id \<times> tcpClient \<Rightarrow> tcpPool \<Rightarrow> tcpPool" where
  "client_rx U ct w =
     (case ct of (c, t) \<Rightarrow> case rxCh (poolPhy w c) of
        [] \<Rightarrow> w
      | f # fs \<Rightarrow>
          (case poolNet w of (r, h) \<Rightarrow>
             w\<lparr>poolPhy := (poolPhy w)(c := (poolPhy w c)\<lparr>rxCh := fs\<rparr>),
               poolNet := (r, snd (Router_Send U (Some f) (Some (tcPort t)) r h))\<rparr>))"

section \<open>The steps of the pool\<close>

definition pool_ports :: "tcpPool \<Rightarrow> port_id list" where
  "pool_ports w = (case poolServe w of Registered c p \<Rightarrow> [p] | _ \<Rightarrow> []) @ map (tcPort \<circ> snd) (poolClients w @ poolRemoving w)"

definition pool_conns :: "tcpPool \<Rightarrow> conn_id list" where
  "pool_conns w = (case poolServe w of ServeIdle \<Rightarrow> [] | Checked c \<Rightarrow> [c] | Registered c p \<Rightarrow> [c])
     @ map fst (poolClients w @ poolRemoving w)"

text \<open>A new connection and a new port object are different from all in use. \<open>driver\<close> allows the goroutines of the drivers every
  change of their state; the other users of the router only remove ports of their own.\<close>

inductive pool_step :: "unicode \<Rightarrow> tcpPool \<Rightarrow> tcpPool \<Rightarrow> bool" for U where
  accept: "poolServe w = ServeIdle \<Longrightarrow> c \<notin> set (pool_conns w) \<Longrightarrow> pool_step U w (snd (add_check c w))"
| register: "poolServe w = Checked c \<Longrightarrow> p \<notin> set (pool_ports w) \<Longrightarrow> p \<notin> set (ports (fst (poolNet w))) \<Longrightarrow>
    pool_step U w (snd (add_register c p w))"
| insert: "poolServe w = Registered c p \<Longrightarrow> pool_step U w (add_insert c p w)"
| rx: "ct \<in> set (poolClients w) \<union> set (poolRemoving w) \<Longrightarrow> pool_step U w (client_rx U ct w)"
| take: "pool_step U w (remove_take c w)"
| stop: "ct \<in> set (poolRemoving w) \<Longrightarrow> pool_step U w (remove_stop (fst ct) w)"
| finish: "ct \<in> set (poolRemoving w) \<Longrightarrow> remove_finish ct w = Some (Ret w') \<Longrightarrow> pool_step U w w'"
| driver: "pool_step U w (w\<lparr>poolPhy := ph\<rparr>)"
| others: "router_step U (poolNet w) n \<Longrightarrow>
    \<forall>p \<in> set (pool_ports w). (p \<in> set (ports (fst (poolNet w))) \<longrightarrow> p \<in> set (ports (fst n)))
      \<and> quitClosed (snd n p) = quitClosed (snd (poolNet w) p) \<Longrightarrow> pool_step U w (w\<lparr>poolNet := n\<rparr>)"

inductive_cases pool_stepE: "pool_step U w w'"

definition pool_inv :: "tcpPool \<Rightarrow> bool" where
  "pool_inv w \<longleftrightarrow> distinct (pool_conns w) \<and> distinct (pool_ports w)
     \<and> (poolMax w > 0 \<longrightarrow> int (length (poolClients w)) + (if poolServe w = ServeIdle then 0 else 1) \<le> poolMax w)
     \<and> (\<forall>p \<in> set (pool_ports w). p \<in> set (ports (fst (poolNet w))) \<and> \<not> quitClosed (snd (poolNet w) p))"

lemma deliver_to_quit: "quitClosed (deliver_to f ps h p) = quitClosed (h p)"
proof -
  have "quitClosed (fst (Port_deliver g q)) = quitClosed q" for g q by (simp add: Port_deliver_def split: option.splits)
  then show ?thesis by (induction f ps h rule: deliver_to.induct) simp_all
qed

lemma Router_Send_quit: "quitClosed (snd (Router_Send U f src r h) p) = quitClosed (h p)"
proof -
  have "quitClosed (bindDynamic f s h p) = quitClosed (h p)" for f s by (simp add: bindDynamic_def)
  then show ?thesis
    by (simp add: Router_Send_def sendSwitch_targets sendBridge_def sendHub_def deliver_to_quit Let_def
        split: option.splits RouterMode.splits)
qed

lemma pool_inv_same:
  assumes "pool_inv w" and "poolServe w' = poolServe w" and "poolClients w' = poolClients w" and "poolRemoving w' = poolRemoving w"
    and "poolMax w' = poolMax w" and "\<forall>p \<in> set (pool_ports w). p \<in> set (ports (fst (poolNet w))) \<and> \<not> quitClosed (snd (poolNet w) p)
      \<longrightarrow> p \<in> set (ports (fst (poolNet w'))) \<and> \<not> quitClosed (snd (poolNet w') p)"
  shows "pool_inv w'"
proof -
  have "pool_ports w' = pool_ports w" "pool_conns w' = pool_conns w" using assms(2-4) by (simp_all add: pool_ports_def pool_conns_def)
  then show ?thesis using assms by (simp add: pool_inv_def)
qed

lemma pool_inv_accept: "pool_inv w \<Longrightarrow> poolServe w = ServeIdle \<Longrightarrow> c \<notin> set (pool_conns w) \<Longrightarrow> pool_inv (snd (add_check c w))"
  by (auto simp: pool_inv_def add_check_def clientLimitReached_def pool_conns_def pool_ports_def)

lemma pool_inv_register:
  "pool_inv w \<Longrightarrow> poolServe w = Checked c \<Longrightarrow> p \<notin> set (pool_ports w) \<Longrightarrow> p \<notin> set (ports (fst (poolNet w))) \<Longrightarrow>
     pool_inv (snd (add_register c p w))"
  by (cases "poolNet w")
    (auto simp: pool_inv_def add_register_def RegisterPort_def pool_conns_def pool_ports_def Port_start_def pool_port_def Let_def)

lemma update_nonkey: "c \<notin> fst ` set xs \<Longrightarrow> AList.update c v xs = xs @ [(c, v)]"
  by (induction xs) auto

lemma pool_inv_insert:
  assumes "pool_inv w" and "poolServe w = Registered c p"
  shows "pool_inv (add_insert c p w)"
proof -
  have "c \<notin> fst ` set (poolClients w)" using assms by (auto simp: pool_inv_def pool_conns_def)
  then have "AList.update c \<lparr>tcPort = p\<rparr> (poolClients w) = poolClients w @ [(c, \<lparr>tcPort = p\<rparr>)]" by (rule update_nonkey)
  then show ?thesis using assms by (auto simp: pool_inv_def add_insert_def pool_conns_def pool_ports_def)
qed

lemma delete_split:
  assumes "distinct (map fst xs)" and "map_of xs c = Some t"
  shows "\<exists>as bs. xs = as @ (c, t) # bs \<and> AList.delete c xs = as @ bs"
proof -
  obtain as bs where s: "xs = as @ (c, t) # bs" using map_of_SomeD [OF assms(2)] by (auto simp: in_set_conv_decomp)
  have "c \<notin> fst ` set as" "c \<notin> fst ` set bs" using assms(1) s by auto
  then show ?thesis using s by (intro exI [of _ as] exI [of _ bs]) (simp add: AList.delete_eq filter_id_conv image_iff Ball_def; force)
qed

lemma pool_inv_take: "pool_inv w \<Longrightarrow> pool_inv (remove_take c w)"
proof (cases "map_of (poolClients w) c")
  case (Some t)
  assume i: "pool_inv w"
  then have "distinct (map fst (poolClients w))" by (auto simp: pool_inv_def pool_conns_def)
  then obtain as bs where "poolClients w = as @ (c, t) # bs" "AList.delete c (poolClients w) = as @ bs"
    using delete_split Some by metis
  then show ?thesis using i Some by (auto simp: pool_inv_def remove_take_def pool_conns_def pool_ports_def)
qed (simp add: remove_take_def)

lemma pool_inv_finish:
  assumes "pool_inv w" and "ct \<in> set (poolRemoving w)" and "remove_finish ct w = Some (Ret w')"
  shows "pool_inv w'"
proof -
  obtain c t where ct: "ct = (c, t)" by (cases ct)
  obtain r h where n: "poolNet w = (r, h)" by (cases "poolNet w")
  obtain as bs where s: "poolRemoving w = as @ ct # bs" "ct \<notin> set as" using split_list_first [OF assms(2)] by blast
  have p: "tcPort t \<in> set (pool_ports w)" using s(1) ct by (auto simp: pool_ports_def)
  then have q: "tcPort t \<in> set (ports r)" "\<not> quitClosed (h (tcPort t))" using assms(1) n by (auto simp: pool_inv_def)
  obtain ph q' where w': "w' = w\<lparr>poolPhy := (poolPhy w)(c := ph), poolNet := (r\<lparr>ports := remove1 (tcPort t) (ports r)\<rparr>, h(tcPort t := q')),
      connClosed := insert c (connClosed w), poolRemoving := as @ bs\<rparr>"
    using assms(3) q n ct s by (auto simp: remove_finish_def UnregisterPort_def remove1_append split: option.splits outcome.splits)
  have d: "distinct (pool_ports w)" using assms(1) by (simp add: pool_inv_def)
  have "tcPort t \<notin> set (pool_ports w')" and "set (pool_ports w') \<subseteq> set (pool_ports w)"
    using d s ct by (auto simp: pool_ports_def w')
  moreover have "distinct (pool_ports w')" "distinct (pool_conns w')"
    using assms(1) s ct by (auto simp: pool_inv_def pool_ports_def pool_conns_def w')
  ultimately show ?thesis using assms(1) n by (auto simp: pool_inv_def w' in_set_remove1 dest: subsetD)
qed

lemma pool_step_inv: "pool_step U w w' \<Longrightarrow> pool_inv w \<Longrightarrow> pool_inv w'"
proof (induction rule: pool_step.induct)
  case (rx ct w)
  show ?case
    by (rule pool_inv_same [OF rx.prems]) (simp_all add: client_rx_def Router_Send_quit split: prod.splits list.splits)
next
  case (others w n)
  then show ?case by (intro pool_inv_same [OF others.prems]) auto
next
  case (stop ct w)
  show ?case by (rule pool_inv_same [OF stop.prems]) (simp_all add: remove_stop_def)
next
  case (driver w ph)
  show ?case by (rule pool_inv_same [OF driver.prems]) simp_all
qed (auto intro: pool_inv_accept pool_inv_register pool_inv_insert pool_inv_take pool_inv_finish)

definition pool_init :: "tcpPool \<Rightarrow> bool" where
  "pool_init w \<longleftrightarrow> (\<exists>n lim mode log ph. w = newTCPPool n lim mode log ph \<and> lim \<ge> 0)"

interpretation pool_sys: transition_system pool_init "pool_step U" pool_inv for U
proof
  show "pool_inv w" if "pool_init w" for w
    using that by (auto simp: pool_init_def newTCPPool_def pool_inv_def pool_conns_def pool_ports_def)
  show "pool_inv w \<Longrightarrow> pool_step U w w' \<Longrightarrow> pool_inv w'" for w w' by (rule pool_step_inv)
qed

section \<open>Properties\<close>

declare str_simps [simp del]

text \<open>C28: The pool of KISS clients. Whatever the accept loop, the goroutines of the clients, the shutdown and the
  other users of the router do in any order, the pool never has more clients than the limit, every
  client's port is registered with the router, and removing a client never panics.\<close>

theorem pool_safe:
  assumes "pool_init w" and "(pool_step U)\<^sup>*\<^sup>* w w'"
  shows "(poolMax w' > 0 \<longrightarrow> int (length (poolClients w')) \<le> poolMax w') \<and> distinct (map fst (poolClients w'))
    \<and> (\<forall>(c, t) \<in> set (poolClients w'). tcPort t \<in> set (ports (fst (poolNet w'))))
    \<and> (\<forall>ct \<in> set (poolRemoving w'). remove_finish ct w' \<noteq> Some Panic)"
proof -
  have i: "pool_inv w'" using pool_sys.reachable_inv assms by blast
  have "remove_finish ct w' \<noteq> Some Panic" if ct: "ct \<in> set (poolRemoving w')" for ct
  proof -
    have "tcPort (snd ct) \<in> set (pool_ports w')" using ct by (auto simp: pool_ports_def)
    then have "\<not> quitClosed (snd (poolNet w') (tcPort (snd ct)))" using i by (simp add: pool_inv_def)
    then show ?thesis
      by (auto simp: remove_finish_def UnregisterPort_def Port_stop_def split: prod.splits option.splits outcome.splits if_splits)
  qed
  moreover have "tcPort t \<in> set (ports (fst (poolNet w')))" if "(c, t) \<in> set (poolClients w')" for c t
  proof -
    have "tcPort t \<in> set (pool_ports w')" using that by (force simp: pool_ports_def)
    then show ?thesis using i by (simp add: pool_inv_def)
  qed
  moreover have "distinct (map fst (poolClients w'))" using i by (auto simp: pool_inv_def pool_conns_def)
  ultimately show ?thesis using i by (auto simp: pool_inv_def split: if_splits)
qed

theorem pool_safe_witness:
  "int (length (poolClients (snd (add_check 7 (newTCPPool (NewRouter None, \<lambda>_. pool_port PortModeDynamic) 1 PortModeDynamic False (\<lambda>_. pool_phy False)))))) \<le> 1"
proof -
  let ?w = "newTCPPool (NewRouter None, \<lambda>_. pool_port PortModeDynamic) 1 PortModeDynamic False (\<lambda>_. pool_phy False)"
  let ?U = "\<lparr>upper_unicode = id, fold_unicode = (=)\<rparr>"
  have "pool_init ?w" unfolding pool_init_def by (intro exI conjI, rule refl) simp
  moreover have "pool_step ?U ?w (snd (add_check 7 ?w))" by (rule pool_step.accept) (simp_all add: newTCPPool_def pool_conns_def)
  moreover have "poolMax (snd (add_check 7 ?w)) = 1" by (simp add: add_check_def newTCPPool_def clientLimitReached_def)
  ultimately show ?thesis using pool_safe [of ?w ?U "snd (add_check 7 ?w)"] by auto
qed

text \<open>Configurations the router refuses. The router starts only if at most one uplink is enabled, the client limits are not
  negative, the KISS server's clients are not promiscuous in bridge mode, and a capture log has a known type, a prefix and,
  for type kiss, an enabled transport that logs.\<close>

theorem settings_checked:
  assumes "read_settings V c = Ret (Inr s)"
  shows "\<not> (kissSerialEnabled s \<and> kissClientEnabled s) \<and> 0 \<le> kissMaxClients s \<and> 0 \<le> agwpeMaxClients s
    \<and> \<not> (kissServerEnabled s \<and> kissServerPromiscuous s \<and> routerMode s = RouterModeBridge)
    \<and> (monitorEnabled s \<longrightarrow> setMonitorType s \<in> {monitorTypeAX25, monitorTypeKISS} \<and> monitorPrefix s \<noteq> []
        \<and> (setMonitorType s = monitorTypeKISS \<longrightarrow> kissSerialEnabled s \<and> kissSerialLogFrames s
             \<or> kissClientEnabled s \<and> kissClientLogFrames s \<or> kissServerEnabled s \<and> kissServerLogFrames s))"
proof -
  have "check_monitor s = None" and "\<not> (kissSerialEnabled s \<and> kissClientEnabled s)" and "validateClientLimit KeyKissServerMaxClients (kissMaxClients s) = None"
    and "validateClientLimit KeyAgwpeServerMaxClients (agwpeMaxClients s) = None"
    and "\<not> (kissServerEnabled s \<and> kissServerPromiscuous s \<and> routerMode s = RouterModeBridge)"
    using assms unfolding read_settings_def and_then_Ret if_distrib
    by (force simp: and_then_Ret Let_def split: if_splits option.splits)+
  then show ?thesis by (auto simp: check_monitor_def validateClientLimit_def split: if_splits)
qed

text \<open>A router without a configuration file has no uplink and offers both servers.\<close>

definition default_settings :: router_settings where
  "default_settings = \<lparr>kissSerialEnabled = False, kissClientEnabled = False, serialDevice = str ''/dev/ttyUSB0'', serialBaud = 9600,
     kissClientHost = str ''localhost'', kissClientPort = 8100, kissServerEnabled = True, kissListenAddr = str '':8100'',
     kissMaxClients = 16, kissServerPromiscuous = False, routerMode = RouterModeSwitch, agwpeEnabled = True,
     agwpeAddr = str '':8000'', agwpeMaxClients = 16, setDigiCallsign = [], monitorEnabled = False, setMonitorType = str ''ax25'',
     monitorPrefix = str ''monitor'', kissSerialLogFrames = False, kissClientLogFrames = False, kissServerLogFrames = False\<rparr>"

lemma default_settings_read:
  assumes "viper_documented V env files lay" and "\<forall>k. env (env_var k) = None" and "c = NewConfig V load BBSConfigSchema"
  shows "read_settings V c = Ret (Inr default_settings)"
proof -
  have g: "Config_Get V c KeyKissSerialEnabled = Ret (str ''false'')" "Config_Get V c KeyKissClientEnabled = Ret (str ''false'')"
    "Config_Get V c KeyKissSerialDevice = Ret (str ''/dev/ttyUSB0'')" "Config_Get V c KeyKissSerialBaud = Ret (str ''9600'')"
    "Config_Get V c KeyKissClientHost = Ret (str ''localhost'')" "Config_Get V c KeyKissClientPort = Ret (str ''8100'')"
    "Config_Get V c KeyKissServerEnabled = Ret (str ''true'')" "Config_Get V c KeyKissServerAddr = Ret (str '':8100'')"
    "Config_Get V c KeyKissServerMaxClients = Ret (str ''16'')" "Config_Get V c KeyKissServerPromiscuous = Ret (str ''false'')"
    "Config_Get V c KeyRouterMode = Ret (str ''switch'')" "Config_Get V c KeyAgwpeServerEnabled = Ret (str ''true'')"
    "Config_Get V c KeyAgwpeServerAddr = Ret (str '':8000'')" "Config_Get V c KeyAgwpeServerMaxClients = Ret (str ''16'')"
    "Config_Get V c KeyDigiCallsign = Ret (str [])" "Config_Get V c KeyMonitorEnabled = Ret (str ''false'')"
    "Config_Get V c KeyMonitorType = Ret (str ''ax25'')" "Config_Get V c KeyMonitorPrefix = Ret (str ''monitor'')"
    "Config_Get V c KeyKissSerialLogFrames = Ret (str ''false'')" "Config_Get V c KeyKissClientLogFrames = Ret (str ''false'')"
    "Config_Get V c KeyKissServerLogFrames = Ret (str ''false'')"
    by (rule default_values [OF assms(1,2), of _ _ load, folded assms(3)], simp)+
  have n: "strconv_Atoi (str ''9600'') = Some 9600" by (simp add: strconv_Atoi_def is_digit_def str_simps)
  have b: "strconv_ParseBool (str ''true'') = Some True" "strconv_ParseBool (str ''false'') = Some False" "str [] = []"
    by (simp_all add: strconv_ParseBool_def str_def [of "[]"])
  show ?thesis
    by (simp add: read_settings_def GetBool_def GetStr_def GetInt_def g n b Atoi_defaults validateClientLimit_def RouterModeFromConfig_def
        check_monitor_def default_settings_def Let_def)
qed

theorem settings_checked_witness:
  "read_settings (plain_viper Map.empty (\<lambda>_. Inr [])) (NewConfig (plain_viper Map.empty (\<lambda>_. Inr [])) (\<lambda>_. Inr []) BBSConfigSchema) = Ret (Inr default_settings)
   \<and> 0 \<le> kissMaxClients default_settings"
proof -
  have r: "read_settings (plain_viper Map.empty (\<lambda>_. Inr [])) (NewConfig (plain_viper Map.empty (\<lambda>_. Inr [])) (\<lambda>_. Inr []) BBSConfigSchema)
      = Ret (Inr default_settings)"
    by (rule default_settings_read [OF plain_viper_documented _ refl]) simp
  then show ?thesis using settings_checked [OF r] by blast
qed

end
