(* ===== verification/Router_Start.thy ===== *)
theory Router_Start
  imports Router_Main Agwpe_Client
begin

text \<open>
  The rest of the router program, \<open>src/cmd/router/main.go\<close>: how \<open>main\<close> puts the router together from
  the settings it has read, the functions that join a driver to the router, and the loop that waits for
  signals. Opening devices, files and sockets is the operating system's work: what it returns is given
  (\<open>start_env\<close>). The lemmas show which ports a router that has started has, and that the pool of KISS
  clients starts in a state from which it is safe.
\<close>

declare str_simps [simp del]

section \<open>The parts of the program\<close>

text \<open>The port objects \<open>main\<close> makes. Those of the clients come later and are different.\<close>

definition monitor_port_id :: port_id where "monitor_port_id = 0"
definition digi_port_id :: port_id where "digi_port_id = 1"
definition serial_port_id :: port_id where "serial_port_id = 2"
definition client_port_id :: port_id where "client_port_id = 3"

lemmas port_ids = monitor_port_id_def digi_port_id_def serial_port_id_def client_port_id_def

record router_program =
  rpNet :: net
  rpFs :: fs
  rpMonitor :: "frameMonitor option"
  rpDigi :: "Digipeater option"
  rpSerial :: "KISSSerialPHY option"
  rpClient :: "(KISSTCPClientConfig \<times> KISSDecoder tcp_link) option"
  rpPool :: "tcpPool option"
  rpAgw :: "TCPServer option"

record start_env =
  envOs :: os_errors
  envSink :: sink
  envNow :: moment
  serialOpenErr :: "goerr option"
  kissListenErr :: "goerr option"
  agwListenErr :: "goerr option"

text \<open>A part of \<open>main\<close>: the message it ends with, or the program with one part more.\<close>

type_synonym start_result = "(string + router_program) outcome"

fun then_start :: "start_result \<Rightarrow> (router_program \<Rightarrow> start_result) \<Rightarrow> start_result" where
  "then_start (Ret (Inr p)) f = f p"
| "then_start r f = r"

text \<open>A new port is registered, or \<open>main\<close> ends with \<open>msg\<close>.\<close>

definition register_port :: "string \<Rightarrow> port_id \<Rightarrow> PortMode \<Rightarrow> router_program \<Rightarrow> start_result" where
  "register_port msg i mode p =
     (case rpNet p of (r, h) \<Rightarrow>
        case RegisterPort i r (h(i := pool_port mode)) of
          (Some e, n) \<Rightarrow> Ret (Inl msg)
        | (None, n) \<Rightarrow> Ret (Inr (p\<lparr>rpNet := n\<rparr>)))"

definition start_monitor :: "start_env \<Rightarrow> router_settings \<Rightarrow> router_program \<Rightarrow> start_result" where
  "start_monitor env s p =
     (if \<not> monitorEnabled s then Ret (Inr p)
      else case newFrameMonitor (envOs env) (envSink env) (envNow env) (setMonitorType s) (monitorPrefix s) (rpFs p) of
        (Inl e, F) \<Rightarrow> Ret (Inl ''start monitor'')
      | (Inr m, F) \<Rightarrow>
          let p = p\<lparr>rpFs := F, rpMonitor := Some m\<rparr>
          in if setMonitorType s = monitorTypeAX25 then register_port ''register monitor port'' monitor_port_id PortModePromiscuous p
             else Ret (Inr p))"

definition start_digi :: "'v viper \<Rightarrow> 'v Config \<Rightarrow> unicode \<Rightarrow> router_settings \<Rightarrow> router_program \<Rightarrow> start_result" where
  "start_digi V c U s p =
     (if setDigiCallsign s = [] then Ret (Inr p)
      else case DigiConfigFromConfig V c of
        Panic \<Rightarrow> Panic
      | Ret callsign \<Rightarrow>
          (case rpNet p of (r, h) \<Rightarrow>
             case NewDigipeater U callsign digi_port_id True r h of
               (Inl e, n) \<Rightarrow> Ret (Inl ''config error: digi.callsign'')
             | (Inr d, n) \<Rightarrow> Ret (Inr (p\<lparr>rpNet := n, rpDigi := Some d\<rparr>))))"

text \<open>A driver logs its KISS frames if the capture log is of type kiss and its \<open>log_frames\<close> is set.\<close>

definition logs_kiss :: "router_settings \<Rightarrow> bool \<Rightarrow> bool" where
  "logs_kiss s log_frames \<longleftrightarrow> monitorEnabled s \<and> setMonitorType s = monitorTypeKISS \<and> log_frames"

definition start_serial :: "'v viper \<Rightarrow> 'v Config \<Rightarrow> start_env \<Rightarrow> router_settings \<Rightarrow> router_program \<Rightarrow> start_result" where
  "start_serial V c env s p =
     (if \<not> kissSerialEnabled s then Ret (Inr p)
      else if serialOpenErr env \<noteq> None then Ret (Inl ''open serial port'')
      else case NewKISSSerialConfigFromConfig V c of
        Panic \<Rightarrow> Panic
      | Ret k \<Rightarrow>
          let log = logs_kiss s (kissSerialLogFrames s);
              k = k\<lparr>serialPort := True, serialOnRxKISS := log, serialOnTxKISS := log\<rparr>
          in case phy_NewKISSSerialPHY k of
               Inl e \<Rightarrow> Ret (Inl ''create serial PHY'')
             | Inr d \<Rightarrow> register_port ''register serial port'' serial_port_id PortModeDefault (p\<lparr>rpSerial := Some (Phy_Start d)\<rparr>))"

definition start_client :: "'v viper \<Rightarrow> 'v Config \<Rightarrow> router_settings \<Rightarrow> router_program \<Rightarrow> start_result" where
  "start_client V c s p =
     (if \<not> kissClientEnabled s then Ret (Inr p)
      else case NewKISSTCPClientConfigFromConfig V c of
        Panic \<Rightarrow> Panic
      | Ret k \<Rightarrow>
          let log = logs_kiss s (kissClientLogFrames s)
          in case NewKISSTCPClientPHY (k\<lparr>tcpOnRxKISS := log, tcpOnTxKISS := log, tcpOnRxFrame := True\<rparr>) of
               Panic \<Rightarrow> Panic
             | Ret (Inl e) \<Rightarrow> Ret (Inl ''create KISS TCP client PHY'')
             | Ret (Inr (k, l)) \<Rightarrow>
                 register_port ''register KISS TCP client port'' client_port_id PortModeDefault (p\<lparr>rpClient := Some (k, link_Start l)\<rparr>))"

definition start_pool :: "start_env \<Rightarrow> router_settings \<Rightarrow> router_program \<Rightarrow> start_result" where
  "start_pool env s p =
     (if \<not> kissServerEnabled s then Ret (Inr p)
      else if kissListenErr env \<noteq> None then Ret (Inl ''listen KISS TCP'')
      else Ret (Inr (p\<lparr>rpPool := Some (newTCPPool (rpNet p) (kissMaxClients s)
          (if kissServerPromiscuous s then PortModePromiscuous else PortModeDynamic) (logs_kiss s (kissServerLogFrames s))
          (\<lambda>_. pool_phy False))\<rparr>)))"

definition start_agwpe :: "'v viper \<Rightarrow> 'v Config \<Rightarrow> start_env \<Rightarrow> router_settings \<Rightarrow> router_program \<Rightarrow> start_result" where
  "start_agwpe V c env s p =
     (if \<not> agwpeEnabled s then Ret (Inr p)
      else case NewServerConfigFromConfig V c of
        Panic \<Rightarrow> Panic
      | Ret k \<Rightarrow>
          (case TCPServer_Start (agwListenErr env) (NewTCPServer \<lparr>lAddr = agwpeAddr s, MaxClients = agwpeMaxClients s, lServerConfig = k\<rparr>) of
             (Some e, t) \<Rightarrow> Ret (Inl ''start AGWPE server'')
           | (None, t) \<Rightarrow> Ret (Inr (p\<lparr>rpAgw := Some t\<rparr>))))"

text \<open>\<open>main\<close> from the checks of the settings to the wait for signals: the state as \<open>main\<close> itself leaves it. The goroutines it
  starts on the way (the accept loop of the pool, the readers of the drivers, the workers of the ports) may take turns before it is
  there; their turns are the steps of \<open>Router_Main\<close>, \<open>Router_Conc\<close> and the drivers and not part of this definition. \<open>h\<close> is the store before any port object is made.\<close>

definition new_program :: "router_settings \<Rightarrow> port_store \<Rightarrow> fs \<Rightarrow> router_program" where
  "new_program s h F = \<lparr>rpNet = (NewRouter (Some (routerMode s)), h), rpFs = F, rpMonitor = None, rpDigi = None, rpSerial = None,
     rpClient = None, rpPool = None, rpAgw = None\<rparr>"

definition start_router ::
  "'v viper \<Rightarrow> unicode \<Rightarrow> start_env \<Rightarrow> 'v Config \<Rightarrow> port_store \<Rightarrow> fs \<Rightarrow> start_result" where
  "start_router V U env c h F =
     (case read_settings V c of
        Panic \<Rightarrow> Panic
      | Ret (Inl msg) \<Rightarrow> Ret (Inl msg)
      | Ret (Inr s) \<Rightarrow>
          then_start (then_start (then_start (then_start (then_start (start_monitor env s (new_program s h F))
            (start_digi V c U s)) (start_serial V c env s)) (start_client V c s)) (start_pool env s)) (start_agwpe V c env s))"

section \<open>Running\<close>

text \<open>The callback of the serial driver's port, and a turn of the goroutine that reads the driver. Errors only
  reach the log.\<close>

definition serial_tx :: "unicode \<Rightarrow> Frame \<Rightarrow> KISSSerialPHY \<Rightarrow> KISSSerialPHY" where
  "serial_tx U f d = snd (snd (SendFrame U f d))"

definition serial_rx :: "unicode \<Rightarrow> KISSSerialPHY \<Rightarrow> net \<Rightarrow> KISSSerialPHY \<times> net" where
  "serial_rx U d n =
     (case rxCh d of
        [] \<Rightarrow> (d, n)
      | f # fs \<Rightarrow> (d\<lparr>rxCh := fs\<rparr>, fst n, snd (Router_Send U (Some f) (Some serial_port_id) (fst n) (snd n))))"

text \<open>The same for the KISS TCP client, whose \<open>OnRxFrame\<close> sends to the router.\<close>

definition client_tx :: "unicode \<Rightarrow> KISSTCPClientConfig \<Rightarrow> Frame \<Rightarrow> KISSDecoder tcp_link \<Rightarrow> KISSDecoder tcp_link" where
  "client_tx U c f l = snd (KISSTCPClient_Send U c (Some f) l)"

definition uplink_rx :: "unicode \<Rightarrow> Frame \<Rightarrow> net \<Rightarrow> net" where
  "uplink_rx U f n = (fst n, snd (Router_Send U (Some f) (Some client_port_id) (fst n) (snd n)))"

text \<open>A frame at the digipeater's port: what the digipeater sends on goes to the router from this port.\<close>

definition digi_rx :: "unicode \<Rightarrow> Digipeater \<Rightarrow> Frame \<Rightarrow> net \<Rightarrow> net" where
  "digi_rx U d f n = fold (\<lambda>g (r, h). (r, snd (Router_Send U (Some g) (Digipeater_Port d) r h))) (onFrame U d f) n"

text \<open>The callback of the capture log's port.\<close>

definition monitor_rx :: "unicode \<Rightarrow> sink \<Rightarrow> moment \<Rightarrow> Frame \<Rightarrow> fs \<times> frameMonitor \<Rightarrow> fs" where
  "monitor_rx U w now f s = snd (LogAX25 U w now (Some f) s)"

text \<open>The loop that waits for signals: SIGHUP rotates the capture log, if there is one, and any other signal
  ends the loop. The clock and the operating system are given for each signal.\<close>

datatype router_signal = SIGHUP | SIGINT | SIGTERM

fun signal_loop :: "(router_signal \<times> os_errors \<times> sink \<times> moment) list \<Rightarrow> fs \<times> frameMonitor option \<Rightarrow> bool \<times> fs \<times> frameMonitor option" where
  "signal_loop [] (F, m) = (False, F, m)"
| "signal_loop ((SIGHUP, os, w, now) # sigs) (F, None) = signal_loop sigs (F, None)"
| "signal_loop ((SIGHUP, os, w, now) # sigs) (F, Some m) =
     (case RotateSIGHUP os w now (F, m) of (err, F, m) \<Rightarrow> signal_loop sigs (F, Some m))"
| "signal_loop (_ # sigs) (F, m) = (True, F, m)"

section \<open>Lemmas\<close>

text \<open>The router has exactly the given ports, with these modes and with live workers.\<close>

definition has_ports :: "(port_id \<times> PortMode) list \<Rightarrow> RouterMode \<Rightarrow> net \<Rightarrow> bool" where
  "has_ports ids mode n \<longleftrightarrow> ports (fst n) = map fst ids \<and> distinct (map fst ids) \<and> \<not> closed (fst n)
     \<and> rMode (fst n) = mode \<and> (\<forall>i. port_ok (snd n i))
     \<and> (\<forall>(i, m) \<in> set ids. pMode (snd n i) = m \<and> started (snd n i) \<and> running (snd n i))"

lemma has_ports_register:
  assumes "has_ports ids mode (r, h)" and "i \<notin> fst ` set ids" and "port_ok q" and "\<not> started q" and "\<not> quitClosed q"
  shows "\<exists>n. RegisterPort i r (h(i := q)) = (None, n) \<and> has_ports (ids @ [(i, pMode q)]) mode n"
proof -
  have "port_ok (Port_start defaultPortQueueDepth q)" using assms(3) by (rule port_ok_start)
  moreover have "started (Port_start defaultPortQueueDepth q)" "running (Port_start defaultPortQueueDepth q)"
    "pMode (Port_start defaultPortQueueDepth q) = pMode q" using assms(4) by (simp_all add: Port_start_def Let_def)
  moreover have "m \<noteq> i" if "(m, x) \<in> set ids" for m x using that assms(2) by force
  ultimately show ?thesis using assms(1,2) by (auto simp: has_ports_def RegisterPort_def)
qed

lemma literal_ports: "port_ok (pool_port mode)" "\<not> started (pool_port mode)" "\<not> quitClosed (pool_port mode)" "pMode (pool_port mode) = mode"
  "port_ok (digi_port a)" "\<not> started (digi_port a)" "\<not> quitClosed (digi_port a)" "pMode (digi_port a) = PortModeDigipeater"
  by (simp_all add: port_ok_def pool_port_def digi_port_def)

lemma register_adds:
  assumes "register_port msg i m p = Ret (Inr p')" and "has_ports ids mode (rpNet p)" and "i \<notin> fst ` set ids"
  shows "has_ports (ids @ [(i, m)]) mode (rpNet p')"
proof -
  obtain r h where n: "rpNet p = (r, h)" by (cases "rpNet p")
  then obtain n' where "RegisterPort i r (h(i := pool_port m)) = (None, n')" "has_ports (ids @ [(i, m)]) mode n'"
    using has_ports_register [OF assms(2) [unfolded n] assms(3) literal_ports(1-3) [of m]] unfolding literal_ports(4) by blast
  then show ?thesis using assms(1) n by (auto simp: register_port_def)
qed

lemma start_monitor_adds:
  assumes "start_monitor env s p = Ret (Inr p')" and "has_ports ids mode (rpNet p)" and "monitor_port_id \<notin> fst ` set ids"
  shows "has_ports (ids @ (if monitorEnabled s \<and> setMonitorType s = monitorTypeAX25 then [(monitor_port_id, PortModePromiscuous)] else [])) mode (rpNet p')"
  using assms by (auto simp: start_monitor_def Let_def split: if_splits prod.splits sum.splits dest!: register_adds)

lemma start_digi_adds:
  assumes "start_digi V c U s p = Ret (Inr p')" and "has_ports ids mode (rpNet p)" and "digi_port_id \<notin> fst ` set ids"
    and "GetStr V c KeyDigiCallsign = Ret (setDigiCallsign s)"
  shows "has_ports (ids @ (if setDigiCallsign s \<noteq> [] then [(digi_port_id, PortModeDigipeater)] else [])) mode (rpNet p')"
proof (cases "setDigiCallsign s = []")
  case False
  obtain r h where n: "rpNet p = (r, h)" by (cases "rpNet p")
  obtain a where a: "ParseAddress U (setDigiCallsign s) = Inr a"
    using assms(1,4) False n by (cases "ParseAddress U (setDigiCallsign s)") (auto simp: start_digi_def DigiConfigFromConfig_def NewDigipeater_def Let_def)
  obtain n' where "RegisterPort digi_port_id r (h(digi_port_id := digi_port a)) = (None, n')" "has_ports (ids @ [(digi_port_id, PortModeDigipeater)]) mode n'"
    using has_ports_register [OF assms(2) [unfolded n] assms(3) literal_ports(5-7) [of a]] unfolding literal_ports(8) by blast
  then show ?thesis using assms(1,4) False n a by (auto simp: start_digi_def DigiConfigFromConfig_def NewDigipeater_def Let_def split: prod.splits)
qed (use assms(1,2) in \<open>simp add: start_digi_def\<close>)

lemma start_serial_adds:
  assumes "start_serial V c env s p = Ret (Inr p')" and "has_ports ids mode (rpNet p)" and "serial_port_id \<notin> fst ` set ids"
  shows "has_ports (ids @ (if kissSerialEnabled s then [(serial_port_id, PortModeDefault)] else [])) mode (rpNet p')"
  using assms by (auto simp: start_serial_def Let_def split: if_splits outcome.splits sum.splits dest!: register_adds)

lemma start_client_adds:
  assumes "start_client V c s p = Ret (Inr p')" and "has_ports ids mode (rpNet p)" and "client_port_id \<notin> fst ` set ids"
  shows "has_ports (ids @ (if kissClientEnabled s then [(client_port_id, PortModeDefault)] else [])) mode (rpNet p')"
  using assms by (auto simp: start_client_def Let_def split: if_splits outcome.splits sum.splits dest!: register_adds)

lemma start_pool_adds:
  assumes "start_pool env s p = Ret (Inr p')" and "0 \<le> kissMaxClients s"
  shows "rpNet p' = rpNet p"
    and "kissServerEnabled s \<longrightarrow> (\<exists>w. rpPool p' = Some w \<and> pool_init w \<and> poolNet w = rpNet p' \<and> poolMax w = kissMaxClients s)"
  using assms by (auto simp: start_pool_def pool_init_def newTCPPool_def split: if_splits)

lemma start_agwpe_adds:
  assumes "start_agwpe V c env s p = Ret (Inr p')"
  shows "rpNet p' = rpNet p" and "rpPool p' = rpPool p"
    and "agwpeEnabled s \<longrightarrow> (\<exists>t. rpAgw p' = Some t \<and> listening t \<and> MaxClients (tcpCfg t) = agwpeMaxClients s)"
  using assms by (auto simp: start_agwpe_def TCPServer_Start_def NewTCPServer_def split: if_splits outcome.splits prod.splits option.splits)

lemma then_start_Ret: "then_start r f = Ret (Inr p) \<longleftrightarrow> (\<exists>q. r = Ret (Inr q) \<and> f q = Ret (Inr p))"
  by (cases "(r, f)" rule: then_start.cases) auto

lemma read_settings_digi: "read_settings V c = Ret (Inr s) \<Longrightarrow> GetStr V c KeyDigiCallsign = Ret (setDigiCallsign s)"
  unfolding read_settings_def and_then_Ret if_distrib by (force simp: and_then_Ret Let_def split: if_splits option.splits)

section \<open>Properties\<close>

text \<open>C29: The router that has started. If \<open>main\<close> gets to the wait for signals, the ports it has registered, before any client connects, are exactly
  those the settings ask for: a
  promiscuous one for a capture log of type ax25, one for the digipeater, and one default port for the uplink, which is serial or
  a TCP client but not both; all their workers run. If the KISS server is enabled, its pool works on this router and starts in
  a state from which every run is safe, and if the AGWPE server is enabled it listens, with the limit set for it.\<close>

theorem router_started:
  assumes "start_router V U env c h F = Ret (Inr p)" and "\<forall>i. fresh_port (h i)"
  shows "\<exists>s. read_settings V c = Ret (Inr s)
    \<and> map (\<lambda>i. (i, pMode (snd (rpNet p) i))) (ports (fst (rpNet p))) =
        (if monitorEnabled s \<and> setMonitorType s = monitorTypeAX25 then [(monitor_port_id, PortModePromiscuous)] else [])
        @ (if setDigiCallsign s \<noteq> [] then [(digi_port_id, PortModeDigipeater)] else [])
        @ (if kissSerialEnabled s then [(serial_port_id, PortModeDefault)] else [])
        @ (if kissClientEnabled s then [(client_port_id, PortModeDefault)] else [])
    \<and> \<not> (kissSerialEnabled s \<and> kissClientEnabled s)
    \<and> rMode (fst (rpNet p)) = routerMode s \<and> router_ok (fst (rpNet p)) (snd (rpNet p))
    \<and> (\<forall>i \<in> set (ports (fst (rpNet p))). running (snd (rpNet p) i))
    \<and> (kissServerEnabled s \<longrightarrow> (\<exists>w. rpPool p = Some w \<and> pool_init w \<and> poolNet w = rpNet p \<and> poolMax w = kissMaxClients s))
    \<and> (agwpeEnabled s \<longrightarrow> (\<exists>t. rpAgw p = Some t \<and> listening t \<and> MaxClients (tcpCfg t) = agwpeMaxClients s))"
proof -
  obtain s where s: "read_settings V c = Ret (Inr s)"
    using assms(1) by (auto simp: start_router_def split: outcome.splits sum.splits)
  obtain p1 p2 p3 p4 p5 where p: "start_monitor env s (new_program s h F) = Ret (Inr p1)" "start_digi V c U s p1 = Ret (Inr p2)"
    "start_serial V c env s p2 = Ret (Inr p3)" "start_client V c s p3 = Ret (Inr p4)" "start_pool env s p4 = Ret (Inr p5)"
    "start_agwpe V c env s p5 = Ret (Inr p)"
    using assms(1) s by (auto simp: start_router_def then_start_Ret)
  have lim: "0 \<le> kissMaxClients s" "\<not> (kissSerialEnabled s \<and> kissClientEnabled s)" using settings_checked [OF s] by auto
  let ?m = "if monitorEnabled s \<and> setMonitorType s = monitorTypeAX25 then [(monitor_port_id, PortModePromiscuous)] else []"
  let ?d = "if setDigiCallsign s \<noteq> [] then [(digi_port_id, PortModeDigipeater)] else []"
  let ?s = "if kissSerialEnabled s then [(serial_port_id, PortModeDefault)] else []"
  let ?c = "if kissClientEnabled s then [(client_port_id, PortModeDefault)] else []"
  have "has_ports [] (routerMode s) (rpNet (new_program s h F))"
    using assms(2) by (simp add: has_ports_def new_program_def NewRouter_def fresh_port_def port_ok_def)
  from start_monitor_adds [OF p(1) this] have h1: "has_ports ?m (routerMode s) (rpNet p1)" by simp
  have h2: "has_ports (?m @ ?d) (routerMode s) (rpNet p2)"
    by (rule start_digi_adds [OF p(2) h1 _ read_settings_digi [OF s]]) (auto simp: port_ids)
  have h3: "has_ports ((?m @ ?d) @ ?s) (routerMode s) (rpNet p3)"
    by (rule start_serial_adds [OF p(3) h2]) (auto simp: port_ids)
  have "has_ports (((?m @ ?d) @ ?s) @ ?c) (routerMode s) (rpNet p4)"
    by (rule start_client_adds [OF p(4) h3]) (auto simp: port_ids)
  moreover have n: "rpNet p4 = rpNet p" using start_pool_adds(1) [OF p(5) lim(1)] start_agwpe_adds(1) [OF p(6)] by simp
  ultimately have h: "has_ports (?m @ ?d @ ?s @ ?c) (routerMode s) (rpNet p)" unfolding append_assoc by simp
  have pool: "kissServerEnabled s \<longrightarrow> (\<exists>w. rpPool p = Some w \<and> pool_init w \<and> poolNet w = rpNet p \<and> poolMax w = kissMaxClients s)"
    using start_pool_adds(2) [OF p(5) lim(1)] start_agwpe_adds(1,2) [OF p(6)] by simp
  have modes: "map (\<lambda>i. (i, pMode (snd (rpNet p) i))) (ports (fst (rpNet p))) = ?m @ ?d @ ?s @ ?c"
  proof -
    have "map (\<lambda>i. (i, pMode (snd (rpNet p) i))) (map fst ids) = ids" if "has_ports ids mode (rpNet p)" for ids mode
      using that by (auto simp: has_ports_def intro!: map_idI)
    from this [OF h] h show ?thesis by (simp only: has_ports_def)
  qed
  have "router_ok (fst (rpNet p)) (snd (rpNet p))" "\<forall>i \<in> set (ports (fst (rpNet p))). running (snd (rpNet p) i)" "rMode (fst (rpNet p)) = routerMode s"
    using h by (force simp: has_ports_def router_ok_def)+
  then show ?thesis using s modes lim(2) pool start_agwpe_adds(3) [OF p(6)] by blast
qed

text \<open>A router without a configuration file.\<close>

definition quiet_env :: start_env where
  "quiet_env = \<lparr>envOs = \<lparr>statErr = \<lambda>_. None, openErr = \<lambda>_. None\<rparr>, envSink = \<lambda>_. None, envNow = \<lparr>day = [], sec = 0, nsec = 0\<rparr>,
     serialOpenErr = None, kissListenErr = None, agwListenErr = None\<rparr>"

abbreviation empty_viper :: "layers viper" where
  "empty_viper \<equiv> plain_viper Map.empty (\<lambda>_. Inr [])"

theorem router_started_witness:
  "\<exists>p w. start_router empty_viper \<lparr>upper_unicode = id, fold_unicode = (=)\<rparr> quiet_env (NewConfig empty_viper (\<lambda>_. Inr []) BBSConfigSchema)
      (\<lambda>_. pool_port PortModeDynamic) Map.empty = Ret (Inr p) \<and> ports (fst (rpNet p)) = [] \<and> rpPool p = Some w \<and> pool_init w \<and> poolMax w = 16"
proof -
  let ?U = "\<lparr>upper_unicode = id, fold_unicode = (=)\<rparr>" and ?c = "NewConfig empty_viper (\<lambda>_. Inr []) BBSConfigSchema"
  let ?h = "\<lambda>_ :: nat. pool_port PortModeDynamic"
  have d: "read_settings empty_viper ?c = Ret (Inr default_settings)"
    by (rule default_settings_read [OF plain_viper_documented _ refl]) simp
  have srv: "\<exists>k. NewServerConfigFromConfig empty_viper ?c = Ret k"
    using default_gets(6-8) [OF plain_viper_documented [of Map.empty "\<lambda>_. Inr []"] _ refl]
    by (simp add: NewServerConfigFromConfig_def GetInt_def Atoi_defaults)
  have addr: "str '':8000'' \<noteq> []" by (simp add: str_simps)
  obtain p where p: "start_router empty_viper ?U quiet_env ?c ?h Map.empty = Ret (Inr p)"
    using srv addr by (auto simp: start_router_def d default_settings_def start_monitor_def start_digi_def start_serial_def start_client_def start_pool_def
        start_agwpe_def quiet_env_def TCPServer_Start_def NewTCPServer_def)
  have fresh: "\<forall>i. fresh_port (?h i)" by (simp add: fresh_port_def pool_port_def)
  obtain s where s: "read_settings empty_viper ?c = Ret (Inr s)" "map (\<lambda>i. (i, pMode (snd (rpNet p) i))) (ports (fst (rpNet p))) =
        (if monitorEnabled s \<and> setMonitorType s = monitorTypeAX25 then [(monitor_port_id, PortModePromiscuous)] else [])
        @ (if setDigiCallsign s \<noteq> [] then [(digi_port_id, PortModeDigipeater)] else [])
        @ (if kissSerialEnabled s then [(serial_port_id, PortModeDefault)] else [])
        @ (if kissClientEnabled s then [(client_port_id, PortModeDefault)] else [])"
    "kissServerEnabled s \<longrightarrow> (\<exists>w. rpPool p = Some w \<and> pool_init w \<and> poolNet w = rpNet p \<and> poolMax w = kissMaxClients s)"
    using router_started [OF p fresh] by blast
  have "s = default_settings" using d s(1) by simp
  then show ?thesis using p s(2,3) by (auto simp: default_settings_def)
qed

text \<open>C39: When the uplink gets what the router's digipeater relays. Let a frame for which the digipeater is the next hop come to its port. In bridge
  and hub mode the uplink gets the frame, with the hop marked. In switch mode, the default, it gets it only if that was the last hop to take and
  no local port has the frame's destination: with more hops to take the router holds the relayed frame back from default ports, so the digipeater does
  not pass it on to the next one.\<close>

theorem digi_reaches_uplink:
  assumes "rMode r \<in> {RouterModeSwitch, RouterModeBridge, RouterModeHub}" and "\<not> closed r" and "distinct (ports r)"
    and "u \<in> set (ports r)" and "pMode (h u) = PortModeDefault" and "Digipeater_Port d = Some dp" and "pMode (h dp) = PortModeDigipeater"
    and "isNextDigiHop U f (digiAddr d)"
  shows "snd (digi_rx U d f (r, h)) u =
    (if rMode r \<noteq> RouterModeSwitch \<or> pending_hops (Digipeaters f) = 1 \<and> (\<forall>q \<in> set (ports r) - {dp}. \<not> addressed_to U f (h q))
     then fst (Port_deliver (markDigiHop U f (digiAddr d)) (h u)) else h u)"
proof -
  let ?g = "markDigiHop U f (digiAddr d)"
  have u: "u \<noteq> dp" using assms(5,7) by auto
  have "pending_hops (Digipeaters f) = Suc (pending_hops (Digipeaters ?g))"
    using markHop_pending assms(8) by (simp add: isNextDigiHop_def markDigiHop_def)
  then have p: "hasUnrepeatedDigi ?g \<longleftrightarrow> pending_hops (Digipeaters f) \<noteq> 1"
    by (simp add: hasUnrepeatedDigi_def hasUnrepeated_pending)
  have a: "addressed_to U ?g (h q) = addressed_to U f (h q)" for q by (simp add: addressed_to_def markDigiHop_def)
  have e: "snd (digi_rx U d f (r, h)) = snd (Router_Send U (Some ?g) (Some dp) r h)"
    using assms(6,8) by (simp add: digi_rx_def onFrame_def)
  consider "rMode r = RouterModeSwitch" | "rMode r = RouterModeBridge" | "rMode r = RouterModeHub" using assms(1) by auto
  then show ?thesis
  proof cases
    case 1
    then have "snd (digi_rx U d f (r, h)) u = sendSwitch U ?g dp (ports r) h u" unfolding e using assms(2) by (simp add: Router_Send_def)
    also have "\<dots> = (if \<not> hasUnrepeatedDigi ?g \<and> (\<forall>q \<in> set (ports r) - {dp}. \<not> addressed_to U ?g (h q)) then fst (Port_deliver ?g (h u)) else h u)"
      using switch_selects [OF assms(3) u, of U ?g h] assms(4,5) by simp
    finally show ?thesis using p a 1 by simp
  next
    case 2
    then show ?thesis unfolding e using assms(2-5,7) u
      by (simp add: Router_Send_def sendBridge_targets [where U = U] targets_def deliver_to_distinct)
  next
    case 3
    then show ?thesis unfolding e using assms(2-4) u by (simp add: Router_Send_def sendHub_def deliver_to_distinct)
  qed
qed

theorem digi_reaches_uplink_witness:
  "let f = sample_frame\<lparr>Digipeaters := [N7GET_5, N7GET_5\<lparr>SSID := 6\<rparr>]\<rparr>; U = \<lparr>upper_unicode = id, fold_unicode = (=)\<rparr>;
       h = (\<lambda>i. pool_port (if i = 1 then PortModeDigipeater else PortModeDefault))
   in snd (digi_rx U (relay\<lparr>digiPort := Some 1\<rparr>) f (\<lparr>rMode = RouterModeSwitch, ports = [1, 2], closed = False\<rparr>, h)) 2 = h 2
     \<and> snd (digi_rx U (relay\<lparr>digiPort := Some 1\<rparr>) f (\<lparr>rMode = RouterModeBridge, ports = [1, 2], closed = False\<rparr>, h)) 2
        = fst (Port_deliver (markDigiHop U f (digiAddr relay)) (h 2))"
proof -
  let ?U = "\<lparr>upper_unicode = id, fold_unicode = (=)\<rparr>" and ?f = "sample_frame\<lparr>Digipeaters := [N7GET_5, N7GET_5\<lparr>SSID := 6\<rparr>]\<rparr>"
  let ?h = "\<lambda>i :: nat. pool_port (if i = 1 then PortModeDigipeater else PortModeDefault)" and ?d = "relay\<lparr>digiPort := Some 1\<rparr>"
  let ?r = "\<lambda>m. \<lparr>rMode = m, ports = [1, 2 :: nat], closed = False\<rparr>"
  have n: "isNextDigiHop ?U ?f (digiAddr ?d)"
    by (simp add: isNextDigiHop_def relay_def N7GET_5_def Address_Equal_def strings_EqualFold_def is_ascii_def str_simps)
  have p: "pending_hops (Digipeaters ?f) = 2" by (simp add: pending_hops_def N7GET_5_def)
  have "snd (digi_rx ?U ?d ?f (?r m, ?h)) 2 = (if m \<noteq> RouterModeSwitch then fst (Port_deliver (markDigiHop ?U ?f (digiAddr ?d)) (?h 2)) else ?h 2)"
    if "m \<in> {RouterModeSwitch, RouterModeBridge, RouterModeHub}" for m
    using digi_reaches_uplink [where u = 2 and h = ?h and r = "?r m", OF _ _ _ _ _ _ _ n] that p by (simp add: Digipeater_Port_def pool_port_def)
  from this [of RouterModeSwitch] this [of RouterModeBridge] show ?thesis by (simp add: Let_def)
qed

end
