(* ===== verification/Monitor_Clock.thy ===== *)
theory Monitor_Clock
  imports Router_Monitor
begin

text \<open>
  The clock of \<open>src/cmd/router/monitor.go\<close>: \<open>yymmdd\<close>, \<open>nextMidnight\<close> and the goroutine \<open>midnightLoop\<close>
  that changes the capture file at midnight. Of Go's package \<open>time\<close> the calendar functions \<open>Time.Date\<close> and \<open>time.Date\<close> are
  modelled as the library computes them, over a location that is the offset from UTC at the beginning of time and the later changes of it.
  The lemmas show that the calendar is right (a date names its day and the next day has another one) and what the
  loop does at midnight, also where a change to summer time leaves midnight out.
\<close>

section \<open>The calendar of package time\<close>

definition isLeap :: "int \<Rightarrow> bool" where
  "isLeap y \<longleftrightarrow> y mod 4 = 0 \<and> (y mod 100 \<noteq> 0 \<or> y mod 400 = 0)"

definition daysBefore :: "nat list" where
  "daysBefore = [0, 31, 59, 90, 120, 151, 181, 212, 243, 273, 304, 334, 365]"

text \<open>The year of a day, counted from the first day of the year 1, and the days of the year before it; the last cycle of 100 years and the last
  year of four are one day longer, which \<open>n div 4\<close> corrects.\<close>

definition absYear :: "int \<Rightarrow> int \<times> int" where
  "absYear d =
     (let n400 = d div 146097; d = d mod 146097;
          n = d div 36524; n100 = n - n div 4; d = d - 36524 * n100;
          n4 = d div 1461; d = d mod 1461;
          n = d div 365; n1 = n - n div 4
      in (400 * n400 + 100 * n100 + 4 * n4 + n1 + 1, d - 365 * n1))"

definition month_day :: "bool \<Rightarrow> nat \<Rightarrow> nat \<times> nat" where
  "month_day leap d =
     (if leap \<and> d = 59 then (2, 29)
      else
        let d = (if leap \<and> 59 < d then d - 1 else d); m = d div 31
        in if d \<ge> daysBefore ! (m + 1) then (m + 2, d - daysBefore ! (m + 1) + 1) else (m + 1, d - daysBefore ! m + 1))"

definition absDate :: "int \<Rightarrow> int \<times> nat \<times> nat" where
  "absDate d = (case absYear d of (y, yday) \<Rightarrow> (y, month_day (isLeap y) (nat yday)))"

text \<open>The day of a date; the day of the month may lie beyond the month's end.\<close>

definition daysSinceEpoch :: "int \<Rightarrow> int" where
  "daysSinceEpoch year =
     (let y = year - 1; n400 = y div 400; y = y mod 400; n100 = y div 100; y = y mod 100; n4 = y div 4; y = y mod 4
      in 146097 * n400 + 36524 * n100 + 1461 * n4 + 365 * y)"

definition civilDay :: "int \<Rightarrow> nat \<Rightarrow> nat \<Rightarrow> int" where
  "civilDay y m d = daysSinceEpoch y + int (daysBefore ! (m - 1)) + (if isLeap y \<and> m \<ge> 3 then 1 else 0) + int d - 1"

text \<open>The first day of 1970.\<close>

definition unixDay :: int where "unixDay = 719162"
definition secondsPerDay :: int where "secondsPerDay = 86400"

text \<open>A location, and the zone in force at a time with its first second and the first one after it.\<close>

type_synonym location = "int \<times> (int \<times> int) list"

fun zone_lookup :: "int option \<Rightarrow> int \<Rightarrow> (int \<times> int) list \<Rightarrow> int \<Rightarrow> int \<times> int option \<times> int option" where
  "zone_lookup start off [] s = (off, start, None)"
| "zone_lookup start off ((w, off') # ts) s = (if s < w then (off, start, Some w) else zone_lookup (Some w) off' ts s)"

definition loc_lookup :: "location \<Rightarrow> int \<Rightarrow> int \<times> int option \<times> int option" where
  "loc_lookup loc s = zone_lookup None (fst loc) (snd loc) s"

definition zone_offset :: "location \<Rightarrow> int \<Rightarrow> int" where
  "zone_offset loc s = fst (loc_lookup loc s)"

definition local_day :: "location \<Rightarrow> int \<Rightarrow> int" where
  "local_day loc s = (s + zone_offset loc s) div secondsPerDay + unixDay"

definition Time_Date :: "location \<Rightarrow> int \<Rightarrow> int \<times> nat \<times> nat" where
  "Time_Date loc s = absDate (local_day loc s)"

text \<open>\<open>time.Date\<close> at midnight: the offset is looked up as if the time were UTC, and once more if it leads out of its zone.\<close>

definition time_Date :: "int \<Rightarrow> nat \<Rightarrow> nat \<Rightarrow> location \<Rightarrow> int" where
  "time_Date y m d loc =
     (let unix = (civilDay y m d - unixDay) * secondsPerDay
      in case loc_lookup loc unix of (off, start, end') \<Rightarrow>
           if off = 0 then unix
           else
             let utc = unix - off
             in if (case start of None \<Rightarrow> False | Some a \<Rightarrow> utc < a) \<or> (case end' of None \<Rightarrow> False | Some b \<Rightarrow> b \<le> utc)
                then unix - zone_offset loc utc else utc)"

section \<open>The clock of the capture log\<close>

definition yymmdd :: "location \<Rightarrow> int \<Rightarrow> gostring" where
  "yymmdd loc s =
     (case Time_Date loc s of (y, m, d) \<Rightarrow> fmt_02d (nat (if y < 0 then 0 else y mod 100)) @ fmt_02d m @ fmt_02d d)"

definition nextMidnight :: "location \<Rightarrow> int \<Rightarrow> int" where
  "nextMidnight loc s = (case Time_Date loc s of (y, m, d) \<Rightarrow> time_Date y m (d + 1) loc)"

definition moment_at :: "location \<Rightarrow> int \<Rightarrow> moment" where
  "moment_at loc s = \<lparr>day = yymmdd loc s, sec = s, nsec = 0\<rparr>"

text \<open>\<open>midnightLoop\<close> over its turns: in each the timer is set to the next midnight, seen from \<open>turnNow\<close>, and either \<open>stopCh\<close> is
  closed or the timer fires, which it does not do before its time, and the file is changed with the clock at \<open>turnFired\<close>.
  The result says whether the loop has ended.\<close>

record loop_turn =
  turnNow :: int
  turnFired :: "int option"
  turnOs :: os_errors
  turnSink :: sink

definition on_time :: "location \<Rightarrow> loop_turn \<Rightarrow> bool" where
  "on_time loc t \<longleftrightarrow> (case turnFired t of None \<Rightarrow> True | Some s \<Rightarrow> nextMidnight loc (turnNow t) \<le> s \<and> turnNow t \<le> s)"

fun midnightLoop :: "location \<Rightarrow> loop_turn list \<Rightarrow> fs \<times> frameMonitor \<Rightarrow> bool \<times> fs \<times> frameMonitor" where
  "midnightLoop loc [] s = (False, s)"
| "midnightLoop loc (t # ts) s =
     (case turnFired t of
        None \<Rightarrow> (True, s)
      | Some now \<Rightarrow> midnightLoop loc ts (snd (rotateMidnight (turnOs t) (turnSink t) (moment_at loc now) s)))"

section \<open>Dates name days\<close>

lemma div_mod_block:
  fixes m :: int
  assumes "0 \<le> x" and "x < m"
  shows "(m * q + x) div m = q" and "(m * q + x) mod m = x"
  using assms by (simp_all add: div_pos_pos_trivial)

lemma absYear_day:
  assumes "absYear d = (y, k)"
  shows "daysSinceEpoch y + k = d" and "0 \<le> k" and "k < 365 + (if isLeap y then 1 else 0)"
proof -
  define q r where q: "q = d div 146097" and r: "r = d mod 146097"
  define n where n: "n = r div 36524 - r div 36524 div 4"
  define r1 where r1: "r1 = r - 36524 * n"
  define c r2 where c: "c = r1 div 1461" and r2: "r2 = r1 mod 1461"
  define a where a: "a = r2 div 365 - r2 div 365 div 4"
  have yk: "y = 400 * q + 100 * n + 4 * c + a + 1" "k = r2 - 365 * a"
    using assms unfolding absYear_def Let_def q r n r1 c r2 a by auto
  have d: "d = 146097 * q + r" "0 \<le> r" "r < 146097" unfolding q r by simp_all
  have "0 \<le> r div 36524" "r div 36524 \<le> 4" "36524 * (r div 36524) \<le> r" "r < 36524 * (r div 36524) + 36524"
    using d(2,3) by linarith+
  then consider "n = r div 36524" "r div 36524 < 4" | "n = 3" "r div 36524 = 4" unfolding n by (cases "r div 36524 = 4") auto
  then have nb: "0 \<le> n" "n \<le> 3" "0 \<le> r1" "r1 < 36524 \<or> n = 3 \<and> r1 \<le> 36524" unfolding r1 using d(2,3) by (cases; linarith)+
  have rc: "r1 = 1461 * c + r2" "0 \<le> r2" "r2 < 1461" unfolding c r2 by simp_all
  have cb: "0 \<le> c" "c \<le> 24" using rc nb by linarith+
  have "0 \<le> r2 div 365" "r2 div 365 \<le> 4" using rc(2,3) by linarith+
  then consider "a = r2 div 365" "r2 div 365 < 4" | "a = 3" "r2 div 365 = 4" unfolding a by (cases "r2 div 365 = 4") auto
  then have ab: "0 \<le> a" "a \<le> 3" "0 \<le> k" "k < 365 \<or> a = 3 \<and> k = 365" unfolding yk(2) using rc(2,3) by (cases; linarith)+
  have y1: "y - 1 = 400 * q + (100 * n + (4 * c + a))" using yk(1) by simp
  have "(y - 1) div 400 = q" "(y - 1) mod 400 = 100 * n + (4 * c + a)"
    unfolding y1 by (rule div_mod_block; use nb cb ab in linarith)+
  moreover have "(100 * n + (4 * c + a)) div 100 = n" "(100 * n + (4 * c + a)) mod 100 = 4 * c + a"
    by (rule div_mod_block; use cb ab in linarith)+
  moreover have "(4 * c + a) div 4 = c" "(4 * c + a) mod 4 = a" by (rule div_mod_block; use ab in linarith)+
  ultimately have "daysSinceEpoch y = 146097 * q + 36524 * n + 1461 * c + 365 * a" by (simp add: daysSinceEpoch_def Let_def)
  then show "daysSinceEpoch y + k = d" using d rc yk unfolding r1 by linarith
  show "0 \<le> k" by (rule ab)
  have "isLeap y" if "k = 365"
  proof -
    have "a = 3" "r2 = 1460" using that ab yk rc by auto
    then have "y = 4 * (100 * q + 25 * n + c + 1)" "c = 24 \<longrightarrow> n = 3" using yk rc nb by auto
    then have y: "y = 100 * (4 * q + n) + 4 * (c + 1)" and n3: "c = 24 \<longrightarrow> n = 3" by auto
    show ?thesis
    proof (cases "c = 24")
      case True
      then have "y = 400 * (q + 1)" using y n3 by simp
      then show ?thesis by (simp add: isLeap_def)
    next
      case False
      have "y mod 100 = 4 * (c + 1)" unfolding y using cb False by (intro div_mod_block(2)) auto
      moreover have "y mod 4 = 0" unfolding y by presburger
      ultimately show ?thesis using cb by (simp add: isLeap_def)
    qed
  qed
  then show "k < 365 + (if isLeap y then 1 else 0)" using ab by auto
qed

lemma div_step:
  fixes z c :: int
  assumes "0 < c"
  shows "(z + 1) div c = z div c + (if (z + 1) mod c = 0 then 1 else 0)"
proof -
  have z: "z = c * (z div c) + z mod c" "0 \<le> z mod c" "z mod c < c" using assms by simp_all
  show ?thesis
  proof (cases "z mod c + 1 = c")
    case True
    have "z + 1 = c * (z div c) + (z mod c + 1)" using z(1) by linarith
    then have "z + 1 = c * (z div c + 1) + 0" unfolding True by (simp add: distrib_left)
    then show ?thesis using div_mod_block [of 0 c "z div c + 1"] assms by simp
  next
    case False
    have e: "z + 1 = c * (z div c) + (z mod c + 1)" using z(1) by simp
    have "0 \<le> z mod c + 1" "z mod c + 1 < c" using z False by auto
    then have "(z + 1) div c = z div c" "(z + 1) mod c = z mod c + 1" unfolding e by (subst div_mod_block; simp)+
    then show ?thesis using z(2) by simp
  qed
qed

lemma block_divs:
  fixes a b c e :: int
  assumes "0 \<le> c" "c \<le> 24" "0 \<le> e" "e < 4"
  shows "(400 * a + 100 * b + 4 * c + e) div 100 = 4 * a + b" and "(400 * a + 100 * b + 4 * c + e) div 4 = 100 * a + 25 * b + c"
  using div_mod_block(1) [of "4 * c + e" 100 "4 * a + b"] div_mod_block(1) [of e 4 "100 * a + 25 * b + c"] assms
  by (simp_all add: algebra_simps)

lemma daysSinceEpoch_closed: "daysSinceEpoch (z + 1) = 365 * z + z div 4 - z div 100 + z div 400"
proof -
  obtain a b c e where v: "a = z div 400" "b = z mod 400 div 100" "c = z mod 400 mod 100 div 4" "e = z mod 400 mod 100 mod 4" by blast
  have z: "z = 400 * a + 100 * b + 4 * c + e" unfolding v by simp
  have "0 \<le> z mod 400 mod 100" "z mod 400 mod 100 < 100" by simp_all
  then have c: "0 \<le> c" "c \<le> 24" "0 \<le> e" "e < 4" unfolding v by linarith+
  have d: "daysSinceEpoch (z + 1) = 146097 * a + 36524 * b + 1461 * c + 365 * e"
    unfolding daysSinceEpoch_def Let_def v by simp
  show ?thesis unfolding d v(1) [symmetric] using block_divs [OF c, of a b] z by simp
qed

lemma daysSinceEpoch_Suc: "daysSinceEpoch (y + 1) = daysSinceEpoch y + 365 + (if isLeap y then 1 else 0)"
proof -
  have m: "y mod 100 = 0 \<Longrightarrow> y mod 4 = 0" "y mod 400 = 0 \<Longrightarrow> y mod 100 = 0"
    using dvd_trans [of 4 100 y] dvd_trans [of 100 400 y] by (simp_all add: mod_eq_0_iff_dvd)
  have d: "y div c = (y - 1) div c + (if y mod c = 0 then 1 else 0)" if "0 < c" for c using div_step [OF that, of "y - 1"] by simp
  have "y div 4 - y div 100 + y div 400 = (y - 1) div 4 - (y - 1) div 100 + (y - 1) div 400 + (if isLeap y then 1 else 0)"
    unfolding d [of 4, simplified] d [of 100, simplified] d [of 400, simplified] isLeap_def
    using m by (cases "y mod 400 = 0"; cases "y mod 100 = 0"; cases "y mod 4 = 0") simp_all
  then show ?thesis using daysSinceEpoch_closed [of y] daysSinceEpoch_closed [of "y - 1"] by simp
qed

lemma daysSinceEpoch_mono: "y \<le> y' \<Longrightarrow> daysSinceEpoch y \<le> daysSinceEpoch y'"
  by (induction y' rule: int_ge_induct) (auto simp: daysSinceEpoch_Suc)

lemma absYear_unique:
  assumes "0 \<le> k" and "k < 365 + (if isLeap y then 1 else 0)"
  shows "absYear (daysSinceEpoch y + k) = (y, k)"
proof -
  obtain y' k' where a: "absYear (daysSinceEpoch y + k) = (y', k')" by fastforce
  note d = absYear_day [OF a]
  have "y = y'"
    using daysSinceEpoch_mono [of "y + 1" y'] daysSinceEpoch_mono [of "y' + 1" y] daysSinceEpoch_Suc [of y] daysSinceEpoch_Suc [of y'] d assms
    by linarith
  then show ?thesis using a d by simp
qed

lemma absYear_Suc:
  assumes "absYear d = (y, k)"
  shows "absYear (d + 1) = (if k + 1 < 365 + (if isLeap y then 1 else 0) then (y, k + 1) else (y + 1, 0))"
proof -
  note d = absYear_day [OF assms]
  show ?thesis
  proof (cases "k + 1 < 365 + (if isLeap y then 1 else 0)")
    case True
    have "d + 1 = daysSinceEpoch y + (k + 1)" using d by simp
    then show ?thesis unfolding if_P [OF True] using absYear_unique [OF _ True] d(2) by (simp add: add.assoc)
  next
    case False
    have "d + 1 = daysSinceEpoch (y + 1) + 0" using d False daysSinceEpoch_Suc [of y] by linarith
    then show ?thesis using absYear_unique [of 0 "y + 1"] False by simp
  qed
qed

text \<open>The first days of the months, counted in the year.\<close>

definition month_start :: "bool \<Rightarrow> nat \<Rightarrow> nat" where
  "month_start leap m = daysBefore ! (m - 1) + (if leap \<and> m \<ge> 3 then 1 else 0)"

lemma month_cases: "m < 12 \<Longrightarrow> m \<in> {0, 1, 2, 3, 4, 5, 6, 7, 8, 9, 10, 11 :: nat}"
  unfolding insert_iff empty_iff by presburger

lemma month_day_plain:
  assumes "k < 365" and "month_day False k = (m, d)"
  shows "1 \<le> m \<and> m \<le> 12 \<and> 1 \<le> d \<and> d \<le> 31 \<and> month_start False m + d = k + 1 \<and> (m \<ge> 3 \<longleftrightarrow> k \<ge> 59)"
proof -
  have "k div 31 < 12" using assms(1) by linarith
  then have "k div 31 \<in> {0, 1, 2, 3, 4, 5, 6, 7, 8, 9, 10, 11}" by (rule month_cases)
  moreover have "31 * (k div 31) \<le> k" "k < 31 * (k div 31) + 31" by linarith+
  ultimately show ?thesis using assms
    by (elim insertE emptyE) (auto simp: month_day_def daysBefore_def month_start_def Let_def split: if_splits)
qed

lemma month_day_correct:
  assumes "k < (if leap then 366 else 365)" and "month_day leap k = (m, d)"
  shows "1 \<le> m \<and> m \<le> 12 \<and> 1 \<le> d \<and> d \<le> 31 \<and> month_start leap m + d = k + 1"
proof -
  consider "leap" "k = 59" | "leap" "59 < k" | "leap" "k < 59" | "\<not> leap" by linarith
  then show ?thesis
  proof cases
    case 1
    then show ?thesis using assms by (simp add: month_day_def month_start_def daysBefore_def)
  next
    case 2
    have "month_day False (k - 1) = (m, d)" using assms 2 by (simp add: month_day_def Let_def)
    then show ?thesis using month_day_plain [of "k - 1" m d] assms 2 by (auto simp: month_start_def)
  next
    case 3
    have "month_day False k = (m, d)" using assms 3 by (simp add: month_day_def Let_def)
    then show ?thesis using month_day_plain [of k m d] assms 3 by (auto simp: month_start_def)
  qed (use month_day_plain [of k m d] assms in auto)
qed

lemma month_starts_apart:
  assumes "1 \<le> m" "m \<le> 12" "1 \<le> m'" "m' \<le> 12"
  shows "month_start leap m' \<noteq> month_start leap m + 1" and "month_start leap m < 364"
proof -
  obtain i j where m: "m = i + 1" "m' = j + 1" "i < 12" "j < 12" using assms by (metis Suc_eq_plus1 Suc_le_D One_nat_def less_eq_Suc_le numeral_nat(7))
  note ij = month_cases [OF m(3)] month_cases [OF m(4)]
  show "month_start leap m' \<noteq> month_start leap m + 1" "month_start leap m < 364"
    using ij unfolding m(1,2) by (elim insertE emptyE; simp add: month_start_def daysBefore_def)+
qed

lemma absDate_next:
  assumes "absDate n = (y, m, d)" and "absDate (n + 1) = (y', m', d')"
  shows "civilDay y m (d + 1) = n + 1" and "m \<le> 12" and "d \<le> 31" and "d' \<noteq> d"
proof -
  obtain k where k: "absYear n = (y, k)" "month_day (isLeap y) (nat k) = (m, d)" using assms(1) by (auto simp: absDate_def split: prod.splits)
  note a = absYear_day [OF k(1)]
  have lt: "nat k < (if isLeap y then 366 else 365)" using a by (auto split: if_splits)
  note c = month_day_correct [OF lt k(2)]
  show "m \<le> 12" "d \<le> 31" using c by auto
  have "int (month_start (isLeap y) m) + int d = k + 1" using c a(2) by linarith
  then show "civilDay y m (d + 1) = n + 1" using a(1) by (simp add: civilDay_def month_start_def split: if_splits)
  show "d' \<noteq> d"
  proof (cases "k + 1 < 365 + (if isLeap y then 1 else 0)")
    case True
    then have "month_day (isLeap y) (nat k + 1) = (m', d')" using absYear_Suc [OF k(1)] assms(2) a(2)
      by (simp add: absDate_def nat_add_distrib split: if_splits)
    moreover have "nat k + 1 < (if isLeap y then 366 else 365)" using True a(2) by (auto split: if_splits)
    ultimately have "1 \<le> m'" "m' \<le> 12" "month_start (isLeap y) m' + d' = nat k + 2" using month_day_correct by fastforce+
    then show ?thesis using month_starts_apart(1) [of m m' "isLeap y"] c by auto
  next
    case False
    then have "month_day (isLeap (y + 1)) 0 = (m', d')" using absYear_Suc [OF k(1)] assms(2) by (auto simp: absDate_def)
    then have "d' = 1" by (auto simp: month_day_def daysBefore_def Let_def)
    moreover have "364 \<le> nat k" using False by (auto split: if_splits)
    ultimately show ?thesis using c month_starts_apart(2) [of m 1 "isLeap y"] by auto
  qed
qed

lemma fmt_02d_length: "n < 100 \<Longrightarrow> length (fmt_02d n) = 2"
  by (auto simp: fmt_02d_def fmt_d.simps)

lemma fmt_02d_value: "digits_value 0 (fmt_02d n) = n"
  by (simp add: fmt_02d_def digits_value_fmt_d)

lemma yymmdd_differs:
  assumes "local_day loc t = local_day loc s + 1"
  shows "yymmdd loc t \<noteq> yymmdd loc s"
proof -
  obtain y m d where a: "absDate (local_day loc s) = (y, m, d)" by (cases "absDate (local_day loc s)") auto
  obtain y' m' d' where b: "absDate (local_day loc s + 1) = (y', m', d')" by (cases "absDate (local_day loc s + 1)") auto
  obtain y'' m'' d'' where c: "absDate (local_day loc s + 1 + 1) = (y'', m'', d'')" by (cases "absDate (local_day loc s + 1 + 1)") auto
  have n: "m \<le> 12" "d' \<noteq> d" "m' \<le> 12" using absDate_next [OF a b] absDate_next [OF b c] by auto
  have l: "length (fmt_02d (nat (if z < 0 then 0 else z mod 100))) = 2" for z :: int by (rule fmt_02d_length) (simp add: nat_less_iff)
  have "length (fmt_02d m) = 2" "length (fmt_02d m') = 2" using n by (auto intro: fmt_02d_length)
  moreover have "fmt_02d d' \<noteq> fmt_02d d" using n(2) fmt_02d_value by metis
  ultimately show ?thesis using l a b by (simp add: yymmdd_def Time_Date_def assms)
qed

section \<open>Midnight\<close>

lemma midnight_bounds: "x < (x div secondsPerDay + 1) * secondsPerDay" "(x div secondsPerDay + 1) * secondsPerDay \<le> x + secondsPerDay"
proof -
  have m: "0 \<le> x mod secondsPerDay" "x mod secondsPerDay < secondsPerDay" by (simp_all add: secondsPerDay_def)
  have "(x div secondsPerDay + 1) * secondsPerDay = x - x mod secondsPerDay + secondsPerDay"
    using div_mult_mod_eq [of x secondsPerDay] by (simp only: distrib_right mult_1)
  then show "x < (x div secondsPerDay + 1) * secondsPerDay" "(x div secondsPerDay + 1) * secondsPerDay \<le> x + secondsPerDay"
    using m by linarith+
qed

lemma day_before:
  assumes "c mod secondsPerDay = 0" and "c - secondsPerDay \<le> x" and "x < c"
  shows "x div secondsPerDay + 1 = c div secondsPerDay" and "c div secondsPerDay * secondsPerDay = c"
proof -
  show c: "c div secondsPerDay * secondsPerDay = c" using assms(1) div_mult_mod_eq [of c secondsPerDay] by simp
  have x: "secondsPerDay * (c div secondsPerDay - 1) + (x - c + secondsPerDay) = x" using c by (simp add: algebra_simps)
  have "x div secondsPerDay = c div secondsPerDay - 1"
    using div_mod_block(1) [of "x - c + secondsPerDay" secondsPerDay "c div secondsPerDay - 1", unfolded x] assms by linarith
  then show "x div secondsPerDay + 1 = c div secondsPerDay" by simp
qed

text \<open>The next midnight where the offset does not change around it.\<close>

lemma nextMidnight_unix:
  "nextMidnight loc s = (let unix = ((s + zone_offset loc s) div secondsPerDay + 1) * secondsPerDay
     in case loc_lookup loc unix of (off, start, end') \<Rightarrow>
          if off = 0 then unix
          else
            let utc = unix - off
            in if (case start of None \<Rightarrow> False | Some a \<Rightarrow> utc < a) \<or> (case end' of None \<Rightarrow> False | Some b \<Rightarrow> b \<le> utc)
               then unix - zone_offset loc utc else utc)"
proof -
  obtain y m d where a: "absDate (local_day loc s) = (y, m, d)" by (cases "absDate (local_day loc s)") auto
  obtain y' m' d' where b: "absDate (local_day loc s + 1) = (y', m', d')" by (cases "absDate (local_day loc s + 1)") auto
  have "civilDay y m (d + 1) - unixDay = (s + zone_offset loc s) div secondsPerDay + 1"
    using absDate_next(1) [OF a b] by (simp add: local_day_def)
  then show ?thesis by (simp add: nextMidnight_def Time_Date_def a time_Date_def)
qed

lemma nextMidnight_steady:
  assumes "\<And>s. now - secondsPerDay \<le> s \<Longrightarrow> s \<le> now + 2 * secondsPerDay \<Longrightarrow> zone_offset loc s = off" and "\<bar>off\<bar> \<le> secondsPerDay"
  shows "nextMidnight loc now = ((now + off) div secondsPerDay + 1) * secondsPerDay - off"
proof -
  let ?u = "((now + off) div secondsPerDay + 1) * secondsPerDay"
  have u: "now + off < ?u" "?u \<le> now + off + secondsPerDay" by (rule midnight_bounds)+
  have "zone_offset loc now = off" "zone_offset loc ?u = off" "zone_offset loc (?u - off) = off"
    using u assms(2) by (intro assms(1); simp add: secondsPerDay_def)+
  then show ?thesis unfolding nextMidnight_unix Let_def
    by (cases "loc_lookup loc ?u") (auto simp: zone_offset_def)
qed

lemma first_free_found:
  assumes "\<forall>p. statErr os p = None" and "F (captureFileName prefix d vv) = None" and "\<forall>i \<in> set js. F (captureFileName prefix d i) \<noteq> None"
  shows "first_free os F prefix d (js @ vv # ks) = Inr vv"
  using assms by (induction js) (auto simp: Let_def)

lemma firstAvailableVV_found:
  assumes "\<forall>p. statErr os p = None" and "vv \<le> 99" and "F (captureFileName prefix d vv) = None" and "\<forall>i < vv. F (captureFileName prefix d i) \<noteq> None"
  shows "firstAvailableVV os F prefix d = Inr vv"
proof -
  have "[0..<100] = [0..<vv] @ vv # [Suc vv..<100]" using assms(2) upt_conv_Cons [of vv 100] upt_add_eq_append [of 0 vv "100 - vv"] by simp
  then show ?thesis using first_free_found [of os F prefix d vv "[0..<vv]"] assms by (simp add: firstAvailableVV_def)
qed

definition utc_monitor :: frameMonitor where
  "utc_monitor = \<lparr>mTyp = monitorTypeAX25, mPrefix = str ''log'', mLinkType = LinkTypeAX25, mFile = None,
     currentDay = yymmdd (0, []) 0, currentVV = 0\<rparr>"

text \<open>C31: A new file for a new day. Let the offset of the location not change from a day before to two days after a turn of the loop. Then the
  timer is set to a time in the next 24 hours, and when it fires, less than a day late, the date is
  another one than at the turn: the log, if it was of the turn's day, goes on in the first file of the new day that
  does not exist.\<close>

theorem midnight_rotates:
  assumes "\<forall>s. now - secondsPerDay \<le> s \<and> s \<le> now + 2 * secondsPerDay \<longrightarrow> zone_offset loc s = off" and "\<bar>off\<bar> \<le> secondsPerDay"
    and "nextMidnight loc now \<le> t" and "t < nextMidnight loc now + secondsPerDay" and "currentDay m = yymmdd loc now"
    and "mLinkType m \<in> {LinkTypeAX25, LinkTypeKISS}" and "\<forall>p. statErr os p = None \<and> openErr os p = None"
    and "vv \<le> 99" and "F (captureFileName (mPrefix m) (yymmdd loc t) vv) = None"
    and "\<forall>i < vv. F (captureFileName (mPrefix m) (yymmdd loc t) i) \<noteq> None"
  shows "now < nextMidnight loc now \<and> nextMidnight loc now \<le> now + secondsPerDay \<and> (nextMidnight loc now + off) mod secondsPerDay = 0
    \<and> yymmdd loc t = yymmdd loc (nextMidnight loc now) \<and> yymmdd loc t \<noteq> yymmdd loc now
    \<and> midnightLoop loc [\<lparr>turnNow = now, turnFired = Some t, turnOs = os, turnSink = \<lambda>_. None\<rparr>] (F, m) =
        (False, F(captureFileName (mPrefix m) (yymmdd loc t) vv \<mapsto> global_header (mLinkType m)),
         m\<lparr>mFile := Some (captureFileName (mPrefix m) (yymmdd loc t) vv), currentDay := yymmdd loc t, currentVV := vv\<rparr>)"
proof -
  let ?n = "nextMidnight loc now" and ?d = "(now + off) div secondsPerDay"
  have n: "?n = (?d + 1) * secondsPerDay - off" by (rule nextMidnight_steady) (use assms(1,2) in auto)
  have b: "now < ?n" "?n \<le> now + secondsPerDay" using midnight_bounds [of "now + off"] unfolding n by linarith+
  have o: "zone_offset loc now = off" "zone_offset loc ?n = off" "zone_offset loc t = off"
    using assms(1,3,4) b by (auto simp: secondsPerDay_def)
  have "(t + off) div secondsPerDay = ?d + 1"
    using div_mod_block(1) [of "t - ?n" secondsPerDay "?d + 1"] assms(3,4) n by (simp add: algebra_simps)
  moreover have nd: "(?n + off) div secondsPerDay = ?d + 1" "(?n + off) mod secondsPerDay = 0" unfolding n by (simp_all add: secondsPerDay_def)
  ultimately have l: "local_day loc t = local_day loc now + 1" "local_day loc ?n = local_day loc t" using o by (simp_all add: local_day_def)
  have y: "yymmdd loc t = yymmdd loc ?n" "yymmdd loc t \<noteq> yymmdd loc now"
    using l(2) yymmdd_differs [OF l(1)] by (simp_all add: yymmdd_def Time_Date_def)
  have "firstAvailableVV os F (mPrefix m) (yymmdd loc t) = Inr vv" using assms(7-10) by (intro firstAvailableVV_found) auto
  then have "rotateMidnight os (\<lambda>_. None) (moment_at loc t) (F, m) = (None, F(captureFileName (mPrefix m) (yymmdd loc t) vv \<mapsto> global_header (mLinkType m)),
     m\<lparr>mFile := Some (captureFileName (mPrefix m) (yymmdd loc t) vv), currentDay := yymmdd loc t, currentVV := vv\<rparr>)"
    using y(2) assms(5-7,9) Create_header [of "mLinkType m"] by (simp add: rotateMidnight_def moment_at_def swapTo_def Let_def)
  then show ?thesis using b nd(2) y by simp
qed

theorem midnight_rotates_witness:
  "nextMidnight (0, []) 0 = 86400 \<and> yymmdd (0, []) 90000 \<noteq> yymmdd (0, []) 0
    \<and> mFile (snd (snd (midnightLoop (0, []) [\<lparr>turnNow = 0, turnFired = Some 90000,
          turnOs = \<lparr>statErr = \<lambda>_. None, openErr = \<lambda>_. None\<rparr>, turnSink = \<lambda>_. None\<rparr>] (Map.empty, utc_monitor)))) =
        Some (captureFileName (str ''log'') (yymmdd (0, []) 90000) 0)"
proof -
  let ?os = "\<lparr>statErr = \<lambda>_. None, openErr = \<lambda>_. None\<rparr>" and ?u = "(0, []) :: location"
  have o: "zone_offset ?u s = 0" for s by (simp add: zone_offset_def loc_lookup_def)
  have n: "nextMidnight ?u 0 = 86400" using nextMidnight_steady [of 0 ?u 0] o by (simp add: secondsPerDay_def)
  have h: "\<forall>s. 0 - secondsPerDay \<le> s \<and> s \<le> 0 + 2 * secondsPerDay \<longrightarrow> zone_offset ?u s = 0" "\<bar>0 :: int\<bar> \<le> secondsPerDay"
    "nextMidnight ?u 0 \<le> 90000" "90000 < nextMidnight ?u 0 + secondsPerDay" "currentDay utc_monitor = yymmdd ?u 0"
    "mLinkType utc_monitor \<in> {LinkTypeAX25, LinkTypeKISS}" "\<forall>p. statErr ?os p = None \<and> openErr ?os p = None" "(0 :: nat) \<le> 99"
    using o n by (simp_all add: secondsPerDay_def utc_monitor_def)
  have e: "mPrefix utc_monitor = str ''log''" by (simp add: utc_monitor_def)
  note r = midnight_rotates [OF h, of Map.empty, unfolded e, simplified not_less0 simp_thms]
  show ?thesis using n r [THEN conjunct2, THEN conjunct2, THEN conjunct2, THEN conjunct2] by simp
qed

text \<open>C40: The night summer time begins. Where the clock goes from midnight to one, in a location west of Greenwich, the midnight \<open>time.Date\<close> makes is
  an hour before the change, which is 23:00 of the day before. In that hour the timer fires at once and the file is not changed, since the
  day is still the same: the loop turns without a pause, any number of times, until the hour is over.\<close>

theorem midnight_gap_spins:
  assumes "loc = (off, [(change, off + 3600)])" and "off < 0" and "(change + off) mod secondsPerDay = 0"
    and "change - 3600 \<le> now" and "now < change" and "currentDay m = yymmdd loc now"
    and "\<forall>t \<in> set ts. \<exists>s. turnNow t = s \<and> turnFired t = Some s \<and> change - 3600 \<le> s \<and> s < change"
  shows "nextMidnight loc now = change - 3600 \<and> (\<forall>t \<in> set ts. on_time loc t) \<and> midnightLoop loc ts (F, m) = (False, F, m)"
proof -
  have day: "zone_offset loc s = off" "(s + off) div secondsPerDay + 1 = (change + off) div secondsPerDay"
    if "change - 3600 \<le> s" "s < change" for s
  proof -
    show "zone_offset loc s = off" using that assms(1) by (simp add: zone_offset_def loc_lookup_def)
    show "(s + off) div secondsPerDay + 1 = (change + off) div secondsPerDay" using that by (intro day_before(1) [OF assms(3)]) (simp_all add: secondsPerDay_def)
  qed
  have next': "nextMidnight loc s = change - 3600" if s: "change - 3600 \<le> s" "s < change" for s
  proof -
    have "(change + off) div secondsPerDay * secondsPerDay = change + off" using s by (intro day_before(2) [OF assms(3), of "s + off"]) (simp_all add: secondsPerDay_def)
    then show ?thesis unfolding nextMidnight_unix Let_def day(1) [OF s] day(2) [OF s] using assms(1,2) by (simp add: loc_lookup_def zone_offset_def)
  qed
  have same: "yymmdd loc s = yymmdd loc now" if "change - 3600 \<le> s" "s < change" for s
  proof -
    have "local_day loc s = local_day loc now" using day [OF that] day [OF assms(4,5)] unfolding local_day_def by (simp only:)
    then show ?thesis by (simp add: yymmdd_def Time_Date_def)
  qed
  have "on_time loc t" if "t \<in> set ts" for t using assms(7) next' that by (auto simp: on_time_def)
  moreover have "midnightLoop loc ts (F, m) = (False, F, m)" using assms(7)
  proof (induction ts)
    case (Cons t ts)
    then obtain s where "turnFired t = Some s" "change - 3600 \<le> s" "s < change" by auto
    then show ?case using Cons same assms(6) by (simp add: rotateMidnight_def moment_at_def)
  qed simp
  ultimately show ?thesis using next' [OF assms(4,5)] by blast
qed

text \<open>The zone of Chile on 8 September 2024, when 00:00 did not exist, at half past eleven the evening before.\<close>

theorem midnight_gap_spins_witness:
  "let loc = (- 14400, [(1725768000, - 10800)]);
       t = \<lparr>turnNow = 1725766200, turnFired = Some 1725766200, turnOs = \<lparr>statErr = \<lambda>_. None, openErr = \<lambda>_. None\<rparr>, turnSink = \<lambda>_. None\<rparr>;
       m = utc_monitor\<lparr>currentDay := yymmdd loc 1725766200\<rparr>
   in nextMidnight loc 1725766200 < 1725766200 \<and> on_time loc t \<and> midnightLoop loc (replicate 5 t) (Map.empty, m) = (False, Map.empty, m)"
proof -
  let ?loc = "(- 14400, [(1725768000, - 10800)]) :: location"
  let ?t = "\<lparr>turnNow = 1725766200, turnFired = Some 1725766200, turnOs = \<lparr>statErr = \<lambda>_. None, openErr = \<lambda>_. None\<rparr>, turnSink = \<lambda>_. None\<rparr>"
  let ?m = "utc_monitor\<lparr>currentDay := yymmdd ?loc 1725766200\<rparr>"
  have "nextMidnight ?loc 1725766200 = 1725768000 - 3600 \<and> (\<forall>t \<in> set (replicate 5 ?t). on_time ?loc t)
    \<and> midnightLoop ?loc (replicate 5 ?t) (Map.empty, ?m) = (False, Map.empty, ?m)"
    by (rule midnight_gap_spins [where off = "- 14400" and change = 1725768000]) (simp_all add: secondsPerDay_def)
  then show ?thesis by (simp add: Let_def)
qed

end
