(* ===== verification/Terminal_Main.thy ===== *)
theory Terminal_Main
  imports Terminal
begin

text \<open>
  The rest of the terminal program, \<open>src/cmd/terminal/main.go\<close>: what \<open>main\<close> decides from the command line
  and the configuration, and how \<open>runSerialTerminal\<close>, \<open>runKISSTCPTerminal\<close> and \<open>runAGWPETerminal\<close> join a
  session to its transport: over KISS a router with two ports, one for the session and one for the
  driver. The lemmas follow a session's frames through this router; a session through
  digipeaters never gets a frame to the driver.
\<close>

declare str_simps [simp del]

section \<open>What to run\<close>

datatype term_plan =
    Usage
  | Interfaces gostring
  | Exit nat
  | RunAGWPE Address "Address option" "Address list"
  | RunKISS Address Address "Address list"
  | RunSerial Address "Address option" "Address list"

definition parse_remote :: "unicode \<Rightarrow> gostring \<Rightarrow> goerr + Address option" where
  "parse_remote U dest = (if dest = [] then Inr None else case ParseAddress U dest of Inl e \<Rightarrow> Inl e | Inr r \<Rightarrow> Inr (Some r))"

definition term_run :: "ifaceMode \<Rightarrow> Address \<Rightarrow> Address option \<Rightarrow> Address list \<Rightarrow> term_plan" where
  "term_run mode loc remote via =
     (case mode of
        modeAGWPE \<Rightarrow> RunAGWPE loc remote via
      | modeKISS \<Rightarrow> (case remote of None \<Rightarrow> Exit 2 | Some r \<Rightarrow> RunKISS loc r via)
      | modeSerial \<Rightarrow> RunSerial loc remote via)"

definition terminal_main ::
  "'v viper \<Rightarrow> texts \<Rightarrow> (byte list \<Rightarrow> goerr + ini_file) \<Rightarrow> (gostring \<Rightarrow> stat_result) \<Rightarrow> cliArgs \<Rightarrow> term_plan outcome" where
  "terminal_main V X load stat args =
     (if argHelp args then Ret Usage else
     and_then (LoadINI V stat (argConfigPath args) (NewConfig V load [])) (\<lambda>(err, c).
     if err \<noteq> None then Ret (Exit 1)
     else if argInterfaces args then and_then (printInterfaces V c) (\<lambda>t. Ret (Interfaces t)) else
     and_then (selectInterface V args c) (\<lambda>m.
     case m of Inl e \<Rightarrow> Ret (Exit 2) | Inr mode \<Rightarrow>
     and_then (resolveLocalAddress V X (argLocal args) c) (\<lambda>a.
     case a of Inl e \<Rightarrow> Ret (Exit 2) | Inr loc \<Rightarrow>
     case parse_remote (cases_tables X) (argDestination args) of Inl e \<Rightarrow> Ret (Exit 2) | Inr remote \<Rightarrow>
     case parse_via (cases_tables X) (argDigis args) of Inl e \<Rightarrow> Ret (Exit 2) | Inr via \<Rightarrow>
     Ret (term_run mode loc remote via)))))"

section \<open>A session over KISS\<close>

definition app_port_id :: port_id where "app_port_id = 0"
definition phy_port_id :: port_id where "phy_port_id = 1"

definition term_port :: "PortMode \<Rightarrow> Address \<Rightarrow> Port" where
  "term_port mode dest = \<lparr>pMode = mode, pDestination = dest, hasOnRx = True, QueueDepth = 0,
     stats = \<lparr>PortStats.RxFrames = 0, TxFrames = 0, Dropped = 0\<rparr>, txCh = None, txCap = 0,
     quitClosed = False, running = False, started = False\<rparr>"

text \<open>The router both KISS terminals make: the session's port, then the driver's.\<close>

definition terminal_net :: "RouterMode option \<Rightarrow> Address \<Rightarrow> port_store \<Rightarrow> goerr + net" where
  "terminal_net mode loc h =
     (case RegisterPort app_port_id (NewRouter mode) (h(app_port_id := term_port PortModeStatic loc)) of
        (Some e, n) \<Rightarrow> Inl e
      | (None, r, h) \<Rightarrow>
          (case RegisterPort phy_port_id r
              (h(phy_port_id := term_port PortModeDefault \<lparr>Callsign = [], SSID = 0, HasBeenRepeated = False, IsLast = False\<rparr>)) of
             (Some e, n) \<Rightarrow> Inl e
           | (None, n) \<Rightarrow> Inr n))"

text \<open>The callback \<open>OnTxFrame\<close> of the session gives its frames to the router, one after the other.\<close>

definition session_sends :: "unicode \<Rightarrow> Frame list \<Rightarrow> net \<Rightarrow> net" where
  "session_sends U fs n = fold (\<lambda>f (r, h). (r, snd (Router_Send U (Some f) (Some app_port_id) r h))) fs n"

text \<open>A frame of the driver goes to the router; the session's port gives its frames to \<open>OnFrame\<close>. The second part of an
  \<open>OnFrame\<close> that calls \<open>OnConnect\<close> follows at once.\<close>

definition phy_frame :: "unicode \<Rightarrow> Frame \<Rightarrow> net \<Rightarrow> net" where
  "phy_frame U f n = (case n of (r, h) \<Rightarrow> (r, snd (Router_Send U (Some f) (Some phy_port_id) r h)))"

definition app_frame :: "bool \<Rightarrow> Frame \<Rightarrow> connSession \<Rightarrow> connSession option" where
  "app_frame windows f s =
     (case OnFrame f (csConn s) of
        None \<Rightarrow> None
      | Some (Returned (e, acts, c)) \<Rightarrow> Some (fold (session_callback windows) acts (s\<lparr>csConn := c\<rparr>))
      | Some (CallsOnConnect r c) \<Rightarrow>
          Some (snd (session_call windows (OnFrame_resume (HasPF (Control f)))
            (session_callback windows (OnConnect r True) (s\<lparr>csConn := c\<rparr>)))))"

text \<open>The driver's port over KISS TCP: a frame is given to the client; an error other than that there is no
  connection is kept for \<open>errCh\<close>, which holds one.\<close>

definition kiss_phy_tx ::
  "unicode \<Rightarrow> KISSTCPClientConfig \<Rightarrow> Frame \<Rightarrow> KISSDecoder tcp_link \<times> goerr option \<Rightarrow> KISSDecoder tcp_link \<times> goerr option" where
  "kiss_phy_tx U c f s =
     (case s of (l, errCh) \<Rightarrow>
        case KISSTCPClient_Send U c (Some f) l of
          (None, l) \<Rightarrow> (l, errCh)
        | (Some e, l) \<Rightarrow> (l, if errors_Is e ErrNotConnected \<or> errCh \<noteq> None then errCh else Some e))"

text \<open>24 hours, so that a terminal does not connect its transport again.\<close>

definition day_ns :: int where "day_ns = 24 * 60 * 60 * Second"

definition term_kiss_config :: "'v viper \<Rightarrow> 'v Config \<Rightarrow> cliArgs \<Rightarrow> KISSTCPClientConfig outcome" where
  "term_kiss_config V c args =
     and_then (NewKISSTCPClientConfigFromConfig V c) (\<lambda>k.
     let k = (if argServer args \<noteq> [] then k\<lparr>tcpHost := argServer args\<rparr> else k);
         k = (if argPort args > 0 then k\<lparr>tcpPort := of_int (argPort args)\<rparr> else k)
     in Ret (k\<lparr>ReconnectDelay := day_ns, tcpOnRxFrame := True, tcpOnError := True\<rparr>))"

text \<open>The wait for the connection, over the states of the client it finds and whether its time is over then.\<close>

fun waitForKISSTCPConnected :: "(KISSDecoder tcp_link \<times> bool) list \<Rightarrow> goerr option option" where
  "waitForKISSTCPConnected [] = None"
| "waitForKISSTCPConnected ((l, late) # env) =
     (if KISSTCPClient_IsConnected l then Some None
      else if late then Some (Some (ErrMsg ''kiss tcp transport not connected'')) else waitForKISSTCPConnected env)"

text \<open>The call with which \<open>runConnTerminalCore\<close> begins, and the end of standard input.\<close>

definition conn_connect :: "bool \<Rightarrow> Address option \<Rightarrow> Address list \<Rightarrow> connSession \<Rightarrow> goerr option \<times> connSession" where
  "conn_connect windows remote via s =
     (case remote of None \<Rightarrow> (None, s) | Some r \<Rightarrow> session_call windows (Connect r via) s)"

definition conn_stdin_eof :: "bool \<Rightarrow> connSession \<Rightarrow> connSession" where
  "conn_stdin_eof windows s = (snd (session_call windows Shutdown s))\<lparr>csDisconnectCh := True\<rparr>"

section \<open>A session over AGWPE\<close>

definition term_agw_config :: "'v viper \<Rightarrow> 'v Config \<Rightarrow> cliArgs \<Rightarrow> ClientConfig outcome" where
  "term_agw_config V c args =
     and_then (NewClientConfigFromConfig V c) (\<lambda>k.
     let k = (if argServer args \<noteq> [] then k\<lparr>cHost := argServer args\<rparr> else k);
         k = (if argPort args > 0 then k\<lparr>cPort := of_int (argPort args)\<rparr> else k)
     in Ret (k\<lparr>cReconnectDelay := day_ns, cOnRxFrame := True, cOnError := True\<rparr>))"

text \<open>The callsign is registered and the connection asked for.\<close>

definition agw_connect :: "agw_env \<Rightarrow> Address option \<Rightarrow> Address list \<Rightarrow> agwSession \<Rightarrow> (goerr option \<times> agwSession \<times> agw_env) option" where
  "agw_connect env remote via s =
     (case retrySend env (BuildRegisterCall 0 (aLocal s)) s of
        None \<Rightarrow> None
      | Some (Some e, s, env) \<Rightarrow> Some (Some (ErrWrap ''register callsign'' e), s, env)
      | Some (None, s, env) \<Rightarrow>
          (case remote of
             None \<Rightarrow> Some (None, s, env)
           | Some r \<Rightarrow>
               if via \<noteq> [] then
                 map_option (\<lambda>(e, s, env). (map_option (ErrWrap ''connect via'') e, s, env))
                   (retrySend env (BuildConnectViaReq 0 (aLocal s) (Address_String r) (map Address_String via)) s)
               else
                 map_option (\<lambda>(e, s, env). (map_option (ErrWrap ''connect'') e, s, env))
                   (retrySend env (BuildConnectReq 0 (aLocal s) (Address_String r)) s)))"

definition agw_transport_error :: "agwSession \<Rightarrow> agwSession" where
  "agw_transport_error s = s\<lparr>aDone := True\<rparr>"

definition agw_stdin_eof :: "agwSession \<Rightarrow> agwSession" where
  "agw_stdin_eof s = (snd (agw_disconnect s))\<lparr>aDone := True\<rparr>"

section \<open>Lemmas\<close>

lemma terminal_net_ok:
  "terminal_net mode loc h = Inr (\<lparr>rMode = (case mode of Some m \<Rightarrow> m | None \<Rightarrow> RouterModeSwitch), ports = [app_port_id, phy_port_id], closed = False\<rparr>,
     h(app_port_id := Port_start defaultPortQueueDepth (term_port PortModeStatic loc),
       phy_port_id := Port_start defaultPortQueueDepth (term_port PortModeDefault \<lparr>Callsign = [], SSID = 0, HasBeenRepeated = False, IsLast = False\<rparr>)))"
  by (simp add: terminal_net_def RegisterPort_def NewRouter_def app_port_id_def phy_port_id_def)

text \<open>A connect on a new session: the frame it gives to the router.\<close>

lemma connect_frame:
  assumes "newConnSession loc connCfg = Inr s" and "conn_connect windows (Some r) via s = (e, s')"
  shows "e = None" and "csSent s' = [\<lparr>Destination = r, Source = loc, Digipeaters = via, IsCommand = True, Type = FrameU,
      Control = CtrlSABM OR CtrlPFBit, PID = 0, Payload = []\<rparr>]"
proof -
  obtain c where c: "NewConn loc session_callbacks connCfg = Inr c" "csConn s = c" "csSent s = []"
    using assms(1) by (auto simp: newConnSession_def split: sum.splits)
  then have n: "state c = ConnStateDisconnected" "pendingActions c = []" "cbs c = session_callbacks" "localAddr c = loc"
    by (auto simp: NewConn_def session_callbacks_def Let_def)
  have "e = None \<and> csSent s' = [\<lparr>Destination = r, Source = loc, Digipeaters = via, IsCommand = True, Type = FrameU,
      Control = CtrlSABM OR CtrlPFBit, PID = 0, Payload = []\<rparr>]"
    using assms(2) n c(2,3)
    by (auto simp: conn_connect_def session_call_def Connect_def Let_def unlock_def takePendingActions_def sendSABM_def conn_tx_def
        buildFrame_def cloneConnFrame_def enqueueAction_def startT1_def stopT1_def resetStateVars_def session_callbacks_def with_pf_def IdentifyFrameType_def)
  then show "e = None" and "csSent s' = [\<lparr>Destination = r, Source = loc, Digipeaters = via, IsCommand = True, Type = FrameU,
      Control = CtrlSABM OR CtrlPFBit, PID = 0, Payload = []\<rparr>]" by auto
qed

section \<open>Properties\<close>

text \<open>The frames of the session that go to the driver, and those of the driver that go to the session, by the mode of the router.\<close>

definition reaches_driver :: "RouterMode \<Rightarrow> Frame \<Rightarrow> bool" where
  "reaches_driver mode f \<longleftrightarrow> mode \<noteq> RouterModeSwitch \<or> \<not> hasUnrepeatedDigi f"

definition reaches_session :: "unicode \<Rightarrow> RouterMode \<Rightarrow> Address \<Rightarrow> Frame \<Rightarrow> bool" where
  "reaches_session U mode loc f \<longleftrightarrow> mode \<noteq> RouterModeSwitch \<or> \<not> hasUnrepeatedDigi f \<and> Address_Equal U loc (Destination f)"

text \<open>Frames delivered to a port one after the other, and what its worker hands to the callback in a number of rounds.\<close>

definition delivered :: "Frame list \<Rightarrow> Port \<Rightarrow> Port" where
  "delivered fs p = fold (\<lambda>f p. fst (Port_deliver f p)) fs p"

fun worker_rounds :: "nat \<Rightarrow> Port \<Rightarrow> Frame list" where
  "worker_rounds 0 p = []"
| "worker_rounds (Suc n) p = (case Port_worker p of None \<Rightarrow> [] | Some (q, out) \<Rightarrow> out @ worker_rounds n q)"

definition wired :: "RouterMode \<Rightarrow> Address \<Rightarrow> net \<Rightarrow> bool" where
  "wired mode loc n \<longleftrightarrow> ports (fst n) = [app_port_id, phy_port_id] \<and> rMode (fst n) = mode \<and> \<not> closed (fst n)
     \<and> pMode (snd n app_port_id) = PortModeStatic \<and> pMode (snd n phy_port_id) = PortModeDefault \<and> pDestination (snd n app_port_id) = loc"

lemma port_ids_differ: "app_port_id \<noteq> phy_port_id" "phy_port_id \<noteq> app_port_id"
  by (simp_all add: app_port_id_def phy_port_id_def)

lemma wired_send:
  assumes "wired mode loc (r, g)" and "mode \<in> {RouterModeSwitch, RouterModeBridge, RouterModeHub}"
  shows "snd (Router_Send U (Some f) (Some app_port_id) r g) =
      (if reaches_driver mode f then g(phy_port_id := fst (Port_deliver f (g phy_port_id))) else g)"
    and "snd (Router_Send U (Some f) (Some phy_port_id) r g) =
      (if reaches_session U mode loc f then g(app_port_id := fst (Port_deliver f (g app_port_id))) else g)"
  using assms port_ids_differ
  by (auto simp: wired_def reaches_driver_def reaches_session_def Router_Send_def sendSwitch_def sendBridge_def sendHub_def classify_def bindDynamic_def Let_def)

lemma wired_update:
  "wired mode loc (r, g) \<Longrightarrow> wired mode loc (r, g(p := fst (Port_deliver f (g p))))"
  by (simp add: wired_def Port_deliver_keeps)

lemma delivered_Cons: "delivered (f # fs) p = delivered fs (fst (Port_deliver f p))"
  by (simp add: delivered_def)

lemma session_sends_wired:
  assumes "wired mode loc (r, g)" and "mode \<in> {RouterModeSwitch, RouterModeBridge, RouterModeHub}"
  shows "session_sends U fs (r, g) = (r, g(phy_port_id := delivered (filter (reaches_driver mode) fs) (g phy_port_id)))"
  using assms(1)
proof (induction fs arbitrary: g)
  case (Cons f fs)
  let ?g = "if reaches_driver mode f then g(phy_port_id := fst (Port_deliver f (g phy_port_id))) else g"
  have "session_sends U (f # fs) (r, g) = session_sends U fs (r, ?g)"
    using wired_send(1) [OF Cons.prems assms(2), of U f] by (simp add: session_sends_def)
  then show ?case using Cons.IH [of ?g] wired_update [OF Cons.prems] Cons.prems by (auto simp: delivered_Cons)
qed (simp add: session_sends_def delivered_def)

lemma phy_frames_wired:
  assumes "wired mode loc (r, g)" and "mode \<in> {RouterModeSwitch, RouterModeBridge, RouterModeHub}"
  shows "fold (phy_frame U) fs (r, g) = (r, g(app_port_id := delivered (filter (reaches_session U mode loc) fs) (g app_port_id)))"
  using assms(1)
proof (induction fs arbitrary: g)
  case (Cons f fs)
  let ?g = "if reaches_session U mode loc f then g(app_port_id := fst (Port_deliver f (g app_port_id))) else g"
  have "fold (phy_frame U) (f # fs) (r, g) = fold (phy_frame U) fs (r, ?g)"
    using wired_send(2) [OF Cons.prems assms(2), of U f] by (simp add: phy_frame_def)
  then show ?case using Cons.IH [of ?g] wired_update [OF Cons.prems] Cons.prems by (auto simp: delivered_Cons)
qed (simp add: delivered_def)

lemma delivered_queue:
  assumes "Port.txCh p = Some q" and "length q \<le> txCap p"
  shows "Port.txCh (delivered fs p) = Some (take (txCap p) (q @ fs)) \<and> running (delivered fs p) = running p \<and> hasOnRx (delivered fs p) = hasOnRx p"
  using assms
proof (induction fs arbitrary: p q)
  case (Cons f fs)
  let ?p = "fst (Port_deliver f p)"
  have d: "delivered (f # fs) p = delivered fs ?p" by (simp add: delivered_def)
  have k: "txCap ?p = txCap p" "running ?p = running p" "hasOnRx ?p = hasOnRx p" by (auto simp: Port_deliver_def split: option.splits)
  show ?case
  proof (cases "length q < txCap p")
    case True
    then show ?thesis using Cons.IH [of ?p "q @ [f]"] Cons.prems k d by (simp add: Port_deliver_def)
  next
    case False
    then show ?thesis using Cons.IH [of ?p q] Cons.prems k d by (simp add: Port_deliver_def)
  qed
qed (simp add: delivered_def)

lemma worker_rounds_queue:
  "Port.txCh p = Some q \<Longrightarrow> running p \<Longrightarrow> hasOnRx p \<Longrightarrow> length q \<le> n \<Longrightarrow> worker_rounds n p = q"
proof (induction n arbitrary: p q)
  case (Suc n)
  then show ?case by (cases q) (simp_all add: Port_worker_def)
qed simp

text \<open>C27: The wiring of a terminal over KISS. In each mode of its router, of any frames the session sends those that \<open>reaches_driver\<close> names enter the
  queue of the driver's port, in order, and of any frames the driver receives those that \<open>reaches_session\<close> names enter the queue of
  the session's port; nothing else changes, and as far as the queue of 32 has room the workers hand them to the driver and to \<open>OnFrame\<close>. In bridge and
  hub mode these are all frames. In switch mode they are the frames with no digipeater hop left to take, and towards the session
  only those for its address; the SABM of a direct connection is always among them.\<close>

theorem terminal_wired:
  assumes "terminal_net (Some mode) loc h = Inr (r, g)" and "mode \<in> {RouterModeSwitch, RouterModeBridge, RouterModeHub}"
    and "newConnSession loc connCfg = Inr s" and "conn_connect windows (Some remote) [] s = (e, s')"
  shows "session_sends U fs (r, g) = (r, g(phy_port_id := delivered (filter (reaches_driver mode) fs) (g phy_port_id)))
    \<and> worker_rounds 32 (delivered (filter (reaches_driver mode) fs) (g phy_port_id)) = take 32 (filter (reaches_driver mode) fs)
    \<and> fold (phy_frame U) fs (r, g) = (r, g(app_port_id := delivered (filter (reaches_session U mode loc) fs) (g app_port_id)))
    \<and> worker_rounds 32 (delivered (filter (reaches_session U mode loc) fs) (g app_port_id)) = take 32 (filter (reaches_session U mode loc) fs)
    \<and> e = None \<and> (\<exists>sabm. csSent s' = [sabm] \<and> Destination sabm = remote \<and> Control sabm = CtrlSABM OR CtrlPFBit \<and> reaches_driver mode sabm)"
proof -
  note n = assms(1) [unfolded terminal_net_ok, simplified]
  have w: "wired mode loc (r, g)"
    using n by (auto simp: wired_def app_port_id_def phy_port_id_def Port_start_def term_port_def)
  have q: "Port.txCh (g i) = Some []" "txCap (g i) = 32" "running (g i)" "hasOnRx (g i)" if "i \<in> {app_port_id, phy_port_id}" for i
    using n that by (auto simp: app_port_id_def phy_port_id_def Port_start_def term_port_def defaultPortQueueDepth_def)
  have rounds: "worker_rounds 32 (delivered gs (g i)) = take 32 gs" if "i \<in> {app_port_id, phy_port_id}" for i gs
    using delivered_queue [OF q(1) [OF that], of gs] q(2-4) [OF that] by (intro worker_rounds_queue) simp_all
  have "\<exists>sabm. csSent s' = [sabm] \<and> Destination sabm = remote \<and> Control sabm = CtrlSABM OR CtrlPFBit \<and> reaches_driver mode sabm"
    using connect_frame(2) [OF assms(3,4)] by (simp add: reaches_driver_def hasUnrepeatedDigi_def)
  then show ?thesis
    using session_sends_wired [OF w assms(2)] phy_frames_wired [OF w assms(2)] rounds connect_frame(1) [OF assms(3,4)] by simp
qed

text \<open>C38: Connections through digipeaters are never transmitted. In switch mode, the default, a frame with a digipeater still to pass
  goes to digipeater ports only, and the router of a KISS terminal has none: the connect succeeds, but its SABM, and every other
  frame of the session that has an unrepeated digipeater in its path, reaches no port.\<close>

theorem via_never_transmitted:
  assumes "terminal_net (Some RouterModeSwitch) loc h = Inr (r, g)" and "newConnSession loc connCfg = Inr s"
    and "conn_connect windows (Some remote) via s = (e, s')" and "\<exists>d \<in> set via. \<not> HasBeenRepeated d"
  shows "e = None \<and> length (csSent s') = 1 \<and> session_sends U (csSent s') (r, g) = (r, g)
    \<and> (\<forall>fs. (\<forall>f \<in> set fs. hasUnrepeatedDigi f) \<longrightarrow> session_sends U fs (r, g) = (r, g))"
proof -
  note n = assms(1) [unfolded terminal_net_ok, simplified]
  have m: "pMode (g app_port_id) = PortModeStatic" "pMode (g phy_port_id) = PortModeDefault"
    "ports r = [app_port_id, phy_port_id]" "rMode r = RouterModeSwitch" "\<not> closed r" "app_port_id \<noteq> phy_port_id"
    using n by (auto simp: app_port_id_def phy_port_id_def Port_start_def term_port_def)
  have "Router_Send U (Some f) (Some app_port_id) r g = (None, g)" if "hasUnrepeatedDigi f" for f
    using m that by (simp add: Router_Send_def sendSwitch_def classify_def bindDynamic_def Let_def)
  then have all: "session_sends U fs (r, g) = (r, g)" if "\<forall>f \<in> set fs. hasUnrepeatedDigi f" for fs
    using that by (induction fs) (simp_all add: session_sends_def)
  have sent: "e = None" "\<exists>f. csSent s' = [f] \<and> Digipeaters f = via" using connect_frame [OF assms(2,3)] by auto
  then obtain f where f: "csSent s' = [f]" "Digipeaters f = via" by blast
  have "hasUnrepeated ds" if "\<exists>d \<in> set ds. \<not> HasBeenRepeated d" for ds using that by (induction ds) auto
  then have "hasUnrepeatedDigi f" using assms(4) f(2) by (simp add: hasUnrepeatedDigi_def)
  then show ?thesis using sent(1) f(1) all by simp
qed

text \<open>A terminal of N0CALL that calls N7GET-5.\<close>

definition N0CALL :: Address where
  "N0CALL = \<lparr>Callsign = str ''N0CALL'', SSID = 0, HasBeenRepeated = False, IsLast = False\<rparr>"

definition demo_connSession :: connSession where
  "demo_connSession = projr (newConnSession N0CALL None)"

lemma demo_connSession: "newConnSession N0CALL None = Inr demo_connSession"
  by (simp add: demo_connSession_def newConnSession_def NewConn_def session_callbacks_def Let_def)

lemma demo_addresses:
  "\<not> Address_Equal \<lparr>upper_unicode = id, fold_unicode = (=)\<rparr> N0CALL N7GET_5" "Address_Equal \<lparr>upper_unicode = id, fold_unicode = (=)\<rparr> N0CALL N0CALL"
  by (simp_all add: Address_Equal_def N0CALL_def N7GET_5_def strings_EqualFold_def str_simps is_ascii_def upper_byte_def)

theorem terminal_wired_witness:
  "\<exists>r g. terminal_net (Some RouterModeSwitch) N0CALL (\<lambda>_. term_port PortModeStatic N0CALL) = Inr (r, g)
     \<and> (let f = sample_frame\<lparr>Destination := N0CALL, Digipeaters := []\<rparr>
        in fold (phy_frame \<lparr>upper_unicode = id, fold_unicode = (=)\<rparr>) [f, f\<lparr>Destination := N7GET_5\<rparr>, f] (r, g) = (r, g(app_port_id := delivered [f, f] (g app_port_id)))
          \<and> worker_rounds 32 (delivered [f, f] (g app_port_id)) = [f, f])"
proof -
  let ?U = "\<lparr>upper_unicode = id, fold_unicode = (=)\<rparr>" 
  define f where "f = sample_frame\<lparr>Destination := N0CALL, Digipeaters := []\<rparr>"
  obtain r g where n: "terminal_net (Some RouterModeSwitch) N0CALL (\<lambda>_. term_port PortModeStatic N0CALL) = Inr (r, g)"
    by (simp add: terminal_net_ok)
  obtain e s' where c: "conn_connect False (Some N7GET_5) [] demo_connSession = (e, s')" by fastforce
  have "reaches_session ?U RouterModeSwitch N0CALL f" "\<not> reaches_session ?U RouterModeSwitch N0CALL (f\<lparr>Destination := N7GET_5\<rparr>)"
    by (simp_all add: f_def reaches_session_def demo_addresses hasUnrepeatedDigi_def)
  then have "filter (reaches_session ?U RouterModeSwitch N0CALL) [f, f\<lparr>Destination := N7GET_5\<rparr>, f] = [f, f]" by simp
  then show ?thesis
    using terminal_wired [OF n _ demo_connSession c, of ?U "[f, f\<lparr>Destination := N7GET_5\<rparr>, f]"] n unfolding Let_def f_def by auto
qed

theorem via_never_transmitted_witness:
  "\<exists>r g s'. terminal_net (Some RouterModeSwitch) N0CALL (\<lambda>_. term_port PortModeStatic N0CALL) = Inr (r, g)
     \<and> conn_connect False (Some N7GET_5) [N0CALL\<lparr>SSID := 7\<rparr>] demo_connSession = (None, s')
     \<and> session_sends \<lparr>upper_unicode = id, fold_unicode = (=)\<rparr> (csSent s') (r, g) = (r, g)"
proof -
  let ?U = "\<lparr>upper_unicode = id, fold_unicode = (=)\<rparr>"
  obtain r g where n: "terminal_net (Some RouterModeSwitch) N0CALL (\<lambda>_. term_port PortModeStatic N0CALL) = Inr (r, g)"
    by (simp add: terminal_net_ok)
  obtain e s' where c: "conn_connect False (Some N7GET_5) [N0CALL\<lparr>SSID := 7\<rparr>] demo_connSession = (e, s')" by fastforce
  have d: "\<exists>d \<in> set [N0CALL\<lparr>SSID := 7\<rparr>]. \<not> HasBeenRepeated d" by (simp add: N0CALL_def)
  show ?thesis using via_never_transmitted [OF n demo_connSession c d, of ?U] n c by auto
qed

end
