(* ===== verification/Phy_Server.thy ===== *)
theory Phy_Server
  imports Phy_Tcp
begin

text \<open>
  The goroutines of the KISS TCP server, \<open>src/phy/kiss_tcp_server.go\<close>: \<open>acceptLoop\<close>, and for every
  connection \<open>handleConn\<close> with its transmitter and the goroutine that closes the connection when the server
  stops. Each turn of a goroutine is one step, and the steps interleave. What the sockets do is an argument of the
  steps, except that a connection closed here can be neither read nor written. A connection records
  what was read from and written to its socket and what \<open>Send\<close> accepted. The lemmas show the
  invariant of all reachable states, what the callbacks see, and that \<open>Stop\<close> returns.
\<close>

section \<open>Connections\<close>

text \<open>Where \<open>handleConn\<close> is: not begun, at or after its call of \<open>OnConnected\<close>, in the read loop, at \<open>c.wg.Wait\<close>,
  or returned.\<close>

datatype conn_phase = ConnNew | ConnCalled | ConnReading | ConnWaits | ConnEnded

record KISSTCPServerConn =
  scTx :: "byte list list" \<comment> \<open>\<open>txCh\<close>\<close>
  scCancelled :: bool      \<comment> \<open>\<open>cancel\<close> was called\<close>
  scClosed :: bool         \<comment> \<open>\<open>netConn\<close> was closed here\<close>
  scPhase :: conn_phase
  scTxAlive :: bool        \<comment> \<open>the transmitter runs\<close>
  scWatched :: bool        \<comment> \<open>the goroutine that closes \<open>netConn\<close> runs\<close>
  scDec :: KISSDecoder
  scRead :: "byte list"
  scAccepted :: "byte list list"
  scWritten :: "byte list list"

definition new_conn :: KISSTCPServerConn where
  "new_conn = \<lparr>scTx = [], scCancelled = False, scClosed = False, scPhase = ConnNew, scTxAlive = False, scWatched = False,
     scDec = NewKISSDecoder True, scRead = [], scAccepted = [], scWritten = []\<rparr>"

section \<open>The server\<close>

datatype srv_listener = NoListener | Listening | ListenerClosed

datatype srv_call = SrvConnected nat | SrvDisconnected nat | SrvRxFrame nat Frame | SrvError goerr

text \<open>A connection is its position in \<open>srvConns\<close>.\<close>

record KISSTCPServerPHY =
  srvCfg :: KISSTCPServerConfig
  srvDone :: bool    \<comment> \<open>the context is done\<close>
  srvLn :: srv_listener
  srvAccepts :: bool \<comment> \<open>\<open>acceptLoop\<close> runs\<close>
  srvConns :: "KISSTCPServerConn list"
  srvCalls :: "srv_call list"

definition new_server :: "KISSTCPServerConfig \<Rightarrow> KISSTCPServerPHY" where
  "new_server c = \<lparr>srvCfg = c, srvDone = False, srvLn = NoListener, srvAccepts = False, srvConns = [], srvCalls = []\<rparr>"

text \<open>\<open>Start\<close>, given what \<open>net.Listen\<close> returns.\<close>

definition KISSTCPServer_Start :: "goerr option \<Rightarrow> KISSTCPServerPHY \<Rightarrow> goerr option \<times> KISSTCPServerPHY" where
  "KISSTCPServer_Start err p =
     (case err of
        Some e \<Rightarrow> (Some (ErrWrap ''phy: KISSTCPServerPHY: listen'' e), p)
      | None \<Rightarrow> (None, p\<lparr>srvLn := Listening, srvAccepts := True\<rparr>))"

text \<open>\<open>Stop\<close> up to \<open>p.wg.Wait\<close>, and whether the wait is over.\<close>

definition KISSTCPServer_Stop :: "KISSTCPServerPHY \<Rightarrow> KISSTCPServerPHY" where
  "KISSTCPServer_Stop p = p\<lparr>srvDone := True, srvLn := (if srvLn p = NoListener then NoListener else ListenerClosed)\<rparr>"

definition KISSTCPServer_stopped :: "KISSTCPServerPHY \<Rightarrow> bool" where
  "KISSTCPServer_stopped p \<longleftrightarrow> \<not> srvAccepts p \<and> list_all (\<lambda>c. scPhase c = ConnEnded) (srvConns p)"

text \<open>A turn of \<open>acceptLoop\<close>: \<open>Accept\<close> returns a connection or fails.\<close>

definition server_accept :: "KISSTCPServerPHY \<Rightarrow> KISSTCPServerPHY" where
  "server_accept p = p\<lparr>srvConns := srvConns p @ [new_conn]\<rparr>"

definition server_accept_failed :: "goerr \<Rightarrow> KISSTCPServerPHY \<Rightarrow> KISSTCPServerPHY" where
  "server_accept_failed e p = p\<lparr>srvAccepts := False,
     srvCalls := srvCalls p @ (if \<not> srvDone p \<and> srvOnError (srvCfg p) then [SrvError (ErrWrap ''phy: accept'' e)] else [])\<rparr>"

definition on_conn :: "nat \<Rightarrow> (KISSTCPServerConn \<Rightarrow> KISSTCPServerConn) \<Rightarrow> srv_call list \<Rightarrow> KISSTCPServerPHY \<Rightarrow> KISSTCPServerPHY" where
  "on_conn i g cbs p = p\<lparr>srvConns := (srvConns p)[i := g (srvConns p ! i)], srvCalls := srvCalls p @ cbs\<rparr>"

text \<open>\<open>handleConn\<close> makes the connection and calls \<open>OnConnected\<close>; later it starts the transmitter and the goroutine that
  watches the server and enters the read loop. From the call on, users of the server have the connection and
  may send on it. A negative queue depth or buffer size makes it panic.\<close>

definition handleConn_connected :: "nat \<Rightarrow> KISSTCPServerPHY \<Rightarrow> KISSTCPServerPHY outcome" where
  "handleConn_connected i p =
     (if srvTXQueueDepth (srvCfg p) < 0 then Panic
      else Ret (on_conn i (\<lambda>c. c\<lparr>scPhase := ConnCalled\<rparr>) (if srvOnConnected (srvCfg p) then [SrvConnected i] else []) p))"

definition handleConn_start :: "nat \<Rightarrow> KISSTCPServerPHY \<Rightarrow> KISSTCPServerPHY outcome" where
  "handleConn_start i p =
     (if srvReadBufSize (srvCfg p) < 0 then Panic
      else Ret (on_conn i (\<lambda>c. c\<lparr>scTxAlive := True, scWatched := True, scPhase := ConnReading\<rparr>) [] p))"

text \<open>The transmitter: a packet is taken and written, or the context is done.\<close>

definition conn_write :: "goerr option \<Rightarrow> nat \<Rightarrow> KISSTCPServerPHY \<Rightarrow> KISSTCPServerPHY" where
  "conn_write err i p =
     (case scTx (srvConns p ! i) of
        [] \<Rightarrow> p
      | pkt # q \<Rightarrow>
          (case err of
             None \<Rightarrow> on_conn i (\<lambda>c. c\<lparr>scTx := q, scWritten := scWritten c @ [pkt]\<rparr>) [] p
           | Some e \<Rightarrow> on_conn i (\<lambda>c. c\<lparr>scTx := q, scTxAlive := False\<rparr>)
               (if srvOnError (srvCfg p) then [SrvError (ErrWrap ''phy: tcp server write'' e)] else []) p))"

definition conn_tx_done :: "nat \<Rightarrow> KISSTCPServerPHY \<Rightarrow> KISSTCPServerPHY" where
  "conn_tx_done i p = on_conn i (\<lambda>c. c\<lparr>scTxAlive := False\<rparr>) [] p"

definition conn_watch :: "nat \<Rightarrow> KISSTCPServerPHY \<Rightarrow> KISSTCPServerPHY" where
  "conn_watch i p = on_conn i (\<lambda>c. c\<lparr>scClosed := True, scWatched := False\<rparr>) [] p"

text \<open>A read that returns data, one that fails, and the end of \<open>handleConn\<close> after \<open>c.wg.Wait\<close>.\<close>

fun srv_call_of :: "nat \<Rightarrow> tcp_call \<Rightarrow> srv_call list" where
  "srv_call_of i (CbRxFrame f) = [SrvRxFrame i f]"
| "srv_call_of i (CbError e) = [SrvError e]"
| "srv_call_of i _ = []"

definition conn_read :: "byte list \<Rightarrow> nat \<Rightarrow> KISSTCPServerPHY \<Rightarrow> KISSTCPServerPHY" where
  "conn_read buf i p =
     (let (d, cbs) = server_read (srvCfg p) (scDec (srvConns p ! i)) buf
      in on_conn i (\<lambda>c. c\<lparr>scDec := d, scRead := scRead c @ buf\<rparr>) (concat (map (srv_call_of i) cbs)) p)"

definition conn_read_failed :: "nat \<Rightarrow> KISSTCPServerPHY \<Rightarrow> KISSTCPServerPHY" where
  "conn_read_failed i p = on_conn i (\<lambda>c. c\<lparr>scCancelled := True, scClosed := True, scPhase := ConnWaits\<rparr>) [] p"

definition conn_finish :: "nat \<Rightarrow> KISSTCPServerPHY \<Rightarrow> KISSTCPServerPHY" where
  "conn_finish i p = on_conn i (\<lambda>c. c\<lparr>scPhase := ConnEnded, scWatched := False\<rparr>)
     (if srvOnDisconnected (srvCfg p) then [SrvDisconnected i] else []) p"

definition conn_Send :: "unicode \<Rightarrow> Frame option \<Rightarrow> nat \<Rightarrow> KISSTCPServerPHY \<Rightarrow> goerr option \<times> KISSTCPServerPHY" where
  "conn_Send U f i p =
     (case KISSTCPServerConn_Send U (srvTXQueueDepth (srvCfg p)) f (scTx (srvConns p ! i)) of
        (e, q) \<Rightarrow> (e, on_conn i (\<lambda>c. c\<lparr>scTx := q, scAccepted := scAccepted c @ drop (length (scTx c)) q\<rparr>) [] p))"

section \<open>Steps\<close>

text \<open>The turns of the server's goroutines that need nothing from outside but a socket that reports that it is
  closed.\<close>

inductive goroutine_step :: "KISSTCPServerPHY \<Rightarrow> KISSTCPServerPHY \<Rightarrow> bool" where
  accept_closed: "srvAccepts p \<Longrightarrow> srvLn p = ListenerClosed \<Longrightarrow> goroutine_step p (server_accept_failed e p)"
| call_conn: "i < length (srvConns p) \<Longrightarrow> scPhase (srvConns p ! i) = ConnNew \<Longrightarrow> handleConn_connected i p = Ret p' \<Longrightarrow> goroutine_step p p'"
| begin_conn: "i < length (srvConns p) \<Longrightarrow> scPhase (srvConns p ! i) = ConnCalled \<Longrightarrow> handleConn_start i p = Ret p' \<Longrightarrow> goroutine_step p p'"
| tx_write: "i < length (srvConns p) \<Longrightarrow> scTxAlive (srvConns p ! i) \<Longrightarrow> scTx (srvConns p ! i) \<noteq> [] \<Longrightarrow>
    (scClosed (srvConns p ! i) \<longrightarrow> err \<noteq> None) \<Longrightarrow> goroutine_step p (conn_write err i p)"
| tx_done: "i < length (srvConns p) \<Longrightarrow> scTxAlive (srvConns p ! i) \<Longrightarrow> srvDone p \<or> scCancelled (srvConns p ! i) \<Longrightarrow>
    goroutine_step p (conn_tx_done i p)"
| watch: "i < length (srvConns p) \<Longrightarrow> scWatched (srvConns p ! i) \<Longrightarrow> srvDone p \<Longrightarrow> goroutine_step p (conn_watch i p)"
| read_closed: "i < length (srvConns p) \<Longrightarrow> scPhase (srvConns p ! i) = ConnReading \<Longrightarrow> scClosed (srvConns p ! i) \<Longrightarrow>
    goroutine_step p (conn_read_failed i p)"
| finish: "i < length (srvConns p) \<Longrightarrow> scPhase (srvConns p ! i) = ConnWaits \<Longrightarrow> \<not> scTxAlive (srvConns p ! i) \<Longrightarrow>
    goroutine_step p (conn_finish i p)"

text \<open>All steps. \<open>Start\<close> is called once at most.\<close>

inductive server_step :: "unicode \<Rightarrow> KISSTCPServerPHY \<Rightarrow> KISSTCPServerPHY \<Rightarrow> bool" for U where
  goroutine: "goroutine_step p p' \<Longrightarrow> server_step U p p'"
| start: "srvLn p = NoListener \<Longrightarrow> server_step U p (snd (KISSTCPServer_Start err p))"
| stop: "server_step U p (KISSTCPServer_Stop p)"
| accept: "srvAccepts p \<Longrightarrow> srvLn p = Listening \<Longrightarrow> server_step U p (server_accept p)"
| accept_error: "srvAccepts p \<Longrightarrow> server_step U p (server_accept_failed e p)"
| read: "i < length (srvConns p) \<Longrightarrow> scPhase (srvConns p ! i) = ConnReading \<Longrightarrow> \<not> scClosed (srvConns p ! i) \<Longrightarrow>
    server_step U p (conn_read buf i p)"
| read_error: "i < length (srvConns p) \<Longrightarrow> scPhase (srvConns p ! i) = ConnReading \<Longrightarrow> server_step U p (conn_read_failed i p)"
| send: "i < length (srvConns p) \<Longrightarrow> scPhase (srvConns p ! i) \<noteq> ConnNew \<Longrightarrow> server_step U p (snd (conn_Send U f i p))"

section \<open>The invariant\<close>

text \<open>The frames in what was read, and the calls of a connection's callbacks.\<close>

definition received_frames :: "KISSTCPServerConfig \<Rightarrow> byte list \<Rightarrow> Frame list" where
  "received_frames c bs = concat (map (\<lambda>x. case x of CbRxFrame f \<Rightarrow> [f] | _ \<Rightarrow> [])
     (snd (server_read c (NewKISSDecoder True) bs)))"

fun call_of :: "nat \<Rightarrow> srv_call \<Rightarrow> bool" where
  "call_of i (SrvConnected j) = (i = j)"
| "call_of i (SrvDisconnected j) = (i = j)"
| "call_of i (SrvRxFrame j f) = (i = j)"
| "call_of i (SrvError e) = False"

definition conn_calls :: "KISSTCPServerConfig \<Rightarrow> nat \<Rightarrow> KISSTCPServerConn \<Rightarrow> srv_call list" where
  "conn_calls cf i c =
     (if scPhase c \<noteq> ConnNew \<and> srvOnConnected cf then [SrvConnected i] else []) @
     map (SrvRxFrame i) (received_frames cf (scRead c)) @
     (if scPhase c = ConnEnded \<and> srvOnDisconnected cf then [SrvDisconnected i] else [])"

definition conn_ok :: "KISSTCPServerPHY \<Rightarrow> KISSTCPServerConn \<Rightarrow> bool" where
  "conn_ok p c \<longleftrightarrow>
     (scPhase c = ConnNew \<longrightarrow> scRead c = [] \<and> scTx c = [])
     \<and> (scTxAlive c \<longrightarrow> scPhase c \<in> {ConnReading, ConnWaits})
     \<and> (scPhase c \<in> {ConnWaits, ConnEnded} \<longrightarrow> scCancelled c \<and> scClosed c)
     \<and> (scPhase c = ConnReading \<longrightarrow> scWatched c \<or> scClosed c)
     \<and> scDec c = fst (KISSDecoder_Write (NewKISSDecoder True) (scRead c))
     \<and> (scTx c \<noteq> [] \<longrightarrow> int (length (scTx c)) \<le> srvTXQueueDepth (srvCfg p))
     \<and> (\<exists>lost. scAccepted c = scWritten c @ lost @ scTx c \<and> length lost \<le> 1
           \<and> (lost \<noteq> [] \<longrightarrow> \<not> scTxAlive c \<and> scPhase c \<in> {ConnReading, ConnWaits, ConnEnded}))"

definition server_ok :: "KISSTCPServerPHY \<Rightarrow> bool" where
  "server_ok p \<longleftrightarrow> (srvAccepts p \<longrightarrow> srvLn p \<noteq> NoListener) \<and> list_all (conn_ok p) (srvConns p)
     \<and> (\<forall>i < length (srvConns p). filter (call_of i) (srvCalls p) = conn_calls (srvCfg p) i (srvConns p ! i))
     \<and> (\<forall>i \<ge> length (srvConns p). filter (call_of i) (srvCalls p) = [])"

lemma conn_ok_cfg: "srvCfg p' = srvCfg p \<Longrightarrow> conn_ok p' = conn_ok p"
  by (simp add: conn_ok_def fun_eq_iff)

lemma srvCfg_on_conn [simp]: "srvCfg (on_conn i g cbs p) = srvCfg p"
  "srvAccepts (on_conn i g cbs p) = srvAccepts p" "srvLn (on_conn i g cbs p) = srvLn p"
  "srvDone (on_conn i g cbs p) = srvDone p" "length (srvConns (on_conn i g cbs p)) = length (srvConns p)"
  by (simp_all add: on_conn_def)

text \<open>A turn on one connection keeps the invariant if it keeps that connection's part and makes calls for that
  connection only.\<close>

lemma on_conn_ok:
  assumes "server_ok p" and "i < length (srvConns p)" and "conn_ok p (srvConns p ! i) \<Longrightarrow> conn_ok p (g (srvConns p ! i))"
    and "\<forall>j. j \<noteq> i \<longrightarrow> filter (call_of j) cbs = []"
    and "conn_calls (srvCfg p) i (g (srvConns p ! i)) = conn_calls (srvCfg p) i (srvConns p ! i) @ filter (call_of i) cbs"
  shows "server_ok (on_conn i g cbs p)"
proof -
  have c: "conn_ok p (srvConns p ! i)" using assms(1,2) by (simp add: server_ok_def list_all_length)
  then have "list_all (conn_ok p) ((srvConns p)[i := g (srvConns p ! i)])"
    using assms(1-3) unfolding server_ok_def list_all_length by (auto simp: nth_list_update)
  then show ?thesis
    using assms(1,2,4,5) conn_ok_cfg [of "on_conn i g cbs p" p]
    by (auto simp: server_ok_def on_conn_def nth_list_update)
qed

text \<open>The decoder sees what was read as one piece.\<close>

lemma server_read_append:
  "server_read cf d (xs @ ys) = (let (d1, a) = server_read cf d xs; (d2, b) = server_read cf d1 ys in (d2, a @ b))"
  by (simp add: server_read_def KISSDecoder_Write_def feed_append split: prod.splits)

lemma fst_server_read: "fst (server_read cf d xs) = fst (KISSDecoder_Write d xs)"
  by (simp add: server_read_def split: prod.splits)

lemma filter_call_of: "filter (call_of i) (concat (map (srv_call_of i) xs)) = map (SrvRxFrame i) (concat (map (\<lambda>x. case x of CbRxFrame f \<Rightarrow> [f] | _ \<Rightarrow> []) xs))"
  "j \<noteq> i \<Longrightarrow> filter (call_of j) (concat (map (srv_call_of i) xs)) = []"
proof (induction xs)
  case (Cons x xs)
  { case 1 then show ?case using Cons by (cases x) simp_all }
  { case 2 then show ?case using Cons by (cases x) simp_all }
qed simp_all

lemma conn_read_ok:
  assumes "server_ok p" and "i < length (srvConns p)" and "scPhase (srvConns p ! i) = ConnReading"
  shows "server_ok (conn_read buf i p)"
proof -
  let ?c = "srvConns p ! i" and ?cf = "srvCfg p"
  obtain d cbs where r: "server_read ?cf (scDec ?c) buf = (d, cbs)" by fastforce
  have c: "conn_ok p ?c" using assms(1,2) by (simp add: server_ok_def list_all_length)
  then have dec: "scDec ?c = fst (server_read ?cf (NewKISSDecoder True) (scRead ?c))" by (simp add: conn_ok_def fst_server_read)
  then have app: "server_read ?cf (NewKISSDecoder True) (scRead ?c @ buf)
      = (d, snd (server_read ?cf (NewKISSDecoder True) (scRead ?c)) @ cbs)"
    using r by (cases "server_read ?cf (NewKISSDecoder True) (scRead ?c)") (simp add: server_read_append)
  then have "d = fst (KISSDecoder_Write (NewKISSDecoder True) (scRead ?c @ buf))" by (metis fst_conv fst_server_read)
  moreover have "received_frames ?cf (scRead ?c @ buf)
      = received_frames ?cf (scRead ?c) @ concat (map (\<lambda>x. case x of CbRxFrame f \<Rightarrow> [f] | _ \<Rightarrow> []) cbs)"
    using app by (simp add: received_frames_def)
  ultimately show ?thesis
    unfolding conn_read_def r Let_def prod.case
    by (intro on_conn_ok [OF assms(1,2)]) (use assms(3) in \<open>auto simp: conn_ok_def conn_calls_def filter_call_of\<close>)
qed

lemma conn_Send_ok:
  assumes "server_ok p" and "i < length (srvConns p)" and "scPhase (srvConns p ! i) \<noteq> ConnNew"
  shows "server_ok (snd (conn_Send U f i p))"
proof -
  let ?c = "srvConns p ! i"
  obtain e q where s: "KISSTCPServerConn_Send U (srvTXQueueDepth (srvCfg p)) f (scTx ?c) = (e, q)" by fastforce
  then have q: "q = scTx ?c \<or> (\<exists>x. q = scTx ?c @ [x] \<and> int (length q) \<le> srvTXQueueDepth (srvCfg p))"
    by (auto simp: KISSTCPServerConn_Send_def split: option.splits sum.splits if_splits)
  have "conn_ok p (?c\<lparr>scTx := q, scAccepted := scAccepted ?c @ drop (length (scTx ?c)) q\<rparr>)" if c: "conn_ok p ?c"
  proof -
    obtain lost where "scAccepted ?c = scWritten ?c @ lost @ scTx ?c" "length lost \<le> 1" "lost \<noteq> [] \<longrightarrow> \<not> scTxAlive ?c"
      using c by (auto simp: conn_ok_def)
    then show ?thesis using c q assms(3) by (auto simp: conn_ok_def intro!: exI [of _ lost])
  qed
  then show ?thesis
    unfolding conn_Send_def s prod.case snd_conv
    by (intro on_conn_ok [OF assms(1,2)]) (simp_all add: conn_calls_def)
qed

lemma conn_write_ok:
  assumes "server_ok p" and "i < length (srvConns p)" and "scTxAlive (srvConns p ! i)"
  shows "server_ok (conn_write err i p)"
proof (cases "scTx (srvConns p ! i)")
  case Nil
  then show ?thesis using assms(1) by (simp add: conn_write_def)
next
  case (Cons pkt q)
  let ?c = "srvConns p ! i"
  have c: "conn_ok p ?c" using assms(1,2) by (simp add: server_ok_def list_all_length)
  then have l: "scAccepted ?c = scWritten ?c @ [pkt] @ q" using assms(3) Cons by (auto simp: conn_ok_def)
  show ?thesis
  proof (cases err)
    case None
    have "conn_ok p (?c\<lparr>scTx := q, scWritten := scWritten ?c @ [pkt]\<rparr>)" using c l Cons by (simp add: conn_ok_def)
    then show ?thesis unfolding conn_write_def Cons None list.case option.case
      by (intro on_conn_ok [OF assms(1,2)]) (simp_all add: conn_calls_def)
  next
    case (Some e)
    have "\<exists>lost. scAccepted ?c = scWritten ?c @ lost @ q \<and> length lost \<le> 1" by (intro exI [of _ "[pkt]"]) (simp add: l)
    then have "conn_ok p (?c\<lparr>scTx := q, scTxAlive := False\<rparr>)" using c Cons assms(3) by (auto simp: conn_ok_def)
    then show ?thesis unfolding conn_write_def Cons Some list.case option.case
      by (intro on_conn_ok [OF assms(1,2)]) (simp_all add: conn_calls_def)
  qed
qed

lemma no_frames [simp]: "received_frames cf [] = []"
  by (simp add: received_frames_def server_read_def KISSDecoder_Write_def)

lemma accept_failed_ok: "server_ok p \<Longrightarrow> server_ok (server_accept_failed e p)"
  using conn_ok_cfg [of "server_accept_failed e p" p] by (auto simp: server_ok_def server_accept_failed_def)

lemma conn_read_failed_ok:
  "server_ok p \<Longrightarrow> i < length (srvConns p) \<Longrightarrow> scPhase (srvConns p ! i) = ConnReading \<Longrightarrow> server_ok (conn_read_failed i p)"
  unfolding conn_read_failed_def by (rule on_conn_ok) (auto simp: conn_ok_def conn_calls_def)

lemma goroutine_step_ok: "goroutine_step p p' \<Longrightarrow> server_ok p \<Longrightarrow> server_ok p'"
proof (induction rule: goroutine_step.induct)
  case (call_conn i p p')
  then have p': "p' = on_conn i (\<lambda>c. c\<lparr>scPhase := ConnCalled\<rparr>) (if srvOnConnected (srvCfg p) then [SrvConnected i] else []) p"
    by (simp add: handleConn_connected_def split: if_splits)
  have r: "scRead (srvConns p ! i) = []" using call_conn by (simp add: server_ok_def list_all_length conn_ok_def)
  show ?case
    unfolding p' using call_conn r by (intro on_conn_ok) (auto simp: conn_ok_def conn_calls_def)
next
  case (begin_conn i p p')
  then have p': "p' = on_conn i (\<lambda>c. c\<lparr>scTxAlive := True, scWatched := True, scPhase := ConnReading\<rparr>) [] p"
    by (simp add: handleConn_start_def split: if_splits)
  show ?case
    unfolding p' using begin_conn by (intro on_conn_ok) (auto simp: conn_ok_def conn_calls_def)
next
  case (tx_write i p err)
  then show ?case by (intro conn_write_ok)
next
  case (finish i p)
  then show ?case unfolding conn_finish_def by (intro on_conn_ok) (auto simp: conn_ok_def conn_calls_def)
next
  case (tx_done i p)
  then show ?case unfolding conn_tx_done_def by (intro on_conn_ok) (auto simp: conn_ok_def conn_calls_def)
next
  case (watch i p)
  then show ?case unfolding conn_watch_def by (intro on_conn_ok) (auto simp: conn_ok_def conn_calls_def)
qed (auto intro: accept_failed_ok conn_read_failed_ok)

lemma new_conn_ok: "conn_ok p new_conn" "conn_calls cf i new_conn = []"
  by (simp_all add: conn_ok_def new_conn_def conn_calls_def received_frames_def server_read_def KISSDecoder_Write_def)

lemma server_accept_ok: "server_ok p \<Longrightarrow> srvLn p \<noteq> NoListener \<Longrightarrow> server_ok (server_accept p)"
  using conn_ok_cfg [of "server_accept p" p] by (auto simp: server_ok_def server_accept_def new_conn_ok nth_append less_Suc_eq)

lemma server_step_ok: "server_step U p p' \<Longrightarrow> server_ok p \<Longrightarrow> server_ok p'"
proof (induction rule: server_step.induct)
  case (start p err)
  then show ?case using conn_ok_cfg [of "snd (KISSTCPServer_Start err p)" p]
    by (cases err) (auto simp: server_ok_def KISSTCPServer_Start_def)
next
  case (stop p)
  then show ?case using conn_ok_cfg [of "KISSTCPServer_Stop p" p] by (auto simp: server_ok_def KISSTCPServer_Stop_def)
qed (auto intro: goroutine_step_ok accept_failed_ok conn_read_ok conn_read_failed_ok conn_Send_ok server_accept_ok)

lemma new_server_ok: "server_ok (new_server c)"
  by (simp add: server_ok_def new_server_def)

interpretation kiss_server: transition_system "\<lambda>p. p = new_server c" "server_step U" server_ok for U c
  by unfold_locales (auto intro: server_step_ok new_server_ok)

section \<open>The end\<close>

text \<open>How many turns the goroutines have left when the server stops.\<close>

fun phase_turns :: "conn_phase \<Rightarrow> nat" where
  "phase_turns ConnNew = 6"
| "phase_turns ConnCalled = 5"
| "phase_turns ConnReading = 2"
| "phase_turns ConnWaits = 1"
| "phase_turns ConnEnded = 0"

definition conn_turns :: "KISSTCPServerConn \<Rightarrow> nat" where
  "conn_turns c = phase_turns (scPhase c) + of_bool (scTxAlive c) + of_bool (scWatched c) + length (scTx c)"

definition server_turns :: "KISSTCPServerPHY \<Rightarrow> nat" where
  "server_turns p = of_bool (srvAccepts p) + sum_list (map conn_turns (srvConns p))"

lemma on_conn_turns:
  assumes "i < length (srvConns p)" and "conn_turns (g (srvConns p ! i)) < conn_turns (srvConns p ! i)"
  shows "server_turns (on_conn i g cbs p) < server_turns p"
proof -
  let ?xs = "map conn_turns (srvConns p)" and ?v = "conn_turns (g (srvConns p ! i))"
  have "sum_list (?xs[i := ?v]) + ?xs ! i = sum_list ?xs + ?v"
    using assms(1) elem_le_sum_list [of i ?xs] by (subst sum_list_update) auto
  then show ?thesis using assms by (simp add: server_turns_def on_conn_def map_update)
qed

lemma goroutine_step_turns: "goroutine_step p p' \<Longrightarrow> server_ok p \<Longrightarrow> server_turns p' < server_turns p"
proof (induction rule: goroutine_step.induct)
  case (call_conn i p p')
  then show ?case
    by (auto simp: handleConn_connected_def conn_turns_def split: if_splits intro!: on_conn_turns)
next
  case (begin_conn i p p')
  then show ?case
    by (auto simp: handleConn_start_def conn_turns_def split: if_splits intro!: on_conn_turns)
next
  case (tx_write i p err)
  then show ?case by (cases "scTx (srvConns p ! i)") (auto simp: conn_write_def conn_turns_def split: option.splits intro!: on_conn_turns)
next
  case (accept_closed p e)
  then show ?case by (simp add: server_turns_def server_accept_failed_def)
qed (auto simp: conn_turns_def conn_tx_done_def conn_watch_def conn_read_failed_def conn_finish_def intro!: on_conn_turns)

text \<open>A goroutine that has not ended when the server stops has a turn.\<close>

lemma goroutine_progress:
  assumes "server_ok p" and "srvDone p" and "srvLn p \<noteq> Listening" and "\<not> KISSTCPServer_stopped p"
    and "0 \<le> srvTXQueueDepth (srvCfg p)" and "0 \<le> srvReadBufSize (srvCfg p)"
  shows "\<exists>p'. goroutine_step p p'"
proof (cases "srvAccepts p")
  case True
  then have "srvLn p = ListenerClosed" using assms(1,3) by (cases "srvLn p") (auto simp: server_ok_def)
  with True show ?thesis using goroutine_step.accept_closed by blast
next
  case False
  then obtain i where i: "i < length (srvConns p)" "scPhase (srvConns p ! i) \<noteq> ConnEnded"
    using assms(4) by (auto simp: KISSTCPServer_stopped_def list_all_length)
  have c: "conn_ok p (srvConns p ! i)" using assms(1) i(1) by (simp add: server_ok_def list_all_length)
  show ?thesis
  proof (cases "scPhase (srvConns p ! i)")
    case ConnNew
    then show ?thesis using goroutine_step.call_conn [OF i(1) ConnNew] assms(5) by (auto simp: handleConn_connected_def)
  next
    case ConnCalled
    then show ?thesis using goroutine_step.begin_conn [OF i(1) ConnCalled] assms(6) by (auto simp: handleConn_start_def)
  next
    case ConnReading
    then show ?thesis using c goroutine_step.watch [OF i(1) _ assms(2)] goroutine_step.read_closed [OF i(1) ConnReading]
      by (auto simp: conn_ok_def)
  next
    case ConnWaits
    then show ?thesis using c goroutine_step.tx_done [OF i(1)] goroutine_step.finish [OF i(1) ConnWaits]
      by (cases "scTxAlive (srvConns p ! i)") (auto simp: conn_ok_def)
  qed (use i(2) in simp)
qed

section \<open>Properties\<close>

lemma server_step_cfg: "server_step U p p' \<Longrightarrow> srvCfg p' = srvCfg p"
proof -
  have g: "goroutine_step p p' \<Longrightarrow> srvCfg p' = srvCfg p" for p p'
    by (induction rule: goroutine_step.induct)
      (auto simp: server_accept_failed_def handleConn_connected_def handleConn_start_def conn_write_def conn_tx_done_def conn_watch_def conn_read_failed_def
        conn_finish_def split: if_splits list.splits option.splits)
  show "server_step U p p' \<Longrightarrow> srvCfg p' = srvCfg p"
    by (induction rule: server_step.induct)
      (auto simp: g KISSTCPServer_Start_def KISSTCPServer_Stop_def server_accept_def server_accept_failed_def conn_read_def
        conn_read_failed_def conn_Send_def split: option.splits prod.splits)
qed

lemma server_steps_cfg: "(server_step U)\<^sup>*\<^sup>* p p' \<Longrightarrow> srvCfg p' = srvCfg p"
  by (induction rule: rtranclp_induct) (simp_all add: server_step_cfg)

text \<open>The frames of a stream of well-formed frames.\<close>

lemma received_wire:
  assumes "list_all wf_frame fs"
  shows "received_frames c (concat (map (phy_wire U 0) fs)) = map (wire_frame U) fs"
proof -
  obtain d where "KISSDecoder_Writes (NewKISSDecoder True) [concat (map (phy_wire U 0) fs)] = (d, map (frame_msg U 0) fs)"
    using wire_decoded [OF assms, of 0 "[concat (map (phy_wire U 0) fs)]" U] by auto
  then have "snd (KISSDecoder_Write (NewKISSDecoder True) (concat (map (phy_wire U 0) fs))) = map (frame_msg U 0) fs"
    by (simp split: prod.splits)
  then have "snd (server_read c (NewKISSDecoder True) (concat (map (phy_wire U 0) fs))) = concat (map (server_message c) (map (frame_msg U 0) fs))"
    by (cases "KISSDecoder_Write (NewKISSDecoder True) (concat (map (phy_wire U 0) fs))") (simp add: server_read_def)
  also have "\<dots> = map (\<lambda>f. CbRxFrame (wire_frame U f)) fs"
    using assms
  proof (induction fs)
    case (Cons f fs)
    then show ?case using frame_wire.roundtrip [of f U] by (auto simp: server_message_def frame_msg_def)
  qed simp
  finally show ?thesis by (simp add: received_frames_def comp_def)
qed

text \<open>C15: What the server's callbacks see. Whatever the goroutines, the sockets and the users of the
  server do in any order, for every connection the calls are \<open>OnConnected\<close> once, then \<open>OnRxFrame\<close> with the
  frames in what was read from it, in order, and \<open>OnDisconnected\<close> once when its goroutine has ended and last. If its peer
  sent well-formed frames these are the frames as a receiver sees them. What was written to it is what
  \<open>Send\<close> accepted, in order, up to the queue and to one packet whose write failed.\<close>

theorem server_conn_calls:
  assumes "(server_step U)\<^sup>*\<^sup>* (new_server c) p" and "i < length (srvConns p)" and "k = srvConns p ! i"
    and "srvOnConnected c" and "srvOnDisconnected c"
  shows "filter (call_of i) (srvCalls p) =
      (if scPhase k = ConnNew then []
       else [SrvConnected i] @ map (SrvRxFrame i) (received_frames c (scRead k)) @ (if scPhase k = ConnEnded then [SrvDisconnected i] else []))
    \<and> (\<forall>fs. list_all wf_frame fs \<and> scRead k = concat (map (phy_wire U 0) fs) \<longrightarrow> received_frames c (scRead k) = map (wire_frame U) fs)
    \<and> (\<exists>lost. scAccepted k = scWritten k @ lost @ scTx k \<and> length lost \<le> 1)
    \<and> (scTx k \<noteq> [] \<longrightarrow> int (length (scTx k)) \<le> srvTXQueueDepth c)"
proof -
  have ok: "server_ok p" using kiss_server.reachable_inv [OF refl assms(1)] .
  have cf: "srvCfg p = c" using server_steps_cfg [OF assms(1)] by (simp add: new_server_def)
  have k: "conn_ok p k" using ok assms(2,3) by (simp add: server_ok_def list_all_length)
  have "filter (call_of i) (srvCalls p) = conn_calls c i k" using ok assms(2,3) cf by (simp add: server_ok_def)
  moreover have "scPhase k = ConnNew \<longrightarrow> scRead k = []" using k by (simp add: conn_ok_def)
  moreover have "(\<exists>lost. scAccepted k = scWritten k @ lost @ scTx k \<and> length lost \<le> 1)
      \<and> (scTx k \<noteq> [] \<longrightarrow> int (length (scTx k)) \<le> srvTXQueueDepth c)" using k cf unfolding conn_ok_def by blast
  ultimately show ?thesis using assms(4,5) received_wire by (auto simp: conn_calls_def)
qed

text \<open>C16: \<open>Stop\<close> returns. Once \<open>Stop\<close> has closed the listener, the goroutines that are left have a bounded number of turns, whichever come
  first, and when none is left the accept loop and all connections have ended, so \<open>Stop\<close> returns.\<close>

theorem server_stop_returns:
  assumes "(server_step U)\<^sup>*\<^sup>* (new_server c) p" and "srvDone p" and "srvLn p \<noteq> Listening"
    and "0 \<le> srvTXQueueDepth c" and "0 \<le> srvReadBufSize c"
  shows "(\<forall>n p'. (goroutine_step ^^ n) p p' \<longrightarrow> n \<le> server_turns p)
    \<and> (\<forall>p'. goroutine_step\<^sup>*\<^sup>* p p' \<and> \<not> (\<exists>p''. goroutine_step p' p'') \<longrightarrow> KISSTCPServer_stopped p')"
proof (intro conjI allI impI)
  have ok: "server_ok p" using kiss_server.reachable_inv [OF refl assms(1)] .
  have turns: "server_ok p' \<and> n + server_turns p' \<le> server_turns p" if "(goroutine_step ^^ n) p p'" for n p'
    using that
  proof (induction n arbitrary: p')
    case (Suc n)
    then obtain q where q: "(goroutine_step ^^ n) p q" "goroutine_step q p'" by auto
    with Suc.IH [OF q(1)] show ?case using goroutine_step_turns [OF q(2)] goroutine_step_ok [OF q(2)] by auto
  qed (use ok in simp)
  show "n \<le> server_turns p" if "(goroutine_step ^^ n) p p'" for n p' using turns [OF that] by simp
  fix p' assume p': "goroutine_step\<^sup>*\<^sup>* p p' \<and> \<not> (\<exists>p''. goroutine_step p' p'')"
  have keep: "srvDone q' = srvDone q \<and> srvLn q' = srvLn q" if "goroutine_step q q'" for q q'
    using that by (induction rule: goroutine_step.induct)
      (auto simp: server_accept_failed_def handleConn_connected_def handleConn_start_def conn_write_def conn_tx_done_def conn_watch_def conn_read_failed_def
        conn_finish_def split: if_splits list.splits option.splits)
  have s: "(server_step U)\<^sup>*\<^sup>* p p'" using p' mono_rtranclp [of goroutine_step "server_step U"] server_step.goroutine by blast
  have "srvDone p' \<and> srvLn p' = srvLn p"
  proof -
    have "goroutine_step\<^sup>*\<^sup>* p p' \<Longrightarrow> srvDone p' = srvDone p \<and> srvLn p' = srvLn p" by (induction rule: rtranclp_induct) (auto dest: keep)
    then show ?thesis using p' assms(2) by simp
  qed
  moreover have "srvCfg p' = c" using server_steps_cfg [OF assms(1)] server_steps_cfg [OF s] by (simp add: new_server_def)
  moreover have "server_ok p'" using kiss_server.steps_inv [OF s ok] .
  ultimately show "KISSTCPServer_stopped p'" using goroutine_progress [of p'] p' assms(3-5) by auto
qed

text \<open>A server that accepted a connection, received data from it and was stopped.\<close>

definition demo_srv :: KISSTCPServerConfig where
  "demo_srv = \<lparr>srvAddr = str '':8100'', Promiscuous = False, srvTXQueueDepth = 8, srvReadBufSize = 4096, srvOnConnected = True,
     srvOnDisconnected = True, srvOnRxFrame = True, srvOnError = False\<rparr>"

definition demo_server_conn :: "unicode \<Rightarrow> KISSTCPServerPHY" where
  "demo_server_conn U = conn_read (phy_wire U 0 sample_frame) 0 (on_conn 0 (\<lambda>c. c\<lparr>scTxAlive := True, scWatched := True, scPhase := ConnReading\<rparr>) []
     (on_conn 0 (\<lambda>c. c\<lparr>scPhase := ConnCalled\<rparr>) [SrvConnected 0] (server_accept (snd (KISSTCPServer_Start None (new_server demo_srv))))))"

lemma demo_server_steps: "(server_step U)\<^sup>*\<^sup>* (new_server demo_srv) (demo_server_conn U)"
  and demo_server_conns: "length (srvConns (demo_server_conn U)) = 1" "scPhase (srvConns (demo_server_conn U) ! 0) = ConnReading"
    "scRead (srvConns (demo_server_conn U) ! 0) = phy_wire U 0 sample_frame" "srvLn (demo_server_conn U) = Listening"
proof -
  let ?p1 = "snd (KISSTCPServer_Start None (new_server demo_srv))"
  let ?p2 = "server_accept ?p1"
  let ?p3 = "on_conn 0 (\<lambda>c. c\<lparr>scPhase := ConnCalled\<rparr>) [SrvConnected 0] ?p2"
  let ?p4 = "on_conn 0 (\<lambda>c. c\<lparr>scTxAlive := True, scWatched := True, scPhase := ConnReading\<rparr>) [] ?p3"
  note d = KISSTCPServer_Start_def new_server_def server_accept_def demo_srv_def new_conn_def on_conn_def
  have "server_step U (new_server demo_srv) ?p1" by (rule server_step.start) (simp add: new_server_def)
  moreover have "server_step U ?p1 ?p2" by (rule server_step.accept) (simp_all add: d)
  moreover have "server_step U ?p2 ?p3"
    by (rule server_step.goroutine, rule goroutine_step.call_conn [of 0]) (simp_all add: d handleConn_connected_def)
  moreover have "server_step U ?p3 ?p4"
    by (rule server_step.goroutine, rule goroutine_step.begin_conn [of 0]) (simp_all add: d handleConn_start_def)
  moreover have "server_step U ?p4 (demo_server_conn U)"
    unfolding demo_server_conn_def by (rule server_step.read) (simp_all add: d)
  ultimately show "(server_step U)\<^sup>*\<^sup>* (new_server demo_srv) (demo_server_conn U)"
    by (meson converse_rtranclp_into_rtranclp rtranclp.rtrancl_refl)
  show "length (srvConns (demo_server_conn U)) = 1" "scPhase (srvConns (demo_server_conn U) ! 0) = ConnReading"
    "scRead (srvConns (demo_server_conn U) ! 0) = phy_wire U 0 sample_frame" "srvLn (demo_server_conn U) = Listening"
    by (simp_all add: demo_server_conn_def conn_read_def d split: prod.splits)
qed

theorem server_conn_calls_witness:
  "filter (call_of 0) (srvCalls (demo_server_conn \<lparr>upper_unicode = id, fold_unicode = (=)\<rparr>))
     = [SrvConnected 0, SrvRxFrame 0 (wire_frame \<lparr>upper_unicode = id, fold_unicode = (=)\<rparr> sample_frame)]"
proof -
  let ?U = "\<lparr>upper_unicode = id, fold_unicode = (=)\<rparr>"
  have h: "0 < length (srvConns (demo_server_conn ?U))" "srvOnConnected demo_srv" "srvOnDisconnected demo_srv"
    by (simp_all add: demo_server_conns(1) demo_srv_def)
  note t = server_conn_calls [OF demo_server_steps h(1) refl h(2,3)]
  have "list_all wf_frame [sample_frame]" "phy_wire ?U 0 sample_frame = concat (map (phy_wire ?U 0) [sample_frame])"
    using sample_frame_wf by simp_all
  then have "received_frames demo_srv (phy_wire ?U 0 sample_frame) = [wire_frame ?U sample_frame]"
    using t unfolding demo_server_conns(3) by fastforce
  then show ?thesis using t unfolding demo_server_conns(2,3) by simp
qed

theorem server_stop_returns_witness:
  "\<exists>p. goroutine_step\<^sup>*\<^sup>* (KISSTCPServer_Stop (demo_server_conn \<lparr>upper_unicode = id, fold_unicode = (=)\<rparr>)) p \<and> KISSTCPServer_stopped p"
proof -
  let ?U = "\<lparr>upper_unicode = id, fold_unicode = (=)\<rparr>"
  let ?p = "KISSTCPServer_Stop (demo_server_conn ?U)"
  have r: "(server_step ?U)\<^sup>*\<^sup>* (new_server demo_srv) ?p"
    using demo_server_steps server_step.stop by (rule rtranclp.rtrancl_into_rtrancl)
  have h: "srvDone ?p" "srvLn ?p \<noteq> Listening" "0 \<le> srvTXQueueDepth demo_srv" "0 \<le> srvReadBufSize demo_srv"
    by (simp_all add: KISSTCPServer_Stop_def demo_srv_def demo_server_conns(4))
  note t = server_stop_returns [OF r h]
  have "\<exists>n q. (goroutine_step ^^ n) ?p q \<and> \<not> (\<exists>q'. goroutine_step q q')"
  proof (rule ccontr)
    assume n: "\<not> ?thesis"
    have "\<exists>q. (goroutine_step ^^ n) ?p q" for n
    proof (induction n)
      case (Suc n)
      then show ?case using n by (metis relpowp_Suc_I)
    qed auto
    then show False using t by (metis Suc_n_not_le_n)
  qed
  then show ?thesis using t by (metis relpowp_imp_rtranclp)
qed

end
