(* ===== verification/Beacon_Main.thy ===== *)
theory Beacon_Main
  imports Ax25_Config_Props
begin

text \<open>
  The beacon program, \<open>src/cmd/beacon/main.go\<close>: the address of the KISS server it takes from the
  configuration, with \<open>net.SplitHostPort\<close> and \<open>net.JoinHostPort\<close> of Go's library written out, the checks \<open>main\<close> makes and the
  exit status they lead to, and the function the beacon sends its frames with. The lemmas show which
  server the program dials and what its frames become.
\<close>

declare str_simps [simp del]

section \<open>Addresses of servers\<close>

definition strings_LastIndexByte :: "gostring \<Rightarrow> byte \<Rightarrow> nat option" where
  "strings_LastIndexByte s c = map_option (\<lambda>i. length s - 1 - i) (strings_IndexByte (rev s) c)"

text \<open>\<open>net.SplitHostPort\<close>: \<open>0x3A\<close> is the colon, \<open>0x5B\<close> and \<open>0x5D\<close> are the brackets.\<close>

definition net_SplitHostPort :: "gostring \<Rightarrow> goerr + gostring \<times> gostring" where
  "net_SplitHostPort s =
     (let finish = (\<lambda>i host j k.
            if 0x5B \<in> set (drop j s) then Inl (ErrMsg ''unexpected '[' in address'')
            else if 0x5D \<in> set (drop k s) then Inl (ErrMsg ''unexpected ']' in address'')
            else Inr (host, drop (i + 1) s))
      in case strings_LastIndexByte s 0x3A of
           None \<Rightarrow> Inl (ErrMsg ''missing port in address'')
         | Some i \<Rightarrow>
             if s ! 0 = 0x5B then
               (case strings_IndexByte s 0x5D of
                  None \<Rightarrow> Inl (ErrMsg ''missing ']' in address'')
                | Some e \<Rightarrow>
                    if e + 1 = length s then Inl (ErrMsg ''missing port in address'')
                    else if e + 1 = i then finish i (go_slice 1 e s) 1 (e + 1)
                    else if s ! (e + 1) = 0x3A then Inl (ErrMsg ''too many colons in address'')
                    else Inl (ErrMsg ''missing port in address''))
             else
               (let host = take i s
                in if 0x3A \<in> set host then Inl (ErrMsg ''too many colons in address'') else finish i host 0 0))"

definition net_JoinHostPort :: "gostring \<Rightarrow> gostring \<Rightarrow> gostring" where
  "net_JoinHostPort host port = (if 0x3A \<in> set host then 0x5B # host @ [0x5D, 0x3A] @ port else host @ 0x3A # port)"

definition splitHostPort :: "texts \<Rightarrow> gostring \<Rightarrow> goerr + gostring \<times> int" where
  "splitHostPort X addr =
     (case net_SplitHostPort addr of
        Inl e \<Rightarrow> Inl e
      | Inr (host, portStr) \<Rightarrow>
          let host = TrimSpace X host
          in if host = [] then Inl (ErrMsg ''host must not be empty'')
             else case strconv_Atoi portStr of
               None \<Rightarrow> Inl (ErrMsg ''invalid port'')
             | Some port \<Rightarrow> if port \<le> 0 \<or> port > 65535 then Inl (ErrMsg ''port must be 1..65535'') else Inr (host, port))"

section \<open>The program\<close>

definition resolveKISSTCPClientConfig ::
  "'v viper \<Rightarrow> texts \<Rightarrow> 'v Config \<Rightarrow> (goerr + KISSTCPClientConfig \<times> gostring) outcome" where
  "resolveKISSTCPClientConfig V X c =
     and_then (NewKISSTCPClientConfigFromConfig V c) (\<lambda>kcfg.
     and_then (GetStr V c KeyBeaconAddr) (\<lambda>addr.
     let beaconAddr = TrimSpace X addr in
     if beaconAddr \<noteq> [] then
       (case splitHostPort X beaconAddr of
          Inl e \<Rightarrow> Ret (Inl (ErrWrap ''beacon.addr'' e))
        | Inr (host, port) \<Rightarrow> Ret (Inr (kcfg\<lparr>tcpHost := host, tcpPort := of_int port\<rparr>, beaconAddr)))
     else
     and_then (GetStr V c KeyKissClientHost) (\<lambda>h.
     let host = TrimSpace X h in
     if host = [] then Ret (Inl (ErrMsg ''kiss.client.host must not be empty'')) else
     and_then (GetInt V c KeyKissClientPort) (\<lambda>port.
     if port \<le> 0 \<or> port > 65535 then Ret (Inl (ErrMsg ''kiss.client.port must be 1..65535''))
     else Ret (Inr (kcfg, net_JoinHostPort host (fmt_int port)))))))"

text \<open>\<open>main\<close> up to \<open>bcn.Start\<close>: the exit status it ends with, or the beacon, the client and the address it logs.\<close>

record beacon_program =
  bpBeacon :: Beacon
  bpCfg :: KISSTCPClientConfig
  bpLink :: "KISSDecoder tcp_link"
  bpAddr :: gostring

definition beacon_main ::
  "'v viper \<Rightarrow> texts \<Rightarrow> (byte list \<Rightarrow> goerr + ini_file) \<Rightarrow> (gostring \<Rightarrow> stat_result) \<Rightarrow> gostring \<Rightarrow> (nat + beacon_program) outcome" where
  "beacon_main V X load stat configPath =
     and_then (LoadINI V stat configPath (NewConfig V load [])) (\<lambda>(err, c).
     if err \<noteq> None then Ret (Inl 1) else
     and_then (BeaconConfigFromConfig V c) (\<lambda>bcnCfg.
     if TrimSpace X (bSource bcnCfg) = [] then Ret (Inl 2)
     else if bEvery bcnCfg \<le> 0 then Ret (Inl 2) else
     and_then (resolveKISSTCPClientConfig V X c) (\<lambda>r.
     case r of
       Inl e \<Rightarrow> Ret (Inl 2)
     | Inr (kcfg, resolvedAddr) \<Rightarrow>
         and_then (NewKISSTCPClientPHY (kcfg\<lparr>tcpOnRxFrame := True, tcpOnError := True\<rparr>)) (\<lambda>p.
         case p of
           Inl e \<Rightarrow> Ret (Inl 1)
         | Inr (kcfg, l) \<Rightarrow>
             Ret (Inr \<lparr>bpBeacon = NewBeacon bcnCfg True, bpCfg = kcfg, bpLink = link_Start l, bpAddr = resolvedAddr\<rparr>)))))"

text \<open>The function the beacon sends with: without a connection the frame is skipped.\<close>

definition beacon_tx :: "unicode \<Rightarrow> KISSTCPClientConfig \<Rightarrow> KISSDecoder tcp_link \<Rightarrow> Frame \<Rightarrow> goerr option \<times> KISSDecoder tcp_link" where
  "beacon_tx U c l f =
     (case KISSTCPClient_Send U c (Some f) l of
        (Some e, l) \<Rightarrow> (if errors_Is e ErrNotConnected then None else Some e, l)
      | (None, l) \<Rightarrow> (None, l))"

section \<open>Lemmas\<close>

lemma LastIndexByte_append: "c \<notin> set t \<Longrightarrow> strings_LastIndexByte (s @ c # t) c = Some (length s)"
  by (simp add: strings_LastIndexByte_def IndexByte_append)

lemma Atoi_fmt_int:
  assumes "0 \<le> n" and "n < 2 ^ 63"
  shows "strconv_Atoi (fmt_int n) = Some n"
proof -
  have d: "list_all is_digit (fmt_d (nat n))" "fmt_d (nat n) \<noteq> []" using fmt_d_digits by auto
  then have "is_digit (hd (fmt_d (nat n)))" by (cases "fmt_d (nat n)") auto
  then have "hd (fmt_d (nat n)) \<noteq> 0x2D" "hd (fmt_d (nat n)) \<noteq> 0x2B" by (auto simp: is_digit_def)
  then show ?thesis using assms d by (simp add: strconv_Atoi_def fmt_int_def digits_value_fmt_d)
qed

lemma fmt_int_plain: "0 \<le> n \<Longrightarrow> \<not> is_digit b \<Longrightarrow> b \<notin> set (fmt_int n)"
  using fmt_d_digits [of "nat n"] by (auto simp: fmt_int_def list_all_iff)

lemma SplitHostPort_Join:
  assumes "host \<noteq> []" and "0x5B \<notin> set host" "0x5D \<notin> set host" and "0x3A \<notin> set port" "0x5B \<notin> set port" "0x5D \<notin> set port"
  shows "net_SplitHostPort (net_JoinHostPort host port) = Inr (host, port)"
proof (cases "0x3A \<in> set host")
  case True
  let ?s = "0x5B # host @ 0x5D # 0x3A # port"
  have i: "strings_LastIndexByte ?s 0x3A = Some (Suc (Suc (length host)))"
    using LastIndexByte_append [OF assms(4), of "0x5B # host @ [0x5D]"] by simp
  show ?thesis using True assms by (simp add: net_JoinHostPort_def net_SplitHostPort_def Let_def i IndexByte_append [OF assms(3)] go_slice_def)
next
  case False
  have i: "strings_LastIndexByte (host @ 0x3A # port) 0x3A = Some (length host)" using LastIndexByte_append [OF assms(4)] .
  have "host ! 0 \<noteq> 0x5B" using assms(1,2) by (cases host) auto
  then have h: "(host @ 0x3A # port) ! 0 \<noteq> 0x5B" using assms(1) by (simp add: nth_append)
  show ?thesis using False assms h by (simp add: net_JoinHostPort_def net_SplitHostPort_def Let_def i)
qed

lemma splitHostPort_Join:
  assumes "host \<noteq> []" and "TrimSpace X host = host" and "0x5B \<notin> set host" "0x5D \<notin> set host" and "1 \<le> n" "n \<le> 65535"
  shows "splitHostPort X (net_JoinHostPort host (fmt_int n)) = Inr (host, n)"
proof -
  have "b \<notin> set (fmt_int n)" if "\<not> is_digit b" for b using fmt_int_plain [of n b] that assms(5) by simp
  then have "net_SplitHostPort (net_JoinHostPort host (fmt_int n)) = Inr (host, fmt_int n)"
    using assms by (intro SplitHostPort_Join) (simp_all add: is_digit_def)
  then show ?thesis using assms Atoi_fmt_int [of n] by (simp add: splitHostPort_def)
qed

lemma splitHostPort_ok: "splitHostPort X addr = Inr (host, n) \<Longrightarrow> host \<noteq> [] \<and> 1 \<le> n \<and> n \<le> 65535"
  by (auto simp: splitHostPort_def Let_def split: sum.splits option.splits if_splits)

lemma port_word:
  assumes "1 \<le> n" and "n \<le> 65535"
  shows "uint (of_int n :: 16 word) = n" and "(of_int n :: 16 word) \<noteq> 0"
proof -
  show u: "uint (of_int n :: 16 word) = n" using assms by (simp add: uint_word_of_int)
  then show "(of_int n :: 16 word) \<noteq> 0" using assms(1) by (metis unsigned_0 not_one_le_zero)
qed

lemma resolve_ok:
  assumes "resolveKISSTCPClientConfig V X c = Ret (Inr (k, addr))"
  shows "tcpHost k \<noteq> []" and "tcpPort k \<noteq> 0"
    and "TrimSpace X (tcpHost k) = tcpHost k \<and> 0x5B \<notin> set (tcpHost k) \<and> 0x5D \<notin> set (tcpHost k)
       \<Longrightarrow> splitHostPort X addr = Inr (tcpHost k, uint (tcpPort k))"
proof -
  obtain kcfg a where k: "NewKISSTCPClientConfigFromConfig V c = Ret kcfg" "GetStr V c KeyBeaconAddr = Ret a"
    using assms by (auto simp: resolveKISSTCPClientConfig_def and_then_Ret)
  have "tcpHost k \<noteq> [] \<and> tcpPort k \<noteq> 0 \<and> (TrimSpace X (tcpHost k) = tcpHost k \<and> 0x5B \<notin> set (tcpHost k) \<and> 0x5D \<notin> set (tcpHost k)
       \<longrightarrow> splitHostPort X addr = Inr (tcpHost k, uint (tcpPort k)))"
  proof (cases "TrimSpace X a = []")
    case False
    then obtain host n where h: "splitHostPort X (TrimSpace X a) = Inr (host, n)"
      and ka: "k = kcfg\<lparr>tcpHost := host, tcpPort := of_int n\<rparr>" "addr = TrimSpace X a"
      using assms k by (auto simp: resolveKISSTCPClientConfig_def Let_def split: sum.splits)
    then show ?thesis using splitHostPort_ok [OF h] port_word [of n] by auto
  next
    case True
    then obtain h n where h: "GetStr V c KeyKissClientHost = Ret h" "GetInt V c KeyKissClientPort = Ret n" "TrimSpace X h \<noteq> []"
      "1 \<le> n" "n \<le> 65535" and ka: "k = kcfg" "addr = net_JoinHostPort (TrimSpace X h) (fmt_int n)"
      using assms k by (auto simp: resolveKISSTCPClientConfig_def Let_def and_then_Ret split: if_splits)
    have kc: "tcpHost kcfg = h" "tcpPort kcfg = of_int n"
      using k(1) h(1,2) by (auto simp: NewKISSTCPClientConfigFromConfig_def and_then_Ret)
    have "h \<noteq> []" using h(3) by (auto simp: strings_TrimSpace_def)
    then show ?thesis using kc ka h port_word [OF h(4,5)] splitHostPort_Join [of h X n] by auto
  qed
  then show "tcpHost k \<noteq> []" and "tcpPort k \<noteq> 0" and "TrimSpace X (tcpHost k) = tcpHost k \<and> 0x5B \<notin> set (tcpHost k) \<and> 0x5D \<notin> set (tcpHost k)
       \<Longrightarrow> splitHostPort X addr = Inr (tcpHost k, uint (tcpPort k))" by auto
qed

lemma NewKISSTCPClientPHY_ok:
  assumes "NewKISSTCPClientPHY c = Ret (Inr (c', l))"
  shows "tcpHost c' = tcpHost c" and "tcpPort c' = tcpPort c" and "tcpOnRxFrame c'" and "tcpTXQueueDepth c' > 0"
    and "l = new_link (NewKISSDecoder True)"
  using assms by (auto simp: NewKISSTCPClientPHY_def Let_def split: if_splits)

section \<open>Properties\<close>

text \<open>The server a beacon program uses. When the program starts without ending with an error status, the beacon has a source and an
  interval, and the client has a host, a port and the callbacks \<open>NewKISSTCPClientPHY\<close> asks for, and is about to dial. The
  address in the log is the one it dials: split again it gives the client's host and port, if the host has neither white
  space around it nor brackets in it.\<close>

theorem beacon_program_dials:
  assumes "beacon_main V X load stat configPath = Ret (Inr p)"
  shows "TrimSpace X (bSource (bCfg (bpBeacon p))) \<noteq> [] \<and> bEvery (bCfg (bpBeacon p)) > 0 \<and> hasSendFn (bpBeacon p)
    \<and> tcpHost (bpCfg p) \<noteq> [] \<and> tcpPort (bpCfg p) \<noteq> 0 \<and> tcpOnRxFrame (bpCfg p) \<and> tcpTXQueueDepth (bpCfg p) > 0
    \<and> rxPhase (bpLink p) = RxDialing
    \<and> (TrimSpace X (tcpHost (bpCfg p)) = tcpHost (bpCfg p) \<and> 0x5B \<notin> set (tcpHost (bpCfg p)) \<and> 0x5D \<notin> set (tcpHost (bpCfg p))
       \<longrightarrow> splitHostPort X (bpAddr p) = Inr (tcpHost (bpCfg p), uint (tcpPort (bpCfg p))))"
proof -
  let ?phy = "\<lambda>k. NewKISSTCPClientPHY (k\<lparr>tcpOnRxFrame := True, tcpOnError := True\<rparr>)"
  let ?prog = "\<lambda>bcnCfg k l addr. \<lparr>bpBeacon = NewBeacon bcnCfg True, bpCfg = k, bpLink = link_Start l, bpAddr = addr\<rparr>"
  obtain c bcnCfg rs where b: "TrimSpace X (bSource bcnCfg) \<noteq> []" "bEvery bcnCfg > 0"
    and rs: "resolveKISSTCPClientConfig V X c = Ret rs"
    and next_call: "(case rs of Inl e \<Rightarrow> Ret (Inl (2 :: nat)) | Inr (k, addr) \<Rightarrow>
        and_then (?phy k) (case_sum (\<lambda>e. Ret (Inl (1 :: nat))) (\<lambda>(k', l). Ret (Inr (?prog bcnCfg k' l addr))))) = Ret (Inr p)"
    using assms by (auto simp: beacon_main_def and_then_Ret [of "LoadINI V stat configPath (NewConfig V load [])"]
        and_then_Ret [of "BeaconConfigFromConfig V c" for c] and_then_Ret [of "resolveKISSTCPClientConfig V X c" for c]
        not_le simp del: sum.case One_nat_def split: if_split_asm)
  obtain k addr where ka: "rs = Inr (k, addr)" using next_call by (cases rs) auto
  obtain y where y: "?phy k = Ret y" using next_call ka by (cases "?phy k") auto
  then obtain k' l where "y = Inr (k', l)" using next_call ka by (cases y) auto
  with y ka next_call have n: "?phy k = Ret (Inr (k', l))" and p: "p = ?prog bcnCfg k' l addr" by auto
  have r: "resolveKISSTCPClientConfig V X c = Ret (Inr (k, addr))" using rs ka by simp
  note n' = NewKISSTCPClientPHY_ok [OF n]
  have k': "tcpHost k' = tcpHost k" "tcpPort k' = tcpPort k" using n'(1,2) by simp_all
  have "rxPhase (link_Start l) = RxDialing" unfolding n'(5) by (simp add: link_Start_def new_link_def)
  then show ?thesis unfolding p using b n'(3,4) resolve_ok [OF r] by (simp add: NewBeacon_def k')
qed

text \<open>A program with a file that sets the beacon's source and interval.\<close>

definition demo_beacon_file :: ini_file where
  "demo_beacon_file = [(str ''beacon'', [(str ''source'', str ''N7GET''), (str ''every'', str ''10'')])]"

abbreviation demo_viper :: "layers viper" where
  "demo_viper \<equiv> plain_viper Map.empty (\<lambda>_. Inr [])"

lemma demo_beacon_get:
  assumes "(k, d) \<in> set (map (\<lambda>p. (Key p, DefaultValue p)) DefaultSchema)"
  shows "\<exists>c. LoadINI demo_viper (\<lambda>_. StatOk) (str ''ax25.ini'') (NewConfig demo_viper (\<lambda>_. Inr demo_beacon_file) []) = Ret (None, c)
    \<and> Config_Get demo_viper c k = Ret (if k = KeyBeaconEvery then str ''10'' else if k = KeyBeaconSource then str ''N7GET'' else d)"
proof -
  let ?ps = "map (\<lambda>p. (Key p, DefaultValue p)) DefaultSchema"
  have e: "file_entries demo_beacon_file = [(KeyBeaconSource, str ''N7GET''), (KeyBeaconEvery, str ''10'')]"
    by (simp add: demo_beacon_file_def file_entries_def full_key_def ini_DefaultSection_def KeyBeaconSource_def KeyBeaconEvery_def flip: str_append)
  have k: "k \<in> Key ` set (DefaultSchema @ [])" "KeyBeaconSource \<in> Key ` set (DefaultSchema @ [])" "KeyBeaconEvery \<in> Key ` set (DefaultSchema @ [])"
    using assms by (auto simp: DefaultSchema_def)
  have l: "\<forall>(q, x) \<in> set (file_entries demo_beacon_file). is_lower q \<and> \<not> dot_above q k \<and> \<not> dot_above k q"
  proof -
    have "is_lower q \<and> \<not> dot_above q k \<and> \<not> dot_above k q" if "q \<in> Key ` set (DefaultSchema @ [])" for q
      using schemas_ok(1) k(1) that unfolding schema_ok_def by blast
    then show ?thesis using k(2,3) by (simp add: e)
  qed
  have "distinct (map fst ?ps)" using distinct_keys by (simp add: comp_def)
  then have "map_of (rev ?ps) k = Some d" using assms by (subst map_of_eq_Some_iff) (simp_all add: rev_map [symmetric])
  then have "config_value Map.empty (file_entries demo_beacon_file) [] k
      = (if k = KeyBeaconEvery then str ''10'' else if k = KeyBeaconSource then str ''N7GET'' else d)"
    by (simp add: config_value_def e schema_defaults_def KeyBeaconEvery_def KeyBeaconSource_def)
  moreover have lay: "id (cfgV (NewConfig demo_viper load [])) = (config_layers load [])\<lparr>lSet := Map.empty\<rparr>" for load
    using NewConfig_layers(1) [OF plain_viper_documented schemas_ok(1), where load = load] by (simp add: config_layers_def no_layers_def)
  ultimately show ?thesis
    using loaded_value [where stat = "\<lambda>_. StatOk" and fname = "str ''ax25.ini''" and load = "\<lambda>_. Inr demo_beacon_file" and s = Map.empty,
        OF plain_viper_documented [of Map.empty "\<lambda>_. Inr []"] schemas_ok(1) k(1) refl refl refl l _ lay
          NewConfig_layers(2) [OF plain_viper_documented schemas_ok(1)]] by simp
qed

theorem beacon_program_dials_witness:
  "\<exists>p. beacon_main demo_viper ascii_tables (\<lambda>_. Inr demo_beacon_file) (\<lambda>_. StatOk) (str ''ax25.ini'') = Ret (Inr p)
     \<and> splitHostPort ascii_tables (bpAddr p) = Inr (str ''localhost'', 8100)"
proof -
  obtain c where c: "LoadINI demo_viper (\<lambda>_. StatOk) (str ''ax25.ini'') (NewConfig demo_viper (\<lambda>_. Inr demo_beacon_file) []) = Ret (None, c)"
    using demo_beacon_get [of KeyBeaconSource] by (auto simp: DefaultSchema_def)
  have get: "Config_Get demo_viper c k = Ret (if k = KeyBeaconEvery then str ''10'' else if k = KeyBeaconSource then str ''N7GET'' else d)"
    if "(k, d) \<in> set (map (\<lambda>p. (Key p, DefaultValue p)) DefaultSchema)" for k d
    using demo_beacon_get [OF that] c by auto
  note keys = KeyBeaconEvery_def KeyBeaconSource_def KeyBeaconDestination_def KeyBeaconVia_def KeyBeaconText_def KeyBeaconAddr_def
    KeyKissClientHost_def KeyKissClientPort_def KeyKissClientTxQueueDepth_def KeyKissClientReadBuf_def
  have g: "Config_Get demo_viper c KeyBeaconEvery = Ret (str ''10'')" "Config_Get demo_viper c KeyBeaconSource = Ret (str ''N7GET'')"
    "Config_Get demo_viper c KeyBeaconDestination = Ret (str ''BEACON'')" "Config_Get demo_viper c KeyBeaconVia = Ret (str '''')"
    "Config_Get demo_viper c KeyBeaconText = Ret (str ''go-ax25'')" "Config_Get demo_viper c KeyBeaconAddr = Ret (str '''')"
    "Config_Get demo_viper c KeyKissClientHost = Ret (str ''localhost'')" "Config_Get demo_viper c KeyKissClientPort = Ret (str ''8100'')"
    "Config_Get demo_viper c KeyKissClientTxQueueDepth = Ret (str ''8'')" "Config_Get demo_viper c KeyKissClientReadBuf = Ret (str ''4096'')"
    using get [of KeyBeaconEvery "str ''0''"] get [of KeyBeaconSource "str ''''"] get [of KeyBeaconDestination "str ''BEACON''"]
      get [of KeyBeaconVia "str ''''"] get [of KeyBeaconText "str ''go-ax25''"] get [of KeyBeaconAddr "str ''''"]
      get [of KeyKissClientHost "str ''localhost''"] get [of KeyKissClientPort "str ''8100''"]
      get [of KeyKissClientTxQueueDepth "str ''8''"] get [of KeyKissClientReadBuf "str ''4096''"]
    by (simp_all add: DefaultSchema_def keys)
  have t: "TrimSpace ascii_tables (str ''N7GET'') = str ''N7GET''" "TrimSpace ascii_tables [] = []"
    "TrimSpace ascii_tables (str ''localhost'') = str ''localhost''" and ne: "str ''N7GET'' \<noteq> []" "str ''localhost'' \<noteq> []"
    by (simp_all add: strings_TrimSpace_def ascii_space_def str_simps)
  have "\<exists>p. beacon_main demo_viper ascii_tables (\<lambda>_. Inr demo_beacon_file) (\<lambda>_. StatOk) (str ''ax25.ini'') = Ret (Inr p)
      \<and> tcpHost (bpCfg p) = str ''localhost'' \<and> tcpPort (bpCfg p) = 8100"
    by (simp add: beacon_main_def c BeaconConfigFromConfig_def resolveKISSTCPClientConfig_def NewKISSTCPClientConfigFromConfig_def GetStr_def
        GetInt_def g Atoi_defaults t ne NewKISSTCPClientPHY_def Let_def wrap64_def Second_def str_simps(1))
  then obtain p where p: "beacon_main demo_viper ascii_tables (\<lambda>_. Inr demo_beacon_file) (\<lambda>_. StatOk) (str ''ax25.ini'') = Ret (Inr p)"
    "tcpHost (bpCfg p) = str ''localhost''" "tcpPort (bpCfg p) = 8100" by blast
  have "0x5B \<notin> set (str ''localhost'')" "0x5D \<notin> set (str ''localhost'')" by (simp_all add: str_simps)
  then show ?thesis using beacon_program_dials [OF p(1)] p t(3) by (intro exI [of _ p]) auto
qed

text \<open>What the program's beacon sends. With a connection and room in the queue its frame is queued for the KISS server; without a connection
  it is skipped and the beacon takes it for sent.\<close>

theorem beacon_program_sends:
  assumes "valid_address src" and "valid_address dst" and "\<forall>d \<in> set ds. valid_address d" and "length ds \<le> MaxDigipeaters"
    and "bCfg b = \<lparr>bSource = Address_String src, bDestination = Address_String dst, bVia = strings_Join (map Address_String ds) [0x2C],
      bText = text, bEvery = every\<rparr>" and "hasSendFn b" and "int (length (linkTx l)) < tcpTXQueueDepth c"
  shows "\<exists>f. Trigger U T (\<lambda>f. fst (beacon_tx U c l f)) b = (None, [f]) \<and> wf_frame f \<and> Type f = FrameUI
    \<and> Payload f = take MaxInfoLen (unescapeText text)
    \<and> linkTx (snd (beacon_tx U c l f)) = linkTx l @ (if linkUp l then [phy_wire U 0 f] else [])"
proof -
  let ?send = "\<lambda>f. fst (beacon_tx U c l f)"
  obtain f where f: "Trigger U T ?send b = (?send f, [f])" "wf_frame f" "Type f = FrameUI" "Payload f = take MaxInfoLen (unescapeText text)"
    using beacon_sent [OF assms(1-4,6), of U T ?send] assms(5) by auto
  obtain raw where "Frame_Encode U f = Inr raw" using frame_wire.enc_total [OF f(2), of U] by auto
  then have "beacon_tx U c l f = (None, l\<lparr>linkTx := linkTx l @ (if linkUp l then [phy_wire U 0 f] else [])\<rparr>)"
    using assms(7) by (simp add: beacon_tx_def KISSTCPClient_Send_def link_send_def phy_wire_def)
  then show ?thesis using f by (intro exI [of _ f]) simp
qed

end
