(* ===== verification/Bbs_Main.thy ===== *)
theory Bbs_Main
  imports Bbs_Session Ax25_Config
begin

text \<open>
  The BBS program, \<open>src/cmd/bbs/main.go\<close>: how \<open>main\<close> puts the BBS together, the goroutine that registers
  its callsign with the AGWPE server, and the end of the program. What opening the database returns is given. The
  lemmas show what the program starts with, when it is registered, and that its
  end does not disconnect the stations.
\<close>

declare str_simps [simp del]

section \<open>Start\<close>

definition bbs_client_config :: "'v viper \<Rightarrow> 'v Config \<Rightarrow> BBSConfig \<Rightarrow> ClientConfig outcome" where
  "bbs_client_config V c b =
     and_then (GetInt V c KeyAgwpeClientTxQueueDepth) (\<lambda>tx.
     and_then (GetInt V c KeyAgwpeClientReadBuf) (\<lambda>buf.
     Ret \<lparr>cHost = AGWPEHost b, cPort = AGWPEPort b, cConnectTimeout = 6 * Second, cReconnectDelay = 5 * Second,
          cTXQueueDepth = tx, cReadBufSize = buf, cOnRxFrame = True, cOnError = True\<rparr>))"

text \<open>\<open>main\<close> up to \<open>client.Start\<close>: its exit status, or the manager of the sessions with its client.\<close>

definition bbs_main ::
  "'v viper \<Rightarrow> (byte list \<Rightarrow> goerr + ini_file) \<Rightarrow> (gostring \<Rightarrow> stat_result) \<Rightarrow> 'd sqldb \<Rightarrow> (gostring \<Rightarrow> goerr + 'd) \<Rightarrow> random
     \<Rightarrow> gostring \<Rightarrow> (nat + 'd SessionManager) outcome" where
  "bbs_main V load stat D open_db rnd configPath =
     and_then (LoadINI V stat configPath (NewConfig V load BBSConfigSchema)) (\<lambda>(err, c).
     if err \<noteq> None then Ret (Inl 1) else
     and_then (LoadBBSConfig V c) (\<lambda>b.
     case NewSQLiteStore D (open_db (DBPath b)) of
       Inl e \<Rightarrow> Ret (Inl 1)
     | Inr st \<Rightarrow>
         let m = NewSessionManager b st (Heard_New 20) rnd in
         and_then (bbs_client_config V c b) (\<lambda>k.
         and_then (NewClient k) (\<lambda>r.
         case r of
           Inl e \<Rightarrow> Ret (Inl 1)
         | Inr (k, l) \<Rightarrow> Ret (Inr (SetAGWPEClient k (Client_Start l) m))))))"

section \<open>Registration\<close>

text \<open>The goroutine that registers the callsign, over the states of the client its turns find; \<open>None\<close> while it has not got
  through. It ends after the first success.\<close>

fun register_loop :: "ClientConfig \<Rightarrow> gostring \<Rightarrow> Decoder tcp_link list \<Rightarrow> (Decoder tcp_link \<times> Decoder tcp_link list) option" where
  "register_loop c call [] = None"
| "register_loop c call (l # ls) =
     (case Client_SendFrame c (Some (BuildRegisterCall 0 call)) l of
        (Some e, l) \<Rightarrow> register_loop c call ls
      | (None, l) \<Rightarrow> Some (snd (ToggleMonitor c l), ls))"

section \<open>End\<close>

text \<open>After a signal: \<open>client.Stop\<close>, whose wait ends in the state \<open>stopped\<close> of the client, and \<open>DisconnectAll\<close>, which takes the sessions in
  any order.\<close>

definition bbs_shutdown :: "ClientConfig \<Rightarrow> Decoder tcp_link \<Rightarrow> gostring list \<Rightarrow> 's SessionManager \<Rightarrow> 's SessionManager" where
  "bbs_shutdown c stopped order m = DisconnectAll order (m\<lparr>mclient := Some (c, stopped)\<rparr>)"

section \<open>Properties\<close>

text \<open>The first turn that finds a connection and room for two frames registers the callsign and turns monitoring on, and the goroutine ends.\<close>

lemma register_loop_ends:
  assumes "linkUp l" and "int (length (linkTx l)) + 2 \<le> cTXQueueDepth c" and "length call \<le> 10"
    and "\<forall>k \<in> set ls. \<not> linkUp k"
  shows "\<exists>a b l'. register_loop c call (ls @ l # rest) = Some (l', rest) \<and> linkTx l' = linkTx l @ [a, b]
    \<and> AgwFrame_Encode (BuildRegisterCall 0 call) = Inr a \<and> AgwFrame_Encode BuildToggleMonitor = Inr b"
  using assms(4)
proof (induction ls)
  case Nil
  obtain a b where e: "AgwFrame_Encode (BuildRegisterCall 0 call) = Inr a" "AgwFrame_Encode BuildToggleMonitor = Inr b"
    by (simp add: AgwFrame_Encode_def BuildRegisterCall_def BuildToggleMonitor_def of_kind_def)
  show ?case using assms(1,2) e by (simp add: Client_SendFrame_def link_send_def ToggleMonitor_def)
next
  case (Cons k ls)
  then show ?case by (simp add: Client_SendFrame_def link_send_down)
qed

lemma no_link_no_disconnect:
  assumes "mclient m = Some (c, l)" and "\<not> linkUp l"
  shows "mclient (fold sendDisconnect ss m) = Some (c, l)"
  using assms(1)
proof (induction ss arbitrary: m)
  case (Cons s ss)
  have "mclient (sendDisconnect s m) = Some (c, l)"
    using Cons.prems assms(2) by (simp add: sendDisconnect_def Client_SendFrame_def link_send_down)
  from Cons.IH [OF this] show ?case by simp
qed simp

text \<open>Stations are not disconnected at the end. When \<open>client.Stop\<close> has returned, the client of a BBS that has run in any
  way has no connection any more, and \<open>DisconnectAll\<close> comes after it: it forgets the sessions, but it sends nothing.\<close>

theorem shutdown_sends_nothing:
  assumes "(Client_step c)\<^sup>*\<^sup>* (new_link (NewDecoder True)) l" and "link_stopped l" and "linkDone l"
  shows "mclient (bbs_shutdown c l order m) = Some (c, l) \<and> \<not> linkUp l"
proof -
  have "agw_client.link_ok l" using agw_client.link_sys.reachable_inv [OF refl] assms(1) by (simp add: Client_step_def)
  then have "\<not> linkUp l" using assms(2) by (auto simp: agw_client.link_ok_def link_stopped_def)
  then show ?thesis by (simp add: bbs_shutdown_def DisconnectAll_def no_link_no_disconnect)
qed

theorem shutdown_sends_nothing_witness:
  "\<forall>order (m :: unit SessionManager).
     mclient (bbs_shutdown \<lparr>cHost = str ''localhost'', cPort = 8000, cConnectTimeout = 0, cReconnectDelay = 0, cTXQueueDepth = 8,
         cReadBufSize = 0, cOnRxFrame = True, cOnError = True\<rparr>
       (rx_dial True (NewDecoder True) (Client_Stop (Client_Start (new_link (NewDecoder True))))) order m)
     = Some (\<lparr>cHost = str ''localhost'', cPort = 8000, cConnectTimeout = 0, cReconnectDelay = 0, cTXQueueDepth = 8,
         cReadBufSize = 0, cOnRxFrame = True, cOnError = True\<rparr>,
       rx_dial True (NewDecoder True) (Client_Stop (Client_Start (new_link (NewDecoder True)))))"
proof -
  let ?c = "\<lparr>cHost = str ''localhost'', cPort = 8000, cConnectTimeout = 0, cReconnectDelay = 0, cTXQueueDepth = 8,
         cReadBufSize = 0, cOnRxFrame = True, cOnError = True\<rparr>"
  let ?l0 = "new_link (NewDecoder True)" and ?l1 = "Client_Start (new_link (NewDecoder True))"
  let ?l2 = "Client_Stop (Client_Start (new_link (NewDecoder True)))"
  let ?l3 = "rx_dial True (NewDecoder True) ?l2"
  note d = Client_Start_def Client_Stop_def link_Start_def link_Stop_def new_link_def rx_dial_def
  have "Client_step ?c ?l0 ?l1" unfolding Client_step_def Client_Start_def by (rule link_step.link_start)
  moreover have "Client_step ?c ?l1 ?l2" unfolding Client_step_def Client_Stop_def by (rule link_step.link_stop)
  moreover have "Client_step ?c ?l2 ?l3" unfolding Client_step_def by (rule link_step.link_dial) (simp add: d)
  ultimately have r: "(Client_step ?c)\<^sup>*\<^sup>* ?l0 ?l3" by (meson converse_rtranclp_into_rtranclp rtranclp.rtrancl_refl)
  have "link_stopped ?l3" "linkDone ?l3" by (simp_all add: d link_stopped_def)
  then show ?thesis using shutdown_sends_nothing [OF r] by blast
qed

end
