(* ===== verification/Router_Conc.thy ===== *)
theory Router_Conc
  imports Ax25_Router "HOL-Library.Multiset"
begin

text \<open>
  \<open>src/ax25/router.go\<close> as its goroutines run it. \<open>Ax25_Router\<close> has every method as a whole; here a method is the steps between
  which other goroutines can come: \<open>RegisterPort\<close> tests \<open>closed\<close> before it takes the lock, \<open>Send\<close> copies the list of ports under the read
  lock and delivers after it, \<open>sendSwitch\<close> looks at one port after the other, \<open>deliver\<close> enqueues first and counts then, \<open>stop\<close> closes
  the quit channel and waits for the worker, and the worker takes a frame, calls \<open>OnRxFrame\<close> and counts. The calls under way are a
  multiset of what is left of them, so any number of goroutines may be in any method. For every port the frames that entered its queue
  and those the worker gave to the callback are recorded. The lemmas show the invariant of all interleavings, that a
  method run alone is the method of \<open>Ax25_Router\<close>, and what a registration may do while the router is closed.
\<close>

section \<open>Goroutines\<close>

datatype rcall =
    RegChecked port_id \<comment> \<open>\<open>RegisterPort\<close>: \<open>closed\<close> was false, the lock is not taken yet\<close>
  | CloseStored \<comment> \<open>\<open>Close\<close>: \<open>closed\<close> is set\<close>
  | StopPorts "port_id list" \<comment> \<open>\<open>Close\<close>, \<open>UnregisterPort\<close>: ports to stop\<close>
  | StopWait port_id "port_id list" \<comment> \<open>\<open>stop\<close> in \<open>wg.Wait\<close>\<close>
  | SendChecked Frame port_id \<comment> \<open>\<open>Send\<close>: \<open>closed\<close> was false\<close>
  | SendPorts Frame port_id "port_id list" \<comment> \<open>\<open>Send\<close> with its copy of the ports\<close>
  | Classify Frame port_id "port_id list" PortClasses \<comment> \<open>\<open>sendSwitch\<close> in its loop\<close>
  | Deliver Frame "port_id list" \<comment> \<open>deliveries left\<close>
  | CountTx port_id Frame "port_id list" \<comment> \<open>\<open>deliver\<close> after the frame was enqueued\<close>
  | CountDrop port_id Frame "port_id list" \<comment> \<open>\<open>deliver\<close> after the queue was full\<close>

datatype rworker =
    WSelect \<comment> \<open>waiting, or not running\<close>
  | WTook Frame \<comment> \<open>a frame was received from \<open>txCh\<close>\<close>
  | WCalled Frame \<comment> \<open>\<open>OnRxFrame\<close> has returned\<close>

record rworld =
  wRouter :: Router
  wStore :: port_store
  wWorker :: "port_id \<Rightarrow> rworker"
  wCalls :: "rcall multiset"
  wAccepted :: "port_id \<Rightarrow> Frame list"
  wHandled :: "port_id \<Rightarrow> Frame list"
  wPanic :: bool

section \<open>Steps\<close>

text \<open>The steps of the parts of \<open>deliver\<close> and of the worker, on the port.\<close>

definition port_enqueue :: "Frame \<Rightarrow> Port \<Rightarrow> Port option" where
  "port_enqueue f p =
     (case txCh p of
        Some q \<Rightarrow> if length q < txCap p then Some (p\<lparr>txCh := Some (q @ [f])\<rparr>) else None
      | None \<Rightarrow> None)"

definition count_tx :: "Port \<Rightarrow> Port" where
  "count_tx p = p\<lparr>stats := (stats p)\<lparr>TxFrames := TxFrames (stats p) + 1\<rparr>\<rparr>"

definition count_drop :: "Port \<Rightarrow> Port" where
  "count_drop p = p\<lparr>stats := (stats p)\<lparr>Dropped := Dropped (stats p) + 1\<rparr>\<rparr>"

definition count_rx :: "Port \<Rightarrow> Port" where
  "count_rx p = p\<lparr>stats := (stats p)\<lparr>RxFrames := RxFrames (stats p) + 1\<rparr>\<rparr>"

text \<open>The ports \<open>sendSwitch\<close> delivers to when it has looked at all, in its order.\<close>

definition class_targets :: "Frame \<Rightarrow> PortClasses \<Rightarrow> port_id list" where
  "class_targets f c = promoPorts c @
     (if hasUnrepeatedDigi f then digiPorts c else case staticMatch c of Some p \<Rightarrow> [p] | None \<Rightarrow> defaultPorts c)"

abbreviation no_classes :: PortClasses where
  "no_classes \<equiv> \<lparr>staticMatch = None, defaultPorts = [], promoPorts = [], digiPorts = []\<rparr>"

text \<open>What \<open>Send\<close> does first with its copy of the ports: a dynamic source port is bound and the loop begins, or the
  other modes pick their ports by mode, which nothing changes.\<close>

definition send_dispatch :: "unicode \<Rightarrow> Frame \<Rightarrow> port_id \<Rightarrow> port_id list \<Rightarrow> Router \<Rightarrow> port_store \<Rightarrow> port_store \<times> rcall" where
  "send_dispatch U f src ps r h =
     (case rMode r of
        RouterModeSwitch \<Rightarrow> (bindDynamic f src h, Classify f src ps no_classes)
      | m \<Rightarrow> (h, Deliver f (targets U m f src ps h)))"

inductive conc_step :: "unicode \<Rightarrow> rworld \<Rightarrow> rworld \<Rightarrow> bool" for U where
  register: "\<not> closed (wRouter w) \<Longrightarrow> conc_step U w (w\<lparr>wCalls := add_mset (RegChecked p) (wCalls w)\<rparr>)"
| register_twice: "wCalls w = add_mset (RegChecked p) cs \<Longrightarrow> p \<in> set (ports (wRouter w)) \<Longrightarrow> conc_step U w (w\<lparr>wCalls := cs\<rparr>)"
| register_port: "wCalls w = add_mset (RegChecked p) cs \<Longrightarrow> p \<notin> set (ports (wRouter w)) \<Longrightarrow>
     conc_step U w (w\<lparr>wRouter := (wRouter w)\<lparr>ports := ports (wRouter w) @ [p]\<rparr>,
       wStore := (wStore w)(p := Port_start defaultPortQueueDepth (wStore w p)), wCalls := cs\<rparr>)"
| unregister: "p \<in> set (ports (wRouter w)) \<Longrightarrow>
     conc_step U w (w\<lparr>wRouter := (wRouter w)\<lparr>ports := remove1 p (ports (wRouter w))\<rparr>, wCalls := add_mset (StopPorts [p]) (wCalls w)\<rparr>)"
| close: "conc_step U w (w\<lparr>wRouter := (wRouter w)\<lparr>closed := True\<rparr>, wCalls := add_mset CloseStored (wCalls w)\<rparr>)"
| close_ports: "wCalls w = add_mset CloseStored cs \<Longrightarrow>
     conc_step U w (w\<lparr>wRouter := (wRouter w)\<lparr>ports := []\<rparr>, wCalls := add_mset (StopPorts (ports (wRouter w))) cs\<rparr>)"
| stop_none: "wCalls w = add_mset (StopPorts (p # ps)) cs \<Longrightarrow> \<not> started (wStore w p) \<Longrightarrow>
     conc_step U w (w\<lparr>wCalls := add_mset (StopPorts ps) cs\<rparr>)"
| stop_panics: "wCalls w = add_mset (StopPorts (p # ps)) cs \<Longrightarrow> started (wStore w p) \<Longrightarrow> quitClosed (wStore w p) \<Longrightarrow>
     conc_step U w (w\<lparr>wPanic := True, wCalls := cs\<rparr>)"
| stop_quit: "wCalls w = add_mset (StopPorts (p # ps)) cs \<Longrightarrow> started (wStore w p) \<Longrightarrow> \<not> quitClosed (wStore w p) \<Longrightarrow>
     conc_step U w (w\<lparr>wStore := (wStore w)(p := (wStore w p)\<lparr>quitClosed := True\<rparr>), wCalls := add_mset (StopWait p ps) cs\<rparr>)"
| stop_waited: "wCalls w = add_mset (StopWait p ps) cs \<Longrightarrow> \<not> running (wStore w p) \<Longrightarrow>
     conc_step U w (w\<lparr>wCalls := add_mset (StopPorts ps) cs\<rparr>)"
| stop_done: "wCalls w = add_mset (StopPorts []) cs \<Longrightarrow> conc_step U w (w\<lparr>wCalls := cs\<rparr>)"
| send: "\<not> closed (wRouter w) \<Longrightarrow> conc_step U w (w\<lparr>wCalls := add_mset (SendChecked f src) (wCalls w)\<rparr>)"
| send_ports: "wCalls w = add_mset (SendChecked f src) cs \<Longrightarrow>
     conc_step U w (w\<lparr>wCalls := add_mset (SendPorts f src (ports (wRouter w))) cs\<rparr>)"
| dispatch: "wCalls w = add_mset (SendPorts f src ps) cs \<Longrightarrow> send_dispatch U f src ps (wRouter w) (wStore w) = (h, c) \<Longrightarrow>
     conc_step U w (w\<lparr>wStore := h, wCalls := add_mset c cs\<rparr>)"
| classify_port: "wCalls w = add_mset (Classify f src (p # ps) c) cs \<Longrightarrow>
     conc_step U w (w\<lparr>wCalls := add_mset (Classify f src ps (classify U f src (wStore w) (hasUnrepeatedDigi f) p c)) cs\<rparr>)"
| classified: "wCalls w = add_mset (Classify f src [] c) cs \<Longrightarrow>
     conc_step U w (w\<lparr>wCalls := add_mset (Deliver f (class_targets f c)) cs\<rparr>)"
| deliver_queued: "wCalls w = add_mset (Deliver f (p # ps)) cs \<Longrightarrow> port_enqueue (cloneFrame f) (wStore w p) = Some q \<Longrightarrow>
     conc_step U w (w\<lparr>wStore := (wStore w)(p := q), wAccepted := (wAccepted w)(p := wAccepted w p @ [cloneFrame f]),
       wCalls := add_mset (CountTx p f ps) cs\<rparr>)"
| deliver_full: "wCalls w = add_mset (Deliver f (p # ps)) cs \<Longrightarrow> port_enqueue (cloneFrame f) (wStore w p) = None \<Longrightarrow>
     conc_step U w (w\<lparr>wCalls := add_mset (CountDrop p f ps) cs\<rparr>)"
| deliver_count: "wCalls w = add_mset (CountTx p f ps) cs \<Longrightarrow>
     conc_step U w (w\<lparr>wStore := (wStore w)(p := count_tx (wStore w p)), wCalls := add_mset (Deliver f ps) cs\<rparr>)"
| deliver_count_drop: "wCalls w = add_mset (CountDrop p f ps) cs \<Longrightarrow>
     conc_step U w (w\<lparr>wStore := (wStore w)(p := count_drop (wStore w p)), wCalls := add_mset (Deliver f ps) cs\<rparr>)"
| deliver_done: "wCalls w = add_mset (Deliver f []) cs \<Longrightarrow> conc_step U w (w\<lparr>wCalls := cs\<rparr>)"
| worker_takes: "running (wStore w p) \<Longrightarrow> wWorker w p = WSelect \<Longrightarrow> txCh (wStore w p) = Some (f # q) \<Longrightarrow>
     conc_step U w (w\<lparr>wStore := (wStore w)(p := (wStore w p)\<lparr>txCh := Some q\<rparr>), wWorker := (wWorker w)(p := WTook f)\<rparr>)"
| worker_calls: "wWorker w p = WTook f \<Longrightarrow>
     conc_step U w (w\<lparr>wWorker := (wWorker w)(p := WCalled f), wHandled := (wHandled w)(p := wHandled w p @ [f])\<rparr>)"
| worker_counts: "wWorker w p = WCalled f \<Longrightarrow>
     conc_step U w (w\<lparr>wStore := (wStore w)(p := count_rx (wStore w p)), wWorker := (wWorker w)(p := WSelect)\<rparr>)"
| worker_quits: "running (wStore w p) \<Longrightarrow> wWorker w p = WSelect \<Longrightarrow> quitClosed (wStore w p) \<Longrightarrow>
     conc_step U w (w\<lparr>wStore := (wStore w)(p := (wStore w p)\<lparr>running := False\<rparr>)\<rparr>)"

definition conc_init :: "rworld \<Rightarrow> bool" where
  "conc_init w \<longleftrightarrow> (\<exists>m. wRouter w = NewRouter m) \<and> (\<forall>p. fresh_port (wStore w p) \<and> wWorker w p = WSelect \<and> wAccepted w p = [] \<and> wHandled w p = [])
     \<and> wCalls w = {#} \<and> \<not> wPanic w"

section \<open>Invariant\<close>

definition queue :: "Port \<Rightarrow> Frame list" where
  "queue p = (case txCh p of None \<Rightarrow> [] | Some q \<Rightarrow> q)"

fun in_hand :: "rworker \<Rightarrow> Frame list" where
  "in_hand (WTook f) = [f]"
| "in_hand _ = []"

fun uncounted :: "rworker \<Rightarrow> nat" where
  "uncounted (WCalled f) = 1"
| "uncounted _ = 0"

text \<open>Deliveries to a port that were made and are not counted yet.\<close>

fun counting :: "port_id \<Rightarrow> rcall \<Rightarrow> bool" where
  "counting p (CountTx q f ps) = (p = q)"
| "counting p _ = False"

definition uncounted_tx :: "port_id \<Rightarrow> rcall multiset \<Rightarrow> nat" where
  "uncounted_tx p cs = size (filter_mset (counting p) cs)"

definition conc_port_ok :: "rworld \<Rightarrow> port_id \<Rightarrow> bool" where
  "conc_port_ok w p \<longleftrightarrow> (let q = wStore w p in
     wAccepted w p = wHandled w p @ in_hand (wWorker w p) @ queue q
     \<and> length (queue q) \<le> txCap q
     \<and> TxFrames (stats q) + of_nat (uncounted_tx p (wCalls w)) = of_nat (length (wAccepted w p))
     \<and> RxFrames (stats q) + of_nat (uncounted (wWorker w p)) = of_nat (length (wHandled w p))
     \<and> (txCh q = None \<longleftrightarrow> \<not> started q)
     \<and> (running q \<longrightarrow> started q) \<and> (started q \<and> \<not> running q \<longrightarrow> quitClosed q)
     \<and> (wWorker w p \<noteq> WSelect \<longrightarrow> running q))"

definition conc_ok :: "rworld \<Rightarrow> bool" where
  "conc_ok w \<longleftrightarrow> distinct (ports (wRouter w)) \<and> (\<forall>p \<in> set (ports (wRouter w)). started (wStore w p)) \<and> (\<forall>p. conc_port_ok w p)"

lemma uncounted_tx_simps [simp]:
  "uncounted_tx p {#} = 0"
  "uncounted_tx p (add_mset c cs) = (if counting p c then Suc (uncounted_tx p cs) else uncounted_tx p cs)"
  by (simp_all add: uncounted_tx_def)

lemma queue_started [simp]: "txCh p = Some q \<Longrightarrow> queue p = q"
  by (simp add: queue_def)

lemma Port_start_fields [simp]:
  "queue (Port_start d p) = (if started p then queue p else [])" "stats (Port_start d p) = stats p"
  "txCap (Port_start d p) = (if started p then txCap p else nat (if QueueDepth p > 0 then QueueDepth p else d))"
  "running (Port_start d p) = (if started p then running p else True)"
  "quitClosed (Port_start d p) = (if started p then quitClosed p else False)"
  "txCh (Port_start d p) = (if started p then txCh p else Some [])"
  by (auto simp: Port_start_def Let_def queue_def)

lemma count_fields [simp]:
  "queue (count_tx p) = queue p" "queue (count_drop p) = queue p" "queue (count_rx p) = queue p"
  "txCap (count_tx p) = txCap p" "txCap (count_drop p) = txCap p" "txCap (count_rx p) = txCap p"
  "txCh (count_tx p) = txCh p" "txCh (count_drop p) = txCh p" "txCh (count_rx p) = txCh p"
  "started (count_tx p) = started p" "started (count_drop p) = started p" "started (count_rx p) = started p"
  "running (count_tx p) = running p" "running (count_drop p) = running p" "running (count_rx p) = running p"
  "quitClosed (count_tx p) = quitClosed p" "quitClosed (count_drop p) = quitClosed p" "quitClosed (count_rx p) = quitClosed p"
  "RxFrames (stats (count_tx p)) = RxFrames (stats p)" "TxFrames (stats (count_tx p)) = TxFrames (stats p) + 1"
  "RxFrames (stats (count_drop p)) = RxFrames (stats p)" "TxFrames (stats (count_drop p)) = TxFrames (stats p)"
  "RxFrames (stats (count_rx p)) = RxFrames (stats p) + 1" "TxFrames (stats (count_rx p)) = TxFrames (stats p)"
  by (simp_all add: count_tx_def count_drop_def count_rx_def queue_def)

lemma queue_updates [simp]:
  "queue (p\<lparr>quitClosed := x\<rparr>) = queue p" "queue (p\<lparr>running := y\<rparr>) = queue p" "queue (p\<lparr>pDestination := a\<rparr>) = queue p"
  "queue (p\<lparr>txCh := Some q\<rparr>) = q"
  by (simp_all add: queue_def)

lemma enqueue_fields:
  assumes "port_enqueue f p = Some q"
  shows "queue q = queue p @ [f]" "length (queue p) < txCap p" "txCap q = txCap p" "stats q = stats p" "started q = started p"
    "running q = running p" "quitClosed q = quitClosed p" "txCh p \<noteq> None" "txCh q \<noteq> None"
  using assms by (auto simp: port_enqueue_def queue_def split: option.splits if_splits)

lemma bindDynamic_fields [simp]:
  "queue (bindDynamic f src h p) = queue (h p)" "stats (bindDynamic f src h p) = stats (h p)" "txCap (bindDynamic f src h p) = txCap (h p)"
  "running (bindDynamic f src h p) = running (h p)" "quitClosed (bindDynamic f src h p) = quitClosed (h p)"
  "started (bindDynamic f src h p) = started (h p)" "txCh (bindDynamic f src h p) = txCh (h p)"
  by (simp_all add: bindDynamic_def)

lemma send_dispatch_keeps:
  assumes "send_dispatch U f src ps r h = (h', c)"
  shows "h' = h \<or> h' = bindDynamic f src h" "\<not> counting p c"
  using assms by (auto simp: send_dispatch_def split: RouterMode.splits)

lemma conc_port_unstarted: "conc_port_ok w p \<Longrightarrow> \<not> started (wStore w p) \<Longrightarrow> queue (wStore w p) = []"
  by (auto simp: conc_port_ok_def Let_def queue_def)

lemma conc_ok_upd:
  assumes "conc_ok w" and "wRouter w' = wRouter w" and "\<And>x. started (wStore w' x) = started (wStore w x)"
    and "conc_port_ok w p \<Longrightarrow> conc_port_ok w' p" and "\<And>x. x \<noteq> p \<Longrightarrow> conc_port_ok w x \<Longrightarrow> conc_port_ok w' x"
  shows "conc_ok w'"
  using assms(1-3) assms(4,5) by (simp add: conc_ok_def) metis

lemmas conc_port_simps = conc_port_ok_def Let_def

lemma conc_ok_step: "conc_step U w w' \<Longrightarrow> conc_ok w \<Longrightarrow> conc_ok w'"
proof (induction rule: conc_step.induct)
  case (register_port w p cs)
  have "conc_port_ok w x" for x using register_port by (simp add: conc_ok_def)
  then have "conc_port_ok (w\<lparr>wRouter := (wRouter w)\<lparr>ports := ports (wRouter w) @ [p]\<rparr>,
       wStore := (wStore w)(p := Port_start defaultPortQueueDepth (wStore w p)), wCalls := cs\<rparr>) x" for x
    using conc_port_unstarted [of w p] register_port(1) by (cases "x = p") (auto simp: conc_port_simps)
  then show ?case using register_port(2,3) by (auto simp: conc_ok_def)
next
  case (deliver_queued w f p ps cs q)
  note e = enqueue_fields [OF deliver_queued(2)]
  show ?case
    by (rule conc_ok_upd [OF deliver_queued(3), of _ p]) (use e deliver_queued(1) in \<open>auto simp: conc_port_simps algebra_simps\<close>)
next
  case (deliver_count w p f ps cs)
  show ?case by (rule conc_ok_upd [OF deliver_count(2), of _ p]) (use deliver_count(1) in \<open>auto simp: conc_port_simps algebra_simps\<close>)
next
  case (dispatch w f src ps cs h c)
  note d = send_dispatch_keeps [OF dispatch(2)]
  show ?case by (rule conc_ok_upd [OF dispatch(3), of _ src]) (use d dispatch(1) in \<open>auto simp: conc_port_simps\<close>)
next
  case (worker_takes w p f q)
  show ?case by (rule conc_ok_upd [OF worker_takes(4), of _ p]) (use worker_takes(1-3) in \<open>auto simp: conc_port_simps\<close>)
next
  case (worker_calls w p f)
  show ?case by (rule conc_ok_upd [OF worker_calls(2), of _ p]) (use worker_calls(1) in \<open>auto simp: conc_port_simps\<close>)
next
  case (worker_counts w p f)
  show ?case by (rule conc_ok_upd [OF worker_counts(2), of _ p]) (use worker_counts(1) in \<open>auto simp: conc_port_simps\<close>)
next
  case (worker_quits w p)
  show ?case by (rule conc_ok_upd [OF worker_quits(4), of _ p]) (use worker_quits(1-3) in \<open>auto simp: conc_port_simps\<close>)
next
  case (stop_quit w p ps cs)
  show ?case by (rule conc_ok_upd [OF stop_quit(4), of _ p]) (use stop_quit(1-3) in \<open>auto simp: conc_port_simps\<close>)
next
  case (deliver_count_drop w p f ps cs)
  show ?case by (rule conc_ok_upd [OF deliver_count_drop(2), of _ p]) (use deliver_count_drop(1) in \<open>auto simp: conc_port_simps\<close>)
qed (auto simp: conc_ok_def conc_port_simps dest: notin_set_remove1)

interpretation router_threads: transition_system conc_init "conc_step U" conc_ok for U
proof unfold_locales
  show "conc_init w \<Longrightarrow> conc_ok w" for w
    by (auto simp: conc_init_def conc_ok_def conc_port_simps fresh_port_def NewRouter_def queue_def)
  show "conc_ok v \<Longrightarrow> conc_step U v w \<Longrightarrow> conc_ok w" for v w
    by (rule conc_ok_step)
qed

section \<open>Methods run alone\<close>

text \<open>When no other goroutine comes between its steps, a method does what its definition in \<open>Ax25_Router\<close> says.\<close>

lemma Port_deliver_steps:
  "fst (Port_deliver f p) = (case port_enqueue f p of Some q \<Rightarrow> count_tx q | None \<Rightarrow> count_drop p)"
  by (auto simp: Port_deliver_def port_enqueue_def count_tx_def count_drop_def split: option.splits)

definition runs_to :: "unicode \<Rightarrow> rworld \<Rightarrow> rcall multiset \<Rightarrow> Router \<Rightarrow> port_store \<Rightarrow> bool" where
  "runs_to U w cs r h \<longleftrightarrow> (\<exists>w'. (conc_step U)\<^sup>*\<^sup>* w w' \<and> wCalls w' = cs \<and> wRouter w' = r \<and> wStore w' = h)"

lemma runs_to_step: "conc_step U w w' \<Longrightarrow> runs_to U w' cs r h \<Longrightarrow> runs_to U w cs r h"
  by (auto simp: runs_to_def intro: converse_rtranclp_into_rtranclp)

lemma runs_to_done: "conc_step U w w' \<Longrightarrow> runs_to U w (wCalls w') (wRouter w') (wStore w')"
  by (auto simp: runs_to_def)

lemma deliver_alone: "wCalls w = add_mset (Deliver f ps) cs \<Longrightarrow> runs_to U w cs (wRouter w) (deliver_to f ps (wStore w))"
proof (induction ps arbitrary: w)
  case Nil
  then show ?case using runs_to_done [OF deliver_done [OF Nil]] by simp
next
  case (Cons p ps)
  show ?case
  proof (cases "port_enqueue (cloneFrame f) (wStore w p)")
    case None
    let ?w = "w\<lparr>wCalls := add_mset (CountDrop p f ps) cs\<rparr>"
    let ?v = "?w\<lparr>wStore := (wStore ?w)(p := count_drop (wStore ?w p)), wCalls := add_mset (Deliver f ps) cs\<rparr>"
    have "runs_to U ?v cs (wRouter w) (deliver_to f (p # ps) (wStore w))"
      using Cons.IH [of ?v] None by (simp add: Port_deliver_steps fun_upd_def)
    then have "runs_to U ?w cs (wRouter w) (deliver_to f (p # ps) (wStore w))"
      by (rule runs_to_step [OF deliver_count_drop, rotated]) simp
    then show ?thesis by (rule runs_to_step [OF deliver_full [OF Cons.prems None]])
  next
    case (Some q)
    let ?w = "w\<lparr>wStore := (wStore w)(p := q), wAccepted := (wAccepted w)(p := wAccepted w p @ [cloneFrame f]), wCalls := add_mset (CountTx p f ps) cs\<rparr>"
    let ?v = "?w\<lparr>wStore := (wStore ?w)(p := count_tx (wStore ?w p)), wCalls := add_mset (Deliver f ps) cs\<rparr>"
    have "runs_to U ?v cs (wRouter w) (deliver_to f (p # ps) (wStore w))"
      using Cons.IH [of ?v] Some by (simp add: Port_deliver_steps fun_upd_def cong: if_cong)
    then have "runs_to U ?w cs (wRouter w) (deliver_to f (p # ps) (wStore w))"
      by (rule runs_to_step [OF deliver_count, rotated]) simp
    then show ?thesis by (rule runs_to_step [OF deliver_queued [OF Cons.prems Some]])
  qed
qed

lemma classify_alone:
  "wCalls w = add_mset (Classify f src ps c) cs \<Longrightarrow>
     runs_to U w cs (wRouter w) (deliver_to f (class_targets f (fold (classify U f src (wStore w) (hasUnrepeatedDigi f)) ps c)) (wStore w))"
proof (induction ps arbitrary: w c)
  case Nil
  show ?case by (rule runs_to_step [OF classified [OF Nil]]) (use deliver_alone [of "w\<lparr>wCalls := add_mset (Deliver f (class_targets f c)) cs\<rparr>"] in simp)
next
  case (Cons p ps)
  show ?case by (rule runs_to_step [OF classify_port [OF Cons.prems]]) (use Cons.IH [of "w\<lparr>wCalls := add_mset (Classify f src ps (classify U f src (wStore w) (hasUnrepeatedDigi f) p c)) cs\<rparr>"] in simp)
qed

lemma sendSwitch_classes:
  "sendSwitch U f src ps h = deliver_to f (class_targets f (fold (classify U f src (bindDynamic f src h) (hasUnrepeatedDigi f)) ps no_classes)) (bindDynamic f src h)"
  by (simp add: sendSwitch_def class_targets_def Let_def deliver_to_append split: option.splits)

lemma send_alone:
  assumes "\<not> closed (wRouter w)" and "wCalls w = add_mset (SendChecked f src) cs"
  shows "runs_to U w cs (wRouter w) (snd (Router_Send U (Some f) (Some src) (wRouter w) (wStore w)))"
proof -
  let ?r = "wRouter w" and ?h = "wStore w"
  let ?w1 = "w\<lparr>wCalls := add_mset (SendPorts f src (ports ?r)) cs\<rparr>"
  obtain h c where d: "send_dispatch U f src (ports ?r) ?r ?h = (h, c)" by fastforce
  let ?w2 = "?w1\<lparr>wStore := h, wCalls := add_mset c cs\<rparr>"
  have "runs_to U ?w2 cs ?r (snd (Router_Send U (Some f) (Some src) ?r ?h))"
  proof (cases "rMode ?r = RouterModeSwitch")
    case True
    then have "h = bindDynamic f src ?h" "c = Classify f src (ports ?r) no_classes" using d by (simp_all add: send_dispatch_def)
    then show ?thesis using classify_alone [of ?w2 f src "ports ?r" no_classes cs U] True assms(1)
      by (simp add: Router_Send_def sendSwitch_classes)
  next
    case False
    then have e: "h = ?h" "c = Deliver f (targets U (rMode ?r) f src (ports ?r) ?h)" using d by (auto simp: send_dispatch_def split: RouterMode.splits)
    have "snd (Router_Send U (Some f) (Some src) ?r ?h) = deliver_to f (targets U (rMode ?r) f src (ports ?r) ?h) ?h"
      using False assms(1) by (cases "rMode ?r") (simp_all add: Router_Send_def sendBridge_targets [where U = U] sendHub_def targets_def)
    then show ?thesis using deliver_alone [of ?w2 f _ cs U] e by simp
  qed
  then have "runs_to U ?w1 cs ?r (snd (Router_Send U (Some f) (Some src) ?r ?h))"
    by (rule runs_to_step [rotated]) (use dispatch [of ?w1 f src "ports ?r" cs U h c] d in simp)
  then show ?thesis by (rule runs_to_step [OF send_ports [OF assms(2)]])
qed

lemma register_alone:
  assumes "RegisterPort p (wRouter w) (wStore w) = (None, r, h)"
  shows "runs_to U w (wCalls w) r h"
proof -
  have p: "\<not> closed (wRouter w)" "p \<notin> set (ports (wRouter w))" "r = (wRouter w)\<lparr>ports := ports (wRouter w) @ [p]\<rparr>"
    "h = (wStore w)(p := Port_start defaultPortQueueDepth (wStore w p))"
    using assms by (auto simp: RegisterPort_def split: if_splits)
  let ?w = "w\<lparr>wCalls := add_mset (RegChecked p) (wCalls w)\<rparr>"
  have "runs_to U ?w (wCalls w) r h" using runs_to_done [OF register_port [of ?w p "wCalls w" U]] p by simp
  then show ?thesis by (rule runs_to_step [OF register [OF p(1)]])
qed

lemma unregister_alone:
  assumes "UnregisterPort p (wRouter w) (wStore w) = Ret (None, r, h)" and "conc_ok w" and "wWorker w p = WSelect"
    and "running (wStore w p)"
  shows "runs_to U w (wCalls w) r h"
proof -
  let ?q = "wStore w p" and ?cs = "wCalls w"
  have p: "p \<in> set (ports (wRouter w))" "started ?q" "\<not> quitClosed ?q" "r = (wRouter w)\<lparr>ports := remove1 p (ports (wRouter w))\<rparr>"
    "h = (wStore w)(p := ?q\<lparr>quitClosed := True, running := False\<rparr>)"
    using assms(1,2) by (auto simp: UnregisterPort_def Port_stop_def conc_ok_def split: if_splits outcome.splits)
  let ?w1 = "w\<lparr>wRouter := r, wCalls := add_mset (StopPorts [p]) ?cs\<rparr>"
  let ?w2 = "?w1\<lparr>wStore := (wStore w)(p := ?q\<lparr>quitClosed := True\<rparr>), wCalls := add_mset (StopWait p []) ?cs\<rparr>"
  let ?w3 = "?w2\<lparr>wStore := h\<rparr>" and ?w4 = "w\<lparr>wRouter := r, wStore := h, wCalls := add_mset (StopPorts []) ?cs\<rparr>"
  have s1: "conc_step U w ?w1" using unregister [OF p(1)] p(4) by simp
  have s2: "conc_step U ?w1 ?w2" using stop_quit [of ?w1 p "[]" ?cs U] p(2,3) by simp
  have s3: "conc_step U ?w2 ?w3" using worker_quits [of ?w2 p U] assms(3,4) p(5) by simp
  have s4: "conc_step U ?w3 ?w4" using stop_waited [of ?w3 p "[]" ?cs U] p(5) by simp
  have "runs_to U ?w4 ?cs r h" using runs_to_done [OF stop_done [of ?w4 ?cs U]] by simp
  then show ?thesis by (intro runs_to_step [OF s1] runs_to_step [OF s2] runs_to_step [OF s3] runs_to_step [OF s4])
qed

lemma worker_alone:
  assumes "Port_worker (wStore w p) = Some (q, out)" and "wWorker w p = WSelect"
  shows "runs_to U w (wCalls w) (wRouter w) ((wStore w)(p := q))"
proof -
  obtain f fs where f: "txCh (wStore w p) = Some (f # fs)" "running (wStore w p)"
    "q = count_rx ((wStore w p)\<lparr>txCh := Some fs\<rparr>)"
    using assms(1) by (auto simp: Port_worker_def count_rx_def split: option.splits list.splits if_splits)
  let ?w1 = "w\<lparr>wStore := (wStore w)(p := (wStore w p)\<lparr>txCh := Some fs\<rparr>), wWorker := (wWorker w)(p := WTook f)\<rparr>"
  let ?w2 = "?w1\<lparr>wWorker := (wWorker ?w1)(p := WCalled f), wHandled := (wHandled ?w1)(p := wHandled ?w1 p @ [f])\<rparr>"
  have s1: "conc_step U w ?w1" by (rule worker_takes [OF f(2) assms(2) f(1)])
  have s2: "conc_step U ?w1 ?w2" by (rule worker_calls) simp
  have "runs_to U ?w2 (wCalls w) (wRouter w) ((wStore w)(p := q))"
    using runs_to_done [OF worker_counts [of ?w2 p f U]] f(3) by simp
  then show ?thesis by (intro runs_to_step [OF s1] runs_to_step [OF s2])
qed

section \<open>Properties\<close>

text \<open>C11: Invariant of the router under any interleaving. From a new router and fresh ports, whatever registrations, removals,
  sends and closes are under way at once and however their steps and those of the workers interleave: no port is registered twice, every
  registered port is started, and for every port the frames that entered its queue are those its worker has handled, in this order, then
  the one it has in hand, then the queue, which is within its capacity. The counters follow: \<open>TxFrames\<close> lacks only deliveries that have
  enqueued and not yet counted, \<open>RxFrames\<close> only the frame whose callback has just returned. A worker runs until its port is
  stopped.\<close>

theorem router_reachable_ok:
  assumes "conc_init v" and "(conc_step U)\<^sup>*\<^sup>* v w"
  shows "distinct (ports (wRouter w)) \<and> (\<forall>p \<in> set (ports (wRouter w)). started (wStore w p))
    \<and> (\<forall>p. wAccepted w p = wHandled w p @ in_hand (wWorker w p) @ queue (wStore w p)
         \<and> length (queue (wStore w p)) \<le> txCap (wStore w p)
         \<and> TxFrames (stats (wStore w p)) + of_nat (uncounted_tx p (wCalls w)) = of_nat (length (wAccepted w p))
         \<and> RxFrames (stats (wStore w p)) + of_nat (uncounted (wWorker w p)) = of_nat (length (wHandled w p))
         \<and> (started (wStore w p) \<and> \<not> quitClosed (wStore w p) \<longrightarrow> running (wStore w p)))"
  using router_threads.reachable_inv [OF assms] by (auto simp: conc_ok_def conc_port_simps)

text \<open>A new router whose only port is being registered while a frame from elsewhere is on its way.\<close>

definition fresh_world :: rworld where
  "fresh_world = \<lparr>wRouter = NewRouter (Some RouterModeHub), wStore = \<lambda>_. idle_port PortModeDefault [], wWorker = \<lambda>_. WSelect, wCalls = {#},
     wAccepted = \<lambda>_. [], wHandled = \<lambda>_. [], wPanic = False\<rparr>"

lemma fresh_world_init: "conc_init fresh_world"
  by (auto simp: conc_init_def fresh_world_def fresh_port_def idle_port_def)

definition port7 :: Port where
  "port7 = (Port_start defaultPortQueueDepth (idle_port PortModeDefault []))"

definition enqueued_world :: rworld where
  "enqueued_world = fresh_world\<lparr>wRouter := (NewRouter (Some RouterModeHub))\<lparr>ports := [7]\<rparr>,
     wStore := (wStore fresh_world)(7 := port7\<lparr>txCh := Some [sample_frame]\<rparr>),
     wAccepted := (\<lambda>_. [])(7 := [sample_frame]), wCalls := {#CountTx 7 sample_frame []#}\<rparr>"

lemma enqueued_world_reached: "(conc_step U)\<^sup>*\<^sup>* fresh_world enqueued_world"
proof -
  let ?w1 = "fresh_world\<lparr>wCalls := {#RegChecked 7#}\<rparr>"
  let ?r = "(NewRouter (Some RouterModeHub))\<lparr>ports := [7]\<rparr>"
  let ?w2 = "fresh_world\<lparr>wRouter := ?r, wStore := (wStore fresh_world)(7 := port7)\<rparr>"
  let ?w3 = "?w2\<lparr>wCalls := {#SendChecked sample_frame 8#}\<rparr>" and ?w4 = "?w2\<lparr>wCalls := {#SendPorts sample_frame 8 [7]#}\<rparr>"
  let ?w5 = "?w2\<lparr>wCalls := {#Deliver sample_frame [7]#}\<rparr>"
  have "conc_step U fresh_world ?w1" using register [of fresh_world U 7] by (simp add: fresh_world_def NewRouter_def)
  moreover have "conc_step U ?w1 ?w2" using register_port [of ?w1 7 "{#}" U] by (simp add: fresh_world_def NewRouter_def port7_def)
  moreover have "conc_step U ?w2 ?w3" using send [of ?w2 U sample_frame 8] by (simp add: fresh_world_def NewRouter_def)
  moreover have "conc_step U ?w3 ?w4" using send_ports [of ?w3 sample_frame 8 "{#}" U] by simp
  moreover have "conc_step U ?w4 ?w5"
    using dispatch [of ?w4 sample_frame 8 "[7]" "{#}" U "wStore ?w4" "Deliver sample_frame [7]"] by (simp add: send_dispatch_def NewRouter_def targets_def)
  moreover have "conc_step U ?w5 enqueued_world"
    using deliver_queued [of ?w5 sample_frame 7 "[]" "{#}" "port7\<lparr>txCh := Some [sample_frame]\<rparr>" U]
    by (simp add: enqueued_world_def fresh_world_def port_enqueue_def port7_def idle_port_def Port_start_def defaultPortQueueDepth_def)
  ultimately show ?thesis by (meson r_into_rtranclp rtranclp_trans)
qed

theorem router_reachable_ok_witness:
  "TxFrames (stats (wStore enqueued_world 7)) + 1 = of_nat (length (wAccepted enqueued_world 7))
    \<and> wAccepted enqueued_world 7 = queue (wStore enqueued_world 7) \<and> queue (wStore enqueued_world 7) = [sample_frame]"
proof -
  let ?w = enqueued_world
  have f: "uncounted_tx 7 (wCalls ?w) = 1" "wWorker ?w 7 = WSelect" "wHandled ?w 7 = []" "wAccepted ?w 7 = [sample_frame]"
    by (simp_all add: enqueued_world_def fresh_world_def)
  have "wAccepted ?w 7 = wHandled ?w 7 @ in_hand (wWorker ?w 7) @ queue (wStore ?w 7)"
    "TxFrames (stats (wStore ?w 7)) + of_nat (uncounted_tx 7 (wCalls ?w)) = of_nat (length (wAccepted ?w 7))"
    using router_reachable_ok [OF fresh_world_init enqueued_world_reached] by blast+
  then show ?thesis using f by simp
qed

text \<open>A port on a closed router. \<open>RegisterPort\<close> tests \<open>closed\<close> before it takes the lock, so a \<open>Close\<close> that runs in between finds no port to stop, and
  the port is registered afterwards: both calls have returned, the router is closed, and the port is registered and its worker runs.\<close>

theorem registered_after_close:
  assumes "conc_init v"
  shows "\<exists>w. (conc_step U)\<^sup>*\<^sup>* v w \<and> closed (wRouter w) \<and> ports (wRouter w) = [p] \<and> running (wStore w p) \<and> wCalls w = {#}"
proof -
  have i: "\<not> closed (wRouter v)" "ports (wRouter v) = []" "wCalls v = {#}" "\<not> started (wStore v p)"
    using assms by (auto simp: conc_init_def NewRouter_def fresh_port_def)
  let ?w1 = "v\<lparr>wCalls := {#RegChecked p#}\<rparr>"
  let ?w2 = "?w1\<lparr>wRouter := (wRouter v)\<lparr>closed := True\<rparr>, wCalls := {#CloseStored, RegChecked p#}\<rparr>"
  let ?w3 = "?w2\<lparr>wRouter := (wRouter v)\<lparr>closed := True, ports := []\<rparr>, wCalls := {#StopPorts [], RegChecked p#}\<rparr>"
  let ?w4 = "?w3\<lparr>wCalls := {#RegChecked p#}\<rparr>"
  let ?w5 = "?w4\<lparr>wRouter := (wRouter v)\<lparr>closed := True, ports := [p]\<rparr>, wStore := (wStore v)(p := Port_start defaultPortQueueDepth (wStore v p)), wCalls := {#}\<rparr>"
  have "conc_step U v ?w1" using register [of v U p] i by simp
  moreover have "conc_step U ?w1 ?w2" using close [of U ?w1] by simp
  moreover have "conc_step U ?w2 ?w3" using close_ports [of ?w2 "{#RegChecked p#}" U] i by simp
  moreover have "conc_step U ?w3 ?w4" using stop_done [of ?w3 "{#RegChecked p#}" U] by simp
  moreover have "conc_step U ?w4 ?w5" using register_port [of ?w4 p "{#}" U] by simp
  ultimately have "(conc_step U)\<^sup>*\<^sup>* v ?w5" by (meson r_into_rtranclp rtranclp_trans)
  then show ?thesis using i(4) by (intro exI [of _ ?w5]) simp
qed

theorem registered_after_close_witness:
  "\<exists>w. (conc_step \<lparr>upper_unicode = id, fold_unicode = (=)\<rparr>)\<^sup>*\<^sup>* fresh_world w \<and> closed (wRouter w) \<and> ports (wRouter w) = [7]"
  using registered_after_close [OF fresh_world_init] by blast

end
