(* ===== verification/Spec2Isabelle.thy ===== *)
theory Spec2Isabelle
  imports Ax25_Digipeater Ax25_Conn_Props Ax25_Beacon Agwpe_Client Agwpe_Equiv Router_Monitor Heard Bbs_Messages Bbs_Login
    Ax25_Config_Props Terminal_Props Router_Start Monitor_Clock Terminal_Main Phy_Server Beacon_Main Bbs_Main
    Router_Conc
begin

text \<open>
  This development verifies go-ax25, an AX.25 amateur packet radio toolkit in Go. It models the
  program's own packages as HOL functions and step relations, one theory per component, and proves
  what makes them correct. File names below are under \<open>src/\<close>.

  \<^bold>\<open>The program.\<close> Package \<open>ax25\<close> holds the protocol: addresses and frames with their wire format,
  KISS framing, a router that passes frames between ports, a digipeater, the connected-mode session
  and the beacon. A driver (\<open>ax25/phy.go\<close>, package \<open>phy\<close>) carries frames over KISS on a serial line
  or TCP. Package \<open>agwpe\<close> offers the stack to applications: a server per client that talks to the
  router and to sessions, and a client. Package \<open>pcap\<close> writes capture files, which the router
  program uses for its log. The programs under \<open>cmd\<close> are a router, a bulletin board (BBS) that
  talks to stations through an AGWPE client and keeps its messages in SQLite, a terminal and a beacon.

  \<^bold>\<open>Shared theories.\<close>
    \<^item> \<open>Ax25_Prelude\<close>: bytes, Go strings, errors as values, the functions of Go's library the
      sources call, and lemmas on words and lists. The Unicode tables behind \<open>strings.ToUpper\<close>,
      \<open>EqualFold\<close> and \<open>TrimSpace\<close> are parameters; all theorems hold for any value of them.
    \<^item> \<open>Go_Text\<close>: Go's text functions that only the programs use.
    \<^item> \<open>Ax25_Interfaces\<close>: the interfaces as locales: \<open>codec\<close> (an encoder and the decoder that
      undoes it), \<open>stream_codec\<close> (a decoder fed byte by byte, and what it makes of any chunking of
      a stream), \<open>transition_system\<close> (invariants of reachable states). Every component interprets
      those it provides; \<open>Phy_Tcp\<close> adds \<open>dial_client\<close>, which both TCP clients interpret.

  \<^bold>\<open>Protocol.\<close>
    \<^item> \<open>Ax25_Address\<close> (\<open>ax25/address.go\<close>): wire and text forms round trip.
    \<^item> \<open>Ax25_Frame\<close> (\<open>ax25/frame.go\<close>, \<open>ax25/types.go\<close>): control bytes, \<open>ParseFrame\<close>,
      \<open>Frame.Encode\<close>; a well-formed frame is parsed back to \<open>wire_frame\<close>, and what the parser
      guarantees of any frame it accepts.
    \<^item> \<open>Ax25_Kiss\<close> (\<open>ax25/kiss.go\<close>): what the decoder makes of any list of framed messages in any chunking; the list itself
      unless a type byte is FEND or FESC, which the encoder does not escape; resynchronisation.
    \<^item> \<open>Ax25_Digi_Hops\<close>, \<open>Ax25_Router\<close>, \<open>Ax25_Digipeater\<close> (\<open>ax25/router.go\<close>,
      \<open>ax25/digipeater.go\<close>): ports in a store by identity, their queues and workers. \<open>Send\<close>
      refines a forwarding rule (who gets one copy), compared with the rule of the README where it agrees and where it does not, and
      a digipeater relays exactly when it is the next hop.
    \<^item> \<open>Router_Conc\<close> (\<open>ax25/router.go\<close>): the router's methods and workers as the steps between which other goroutines
      can come. The invariant of all interleavings; a method run alone is the one of \<open>Ax25_Router\<close>; a port
      can be registered on a closed router.
    \<^item> \<open>Ax25_Conn\<close>, \<open>Ax25_Conn_Window\<close>, \<open>Ax25_Conn_Inv\<close>, \<open>Ax25_Conn_Props\<close> (\<open>ax25/conn.go\<close>):
      the session with every method, handler and timer callback. A timer is its active flag, a
      callback the list of the calls made to it, and the unlock around \<open>OnConnect\<close> is a point
      where other calls may come. The lemmas cover the send window modulo 8, the invariant of all
      reachable states, transmission, acknowledgement, retransmission, in-sequence delivery as a
      refinement, retries and their end. The acknowledgement loop may not end for arbitrary
      arguments, so it is a \<open>partial_function (option)\<close>, and \<open>onFrame_returns\<close> proves that it
      returns on every reachable session.
    \<^item> \<open>Ax25_Beacon\<close> (\<open>ax25/beacon.go\<close>): the frame a configuration sends and the text escapes.

  \<^bold>\<open>Drivers.\<close>
    \<^item> \<open>Ax25_Phy\<close> (\<open>ax25/phy.go\<close>, \<open>phy/kiss_serial.go\<close>): the two goroutines, \<open>SendFrame\<close> and
      \<open>Stop\<close> as interleaving steps. The reader-writer is the list of the calls made on it. The driver
      is a first-in first-out channel; two drivers on a link deliver what was sent; what \<open>Stop\<close>
      discards.
    \<^item> \<open>Phy_Tcp\<close> (\<open>phy/kiss_tcp_client.go\<close>, \<open>phy/kiss_tcp_server.go\<close>): the dialing client as a
      state machine over any decoder; the receive paths of client and server.
    \<^item> \<open>Phy_Server\<close> (\<open>phy/kiss_tcp_server.go\<close>): the accept loop, the goroutines of each connection and \<open>Stop\<close>
      as interleaving steps; the order of the callbacks of a connection, and that \<open>Stop\<close> returns.

  \<^bold>\<open>AGWPE.\<close>
    \<^item> \<open>Agwpe_Frame\<close>, \<open>Agwpe_Equiv\<close> (\<open>agwpe/frame.go\<close>): the header format, the streaming decoder,
      \<open>ReadFrame\<close>; round trips, and on every input the decoder agrees with the reader.
    \<^item> \<open>Agwpe_Builders\<close> (\<open>agwpe/builders.go\<close>): the server's responses and monitor texts.
    \<^item> \<open>Agwpe_Server\<close> (\<open>agwpe/server.go\<close>): one world of server, router, ports and sessions, the
      pointers of the code being identifiers in stores. A session's calls run against the world; a
      goroutine that waits for itself is \<open>Blocked\<close>, one that panics \<open>Panicked\<close>.
    \<^item> \<open>Agwpe_Client\<close> (\<open>agwpe/client.go\<close>, \<open>agwpe/tcp_server.go\<close>): a client's requests reach the
      server's handlers once and in order; the listener's client count.

  \<^bold>\<open>Capture and programs.\<close>
    \<^item> \<open>Pcap\<close> (\<open>pcap/pcap.go\<close>): capture files round trip, cut-off files are detected.
    \<^item> \<open>Router_Monitor\<close> (\<open>cmd/router/monitor.go\<close>): the rotating capture log over a file system
      that is a map from paths to contents.
    \<^item> \<open>Monitor_Clock\<close>: its calendar and the loop that waits for midnight; a new day gets a new file, and the hour before
      a midnight that does not exist is spent spinning.
    \<^item> \<open>Heard\<close> (\<open>cmd/bbs/heard/heard.go\<close>): the list of stations refines the history.
    \<^item> \<open>Ax25_Config\<close>, \<open>Ax25_Config_Props\<close> (\<open>ax25/config.go\<close>, \<open>cmd/bbs/bbs/config.go\<close> and the
      functions that fill a component's configuration): which source a value comes from, and the
      values without a file.
    \<^item> \<open>Router_Main\<close> (\<open>cmd/router/main.go\<close>): the checks of the configuration, and the pool of KISS clients
      as a transition system with its invariant.
    \<^item> \<open>Router_Start\<close> (\<open>cmd/router/main.go\<close>): the start with every port and callback, and the loop over signals; the
      ports a router has when \<open>main\<close> has started it, and which frames of its digipeater reach the uplink in each mode.
    \<^item> \<open>Terminal\<close>, \<open>Terminal_Props\<close> (\<open>cmd/terminal/main.go\<close>): escapes of typed lines, the session over
      package ax25 and the one over AGWPE; what is typed is sent, paced and shown.
    \<^item> \<open>Terminal_Main\<close> (\<open>cmd/terminal/main.go\<close>): the start of the terminal, its router and ports; which frames pass
      between session and driver in each mode; connections through digipeaters do not reach the driver in the default mode.
    \<^item> \<open>Beacon_Main\<close> (\<open>cmd/beacon/main.go\<close>): the checks of the beacon program, the server it dials and what it sends.

  \<^bold>\<open>Bulletin board.\<close> (\<open>cmd/bbs\<close>)
    \<^item> \<open>Bbs_Store\<close> (\<open>store/store.go\<close>, \<open>store/sqlite.go\<close>): the interface of the message store as the locale
      \<open>message_store\<close> and its laws, proved of the SQLite store for every driver that gives the statements
      their documented meaning (\<open>sqlite_documented\<close>), and an instance of such a driver in memory.
    \<^item> \<open>Bbs_Sysop\<close>, \<open>Bbs_Session\<close> (\<open>bbs/sysop.go\<close>, \<open>bbs/session.go\<close>, \<open>bbs/commands.go\<close>, \<open>bbs/bbs.go\<close>):
      the login and its states, sessions, line editing and every command.
    \<^item> \<open>Bbs_Props\<close>, \<open>Bbs_Messages\<close>, \<open>Bbs_Login\<close>: the session invariant over any message store, posting,
      access to messages, login and lockout, and what the login does not do as meant.
    \<^item> \<open>Bbs_Main\<close> (\<open>main.go\<close>): start, registration of the callsign and shutdown, which sends nothing.

  \<^bold>\<open>Across components.\<close> This theory shows that what a beacon sends is what the receiver at the
  other end of a KISS link gets. \<open>Agwpe_Client\<close> and \<open>Router_Monitor\<close> hold the compositions of
  client and server and of log and file format.

  \<^bold>\<open>Conventions.\<close> A Go error is a value of \<open>goerr\<close>, a call that may panic has an \<open>outcome\<close>. Lengths
  and indices are unbounded naturals, integers at their width where the code truncates or wraps
  (control fields and counters of the session, lengths in headers, seconds in capture files). An
  operation that holds its lock throughout is one step; where the code releases a lock or starts a
  goroutine, the steps interleave. The components that call the router take a call of \<open>Send\<close>, \<open>RegisterPort\<close> or \<open>UnregisterPort\<close> as
  one step, the method of \<open>Ax25_Router\<close>; what happens inside the router when calls overlap is in \<open>Router_Conc\<close>. The
  readings of the clock within one line a station sends to the bulletin board are one value. No definition uses fuel: the loops are structural, or end
  because they consume input (\<open>ReadRecords\<close>, \<open>ReadFrames\<close>), or are the partial function above. A loop
  that waits for its environment (a random source, a queue with room, a server's answer) takes the list of what
  the environment gives, and \<open>None\<close> means that it is still running at the end of the list; theorems
  state when it returns. Libraries are parameters: viper with \<open>viper_documented\<close>, the INI parser, the SQLite
  driver with \<open>sqlite_documented\<close>; witnesses instantiate them with concrete functions.

  \<^bold>\<open>Not modelled.\<close> Logging (\<open>LogFrame\<close>, \<open>slog\<close>); the parsing of flags, the delivery of signals, the timer that forces
  the router program to exit and the waits at the end of the terminal; writes to files that fail after part of the data was written; examples and test programs, which are manual drivers over the packages.
\<close>

section \<open>From the beacon to a receiver\<close>

text \<open>C34: A beacon is received. Let a beacon send through a KISS driver with room in its queue, on a
  KISS port other than 12, with valid addresses and at most eight digipeaters in its
  configuration. Then \<open>Trigger\<close> succeeds, and a second driver that reads what the first one
  writes, in pieces of any size, has exactly one frame in its receive channel: a UI frame with the
  beacon's source, destination, path and text.\<close>

theorem beacon_received:
  assumes "valid_address src" and "valid_address dst" and "\<forall>d \<in> set ds. valid_address d" and "length ds \<le> MaxDigipeaters"
    and "hasSendFn b" and "bSource (bCfg b) = Address_String src" and "bDestination (bCfg b) = Address_String dst"
    and "bVia (bCfg b) = strings_Join (map Address_String ds) [0x2C]"
    and "p = NewKISSSerialPHY c" and "phyPort c < 16" and "phyPort c \<noteq> 12" and "q = NewKISSSerialPHY c'"
  shows "\<exists>f g. Trigger U T (\<lambda>f. fst (SendFrame U f p)) b = (None, [f])
     \<and> (\<forall>reads. concat reads = concat (phyTxCh (snd (snd (SendFrame U f p))))
          \<longrightarrow> RxFrames (snd (rxLoop_reads reads (NewKISSDecoder True, q))) = [g])
     \<and> Type g = FrameUI \<and> Payload g = take MaxInfoLen (unescapeText (bText (bCfg b)))
     \<and> Address_String (Source g) = Address_String src \<and> Address_String (Destination g) = Address_String dst
     \<and> map Address_String (Digipeaters g) = map Address_String ds"
proof -
  let ?p = "\<lambda>d. d\<lparr>HasBeenRepeated := False, IsLast := False\<rparr>"
  let ?send = "\<lambda>f. fst (SendFrame U f p)"
  obtain f where f: "Trigger U T ?send b = (?send f, [f])" "wf_frame f" "Type f = FrameUI" "Control f = CtrlUI"
    "Payload f = take MaxInfoLen (unescapeText (bText (bCfg b)))"
    and addrs: "Source f = ?p src" "Destination f = ?p dst" "Digipeaters f = map ?p ds"
    using beacon_sent [OF assms(1-8), of U T ?send] by auto
  have q: "int (length [f]) \<le> txQueueDepth (phyCfg p)" "1 \<le> nat (rxQueueDepth (phyCfg q))"
    using assms(9,12) by (auto simp: NewKISSSerialPHY_def Let_def)
  obtain e p' where s: "SendFrames U [f] p = ([e], p')" "e = ?send f" "p' = snd (snd (SendFrame U f p))"
    by (cases "SendFrame U f p") auto
  have l: "list_all wf_frame [f]" using f(2) by simp
  note link = link_delivered [OF l assms(9) q(1) assms(10,11) s(1) assms(12)]
  have "e = None" using link [of "phyTxCh p'"] by simp
  moreover have "RxFrames (snd (rxLoop_reads reads (NewKISSDecoder True, q))) = [wire_frame U f]"
    if "concat reads = concat (phyTxCh (snd (snd (SendFrame U f p))))" for reads
    using link [of reads] that s(3) q(2) by (simp add: RxFrames_def)
  moreover have "map Address_String (Digipeaters (wire_frame U f)) = map Address_String ds"
  proof (rule nth_equalityI)
    show "map Address_String (Digipeaters (wire_frame U f)) ! i = map Address_String ds ! i"
      if "i < length (map Address_String (Digipeaters (wire_frame U f)))" for i
    proof -
      have i: "i < length ds" using that addrs(3) by (simp add: wire_frame_def Let_def)
      then have "valid_address (ds ! i)" using assms(3) by simp
      with i addrs(3) show ?thesis by (simp add: wire_frame_def mark_last_def wire_address_valid Address_String_def Let_def)
    qed
  qed (simp add: wire_frame_def addrs(3) Let_def)
  ultimately show ?thesis
    using f addrs assms(1,2) s(2)
    by (intro exI [of _ f] exI [of _ "wire_frame U f"])
      (auto simp: wire_frame_def has_info_def IdentifyFrameType_def wire_address_valid Address_String_def Let_def)
qed

theorem beacon_received_witness:
  "\<exists>f (g :: Frame). Trigger \<lparr>upper_unicode = id, fold_unicode = (=)\<rparr> \<lparr>trim_func = id, trim_right_func = id\<rparr>
       (\<lambda>f. fst (SendFrame \<lparr>upper_unicode = id, fold_unicode = (=)\<rparr> f (driver demo_phy)))
       (NewBeacon \<lparr>bSource = str ''N7GET-5'', bDestination = str ''N7GET-5'', bVia = [], bText = str ''hi'', bEvery = 0\<rparr> True) = (None, [f])
     \<and> Type g = FrameUI \<and> Payload g = str ''hi'' \<and> Address_String (Source g) = str ''N7GET-5''"
proof -
  let ?b = "NewBeacon \<lparr>bSource = str ''N7GET-5'', bDestination = str ''N7GET-5'', bVia = [], bText = str ''hi'', bEvery = 0\<rparr> True"
  let ?c = "\<lparr>phyPort = 0, rxQueueDepth = 0, txQueueDepth = 0, readBufSize = 0, hasOnRxKISS = False, hasOnTxKISS = False\<rparr>"
  let ?U = "\<lparr>upper_unicode = id, fold_unicode = (=)\<rparr>" and ?T = "\<lparr>trim_func = id, trim_right_func = id\<rparr>"
  have a: "Address_String N7GET_5 = str ''N7GET-5''" by (simp add: N7GET_5_def Address_String_def fmt_d.simps)
  have d: "driver demo_phy = NewKISSSerialPHY ?c" by (simp add: demo_phy_def)
  have h: "\<forall>d \<in> set []. valid_address d" "length ([] :: Address list) \<le> MaxDigipeaters" "hasSendFn ?b"
    "bSource (bCfg ?b) = Address_String N7GET_5" "bDestination (bCfg ?b) = Address_String N7GET_5"
    "bVia (bCfg ?b) = strings_Join (map Address_String []) [0x2C]" "phyPort ?c < 16" "phyPort ?c \<noteq> 12"
    by (simp_all add: NewBeacon_def a)
  have t: "take MaxInfoLen (unescapeText (bText (bCfg ?b))) = str ''hi''" by (simp add: NewBeacon_def)
  show ?thesis
    using beacon_received [OF N7GET_5_valid N7GET_5_valid h(1-6) d h(7,8) d, of ?U ?T] unfolding a t by blast
qed

end
